(* ===== verification/Prelude.thy ===== *)
theory Prelude
  imports Main "HOL-Library.Sublist"
begin

text \<open>
  Shared vocabulary of the development.

  Python code that reads and writes a database session and may raise is translated into
  a value of type \<open>('e, 's, 'a) op\<close>: a function of the session state that either
  raises (\<open>Inl\<close>) or returns a value together with the new state (\<open>Inr\<close>).  A raised
  exception carries no state, because every block of the program that modifies the database
  is a transaction (\<open>with context.session.begin(subtransactions=True)\<close>) that is rolled
  back when an exception leaves it.

  The theory also holds the Python list idioms that several components use
  (\<open>list.remove\<close>, the \<open>one()\<close> of a query) and the lemmas about them.
\<close>

named_theorems op_simps "unfolding of the operation combinators"
named_theorems keeps_intro "compositional rules for preserved predicates"

section \<open>Fallible results\<close>

definition bindR :: "'e + 'a \<Rightarrow> ('a \<Rightarrow> 'e + 'b) \<Rightarrow> 'e + 'b" where
  "bindR r f = (case r of Inl e \<Rightarrow> Inl e | Inr a \<Rightarrow> f a)"

lemma bindR_simps [simp]:
  "bindR (Inl e) f = Inl e"
  "bindR (Inr a) f = f a"
  by (simp_all add: bindR_def)

lemma bindR_Inr_iff [op_simps]:
  "bindR r f = Inr b \<longleftrightarrow> (\<exists>a. r = Inr a \<and> f a = Inr b)"
  by (cases r) auto

lemma bindR_Inl_iff:
  "bindR r f = Inl e \<longleftrightarrow> r = Inl e \<or> (\<exists>a. r = Inr a \<and> f a = Inl e)"
  by (cases r) auto

lemma bindR_cong [fundef_cong]:
  "r = r' \<Longrightarrow> (\<And>a. r' = Inr a \<Longrightarrow> f a = g a) \<Longrightarrow> bindR r f = bindR r' g"
  by (cases r') auto

definition checkR :: "bool \<Rightarrow> 'e \<Rightarrow> 'e + unit" where
  "checkR b e = (if b then Inr () else Inl e)"

lemma checkR_Inr [simp]: "checkR b e = Inr u \<longleftrightarrow> b"
  by (simp add: checkR_def)

lemma checkR_Inl [simp]: "checkR b e = Inl x \<longleftrightarrow> \<not> b \<and> x = e"
  by (auto simp: checkR_def)

text \<open>A \<open>for\<close> loop whose body only checks: the first raise ends it.\<close>

fun forR :: "('a \<Rightarrow> 'e + unit) \<Rightarrow> 'a list \<Rightarrow> 'e + unit" where
  "forR f [] = Inr ()"
| "forR f (x # xs) = bindR (f x) (\<lambda>_. forR f xs)"

lemma forR_Inr [simp]: "forR f xs = Inr u \<longleftrightarrow> (\<forall>x \<in> set xs. f x = Inr ())"
  by (induction xs) (auto simp: op_simps)

lemma forR_Inl: "forR f xs = Inl e \<Longrightarrow> \<exists>x \<in> set xs. f x = Inl e"
  by (induction xs) (auto simp: bindR_Inl_iff)

text \<open>A comprehension whose elements may raise.\<close>

fun mapR :: "('a \<Rightarrow> 'e + 'b) \<Rightarrow> 'a list \<Rightarrow> 'e + 'b list" where
  "mapR f [] = Inr []"
| "mapR f (x # xs) = bindR (f x) (\<lambda>y. bindR (mapR f xs) (\<lambda>ys. Inr (y # ys)))"

lemma mapR_Inr: "mapR f xs = Inr ys \<longleftrightarrow> list_all2 (\<lambda>x y. f x = Inr y) xs ys"
  by (induction xs arbitrary: ys) (auto simp: op_simps list_all2_Cons1)

section \<open>Operations on a state that may raise\<close>

type_synonym ('e, 's, 'a) op = "'s \<Rightarrow> 'e + 'a \<times> 's"

definition returnE :: "'a \<Rightarrow> ('e, 's, 'a) op" where
  "returnE a = (\<lambda>s. Inr (a, s))"

definition raiseE :: "'e \<Rightarrow> ('e, 's, 'a) op" where
  "raiseE e = (\<lambda>s. Inl e)"

definition bindE :: "('e, 's, 'a) op \<Rightarrow> ('a \<Rightarrow> ('e, 's, 'b) op) \<Rightarrow> ('e, 's, 'b) op" where
  "bindE m f = (\<lambda>s. case m s of Inl e \<Rightarrow> Inl e | Inr (a, t) \<Rightarrow> f a t)"

definition thenE :: "('e, 's, 'a) op \<Rightarrow> ('e, 's, 'b) op \<Rightarrow> ('e, 's, 'b) op" where
  "thenE m k = bindE m (\<lambda>_. k)"

definition getsE :: "('s \<Rightarrow> 'a) \<Rightarrow> ('e, 's, 'a) op" where
  "getsE f = (\<lambda>s. Inr (f s, s))"

definition modifyE :: "('s \<Rightarrow> 's) \<Rightarrow> ('e, 's, unit) op" where
  "modifyE f = (\<lambda>s. Inr ((), f s))"

definition liftE :: "'e + 'a \<Rightarrow> ('e, 's, 'a) op" where
  "liftE r = (\<lambda>s. case r of Inl e \<Rightarrow> Inl e | Inr a \<Rightarrow> Inr (a, s))"

definition checkE :: "('s \<Rightarrow> 'e + 'a) \<Rightarrow> ('e, 's, 'a) op" where
  "checkE f = (\<lambda>s. case f s of Inl e \<Rightarrow> Inl e | Inr a \<Rightarrow> Inr (a, s))"

fun forE :: "('a \<Rightarrow> ('e, 's, unit) op) \<Rightarrow> 'a list \<Rightarrow> ('e, 's, unit) op" where
  "forE f [] = returnE ()"
| "forE f (x # xs) = bindE (f x) (\<lambda>_. forE f xs)"

fun mapE :: "('a \<Rightarrow> ('e, 's, 'b) op) \<Rightarrow> 'a list \<Rightarrow> ('e, 's, 'b list) op" where
  "mapE f [] = returnE []"
| "mapE f (x # xs) =
     bindE (f x) (\<lambda>y. bindE (mapE f xs) (\<lambda>ys. returnE (y # ys)))"

lemma op_apply [simp]:
  "returnE a s = Inr (a, s)"
  "raiseE e s = Inl e"
  "getsE g s = Inr (g s, s)"
  "modifyE h s = Inr ((), h s)"
  "liftE (Inl e) s = Inl e"
  "liftE (Inr a) s = Inr (a, s)"
  by (simp_all add: returnE_def raiseE_def getsE_def modifyE_def liftE_def)

lemma bindE_apply [simp]:
  "m s = Inl e \<Longrightarrow> bindE m f s = Inl e"
  "m s = Inr (a, t) \<Longrightarrow> bindE m f s = f a t"
  by (simp_all add: bindE_def)

lemma bindE_gets [simp]: "bindE (getsE g) f s = f (g s) s"
  by (simp add: bindE_def)

lemma bindE_Inr [op_simps]:
  "bindE m f s = Inr (b, u) \<longleftrightarrow> (\<exists>a t. m s = Inr (a, t) \<and> f a t = Inr (b, u))"
  by (auto simp: bindE_def split: sum.splits)

lemma bindE_Inl:
  "bindE m f s = Inl e \<longleftrightarrow> m s = Inl e \<or> (\<exists>a t. m s = Inr (a, t) \<and> f a t = Inl e)"
  by (auto simp: bindE_def split: sum.splits)

lemma thenE_Inr [op_simps]:
  "thenE m k s = Inr (b, u) \<longleftrightarrow> (\<exists>a t. m s = Inr (a, t) \<and> k t = Inr (b, u))"
  by (simp add: thenE_def bindE_Inr)

lemma thenE_apply [simp]:
  "m s = Inl e \<Longrightarrow> thenE m k s = Inl e"
  "m s = Inr (a, t) \<Longrightarrow> thenE m k s = k t"
  by (simp_all add: thenE_def)

lemma liftE_Inr [op_simps]: "liftE r s = Inr (a, t) \<longleftrightarrow> r = Inr a \<and> t = s"
  by (cases r) (auto simp: liftE_def)

lemma checkE_Inr [op_simps]: "checkE f s = Inr (a, t) \<longleftrightarrow> f s = Inr a \<and> t = s"
  by (cases "f s") (auto simp: checkE_def)

lemma checkE_apply [simp]:
  "f s = Inl e \<Longrightarrow> checkE f s = Inl e"
  "f s = Inr a \<Longrightarrow> checkE f s = Inr (a, s)"
  by (simp_all add: checkE_def)

section \<open>Preservation, compositionally\<close>

text \<open>
  \<open>keeps P m\<close>: whenever \<open>m\<close> starts in a state satisfying \<open>P\<close> and does not raise, it
  ends in one.  The rules follow the combinators, so that a preservation proof of an
  operation is the composition of those of the operations it calls.
\<close>

definition keeps :: "('s \<Rightarrow> bool) \<Rightarrow> ('e, 's, 'a) op \<Rightarrow> bool" where
  "keeps P m \<longleftrightarrow> (\<forall>s a t. P s \<longrightarrow> m s = Inr (a, t) \<longrightarrow> P t)"

lemma keepsD: "keeps P m \<Longrightarrow> m s = Inr (a, t) \<Longrightarrow> P s \<Longrightarrow> P t"
  by (auto simp: keeps_def)

lemma keepsI: "(\<And>s a t. P s \<Longrightarrow> m s = Inr (a, t) \<Longrightarrow> P t) \<Longrightarrow> keeps P m"
  by (auto simp: keeps_def)

lemma keeps_return [keeps_intro]: "keeps P (returnE a)"
  by (auto simp: keeps_def)

lemma keeps_raise [keeps_intro]: "keeps P (raiseE e)"
  by (auto simp: keeps_def)

lemma keeps_gets [keeps_intro]: "keeps P (getsE f)"
  by (auto simp: keeps_def)

lemma keeps_lift [keeps_intro]: "keeps P (liftE r)"
  by (auto simp: keeps_def op_simps)

lemma keeps_check [keeps_intro]: "keeps P (checkE f)"
  by (auto simp: keeps_def op_simps)

lemma keeps_modify: "(\<And>s. P s \<Longrightarrow> P (f s)) \<Longrightarrow> keeps P (modifyE f)"
  by (auto simp: keeps_def)

lemma keeps_bind [keeps_intro]: "keeps P m \<Longrightarrow> (\<And>a. keeps P (f a)) \<Longrightarrow> keeps P (bindE m f)"
  unfolding keeps_def bindE_Inr by metis

lemma keeps_then [keeps_intro]: "keeps P m \<Longrightarrow> keeps P k \<Longrightarrow> keeps P (thenE m k)"
  by (simp add: thenE_def keeps_bind)

lemma keeps_if [keeps_intro]: "keeps P m \<Longrightarrow> keeps P k \<Longrightarrow> keeps P (if b then m else k)"
  by simp

lemma keeps_for [keeps_intro]: "(\<And>x. x \<in> set xs \<Longrightarrow> keeps P (f x)) \<Longrightarrow> keeps P (forE f xs)"
  by (induction xs) (auto intro: keeps_return keeps_bind)

lemma keeps_mapE [keeps_intro]: "(\<And>x. x \<in> set xs \<Longrightarrow> keeps P (f x)) \<Longrightarrow> keeps P (mapE f xs)"
  by (induction xs) (auto intro: keeps_return keeps_bind)

text \<open>A component of the state that an operation leaves alone.\<close>

definition leaves :: "('s \<Rightarrow> 'v) \<Rightarrow> ('e, 's, 'a) op \<Rightarrow> bool" where
  "leaves g m \<longleftrightarrow> (\<forall>v. keeps (\<lambda>s. g s = v) m)"

lemma leavesD: "leaves g m \<Longrightarrow> m s = Inr (a, t) \<Longrightarrow> g t = g s"
  by (auto simp: leaves_def keeps_def)

lemma leavesI: "(\<And>s a t. m s = Inr (a, t) \<Longrightarrow> g t = g s) \<Longrightarrow> leaves g m"
  by (auto simp: leaves_def keeps_def)

lemma leaves_bind: "leaves g m \<Longrightarrow> (\<And>a. leaves g (f a)) \<Longrightarrow> leaves g (bindE m f)"
  by (simp add: leaves_def keeps_bind)

lemma leaves_for: "(\<And>x. leaves g (f x)) \<Longrightarrow> leaves g (forE f xs)"
  by (simp add: leaves_def keeps_for)

lemma leaves_mapE: "(\<And>x. leaves g (f x)) \<Longrightarrow> leaves g (mapE f xs)"
  by (simp add: leaves_def keeps_mapE)

lemma leaves_pure:
  "leaves g (returnE a)" "leaves g (raiseE e)" "leaves g (getsE h)"
  "leaves g (liftE r)" "leaves g (checkE k)"
  by (simp_all add: leaves_def keeps_return keeps_raise keeps_gets keeps_lift keeps_check)

lemmas leaves_intro = leaves_pure leaves_bind leaves_for leaves_mapE

section \<open>List and query idioms\<close>

text \<open>\<open>list.remove(x)\<close> for an element that is present; \<open>remove1\<close> keeps the list otherwise.\<close>

definition py_remove :: "'e \<Rightarrow> 'a \<Rightarrow> 'a list \<Rightarrow> 'e + 'a list" where
  "py_remove e x xs = (if x \<in> set xs then Inr (remove1 x xs) else Inl e)"

text \<open>
  The rows a query returns, read with \<open>one()\<close>: no row is \<open>NoResultFound\<close>, which every
  caller of the model handles (\<open>None\<close>), several are \<open>MultipleResultsFound\<close>.
\<close>

fun one_row :: "'e \<Rightarrow> 'a list \<Rightarrow> 'e + 'a option" where
  "one_row e [] = Inr None"
| "one_row e [x] = Inr (Some x)"
| "one_row e (x # y # zs) = Inl e"

lemma one_row_None [simp]: "one_row e xs = Inr None \<longleftrightarrow> xs = []"
  by (cases "(e, xs)" rule: one_row.cases) auto

lemma one_row_Some [simp]: "one_row e xs = Inr (Some x) \<longleftrightarrow> xs = [x]"
  by (cases "(e, xs)" rule: one_row.cases) auto

lemma one_row_unique:
  "distinct xs \<Longrightarrow> (\<And>x y. x \<in> set xs \<Longrightarrow> y \<in> set xs \<Longrightarrow> P x \<Longrightarrow> P y \<Longrightarrow> x = y) \<Longrightarrow>
     one_row e (filter P xs) = Inr (find P xs)"
proof (induction xs)
  case Nil
  then show ?case by simp
next
  case (Cons x xs)
  show ?case
  proof (cases "P x")
    case True
    then have "filter P xs = []" using Cons.prems by (force simp: filter_empty_conv)
    with True show ?thesis by simp
  next
    case False
    with Cons show ?thesis by simp
  qed
qed

lemma find_SomeD: "find P xs = Some x \<Longrightarrow> x \<in> set xs \<and> P x"
  by (auto simp: find_Some_iff)

text \<open>\<open>query.first()\<close>.\<close>

definition first_row :: "'a list \<Rightarrow> 'a option" where
  "first_row xs = (case xs of [] \<Rightarrow> None | x # _ \<Rightarrow> Some x)"

lemma first_row_simps [simp]:
  "first_row [] = None"
  "first_row (x # xs) = Some x"
  by (simp_all add: first_row_def)

lemma first_row_None [simp]: "first_row xs = None \<longleftrightarrow> xs = []"
  by (cases xs) auto

lemma first_row_SomeD: "first_row xs = Some x \<Longrightarrow> x \<in> set xs"
  by (cases xs) auto

text \<open>Replacing one row by another, the effect of assigning to an attribute of an ORM object.\<close>

definition replace_row :: "'a \<Rightarrow> 'a \<Rightarrow> 'a list \<Rightarrow> 'a list" where
  "replace_row x y xs = map (\<lambda>z. if z = x then y else z) xs"

lemma set_replace_row: "x \<in> set xs \<Longrightarrow> set (replace_row x y xs) = insert y (set xs - {x})"
  by (auto simp: replace_row_def)

lemma replace_row_notin: "x \<notin> set xs \<Longrightarrow> replace_row x y xs = xs"
  by (auto simp: replace_row_def intro: map_idI)

lemma length_replace_row [simp]: "length (replace_row x y xs) = length xs"
  by (simp add: replace_row_def)

lemma distinct_replace_row:
  "distinct xs \<Longrightarrow> y \<notin> set xs \<Longrightarrow> distinct (replace_row x y xs)"
  by (induction xs) (auto simp: replace_row_def)

end
