(* ===== verification/NeutronExc.thy ===== *)
theory NeutronExc
  imports Prelude
begin

text \<open>
  The exceptions of \<open>neutron/common/exceptions.py\<close>, one constructor per concrete class with
  the keyword arguments its message is built from, followed by the exceptions of the libraries
  and of Python that the modelled code lets through.  Message texts are not modelled, except
  for \<open>InvalidInput\<close>, whose only argument is a text: it carries the untranslated template.

  \<open>exc_base\<close> is the class hierarchy, and \<open>http_status\<close> the translation of an exception
  into the status of an API response (\<open>FAULT_MAP\<close> of \<open>neutron/api/v2/base.py\<close>).
\<close>

datatype (plugins only: code size) exc =
    AdminRequired string
  | PolicyNotAuthorized string
  | NetworkNotFound string
  | SubnetNotFound string
  | PortNotFound string
  | PortNotFoundOnNetwork string string
  | PolicyFileNotFound
  | PolicyRuleNotFound string
  | PolicyInitError string string
  | PolicyCheckError string string
  | StateInvalid string
  | NetworkInUse string
  | SubnetInUse string
  | PortInUse string string string
  | MacAddressInUse string string
  | HostRoutesExhausted "string option" int
  | DNSNameServersExhausted "string option" int
  | IpAddressInUse string string
  | VlanIdInUse int string
  | FlatNetworkInUse string
  | TunnelIdInUse int
  | TenantNetworksDisabled
  | NoNetworkAvailable
  | SubnetMismatchForPort string string
  | MalformedRequestBody string
  | InvalidInput string
  | InvalidAllocationPool "string \<times> string"
  | OverlappingAllocationPools "string \<times> string" "string \<times> string" string
  | OutOfBoundsAllocationPool "string \<times> string" string
  | MacAddressGenerationFailure string
  | IpAddressGenerationFailure string
  | BridgeDoesNotExist string
  | PreexistingDeviceFailure string
  | SudoRequired
  | QuotaResourceUnknown "string list"
  | OverQuota "string list"
  | QuotaMissingTenant
  | InvalidQuotaValue "string list"
  | InvalidSharedSetting string
  | InvalidExtensionEnv string
  | ExtensionsNotFound "string list"
  | InvalidContentType string
  | ExternalIpAddressExhausted string
  | TooManyExternalNetworks
  | InvalidConfigurationOption string string
  | GatewayConflictWithAllocationPools string "string \<times> string"
  | GatewayIpInUse string string
  | NetworkVlanRangeError string string
  | NetworkVxlanPortRangeError "int \<times> int"
  | DuplicatedExtension string
  | NeutronError string
  | MechanismDriverError string
  | SegmentsSetInConjunctionWithProviders
  \<comment> \<open>exceptions of netaddr, SQLAlchemy and Python\<close>
  | AddrFormatError string
  | IndexError
  | ValueError
  | KeyError string
  | LookupError string
  | AttributeError string
  | NoResultFound
  | MultipleResultsFound
  | IntegrityError
  | TypeError
  | SystemExit int
  | HTTPBadRequest string
  | HTTPForbidden string
  | HTTPNotFound string

datatype exc_class =
    NeutronException | BadRequest | NotFound | Conflict | NotAuthorized
  | ServiceUnavailable | InUse | PythonException

definition exc_base :: "exc \<Rightarrow> exc_class" where
  "exc_base e =
     (case e of
        AdminRequired _ \<Rightarrow> NotAuthorized
      | PolicyNotAuthorized _ \<Rightarrow> NotAuthorized
      | NetworkNotFound _ \<Rightarrow> NotFound
      | SubnetNotFound _ \<Rightarrow> NotFound
      | PortNotFound _ \<Rightarrow> NotFound
      | PortNotFoundOnNetwork _ _ \<Rightarrow> NotFound
      | PolicyFileNotFound \<Rightarrow> NotFound
      | PolicyRuleNotFound _ \<Rightarrow> NotFound
      | StateInvalid _ \<Rightarrow> BadRequest
      | NetworkInUse _ \<Rightarrow> InUse
      | SubnetInUse _ \<Rightarrow> InUse
      | PortInUse _ _ _ \<Rightarrow> InUse
      | MacAddressInUse _ _ \<Rightarrow> InUse
      | HostRoutesExhausted _ _ \<Rightarrow> BadRequest
      | DNSNameServersExhausted _ _ \<Rightarrow> BadRequest
      | IpAddressInUse _ _ \<Rightarrow> InUse
      | VlanIdInUse _ _ \<Rightarrow> InUse
      | FlatNetworkInUse _ \<Rightarrow> InUse
      | TunnelIdInUse _ \<Rightarrow> InUse
      | TenantNetworksDisabled \<Rightarrow> ServiceUnavailable
      | NoNetworkAvailable \<Rightarrow> ServiceUnavailable
      | SubnetMismatchForPort _ _ \<Rightarrow> BadRequest
      | SegmentsSetInConjunctionWithProviders \<Rightarrow> BadRequest
      | MalformedRequestBody _ \<Rightarrow> BadRequest
      | InvalidInput _ \<Rightarrow> BadRequest
      | InvalidAllocationPool _ \<Rightarrow> BadRequest
      | OverlappingAllocationPools _ _ _ \<Rightarrow> Conflict
      | OutOfBoundsAllocationPool _ _ \<Rightarrow> BadRequest
      | MacAddressGenerationFailure _ \<Rightarrow> ServiceUnavailable
      | IpAddressGenerationFailure _ \<Rightarrow> Conflict
      | QuotaResourceUnknown _ \<Rightarrow> NotFound
      | OverQuota _ \<Rightarrow> Conflict
      | QuotaMissingTenant \<Rightarrow> BadRequest
      | InvalidQuotaValue _ \<Rightarrow> Conflict
      | InvalidSharedSetting _ \<Rightarrow> Conflict
      | InvalidExtensionEnv _ \<Rightarrow> BadRequest
      | ExtensionsNotFound _ \<Rightarrow> NotFound
      | ExternalIpAddressExhausted _ \<Rightarrow> BadRequest
      | GatewayConflictWithAllocationPools _ _ \<Rightarrow> InUse
      | GatewayIpInUse _ _ \<Rightarrow> InUse
      | AddrFormatError _ \<Rightarrow> PythonException
      | IndexError \<Rightarrow> PythonException
      | ValueError \<Rightarrow> PythonException
      | KeyError _ \<Rightarrow> PythonException
      | LookupError _ \<Rightarrow> PythonException
      | AttributeError _ \<Rightarrow> PythonException
      | NoResultFound \<Rightarrow> PythonException
      | MultipleResultsFound \<Rightarrow> PythonException
      | IntegrityError \<Rightarrow> PythonException
      | TypeError \<Rightarrow> PythonException
      | SystemExit _ \<Rightarrow> PythonException
      | HTTPBadRequest _ \<Rightarrow> PythonException
      | HTTPForbidden _ \<Rightarrow> PythonException
      | HTTPNotFound _ \<Rightarrow> PythonException
      | _ \<Rightarrow> NeutronException)"

text \<open>
  \<open>Resource\<close> looks an exception up in \<open>FAULT_MAP\<close> along its classes; a Neutron exception
  without an entry, and any other exception, becomes an internal server error.
\<close>

fun fault_map :: "exc_class \<Rightarrow> nat option" where
  "fault_map NotFound = Some 404"
| "fault_map Conflict = Some 409"
| "fault_map InUse = Some 409"
| "fault_map BadRequest = Some 400"
| "fault_map ServiceUnavailable = Some 503"
| "fault_map NotAuthorized = Some 403"
| "fault_map _ = None"

definition http_status :: "exc \<Rightarrow> nat" where
  "http_status e =
     (case e of
        AddrFormatError _ \<Rightarrow> 400
      | HTTPBadRequest _ \<Rightarrow> 400
      | HTTPForbidden _ \<Rightarrow> 403
      | HTTPNotFound _ \<Rightarrow> 404
      | _ \<Rightarrow> (case fault_map (exc_base e) of Some code \<Rightarrow> code | None \<Rightarrow> 500))"

end
