(* ===== verification/Netaddr.thy ===== *)
theory Netaddr
  imports NeutronExc
begin

text \<open>
  The values the program obtains from the netaddr package.

  An \<open>IPAddress\<close> is its IP version and its integer value, an \<open>IPNetwork\<close> the numbers the
  code reads off it.  How netaddr reads a text, and how it prints an address, is not part of
  this repository: these functions are the fields of a record \<open>netaddr\<close> that every definition
  using them takes as an argument.  What the theorems rely on is the predicate \<open>netaddr_ok\<close>:
  the empty text is no address, an address that is printed is read back, and the mask test of a network selects, among the
  addresses of its version, those from its first to its last.  What the mask test does with an
  address of the other version is left open.
\<close>

datatype ipaddr = IP (ip_ver: nat) (ip_val: int)

record ipnet =
  net_ver :: nat
  net_first :: int
  net_last :: int
  net_ip :: int
  net_masks :: "ipaddr \<Rightarrow> bool"  \<comment> \<open>\<open>net.netmask & ip == net.network\<close>\<close>
  net_broadcast :: "ipaddr option"

record netaddr =
  na_ip :: "string \<Rightarrow> ipaddr option"
  na_str :: "ipaddr \<Rightarrow> string"
  na_net :: "string \<Rightarrow> ipnet option"

definition ip_max :: "nat \<Rightarrow> int" where
  "ip_max v = (if v = 4 then 2 ^ 32 - 1 else 2 ^ 128 - 1)"

definition ip_valid :: "ipaddr \<Rightarrow> bool" where
  "ip_valid a \<longleftrightarrow> (ip_ver a = 4 \<or> ip_ver a = 6) \<and> 0 \<le> ip_val a \<and> ip_val a \<le> ip_max (ip_ver a)"

text \<open>\<open>netaddr.IPAddress(text)\<close>, \<open>netaddr.IPNetwork(text)\<close>.\<close>

definition py_ip :: "netaddr \<Rightarrow> string \<Rightarrow> exc + ipaddr" where
  "py_ip na s = (case na_ip na s of None \<Rightarrow> Inl (AddrFormatError s) | Some a \<Rightarrow> Inr a)"

definition py_net :: "netaddr \<Rightarrow> string \<Rightarrow> exc + ipnet" where
  "py_net na s = (case na_net na s of None \<Rightarrow> Inl (AddrFormatError s) | Some n \<Rightarrow> Inr n)"

text \<open>\<open>netaddr.IPAddress(n)\<close> for an integer: the version is chosen by the size of the number.\<close>

definition ip_of_int :: "int \<Rightarrow> exc + ipaddr" where
  "ip_of_int n =
     (if 0 \<le> n \<and> n \<le> ip_max 4 then Inr (IP 4 n)
      else if 0 \<le> n \<and> n \<le> ip_max 6 then Inr (IP 6 n)
      else Inl (AddrFormatError ''int''))"

text \<open>\<open>address + k\<close>: the version is kept, leaving the address space raises.\<close>

definition ip_plus :: "ipaddr \<Rightarrow> int \<Rightarrow> exc + ipaddr" where
  "ip_plus a k =
     (if 0 \<le> ip_val a + k \<and> ip_val a + k \<le> ip_max (ip_ver a)
      then Inr (IP (ip_ver a) (ip_val a + k)) else Inl IndexError)"

text \<open>\<open>netaddr.IPRange(first, last)\<close> and membership in it.\<close>

definition py_range :: "netaddr \<Rightarrow> string \<Rightarrow> string \<Rightarrow> exc + ipaddr \<times> ipaddr" where
  "py_range na f l =
     bindR (py_ip na f) (\<lambda>a. bindR (py_ip na l) (\<lambda>b.
       if ip_ver a \<noteq> ip_ver b \<or> ip_val b < ip_val a then Inl (AddrFormatError f)
       else Inr (a, b)))"

definition in_range :: "ipaddr \<Rightarrow> ipaddr \<times> ipaddr \<Rightarrow> bool" where
  "in_range x r \<longleftrightarrow>
     ip_ver x = ip_ver (fst r) \<and> ip_val (fst r) \<le> ip_val x \<and> ip_val x \<le> ip_val (snd r)"

text \<open>Non-emptiness of the intersection of two IP sets that are intervals.\<close>

definition nets_meet :: "ipnet \<Rightarrow> ipnet \<Rightarrow> bool" where
  "nets_meet m n \<longleftrightarrow>
     net_ver m = net_ver n \<and> net_first m \<le> net_last n \<and> net_first n \<le> net_last m"

definition ranges_meet :: "ipaddr \<times> ipaddr \<Rightarrow> ipaddr \<times> ipaddr \<Rightarrow> bool" where
  "ranges_meet r q \<longleftrightarrow>
     ip_ver (fst r) = ip_ver (fst q) \<and> ip_val (fst r) \<le> ip_val (snd q) \<and>
     ip_val (fst q) \<le> ip_val (snd r)"

definition net_ok :: "ipnet \<Rightarrow> bool" where
  "net_ok n \<longleftrightarrow>
     (net_ver n = 4 \<or> net_ver n = 6) \<and>
     0 \<le> net_first n \<and> net_first n \<le> net_last n \<and> net_last n \<le> ip_max (net_ver n) \<and>
     (\<forall>a. ip_valid a \<longrightarrow> ip_ver a = net_ver n \<longrightarrow>
        net_masks n a = (net_first n \<le> ip_val a \<and> ip_val a \<le> net_last n))"

definition netaddr_ok :: "netaddr \<Rightarrow> bool" where
  "netaddr_ok na \<longleftrightarrow>
     na_ip na [] = None \<and>
     (\<forall>a. ip_valid a \<longrightarrow> na_ip na (na_str na a) = Some a) \<and>
     (\<forall>s a. na_ip na s = Some a \<longrightarrow> ip_valid a) \<and>
     (\<forall>s n. na_net na s = Some n \<longrightarrow> net_ok n)"

text \<open>A text is canonical when it is the one netaddr prints for the address it denotes.\<close>

definition canonical :: "netaddr \<Rightarrow> string \<Rightarrow> bool" where
  "canonical na s \<longleftrightarrow> (\<exists>a. na_ip na s = Some a \<and> s = na_str na a)"

lemma na_ip_str [simp]: "netaddr_ok na \<Longrightarrow> ip_valid a \<Longrightarrow> na_ip na (na_str na a) = Some a"
  unfolding netaddr_ok_def by blast

lemma na_ip_nonempty: "netaddr_ok na \<Longrightarrow> na_ip na s = Some a \<Longrightarrow> s \<noteq> []"
  unfolding netaddr_ok_def by auto

lemma na_ip_valid: "netaddr_ok na \<Longrightarrow> na_ip na s = Some a \<Longrightarrow> ip_valid a"
  unfolding netaddr_ok_def by blast

lemma na_net_ok: "netaddr_ok na \<Longrightarrow> na_net na s = Some n \<Longrightarrow> net_ok n"
  unfolding netaddr_ok_def by blast

lemma canonical_str [simp]: "netaddr_ok na \<Longrightarrow> ip_valid a \<Longrightarrow> canonical na (na_str na a)"
  by (auto simp: canonical_def)

lemma canonical_inj:
  "canonical na s \<Longrightarrow> canonical na t \<Longrightarrow> na_ip na s = na_ip na t \<Longrightarrow> s = t"
  unfolding canonical_def by (metis option.inject)

lemma canonical_eq_str:
  "netaddr_ok na \<Longrightarrow> canonical na s \<Longrightarrow> ip_valid a \<Longrightarrow> s = na_str na a \<longleftrightarrow> na_ip na s = Some a"
  unfolding canonical_def by (metis na_ip_str option.inject)

lemma py_ip_Inr [simp]: "py_ip na s = Inr a \<longleftrightarrow> na_ip na s = Some a"
  by (auto simp: py_ip_def split: option.splits)

lemma py_net_Inr [simp]: "py_net na s = Inr n \<longleftrightarrow> na_net na s = Some n"
  by (auto simp: py_net_def split: option.splits)

lemma ip_plus_Inr:
  "ip_plus a k = Inr b \<longleftrightarrow>
     b = IP (ip_ver a) (ip_val a + k) \<and> 0 \<le> ip_val a + k \<and> ip_val a + k \<le> ip_max (ip_ver a)"
  by (auto simp: ip_plus_def)

lemma ip_plus_valid: "ip_valid a \<Longrightarrow> ip_plus a k = Inr b \<Longrightarrow> ip_valid b"
  by (auto simp: ip_plus_Inr ip_valid_def)

lemma py_range_Inr [simp]:
  "py_range na f l = Inr (a, b) \<longleftrightarrow>
     na_ip na f = Some a \<and> na_ip na l = Some b \<and> ip_ver a = ip_ver b \<and> ip_val a \<le> ip_val b"
  by (cases "na_ip na f"; cases "na_ip na l") (auto simp: py_range_def py_ip_def)

lemma ip_of_int_Inr:
  "ip_of_int n = Inr a \<Longrightarrow> ip_valid a \<and> ip_val a = n"
  by (auto simp: ip_of_int_def ip_valid_def split: if_splits)

text \<open>
  An instance of the parameters, for evaluating the model on examples: an address is written
  as a letter for its version followed by its value in unary; it is also the network of this one
  address.
\<close>

definition demo_str :: "ipaddr \<Rightarrow> string" where
  "demo_str a = (if ip_ver a = 4 then CHR ''4'' else CHR ''6'') # replicate (nat (ip_val a)) (CHR ''i'')"

definition demo_ip :: "string \<Rightarrow> ipaddr option" where
  "demo_ip s =
     (case s of
        [] \<Rightarrow> None
      | c # cs \<Rightarrow>
          (let a = IP (if c = CHR ''4'' then 4 else 6) (int (length cs))
           in if (c = CHR ''4'' \<or> c = CHR ''6'') \<and> ip_val a \<le> ip_max (ip_ver a) then Some a else None))"

definition demo_net :: "string \<Rightarrow> ipnet option" where
  "demo_net s =
     (if s = ''net8'' then
        Some \<lparr>net_ver = 4, net_first = 8, net_last = 15, net_ip = 8,
              net_masks = (\<lambda>a. 8 \<le> ip_val a \<and> ip_val a \<le> 15), net_broadcast = Some (IP 4 15)\<rparr>
      else
        (case demo_ip s of
           None \<Rightarrow> None
         | Some (IP v n) \<Rightarrow>
             Some \<lparr>net_ver = v, net_first = n, net_last = n, net_ip = n,
                   net_masks = (\<lambda>a. ip_val a = n), net_broadcast = None\<rparr>))"

definition demo_netaddr :: netaddr where
  "demo_netaddr = \<lparr>na_ip = demo_ip, na_str = demo_str, na_net = demo_net\<rparr>"

lemma demo_netaddr_sel [simp]:
  "na_ip demo_netaddr = demo_ip" "na_str demo_netaddr = demo_str" "na_net demo_netaddr = demo_net"
  by (simp_all add: demo_netaddr_def)

lemma demo_ip_str: "ip_valid a \<Longrightarrow> demo_ip (demo_str a) = Some a"
  by (cases a) (auto simp: demo_ip_def demo_str_def ip_valid_def)

lemma demo_ip_valid: "demo_ip s = Some a \<Longrightarrow> ip_valid a"
  by (auto simp: demo_ip_def ip_valid_def Let_def split: list.splits if_splits)

lemma demo_net_ok: "demo_net s = Some n \<Longrightarrow> net_ok n"
  using demo_ip_valid [of s]
  by (auto simp: demo_net_def net_ok_def ip_max_def ip_valid_def split: if_splits option.splits ipaddr.splits)

lemma demo_netaddr_ok [simp]: "netaddr_ok demo_netaddr"
  by (auto simp: netaddr_ok_def demo_ip_str demo_ip_valid demo_net_ok) (simp add: demo_ip_def)

end
