(* ===== verification/Models.thy ===== *)
theory Models
  imports Netaddr
begin

text \<open>
  The tables of \<open>neutron/db/models_v2.py\<close> and the parts of \<open>CommonDbMixin\<close>
  (\<open>neutron/db/db_base_plugin_v2.py\<close>) every plugin shares: the scoping of queries by tenant,
  the filters, and the tenant of a new resource.

  A table is the list of its rows in the order the database returns them; a row is a record with
  the columns of the model class.  A nullable column is an option.  Primary keys are enforced by
  the insertion functions, which raise \<open>IntegrityError\<close>.  A deletion cascades along the
  foreign keys declared \<open>ondelete="CASCADE"\<close>.
\<close>

record ctxt =
  ctx_is_admin :: bool
  ctx_tenant :: string

record ip_range_row =
  r_pool :: string
  r_first :: string
  r_last :: string

record ip_pool_row =
  p_id :: string
  p_subnet :: string
  p_first :: string
  p_last :: string

record ip_alloc_row =
  a_port :: "string option"
  a_ip :: string
  a_subnet :: string
  a_network :: string

record subnet_route_row =
  rt_subnet :: string
  rt_destination :: string
  rt_nexthop :: string

record port_row =
  pt_id :: string
  pt_tenant :: string
  pt_name :: string
  pt_network :: string
  pt_mac :: string
  pt_admin_state_up :: bool
  pt_status :: string
  pt_device_id :: string
  pt_device_owner :: string

record dns_row =
  dns_address :: string
  dns_subnet :: string

record subnet_row =
  s_id :: string
  s_tenant :: string
  s_name :: string
  s_network :: string
  s_ip_version :: nat
  s_cidr :: string
  s_gateway :: "string option"
  s_enable_dhcp :: bool
  s_shared :: bool

record network_row =
  n_id :: string
  n_tenant :: string
  n_name :: string
  n_status :: string
  n_admin_state_up :: bool
  n_shared :: bool

record db =
  networks :: "network_row list"
  subnets :: "subnet_row list"
  ports :: "port_row list"
  ip_pools :: "ip_pool_row list"
  ip_ranges :: "ip_range_row list"
  ip_allocs :: "ip_alloc_row list"
  dns_servers :: "dns_row list"
  subnet_routes :: "subnet_route_row list"

type_synonym 'a dbop = "(exc, db, 'a) op"

definition empty_db :: db where
  "empty_db = \<lparr>networks = [], subnets = [], ports = [], ip_pools = [], ip_ranges = [],
               ip_allocs = [], dns_servers = [], subnet_routes = []\<rparr>"

section \<open>Queries\<close>

text \<open>
  Hooks registered by other mixins with \<open>register_model_query_hook\<close>: a query hook transforms
  the rows, a filter hook the filter expression built so far.  The core plugin registers none;
  \<open>model_query\<close> is parameterised by the list of hooks of the model.
\<close>

record 'r hook =
  query_hook :: "(ctxt \<Rightarrow> 'r list \<Rightarrow> 'r list) option"
  filter_hook :: "(ctxt \<Rightarrow> ('r \<Rightarrow> bool) option \<Rightarrow> ('r \<Rightarrow> bool) option) option"

fun run_hooks :: "ctxt \<Rightarrow> 'r hook list \<Rightarrow> 'r list \<Rightarrow> ('r \<Rightarrow> bool) option
    \<Rightarrow> 'r list \<times> ('r \<Rightarrow> bool) option" where
  "run_hooks ctx [] rows flt = (rows, flt)"
| "run_hooks ctx (h # hs) rows flt =
     run_hooks ctx hs
       (case query_hook h of None \<Rightarrow> rows | Some q \<Rightarrow> q ctx rows)
       (case filter_hook h of None \<Rightarrow> flt | Some f \<Rightarrow> f ctx flt)"

text \<open>
  \<open>tenant_of\<close> and \<open>shared_of\<close> are the columns \<open>tenant_id\<close> and \<open>shared\<close>, \<open>None\<close> for a model
  without them.
\<close>

definition model_query :: "ctxt \<Rightarrow> ('r \<Rightarrow> string) option \<Rightarrow> ('r \<Rightarrow> bool) option
    \<Rightarrow> 'r hook list \<Rightarrow> 'r list \<Rightarrow> 'r list" where
  "model_query ctx tenant_of shared_of hooks rows =
     (let flt =
        (case tenant_of of
           None \<Rightarrow> None
         | Some tn \<Rightarrow>
             (if ctx_is_admin ctx then None
              else (case shared_of of
                      Some sh \<Rightarrow> Some (\<lambda>r. tn r = ctx_tenant ctx \<or> sh r)
                    | None \<Rightarrow> Some (\<lambda>r. tn r = ctx_tenant ctx))));
        (rows', flt') = run_hooks ctx hooks rows flt
      in (case flt' of None \<Rightarrow> rows' | Some p \<Rightarrow> filter p rows'))"

text \<open>The queries of the core plugin on its three resources.\<close>

definition query_networks :: "ctxt \<Rightarrow> db \<Rightarrow> network_row list" where
  "query_networks ctx d = model_query ctx (Some n_tenant) (Some n_shared) [] (networks d)"

definition query_subnets :: "ctxt \<Rightarrow> db \<Rightarrow> subnet_row list" where
  "query_subnets ctx d = model_query ctx (Some s_tenant) (Some s_shared) [] (subnets d)"

definition query_ports :: "ctxt \<Rightarrow> db \<Rightarrow> port_row list" where
  "query_ports ctx d = model_query ctx (Some pt_tenant) None [] (ports d)"

text \<open>\<open>_get_by_id\<close> and the three getters that translate its \<open>NoResultFound\<close>.\<close>

definition get_by_id :: "('r \<Rightarrow> string) \<Rightarrow> string \<Rightarrow> 'r list \<Rightarrow> exc \<Rightarrow> exc + 'r" where
  "get_by_id idf i rows not_found =
     bindR (one_row MultipleResultsFound (filter (\<lambda>r. idf r = i) rows)) (\<lambda>r.
       case r of None \<Rightarrow> Inl not_found | Some x \<Rightarrow> Inr x)"

definition get_network_row :: "ctxt \<Rightarrow> string \<Rightarrow> db \<Rightarrow> exc + network_row" where
  "get_network_row ctx i d = get_by_id n_id i (query_networks ctx d) (NetworkNotFound i)"

definition get_subnet_row :: "ctxt \<Rightarrow> string \<Rightarrow> db \<Rightarrow> exc + subnet_row" where
  "get_subnet_row ctx i d = get_by_id s_id i (query_subnets ctx d) (SubnetNotFound i)"

definition get_port_row :: "ctxt \<Rightarrow> string \<Rightarrow> db \<Rightarrow> exc + port_row" where
  "get_port_row ctx i d = get_by_id pt_id i (query_ports ctx d) (PortNotFound i)"

text \<open>
  \<open>_get_tenant_id_for_create\<close>: the tenant named in the request, which only an administrator may
  choose; \<open>None\<close> is a request without \<open>tenant_id\<close>.
\<close>

definition get_tenant_id_for_create :: "ctxt \<Rightarrow> string option \<Rightarrow> exc + string" where
  "get_tenant_id_for_create ctx tenant =
     (case tenant of
        Some t \<Rightarrow>
          (if ctx_is_admin ctx then Inr t
           else if t \<noteq> ctx_tenant ctx
             then Inl (AdminRequired ''Cannot create resource for another tenant'')
           else Inr (ctx_tenant ctx))
      | None \<Rightarrow> Inr (ctx_tenant ctx))"

section \<open>Rows of the allocation tables\<close>

definition pools_of :: "string \<Rightarrow> db \<Rightarrow> ip_pool_row list" where
  "pools_of sid d = filter (\<lambda>p. p_subnet p = sid) (ip_pools d)"

text \<open>The inner join of pools with their available ranges drops the pools without a range.\<close>

definition pools_with_ranges :: "string \<Rightarrow> db \<Rightarrow> ip_pool_row list" where
  "pools_with_ranges sid d =
     filter (\<lambda>p. \<exists>r \<in> set (ip_ranges d). r_pool r = p_id p) (pools_of sid d)"

definition ranges_of :: "string \<Rightarrow> db \<Rightarrow> ip_range_row list" where
  "ranges_of sid d =
     filter (\<lambda>r. \<exists>p \<in> set (ip_pools d). p_id p = r_pool r \<and> p_subnet p = sid) (ip_ranges d)"

definition add_range :: "ip_range_row \<Rightarrow> unit dbop" where
  "add_range r = (\<lambda>d. if r \<in> set (ip_ranges d) then Inl IntegrityError
                       else Inr ((), d\<lparr>ip_ranges := ip_ranges d @ [r]\<rparr>))"

definition del_range :: "ip_range_row \<Rightarrow> unit dbop" where
  "del_range r = modifyE (\<lambda>d. d\<lparr>ip_ranges := filter (\<lambda>q. q \<noteq> r) (ip_ranges d)\<rparr>)"

definition set_range :: "ip_range_row \<Rightarrow> ip_range_row \<Rightarrow> unit dbop" where
  "set_range r q = (\<lambda>d. if q \<noteq> r \<and> q \<in> set (ip_ranges d) then Inl IntegrityError
                         else Inr ((), d\<lparr>ip_ranges := replace_row r q (ip_ranges d)\<rparr>))"

definition same_alloc :: "ip_alloc_row \<Rightarrow> ip_alloc_row \<Rightarrow> bool" where
  "same_alloc a b \<longleftrightarrow> a_ip a = a_ip b \<and> a_subnet a = a_subnet b \<and> a_network a = a_network b"

definition add_alloc :: "ip_alloc_row \<Rightarrow> unit dbop" where
  "add_alloc a = (\<lambda>d. if \<exists>b \<in> set (ip_allocs d). same_alloc a b then Inl IntegrityError
                       else Inr ((), d\<lparr>ip_allocs := ip_allocs d @ [a]\<rparr>))"

lemma model_query_subset:
  "set (model_query ctx tn sh [] rows) \<subseteq> set rows"
  by (auto simp: model_query_def split: option.splits)

lemma query_subnets_subset: "set (query_subnets ctx d) \<subseteq> set (subnets d)"
  unfolding query_subnets_def by (rule model_query_subset)

lemma get_by_id_Inr:
  "get_by_id idf i rows e = Inr r \<Longrightarrow> r \<in> set rows \<and> idf r = i"
proof -
  assume "get_by_id idf i rows e = Inr r"
  then have "filter (\<lambda>r. idf r = i) rows = [r]"
    by (auto simp: get_by_id_def op_simps split: option.splits)
  then have "r \<in> set (filter (\<lambda>r. idf r = i) rows)" by simp
  then show ?thesis by simp
qed

lemma get_subnet_row_Inr:
  assumes "get_subnet_row ctx i d = Inr r"
  shows "r \<in> set (subnets d)" and "s_id r = i"
  using get_by_id_Inr [OF assms [unfolded get_subnet_row_def]] query_subnets_subset by blast+

lemma get_by_id_not_found:
  "i \<notin> idf ` set rows \<Longrightarrow> get_by_id idf i rows e = Inl e"
proof -
  assume "i \<notin> idf ` set rows"
  then have "filter (\<lambda>r. idf r = i) rows = []" by (auto simp: filter_empty_conv)
  then show ?thesis by (simp add: get_by_id_def)
qed

lemma set_ranges_of:
  "r \<in> set (ranges_of sid d) \<longleftrightarrow>
     r \<in> set (ip_ranges d) \<and> (\<exists>p \<in> set (ip_pools d). p_id p = r_pool r \<and> p_subnet p = sid)"
  by (simp add: ranges_of_def)

lemma add_range_Inr [op_simps]:
  "add_range r d = Inr (u, d') \<longleftrightarrow>
     r \<notin> set (ip_ranges d) \<and> d' = d\<lparr>ip_ranges := ip_ranges d @ [r]\<rparr>"
  by (auto simp: add_range_def)

lemma del_range_Inr [op_simps]:
  "del_range r d = Inr (u, d') \<longleftrightarrow> d' = d\<lparr>ip_ranges := filter (\<lambda>q. q \<noteq> r) (ip_ranges d)\<rparr>"
  by (auto simp: del_range_def)

lemma set_range_Inr [op_simps]:
  "set_range r q d = Inr (u, d') \<longleftrightarrow>
     (q = r \<or> q \<notin> set (ip_ranges d)) \<and> d' = d\<lparr>ip_ranges := replace_row r q (ip_ranges d)\<rparr>"
  by (auto simp: set_range_def)

lemma add_alloc_Inr [op_simps]:
  "add_alloc a d = Inr (u, d') \<longleftrightarrow>
     (\<forall>b \<in> set (ip_allocs d). \<not> same_alloc a b) \<and> d' = d\<lparr>ip_allocs := ip_allocs d @ [a]\<rparr>"
  by (auto simp: add_alloc_def)

end
