(* ===== verification/Ipam.thy ===== *)
theory Ipam
  imports Models
begin

text \<open>
  IP address management of the core plugin (\<open>NeutronDbPluginV2\<close> in
  \<open>neutron/db/db_base_plugin_v2.py\<close>): the availability ranges of a subnet's allocation pools,
  from which addresses are taken (\<open>generate_ip\<close>, \<open>allocate_specific_ip\<close>) and to which they
  return (\<open>recycle_ip\<close>).

  The invariant \<open>ipam_inv\<close> says that the ranges are disjoint pieces of their pools and that no
  allocated address is free; \<open>no_leak\<close> that every address of a pool is free or allocated.  The
  abstraction of the tables is \<open>free_in\<close>, the set of addresses available in a subnet, on which
  the three operations are removal and insertion of one element.
\<close>

section \<open>Operations\<close>

definition delete_ip_allocation :: "string \<Rightarrow> string \<Rightarrow> string \<Rightarrow> unit dbop" where
  "delete_ip_allocation network_id subnet_id ip_address =
     modifyE (\<lambda>d. d\<lparr>ip_allocs :=
       filter (\<lambda>a. \<not> (a_network a = network_id \<and> a_ip a = ip_address \<and> a_subnet a = subnet_id))
         (ip_allocs d)\<rparr>)"

text \<open>The loop over the pools that finds the one the address belongs to.\<close>

fun find_pool :: "netaddr \<Rightarrow> string \<Rightarrow> ip_pool_row list \<Rightarrow> exc + string option" where
  "find_pool na ip_address [] = Inr None"
| "find_pool na ip_address (p # ps) =
     bindR (py_range na (p_first p) (p_last p)) (\<lambda>rng.
     bindR (py_ip na ip_address) (\<lambda>ip.
       if in_range ip rng then Inr (Some (p_id p)) else find_pool na ip_address ps))"

text \<open>The rows that start right after, or end right before, the recycled address.\<close>

definition range_starting :: "string \<Rightarrow> string \<Rightarrow> db \<Rightarrow> exc + ip_range_row option" where
  "range_starting pool_id ip_first d =
     one_row MultipleResultsFound
       (filter (\<lambda>r. r_pool r = pool_id \<and> r_first r = ip_first) (ip_ranges d))"

definition range_ending :: "string \<Rightarrow> string \<Rightarrow> db \<Rightarrow> exc + ip_range_row option" where
  "range_ending pool_id ip_last d =
     one_row MultipleResultsFound
       (filter (\<lambda>r. r_pool r = pool_id \<and> r_last r = ip_last) (ip_ranges d))"

definition return_to_pool :: "netaddr \<Rightarrow> string \<Rightarrow> string \<Rightarrow> unit dbop" where
  "return_to_pool na pool_id ip_address =
     bindE (liftE (bindR (py_ip na ip_address) (\<lambda>ip. ip_plus ip 1))) (\<lambda>nxt.
     bindE (liftE (bindR (py_ip na ip_address) (\<lambda>ip. ip_plus ip (- 1)))) (\<lambda>prv.
     bindE (checkE (range_starting pool_id (na_str na nxt))) (\<lambda>r1.
     bindE (checkE (range_ending pool_id (na_str na prv))) (\<lambda>r2.
       case (r1, r2) of
         (Some a, Some b) \<Rightarrow>
           thenE (add_range \<lparr>r_pool = pool_id, r_first = r_first b, r_last = r_last a\<rparr>)
             (thenE (del_range a) (del_range b))
       | (Some a, None) \<Rightarrow> set_range a (a\<lparr>r_first := ip_address\<rparr>)
       | (None, Some b) \<Rightarrow> set_range b (b\<lparr>r_last := ip_address\<rparr>)
       | (None, None) \<Rightarrow>
           add_range \<lparr>r_pool = pool_id, r_first = ip_address, r_last = ip_address\<rparr>))))"

definition recycle_ip :: "netaddr \<Rightarrow> string \<Rightarrow> string \<Rightarrow> string \<Rightarrow> unit dbop" where
  "recycle_ip na network_id subnet_id ip_address =
     bindE (checkE (\<lambda>d. find_pool na ip_address (pools_with_ranges subnet_id d @ pools_of subnet_id d)))
       (\<lambda>pool_id.
         case pool_id of
           None \<Rightarrow> delete_ip_allocation network_id subnet_id ip_address
         | Some pid \<Rightarrow>
             if pid = [] then delete_ip_allocation network_id subnet_id ip_address
             else thenE (return_to_pool na pid ip_address)
                    (delete_ip_allocation network_id subnet_id ip_address))"

text \<open>
  \<open>_generate_ip\<close>: the first address of the first range of the first subnet that has one.  The
  error names the network of the first subnet, so an empty list of subnets is an \<open>IndexError\<close>.
\<close>

fun generate_ip_from :: "netaddr \<Rightarrow> subnet_row list \<Rightarrow> subnet_row list \<Rightarrow> (string \<times> string) dbop" where
  "generate_ip_from na all [] =
     (case all of [] \<Rightarrow> raiseE IndexError
      | s # _ \<Rightarrow> raiseE (IpAddressGenerationFailure (s_network s)))"
| "generate_ip_from na all (s # ss) =
     bindE (getsE (\<lambda>d. first_row (ranges_of (s_id s) d))) (\<lambda>rng.
       case rng of
         None \<Rightarrow> generate_ip_from na all ss
       | Some r \<Rightarrow>
           thenE
             (if r_first r = r_last r then del_range r
              else bindE (liftE (bindR (py_ip na (r_first r)) (\<lambda>ip. ip_plus ip 1))) (\<lambda>nxt.
                     set_range r (r\<lparr>r_first := na_str na nxt\<rparr>)))
             (returnE (r_first r, s_id s)))"

definition generate_ip :: "netaddr \<Rightarrow> subnet_row list \<Rightarrow> (string \<times> string) dbop" where
  "generate_ip na ss = generate_ip_from na ss ss"

text \<open>
  \<open>_allocate_specific_ip\<close>: the loop over the ranges of the subnet, with the integer values of
  the bounds.  An address in no range is left as it is.
\<close>

fun allocate_from_ranges :: "netaddr \<Rightarrow> string \<Rightarrow> ipaddr \<Rightarrow> ip_range_row list \<Rightarrow> unit dbop" where
  "allocate_from_ranges na ip_address ip [] = returnE ()"
| "allocate_from_ranges na ip_address ip (r # rs) =
     bindE (liftE (py_ip na (r_first r))) (\<lambda>first.
     bindE (liftE (py_ip na (r_last r))) (\<lambda>last.
       if ip_val first \<le> ip_val ip \<and> ip_val ip \<le> ip_val last then
         (if ip_val first = ip_val last then del_range r
          else if ip_val first = ip_val ip then
            bindE (liftE (ip_plus ip 1)) (\<lambda>nxt. set_range r (r\<lparr>r_first := na_str na nxt\<rparr>))
          else if ip_val last = ip_val ip then
            bindE (liftE (ip_plus ip (- 1))) (\<lambda>prv. set_range r (r\<lparr>r_last := na_str na prv\<rparr>))
          else
            bindE (liftE (ip_plus ip 1)) (\<lambda>nxt.
            bindE (liftE (ip_plus ip (- 1))) (\<lambda>prv.
              thenE (set_range r (r\<lparr>r_last := na_str na prv\<rparr>))
                (add_range \<lparr>r_pool = r_pool r, r_first = na_str na nxt, r_last = r_last r\<rparr>))))
       else allocate_from_ranges na ip_address ip rs))"

definition allocate_specific_ip :: "netaddr \<Rightarrow> string \<Rightarrow> string \<Rightarrow> unit dbop" where
  "allocate_specific_ip na subnet_id ip_address =
     bindE (liftE (py_ip na ip_address)) (\<lambda>ip.
     bindE (getsE (ranges_of subnet_id)) (\<lambda>results.
       allocate_from_ranges na ip_address ip results))"

definition check_unique_ip :: "string \<Rightarrow> string \<Rightarrow> string \<Rightarrow> db \<Rightarrow> exc + bool" where
  "check_unique_ip network_id subnet_id ip_address d =
     bindR (one_row MultipleResultsFound
       (filter (\<lambda>a. a_network a = network_id \<and> a_subnet a = subnet_id \<and> a_ip a = ip_address)
          (ip_allocs d)))
       (\<lambda>row. Inr (row = None))"

definition check_subnet_ip :: "netaddr \<Rightarrow> string \<Rightarrow> string \<Rightarrow> exc + bool" where
  "check_subnet_ip na cidr ip_address =
     bindR (py_ip na ip_address) (\<lambda>ip.
     bindR (py_net na cidr) (\<lambda>net.
       Inr (ip \<noteq> IP (net_ver net) (net_first net) \<and> Some ip \<noteq> net_broadcast net \<and> net_masks net ip)))"

fun in_some_pool :: "netaddr \<Rightarrow> ipaddr \<Rightarrow> ip_pool_row list \<Rightarrow> exc + bool" where
  "in_some_pool na ip [] = Inr False"
| "in_some_pool na ip (p # ps) =
     bindR (py_range na (p_first p) (p_last p)) (\<lambda>rng.
       if in_range ip rng then Inr True else in_some_pool na ip ps)"

definition check_ip_in_allocation_pool ::
    "netaddr \<Rightarrow> string \<Rightarrow> string option \<Rightarrow> string \<Rightarrow> db \<Rightarrow> exc + bool" where
  "check_ip_in_allocation_pool na subnet_id gateway_ip ip_address d =
     (if Some ip_address = gateway_ip then Inr False
      else bindR (py_ip na ip_address) (\<lambda>ip. in_some_pool na ip (pools_of subnet_id d)))"

section \<open>Fixed IPs of a port\<close>

text \<open>An entry of \<open>fixed_ips\<close>; an absent key is \<open>None\<close>.\<close>

record fixed_ip =
  fx_subnet :: "string option"
  fx_ip :: "string option"

text \<open>The search for a subnet of the network that the address lies on.\<close>

fun find_subnet_for_ip :: "netaddr \<Rightarrow> string \<Rightarrow> subnet_row list \<Rightarrow> exc + subnet_row option" where
  "find_subnet_for_ip na ip [] = Inr None"
| "find_subnet_for_ip na ip (s # ss) =
     bindR (check_subnet_ip na (s_cidr s) ip) (\<lambda>ok.
       if ok then Inr (Some s) else find_subnet_for_ip na ip ss)"

definition fixed_ip_subnet ::
    "netaddr \<Rightarrow> ctxt \<Rightarrow> string \<Rightarrow> fixed_ip \<Rightarrow> db \<Rightarrow> exc + bool \<times> subnet_row" where
  "fixed_ip_subnet na ctx network_id fixed d =
     (case fx_subnet fixed of
        None \<Rightarrow>
          (case fx_ip fixed of
             None \<Rightarrow> Inl (InvalidInput ''IP allocation requires subnet_id or ip_address'')
           | Some ip \<Rightarrow>
               bindR (find_subnet_for_ip na ip
                        (filter (\<lambda>s. s_network s = network_id) (query_subnets ctx d))) (\<lambda>found.
                 case found of
                   None \<Rightarrow> Inl (InvalidInput ''IP address %s is not a valid IP for the defined networks subnets'')
                 | Some s \<Rightarrow> Inr (True, s)))
      | Some sid \<Rightarrow>
          bindR (get_subnet_row ctx sid d) (\<lambda>s.
            if s_network s \<noteq> network_id
            then Inl (InvalidInput ''Failed to create port on network %(network_id)s, because fixed_ips included invalid subnet %(subnet_id)s'')
            else Inr (False, s)))"

definition test_fixed_ip ::
    "netaddr \<Rightarrow> ctxt \<Rightarrow> string \<Rightarrow> fixed_ip \<Rightarrow> db \<Rightarrow> exc + fixed_ip" where
  "test_fixed_ip na ctx network_id fixed d =
     bindR (fixed_ip_subnet na ctx network_id fixed d) (\<lambda>(found, s).
       case fx_ip fixed of
         None \<Rightarrow> Inr \<lparr>fx_subnet = Some (s_id s), fx_ip = None\<rparr>
       | Some ip \<Rightarrow>
           bindR (check_unique_ip network_id (s_id s) ip d) (\<lambda>unique.
             if \<not> unique then Inl (IpAddressInUse network_id ip)
             else if found then Inr \<lparr>fx_subnet = Some (s_id s), fx_ip = Some ip\<rparr>
             else bindR (check_subnet_ip na (s_cidr s) ip) (\<lambda>ok.
               if \<not> ok then Inl (InvalidInput ''IP address %s is not a valid IP for the defined subnet'')
               else Inr \<lparr>fx_subnet = Some (s_id s), fx_ip = Some ip\<rparr>)))"

definition test_fixed_ips_for_port ::
    "netaddr \<Rightarrow> ctxt \<Rightarrow> int \<Rightarrow> string \<Rightarrow> fixed_ip list \<Rightarrow> db \<Rightarrow> exc + fixed_ip list" where
  "test_fixed_ips_for_port na ctx max_fixed_ips network_id fixed_ips d =
     bindR (mapR (\<lambda>f. test_fixed_ip na ctx network_id f d) fixed_ips) (\<lambda>fixed_ip_set.
       if int (length fixed_ip_set) > max_fixed_ips
       then Inl (InvalidInput ''Exceeded maximim amount of fixed ips per port'')
       else Inr fixed_ip_set)"

text \<open>
  \<open>_allocate_fixed_ips\<close>: its argument is a result of \<open>_test_fixed_ips_for_port\<close>, where the
  subnet is always present (\<open>fixed['subnet_id']\<close> would raise otherwise).
\<close>

definition allocate_fixed_ip :: "netaddr \<Rightarrow> ctxt \<Rightarrow> fixed_ip \<Rightarrow> (string \<times> string) dbop" where
  "allocate_fixed_ip na ctx fixed =
     (case fx_subnet fixed of
        None \<Rightarrow> raiseE (KeyError ''subnet_id'')
      | Some sid \<Rightarrow>
          (case fx_ip fixed of
             Some ip \<Rightarrow> thenE (allocate_specific_ip na sid ip) (returnE (ip, sid))
           | None \<Rightarrow>
               bindE (checkE (get_subnet_row ctx sid)) (\<lambda>s. generate_ip na [s])))"

definition allocate_fixed_ips :: "netaddr \<Rightarrow> ctxt \<Rightarrow> fixed_ip list \<Rightarrow> (string \<times> string) list dbop" where
  "allocate_fixed_ips na ctx = mapE (allocate_fixed_ip na ctx)"

text \<open>
  \<open>_update_ips_for_port\<close> first removes what the old and the new list have in common.  The outer
  loop runs over a copy of the old list, the inner one over a copy of the new list as it then
  is; each match removes the first equal element of both lists, and removing an element that is
  no longer there raises \<open>ValueError\<close>.  An old entry is the pair of its address and subnet.
\<close>

type_synonym ip_lists = "(string \<times> string) list \<times> fixed_ip list \<times> (string \<times> string) list"

fun match_new_ips :: "string \<times> string \<Rightarrow> fixed_ip list \<Rightarrow> ip_lists \<Rightarrow> exc + ip_lists" where
  "match_new_ips orig [] st = Inr st"
| "match_new_ips orig (new # rest) (origs, news, prevs) =
     (if fx_ip new = Some (fst orig) then
        bindR (py_remove ValueError orig origs) (\<lambda>origs'.
        bindR (py_remove ValueError new news) (\<lambda>news'.
          match_new_ips orig rest (origs', news', prevs @ [orig])))
      else match_new_ips orig rest (origs, news, prevs))"

fun remove_common_ips :: "(string \<times> string) list \<Rightarrow> ip_lists \<Rightarrow> exc + ip_lists" where
  "remove_common_ips [] st = Inr st"
| "remove_common_ips (orig # rest) st =
     bindR (match_new_ips orig (fst (snd st)) st) (remove_common_ips rest)"

definition update_ips_for_port ::
    "netaddr \<Rightarrow> ctxt \<Rightarrow> int \<Rightarrow> string \<Rightarrow> (string \<times> string) list \<Rightarrow> fixed_ip list
       \<Rightarrow> ((string \<times> string) list \<times> (string \<times> string) list) dbop" where
  "update_ips_for_port na ctx max_fixed_ips network_id original_ips new_ips =
     (if int (length new_ips) > max_fixed_ips
      then raiseE (InvalidInput ''Exceeded maximim amount of fixed ips per port'')
      else
        bindE (liftE (remove_common_ips original_ips (original_ips, new_ips, [])))
          (\<lambda>(origs, news, prev_ips).
        bindE (checkE (test_fixed_ips_for_port na ctx max_fixed_ips network_id news)) (\<lambda>to_add.
        thenE (forE (\<lambda>(ip, sid). recycle_ip na network_id sid ip) origs)
          (if to_add \<noteq> [] then
             bindE (checkE (get_network_row ctx network_id)) (\<lambda>_.
             bindE (allocate_fixed_ips na ctx to_add) (\<lambda>ips. returnE (ips, prev_ips)))
           else returnE ([], prev_ips)))))"

text \<open>
  \<open>_allocate_ips_for_port\<close>; \<open>None\<close> is \<open>ATTR_NOT_SPECIFIED\<close>: one address from the IPv4
  subnets of the network and one from the others, if there are any.
\<close>

definition allocate_ips_for_port ::
    "netaddr \<Rightarrow> ctxt \<Rightarrow> int \<Rightarrow> string \<Rightarrow> fixed_ip list option \<Rightarrow> (string \<times> string) list dbop" where
  "allocate_ips_for_port na ctx max_fixed_ips network_id fixed_ips =
     (case fixed_ips of
        Some fixed \<Rightarrow>
          bindE (checkE (test_fixed_ips_for_port na ctx max_fixed_ips network_id fixed))
            (allocate_fixed_ips na ctx)
      | None \<Rightarrow>
          bindE (getsE (\<lambda>d. filter (\<lambda>s. s_network s = network_id) (query_subnets ctx d))) (\<lambda>ss.
            mapE (generate_ip na)
              (filter (\<lambda>g. g \<noteq> [])
                 [filter (\<lambda>s. s_ip_version s = 4) ss, filter (\<lambda>s. s_ip_version s \<noteq> 4) ss])))"

section \<open>Abstraction and invariant\<close>

definition ival :: "netaddr \<Rightarrow> string \<Rightarrow> int" where
  "ival na s = (case na_ip na s of Some a \<Rightarrow> ip_val a | None \<Rightarrow> 0)"

definition row_vals :: "netaddr \<Rightarrow> ip_range_row \<Rightarrow> int set" where
  "row_vals na r = {ival na (r_first r) .. ival na (r_last r)}"

definition pool_vals :: "netaddr \<Rightarrow> ip_pool_row \<Rightarrow> int set" where
  "pool_vals na p = {ival na (p_first p) .. ival na (p_last p)}"

definition free_in :: "netaddr \<Rightarrow> string \<Rightarrow> db \<Rightarrow> int set" where
  "free_in na sid d = (\<Union>r \<in> set (ranges_of sid d). row_vals na r)"

definition taken_in :: "netaddr \<Rightarrow> string \<Rightarrow> db \<Rightarrow> int set" where
  "taken_in na sid d =
     set (map (\<lambda>a. ival na (a_ip a)) (filter (\<lambda>a. a_subnet a = sid) (ip_allocs d)))"

definition text_ok :: "netaddr \<Rightarrow> nat \<Rightarrow> string \<Rightarrow> bool" where
  "text_ok na v s \<longleftrightarrow> (\<exists>n. na_ip na s = Some (IP v n) \<and> s = na_str na (IP v n))"

definition pool_row_ok :: "netaddr \<Rightarrow> db \<Rightarrow> ip_pool_row \<Rightarrow> bool" where
  "pool_row_ok na d p \<longleftrightarrow> p_id p \<noteq> [] \<and>
     (\<exists>s \<in> set (subnets d). s_id s = p_subnet p \<and>
        text_ok na (s_ip_version s) (p_first p) \<and> text_ok na (s_ip_version s) (p_last p) \<and>
        ival na (p_last p) < ip_max (s_ip_version s)) \<and>
     0 < ival na (p_first p) \<and> ival na (p_first p) \<le> ival na (p_last p)"

definition range_row_ok :: "netaddr \<Rightarrow> db \<Rightarrow> ip_range_row \<Rightarrow> bool" where
  "range_row_ok na d r \<longleftrightarrow>
     (\<exists>p \<in> set (ip_pools d). \<exists>s \<in> set (subnets d). p_id p = r_pool r \<and> s_id s = p_subnet p \<and>
        text_ok na (s_ip_version s) (r_first r) \<and> text_ok na (s_ip_version s) (r_last r) \<and>
        row_vals na r \<subseteq> pool_vals na p) \<and>
     ival na (r_first r) \<le> ival na (r_last r)"

definition alloc_row_ok :: "netaddr \<Rightarrow> db \<Rightarrow> ip_alloc_row \<Rightarrow> bool" where
  "alloc_row_ok na d a \<longleftrightarrow>
     (\<exists>s \<in> set (subnets d). s_id s = a_subnet a \<and> s_network s = a_network a \<and>
        text_ok na (s_ip_version s) (a_ip a))"

definition ranges_apart :: "netaddr \<Rightarrow> db \<Rightarrow> bool" where
  "ranges_apart na d \<longleftrightarrow>
     distinct (ip_ranges d) \<and>
     (\<forall>r \<in> set (ip_ranges d). \<forall>q \<in> set (ip_ranges d).
        r_pool r = r_pool q \<longrightarrow> r \<noteq> q \<longrightarrow> row_vals na r \<inter> row_vals na q = {})"

definition pools_apart :: "netaddr \<Rightarrow> db \<Rightarrow> bool" where
  "pools_apart na d \<longleftrightarrow>
     distinct (map p_id (ip_pools d)) \<and>
     (\<forall>p \<in> set (ip_pools d). \<forall>q \<in> set (ip_pools d).
        p_subnet p = p_subnet q \<longrightarrow> p \<noteq> q \<longrightarrow> pool_vals na p \<inter> pool_vals na q = {})"

definition tables_ok :: "netaddr \<Rightarrow> db \<Rightarrow> bool" where
  "tables_ok na d \<longleftrightarrow>
     distinct (map s_id (subnets d)) \<and>
     (\<forall>p \<in> set (ip_pools d). pool_row_ok na d p) \<and> pools_apart na d \<and>
     (\<forall>r \<in> set (ip_ranges d). range_row_ok na d r) \<and> ranges_apart na d \<and>
     (\<forall>a \<in> set (ip_allocs d). alloc_row_ok na d a)"

text \<open>
  \<open>ipam_held na nid H d\<close>: the invariant while the addresses \<open>H\<close> (with their subnets, of
  the network \<open>nid\<close>) have been taken for a port but are not yet recorded as allocated.  Free
  addresses are neither allocated nor held, and every address of a pool is free, allocated or
  held.  \<open>ipam_inv\<close> is the invariant between requests.
\<close>

definition held_in :: "netaddr \<Rightarrow> (string \<times> string) list \<Rightarrow> string \<Rightarrow> int set" where
  "held_in na H sid = set (map (\<lambda>h. ival na (fst h)) (filter (\<lambda>h. snd h = sid) H))"

definition held_ok :: "netaddr \<Rightarrow> string \<Rightarrow> db \<Rightarrow> string \<times> string \<Rightarrow> bool" where
  "held_ok na nid d h \<longleftrightarrow>
     (\<exists>s \<in> set (subnets d). s_id s = snd h \<and> s_network s = nid \<and> text_ok na (s_ip_version s) (fst h))"

definition ipam_held :: "netaddr \<Rightarrow> string \<Rightarrow> (string \<times> string) list \<Rightarrow> db \<Rightarrow> bool" where
  "ipam_held na nid H d \<longleftrightarrow>
     tables_ok na d \<and>
     (\<forall>sid. free_in na sid d \<inter> (taken_in na sid d \<union> held_in na H sid) = {}) \<and>
     (\<forall>h \<in> set H. held_ok na nid d h) \<and>
     (\<forall>p \<in> set (ip_pools d). pool_vals na p \<subseteq>
        free_in na (p_subnet p) d \<union> taken_in na (p_subnet p) d \<union> held_in na H (p_subnet p))"

definition ipam_inv :: "netaddr \<Rightarrow> db \<Rightarrow> bool" where
  "ipam_inv na d \<longleftrightarrow> ipam_held na [] [] d"

text \<open>
  What the theorems ask of the addresses a request names: they are written the way netaddr
  prints them, and none passes the mask test of a subnet of the other IP version.
\<close>

definition ip_request_ok :: "netaddr \<Rightarrow> db \<Rightarrow> string \<Rightarrow> fixed_ip list \<Rightarrow> bool" where
  "ip_request_ok na d nid fixed_ips \<longleftrightarrow>
     (\<forall>f \<in> set fixed_ips. \<forall>ip. fx_ip f = Some ip \<longrightarrow> canonical na ip \<and>
        (\<forall>s \<in> set (subnets d). s_network s = nid \<longrightarrow> check_subnet_ip na (s_cidr s) ip = Inr True \<longrightarrow>
           text_ok na (s_ip_version s) ip))"

end
