(* ===== verification/IpamInv.thy ===== *)
theory IpamInv
  imports Ipam
begin

text \<open>
  The address operations of \<open>Ipam\<close> on the invariant and on the abstraction \<open>free_in\<close>.
  Every operation replaces some rows of one pool by others; \<open>update_ranges\<close> says what such a
  replacement does, and the operations are its instances.
\<close>

section \<open>Texts and rows\<close>

lemma text_okD:
  assumes "text_ok na v s"
  shows "na_ip na s = Some (IP v (ival na s))" and "s = na_str na (IP v (ival na s))"
  using assms by (auto simp: text_ok_def ival_def)

lemma ival_str [simp]: "netaddr_ok na \<Longrightarrow> ip_valid (IP v n) \<Longrightarrow> ival na (na_str na (IP v n)) = n"
  by (simp add: ival_def)

lemma text_ok_str: "netaddr_ok na \<Longrightarrow> ip_valid (IP v n) \<Longrightarrow> text_ok na v (na_str na (IP v n))"
  by (auto simp: text_ok_def)

lemma text_ok_valid: "netaddr_ok na \<Longrightarrow> text_ok na v s \<Longrightarrow> ip_valid (IP v (ival na s))"
  by (auto dest: text_okD(1) na_ip_valid)

lemma text_ok_between:
  assumes "netaddr_ok na" "text_ok na v s" "text_ok na v t" "ival na s \<le> n" "n \<le> ival na t"
  shows "ip_valid (IP v n)"
  using text_ok_valid [OF assms(1,2)] text_ok_valid [OF assms(1,3)] assms(4,5)
  by (auto simp: ip_valid_def)

lemma text_ok_eq_iff:
  "text_ok na v s \<Longrightarrow> text_ok na v t \<Longrightarrow> s = t \<longleftrightarrow> ival na s = ival na t"
  by (metis text_okD(2))

lemma text_ok_ver_unique: "text_ok na v s \<Longrightarrow> text_ok na w s \<Longrightarrow> v = w"
  by (auto simp: text_ok_def)

lemma row_vals_nonempty: "range_row_ok na d r \<Longrightarrow> row_vals na r \<noteq> {}"
  by (auto simp: range_row_ok_def row_vals_def)

definition pool_in :: "db \<Rightarrow> string \<Rightarrow> string \<Rightarrow> bool" where
  "pool_in d pid sid \<longleftrightarrow> (\<exists>p \<in> set (ip_pools d). p_id p = pid \<and> p_subnet p = sid)"

lemma mem_ranges_of: "r \<in> set (ranges_of sid d) \<longleftrightarrow> r \<in> set (ip_ranges d) \<and> pool_in d (r_pool r) sid"
  by (simp add: set_ranges_of pool_in_def)

lemma pool_unique:
  "tables_ok na d \<Longrightarrow> p \<in> set (ip_pools d) \<Longrightarrow> q \<in> set (ip_pools d) \<Longrightarrow> p_id p = p_id q \<Longrightarrow> p = q"
  by (auto simp: tables_ok_def pools_apart_def distinct_map dest: inj_onD)

lemma subnet_unique:
  "tables_ok na d \<Longrightarrow> s \<in> set (subnets d) \<Longrightarrow> t \<in> set (subnets d) \<Longrightarrow> s_id s = s_id t \<Longrightarrow> s = t"
  by (auto simp: tables_ok_def distinct_map dest: inj_onD)

lemma pool_in_unique: "tables_ok na d \<Longrightarrow> pool_in d pid sid \<Longrightarrow> pool_in d pid sid' \<Longrightarrow> sid = sid'"
  using pool_unique by (fastforce simp: pool_in_def)

lemma tables_ok_pools_apart:
  "tables_ok na d \<Longrightarrow> p \<in> set (ip_pools d) \<Longrightarrow> q \<in> set (ip_pools d) \<Longrightarrow>
     p_subnet p = p_subnet q \<Longrightarrow> p \<noteq> q \<Longrightarrow> pool_vals na p \<inter> pool_vals na q = {}"
  unfolding tables_ok_def pools_apart_def by blast

lemma tables_ok_ranges_apart:
  "tables_ok na d \<Longrightarrow> r \<in> set (ip_ranges d) \<Longrightarrow> q \<in> set (ip_ranges d) \<Longrightarrow>
     r_pool r = r_pool q \<Longrightarrow> r \<noteq> q \<Longrightarrow> row_vals na r \<inter> row_vals na q = {}"
  unfolding tables_ok_def ranges_apart_def by blast

lemma tables_ok_rows:
  assumes "tables_ok na d"
  shows "distinct (map s_id (subnets d))"
    and "p \<in> set (ip_pools d) \<Longrightarrow> pool_row_ok na d p"
    and "r \<in> set (ip_ranges d) \<Longrightarrow> range_row_ok na d r"
    and "a \<in> set (ip_allocs d) \<Longrightarrow> alloc_row_ok na d a"
    and "distinct (ip_ranges d)" "distinct (map p_id (ip_pools d))"
  using assms unfolding tables_ok_def ranges_apart_def pools_apart_def by blast+

lemma range_row_ok_cong:
  "ip_pools d' = ip_pools d \<Longrightarrow> subnets d' = subnets d \<Longrightarrow> range_row_ok na d' r = range_row_ok na d r"
  by (simp add: range_row_ok_def)

lemma tables_ok_rangesI:
  assumes "tables_ok na d" and "distinct rs" and "\<And>r. r \<in> set rs \<Longrightarrow> range_row_ok na d r"
    and "\<And>r q. r \<in> set rs \<Longrightarrow> q \<in> set rs \<Longrightarrow> r_pool r = r_pool q \<Longrightarrow> r \<noteq> q \<Longrightarrow>
           row_vals na r \<inter> row_vals na q = {}"
  shows "tables_ok na (d\<lparr>ip_ranges := rs\<rparr>)"
  using assms unfolding tables_ok_def ranges_apart_def pools_apart_def
  by (simp add: pool_row_ok_def alloc_row_ok_def range_row_ok_def)

lemma range_in_pool:
  assumes "tables_ok na d" "r \<in> set (ip_ranges d)" "p \<in> set (ip_pools d)" "p_id p = r_pool r"
  shows "row_vals na r \<subseteq> pool_vals na p"
proof -
  from assms(1,2) have "range_row_ok na d r" by (auto simp: tables_ok_def)
  then obtain p' where "p' \<in> set (ip_pools d)" "p_id p' = r_pool r" "row_vals na r \<subseteq> pool_vals na p'"
    by (auto simp: range_row_ok_def)
  with assms(3,4) pool_unique [OF assms(1), of p p'] show ?thesis by auto
qed

lemma ranges_of_apart:
  assumes ok: "tables_ok na d" and r: "r \<in> set (ranges_of sid d)" and q: "q \<in> set (ranges_of sid d)"
    and "r \<noteq> q"
  shows "row_vals na r \<inter> row_vals na q = {}"
proof (cases "r_pool r = r_pool q")
  case True
  with ok r q \<open>r \<noteq> q\<close> show ?thesis
    by (auto simp: tables_ok_def ranges_apart_def mem_ranges_of)
next
  case False
  from r obtain p where p: "p \<in> set (ip_pools d)" "p_id p = r_pool r" "p_subnet p = sid"
    by (auto simp: mem_ranges_of pool_in_def)
  from q obtain p' where p': "p' \<in> set (ip_pools d)" "p_id p' = r_pool q" "p_subnet p' = sid"
    by (auto simp: mem_ranges_of pool_in_def)
  from p p' False have "pool_vals na p \<inter> pool_vals na p' = {}"
    by (intro tables_ok_pools_apart [OF ok]) auto
  moreover from p p' r q have "row_vals na r \<subseteq> pool_vals na p" "row_vals na q \<subseteq> pool_vals na p'"
    using range_in_pool [OF ok] by (auto simp: mem_ranges_of)
  ultimately show ?thesis by blast
qed

section \<open>Replacing rows of one pool\<close>

lemma update_ranges:
  assumes ok: "tables_ok na d"
    and R: "R \<subseteq> set (ip_ranges d)" "\<forall>r \<in> R. r_pool r = pid"
    and N: "\<forall>q \<in> N. r_pool q = pid \<and> range_row_ok na d q"
    and apartN: "\<forall>q \<in> N. \<forall>q' \<in> N. q \<noteq> q' \<longrightarrow> row_vals na q \<inter> row_vals na q' = {}"
    and apart: "\<forall>q \<in> N. \<forall>r \<in> set (ip_ranges d) - R. r_pool r = pid \<longrightarrow>
                  row_vals na q \<inter> row_vals na r = {}"
    and rs: "set rs = set (ip_ranges d) - R \<union> N" "distinct rs"
  shows "tables_ok na (d\<lparr>ip_ranges := rs\<rparr>)" (is ?ok)
    and "free_in na sid (d\<lparr>ip_ranges := rs\<rparr>) =
           (if pool_in d pid sid
            then (free_in na sid d - (\<Union>r \<in> R. row_vals na r)) \<union> (\<Union>q \<in> N. row_vals na q)
            else free_in na sid d)" (is ?free)
proof -
  show ?ok
  proof (rule tables_ok_rangesI [OF ok rs(2)])
    show "range_row_ok na d r" if "r \<in> set rs" for r
      using that N tables_ok_rows(3) [OF ok] unfolding rs(1) by blast
    fix r q
    assume rq: "r \<in> set rs" "q \<in> set rs" "r_pool r = r_pool q" "r \<noteq> q"
    consider "r \<in> N" "q \<in> N" | "r \<in> N" "q \<in> set (ip_ranges d) - R"
      | "q \<in> N" "r \<in> set (ip_ranges d) - R" | "r \<in> set (ip_ranges d)" "q \<in> set (ip_ranges d)"
      using rq unfolding rs(1) by blast
    then show "row_vals na r \<inter> row_vals na q = {}"
    proof cases
      case 1 then show ?thesis using apartN rq by blast
    next
      case 2
      with N rq(3) have "r_pool q = pid" by simp
      with 2 apart show ?thesis by blast
    next
      case 3
      with N rq(3) have "r_pool r = pid" by simp
      with 3 apart show ?thesis by blast
    next
      case 4 with rq show ?thesis by (intro tables_ok_ranges_apart [OF ok])
    qed
  qed
  have of: "set (ranges_of sid (d\<lparr>ip_ranges := rs\<rparr>)) =
      {r \<in> set (ip_ranges d) - R \<union> N. pool_in d (r_pool r) sid}"
    by (simp add: ranges_of_def pool_in_def rs(1))
  show ?free
  proof (cases "pool_in d pid sid")
    case False
    then have "\<forall>r \<in> R. \<not> pool_in d (r_pool r) sid" "\<forall>r \<in> N. \<not> pool_in d (r_pool r) sid"
      using R(2) N by simp_all
    then have "set (ranges_of sid (d\<lparr>ip_ranges := rs\<rparr>)) = set (ranges_of sid d)"
      unfolding of set_eq_iff mem_ranges_of by blast
    with False show ?thesis by (simp add: free_in_def)
  next
    case True
    then have in_sid: "\<forall>r \<in> R. pool_in d (r_pool r) sid" "\<forall>r \<in> N. pool_in d (r_pool r) sid"
      using R(2) N by simp_all
    then have Rsub: "R \<subseteq> set (ranges_of sid d)"
      using R(1) unfolding subset_iff mem_ranges_of by blast
    from in_sid have eq: "set (ranges_of sid (d\<lparr>ip_ranges := rs\<rparr>)) = set (ranges_of sid d) - R \<union> N"
      unfolding of set_eq_iff Un_iff Diff_iff mem_ranges_of by blast
    have "(\<Union>r \<in> set (ranges_of sid d) - R. row_vals na r) =
        free_in na sid d - (\<Union>r \<in> R. row_vals na r)"
    proof -
      have "row_vals na r \<inter> row_vals na q = {}" if "r \<in> R" "q \<in> set (ranges_of sid d) - R" for r q
        using that Rsub by (intro ranges_of_apart [OF ok, of _ sid]) auto
      then show ?thesis unfolding free_in_def by blast
    qed
    with True show ?thesis unfolding free_in_def [of _ _ "d\<lparr>ip_ranges := rs\<rparr>"] eq by auto
  qed
qed

section \<open>Taking one address\<close>

text \<open>
  \<open>took na d sid v d'\<close>: only the table of ranges changed, it is still in order, and the address
  \<open>v\<close> is no longer available in the subnet \<open>sid\<close>, which is all that changed in the abstraction.
\<close>

definition took :: "netaddr \<Rightarrow> db \<Rightarrow> string \<Rightarrow> int \<Rightarrow> db \<Rightarrow> bool" where
  "took na d sid v d' \<longleftrightarrow>
     tables_ok na d' \<and> (\<exists>rs. d' = d\<lparr>ip_ranges := rs\<rparr>) \<and>
     free_in na sid d' = free_in na sid d - {v} \<and>
     (\<forall>sid'. sid' \<noteq> sid \<longrightarrow> free_in na sid' d' = free_in na sid' d)"

lemma range_row_okE:
  assumes "range_row_ok na d r"
  obtains v where "text_ok na v (r_first r)" "text_ok na v (r_last r)"
    "ival na (r_first r) \<le> ival na (r_last r)"
  using assms by (auto simp: range_row_ok_def)

lemma range_piece_ok:
  assumes r: "range_row_ok na d r" and v: "text_ok na v (r_first r)"
    and q: "r_pool q = r_pool r" "text_ok na v (r_first q)" "text_ok na v (r_last q)"
      "ival na (r_first q) \<le> ival na (r_last q)" "row_vals na q \<subseteq> row_vals na r"
  shows "range_row_ok na d q"
proof -
  from r obtain p s where "p \<in> set (ip_pools d)" "s \<in> set (subnets d)" "p_id p = r_pool r"
    "s_id s = p_subnet p" "text_ok na (s_ip_version s) (r_first r)" "row_vals na r \<subseteq> pool_vals na p"
    by (auto simp: range_row_ok_def)
  moreover from this(5) v have "s_ip_version s = v" by (rule text_ok_ver_unique)
  ultimately show ?thesis unfolding range_row_ok_def using q by (metis order_trans)
qed

lemma took_pieces:
  assumes ok: "tables_ok na d" and r: "r \<in> set (ranges_of sid d)" and v: "v \<in> row_vals na r"
    and N: "\<forall>q \<in> N. r_pool q = r_pool r \<and> range_row_ok na d q"
    and apartN: "\<forall>q \<in> N. \<forall>q' \<in> N. q \<noteq> q' \<longrightarrow> row_vals na q \<inter> row_vals na q' = {}"
    and pieces: "(\<Union>q \<in> N. row_vals na q) = row_vals na r - {v}"
    and rs: "set rs = set (ip_ranges d) - {r} \<union> N" "distinct rs"
  shows "took na d sid v (d\<lparr>ip_ranges := rs\<rparr>)"
proof -
  have in_d: "r \<in> set (ip_ranges d)" and p: "pool_in d (r_pool r) sid"
    using r by (simp_all add: mem_ranges_of)
  have apart: "\<forall>q \<in> N. \<forall>r' \<in> set (ip_ranges d) - {r}. r_pool r' = r_pool r \<longrightarrow>
      row_vals na q \<inter> row_vals na r' = {}"
  proof (intro ballI impI)
    fix q r' assume "q \<in> N" "r' \<in> set (ip_ranges d) - {r}" "r_pool r' = r_pool r"
    then have "row_vals na r' \<inter> row_vals na r = {}"
      using in_d by (intro tables_ok_ranges_apart [OF ok]) auto
    with pieces \<open>q \<in> N\<close> show "row_vals na q \<inter> row_vals na r' = {}" by blast
  qed
  note upd = update_ranges [OF ok _ _ N apartN apart rs, simplified, OF in_d]
  have "row_vals na r \<subseteq> free_in na sid d" using r by (auto simp: free_in_def)
  then have "free_in na sid d - row_vals na r \<union> (row_vals na r - {v}) = free_in na sid d - {v}"
    using v by blast
  then have "free_in na sid (d\<lparr>ip_ranges := rs\<rparr>) = free_in na sid d - {v}"
    using upd(2) [of sid] p by (simp add: pieces)
  moreover have "free_in na sid' (d\<lparr>ip_ranges := rs\<rparr>) = free_in na sid' d" if "sid' \<noteq> sid" for sid'
    using upd(2) [of sid'] pool_in_unique [OF ok p, of sid'] that by auto
  ultimately show ?thesis using upd(1) by (auto simp: took_def)
qed

lemma piece_not_row:
  assumes ok: "tables_ok na d" and r: "r \<in> set (ip_ranges d)" and q: "range_row_ok na d q"
    "r_pool q = r_pool r" "row_vals na q \<subseteq> row_vals na r" "q \<noteq> r"
  shows "q \<notin> set (ip_ranges d)"
proof
  assume "q \<in> set (ip_ranges d)"
  with r q(2,4) have "row_vals na q \<inter> row_vals na r = {}"
    by (intro tables_ok_ranges_apart [OF ok])
  with q(3) row_vals_nonempty [OF q(1)] show False by blast
qed

lemma del_range_took:
  assumes ok: "tables_ok na d" and r: "r \<in> set (ranges_of sid d)" and v: "row_vals na r = {v}"
  shows "\<exists>d'. del_range r d = Inr ((), d') \<and> took na d sid v d'"
proof -
  have "took na d sid v (d\<lparr>ip_ranges := filter (\<lambda>q. q \<noteq> r) (ip_ranges d)\<rparr>)"
    using ok r v tables_ok_rows(5) [OF ok] by (intro took_pieces [where N = "{}"]) auto
  then show ?thesis by (simp add: del_range_def)
qed

lemma set_range_took:
  assumes ok: "tables_ok na d" and r: "r \<in> set (ranges_of sid d)"
    and q: "r_pool q = r_pool r" "range_row_ok na d q" "row_vals na q = row_vals na r - {v}"
    and v: "v \<in> row_vals na r"
  shows "\<exists>d'. set_range r q d = Inr ((), d') \<and> took na d sid v d'"
proof -
  have in_d: "r \<in> set (ip_ranges d)" using r by (simp add: mem_ranges_of)
  have "q \<noteq> r" using q(3) v by auto
  then have q_new: "q \<notin> set (ip_ranges d)"
    using q by (intro piece_not_row [OF ok in_d]) auto
  then have "took na d sid v (d\<lparr>ip_ranges := replace_row r q (ip_ranges d)\<rparr>)"
    using ok r v q tables_ok_rows(5) [OF ok] in_d
    by (intro took_pieces [where N = "{q}"]) (auto simp: set_replace_row intro: distinct_replace_row)
  with q_new show ?thesis by (simp add: set_range_def)
qed

text \<open>Moving the lower, or the upper, end of a range past the address taken.\<close>

lemma first_moved_took:
  assumes na: "netaddr_ok na" and ok: "tables_ok na d" and r: "r \<in> set (ranges_of sid d)"
    and v: "text_ok na v (r_first r)" and lt: "ival na (r_first r) < ival na (r_last r)"
  shows "\<exists>d'. set_range r (r\<lparr>r_first := na_str na (IP v (ival na (r_first r) + 1))\<rparr>) d = Inr ((), d') \<and>
              took na d sid (ival na (r_first r)) d'"
proof -
  have ok_r: "range_row_ok na d r"
    using r tables_ok_rows(3) [OF ok] by (simp add: mem_ranges_of)
  then obtain w where "text_ok na w (r_first r)" "text_ok na w (r_last r)" by (rule range_row_okE)
  with v have l: "text_ok na v (r_last r)" using text_ok_ver_unique by blast
  have valid: "ip_valid (IP v (ival na (r_first r) + 1))"
    using lt by (intro text_ok_between [OF na v l]) auto
  show ?thesis
    using na ok r v l lt valid
    by (intro set_range_took range_piece_ok [OF ok_r v] text_ok_str)
      (auto simp: row_vals_def text_ok_str)
qed

lemma last_moved_took:
  assumes na: "netaddr_ok na" and ok: "tables_ok na d" and r: "r \<in> set (ranges_of sid d)"
    and v: "text_ok na v (r_first r)" and lt: "ival na (r_first r) < ival na (r_last r)"
  shows "\<exists>d'. set_range r (r\<lparr>r_last := na_str na (IP v (ival na (r_last r) - 1))\<rparr>) d = Inr ((), d') \<and>
              took na d sid (ival na (r_last r)) d'"
proof -
  have ok_r: "range_row_ok na d r"
    using r tables_ok_rows(3) [OF ok] by (simp add: mem_ranges_of)
  then obtain w where "text_ok na w (r_first r)" "text_ok na w (r_last r)" by (rule range_row_okE)
  with v have l: "text_ok na v (r_last r)" using text_ok_ver_unique by blast
  have valid: "ip_valid (IP v (ival na (r_last r) - 1))"
    using lt by (intro text_ok_between [OF na v l]) auto
  show ?thesis
    using na ok r v l lt valid
    by (intro set_range_took range_piece_ok [OF ok_r v] text_ok_str)
      (auto simp: row_vals_def text_ok_str)
qed

lemma split_took:
  assumes na: "netaddr_ok na" and ok: "tables_ok na d" and r: "r \<in> set (ranges_of sid d)"
    and v: "text_ok na v (r_first r)"
    and between: "ival na (r_first r) < n" "n < ival na (r_last r)"
  shows "\<exists>d'. thenE (set_range r (r\<lparr>r_last := na_str na (IP v (n - 1))\<rparr>))
                (add_range \<lparr>r_pool = r_pool r, r_first = na_str na (IP v (n + 1)), r_last = r_last r\<rparr>) d
              = Inr ((), d') \<and> took na d sid n d'"
proof -
  let ?q = "r\<lparr>r_last := na_str na (IP v (n - 1))\<rparr>"
  let ?q' = "\<lparr>r_pool = r_pool r, r_first = na_str na (IP v (n + 1)), r_last = r_last r\<rparr>"
  have in_d: "r \<in> set (ip_ranges d)" and ok_r: "range_row_ok na d r"
    using r tables_ok_rows(3) [OF ok] by (simp_all add: mem_ranges_of)
  from ok_r obtain w where "text_ok na w (r_first r)" "text_ok na w (r_last r)" by (rule range_row_okE)
  with v have l: "text_ok na v (r_last r)" using text_ok_ver_unique by blast
  have valid: "ip_valid (IP v (n - 1))" "ip_valid (IP v (n + 1))"
    using between by (auto intro!: text_ok_between [OF na v l])
  then have ival: "ival na (na_str na (IP v (n - 1))) = n - 1" "ival na (na_str na (IP v (n + 1))) = n + 1"
    using na by simp_all
  have rows: "row_vals na ?q = {ival na (r_first r) .. n - 1}"
      "row_vals na ?q' = {n + 1 .. ival na (r_last r)}"
    by (simp_all add: row_vals_def ival)
  have okq: "range_row_ok na d ?q" "range_row_ok na d ?q'"
    using between valid v l
    by (auto intro!: range_piece_ok [OF ok_r v] simp: text_ok_str [OF na] ival rows) (auto simp: row_vals_def)
  have disj: "row_vals na ?q \<inter> row_vals na ?q' = {}" "n \<notin> row_vals na ?q" "n \<notin> row_vals na ?q'"
    unfolding rows by auto
  have "n \<in> row_vals na r" using between by (simp add: row_vals_def)
  then have neq: "?q \<noteq> r" "?q' \<noteq> r"
    using disj(2,3) by metis+
  have "?q \<noteq> ?q'"
    using disj(1) row_vals_nonempty [OF okq(2)] by (metis Int_absorb)
  note neq = neq this
  have sub: "row_vals na ?q \<subseteq> row_vals na r" "row_vals na ?q' \<subseteq> row_vals na r"
    using between by (auto simp: rows row_vals_def [of na r])
  have new: "?q \<notin> set (ip_ranges d)" "?q' \<notin> set (ip_ranges d)"
    using piece_not_row [OF ok in_d] okq sub neq by auto
  let ?rs = "replace_row r ?q (ip_ranges d) @ [?q']"
  have "took na d sid n (d\<lparr>ip_ranges := ?rs\<rparr>)"
  proof (rule took_pieces [OF ok r, where N = "{?q, ?q'}"])
    show "n \<in> row_vals na r" using between by (simp add: row_vals_def)
    show "(\<Union>q \<in> {?q, ?q'}. row_vals na q) = row_vals na r - {n}"
      unfolding row_vals_def [of na r] using between by (auto simp: rows)
    show "set ?rs = set (ip_ranges d) - {r} \<union> {?q, ?q'}"
      using in_d by (auto simp: set_replace_row)
    show "distinct ?rs"
      using new neq in_d tables_ok_rows(5) [OF ok] by (auto simp: set_replace_row intro: distinct_replace_row)
  qed (use okq disj in auto)
  moreover have "?q' \<notin> set (replace_row r ?q (ip_ranges d))"
    using new neq in_d by (auto simp: set_replace_row)
  ultimately show ?thesis
    using new by (simp add: thenE_def bindE_def set_range_def add_range_def)
qed

section \<open>Allocating a given address\<close>

lemma allocate_from_ranges_took:
  assumes na: "netaddr_ok na" and ok: "tables_ok na d"
    and ip: "ip_valid ip" "\<forall>r \<in> set rs. text_ok na (ip_ver ip) (r_first r)"
    and rs: "set rs \<subseteq> set (ranges_of sid d)"
  shows "\<exists>d'. allocate_from_ranges na adr ip rs d = Inr ((), d') \<and>
           (took na d sid (ip_val ip) d' \<or> d' = d \<and> ip_val ip \<notin> (\<Union>r \<in> set rs. row_vals na r))"
  using ip(2) rs
proof (induction rs)
  case Nil
  then show ?case by simp
next
  case (Cons r rs)
  let ?v = "ip_ver ip" and ?n = "ip_val ip"
  have r: "r \<in> set (ranges_of sid d)" and v: "text_ok na ?v (r_first r)" using Cons.prems by auto
  have "range_row_ok na d r"
    using r tables_ok_rows(3) [OF ok] by (simp add: mem_ranges_of)
  then obtain w where "text_ok na w (r_first r)" "text_ok na w (r_last r)"
    and le: "ival na (r_first r) \<le> ival na (r_last r)" by (rule range_row_okE)
  with v have l: "text_ok na ?v (r_last r)" using text_ok_ver_unique by blast
  note parse [simp] = text_okD(1) [OF v] text_okD(1) [OF l]
  note step = bindE_def py_ip_def liftE_def
  have inside: "ip_plus ip 1 = Inr (IP ?v (?n + 1))" if "?n < ival na (r_last r)"
    using that text_ok_valid [OF na l] ip(1) by (auto simp: ip_plus_def ip_valid_def)
  have inside': "ip_plus ip (- 1) = Inr (IP ?v (?n - 1))" if "ival na (r_first r) < ?n"
    using that text_ok_valid [OF na v] ip(1) by (auto simp: ip_plus_def ip_valid_def)
  consider (out) "\<not> (ival na (r_first r) \<le> ?n \<and> ?n \<le> ival na (r_last r))"
    | (only) "ival na (r_first r) = ?n" "ival na (r_last r) = ?n"
    | (first) "ival na (r_first r) = ?n" "?n < ival na (r_last r)"
    | (last) "ival na (r_first r) < ?n" "ival na (r_last r) = ?n"
    | (mid) "ival na (r_first r) < ?n" "?n < ival na (r_last r)"
    using le by linarith
  then show ?case
  proof cases
    case out
    then have "allocate_from_ranges na adr ip (r # rs) d = allocate_from_ranges na adr ip rs d"
      by (auto simp: step)
    moreover have "?n \<notin> row_vals na r" using out by (auto simp: row_vals_def)
    ultimately show ?thesis using Cons by auto
  next
    case only
    then have "row_vals na r = {?n}" by (simp add: row_vals_def)
    from del_range_took [OF ok r this] only show ?thesis by (auto simp: step)
  next
    case first
    with first_moved_took [OF na ok r v] show ?thesis by (auto simp: step inside)
  next
    case last
    with last_moved_took [OF na ok r v] show ?thesis by (auto simp: step inside')
  next
    case mid
    with split_took [OF na ok r v mid] show ?thesis by (auto simp: step inside inside')
  qed
qed

lemma ranges_of_text_ok:
  assumes ok: "tables_ok na d" and r: "r \<in> set (ranges_of sid d)"
    and s: "s \<in> set (subnets d)" "s_id s = sid"
  shows "text_ok na (s_ip_version s) (r_first r)"
proof -
  from r have r': "r \<in> set (ip_ranges d)" "pool_in d (r_pool r) sid" by (simp_all add: mem_ranges_of)
  from tables_ok_rows(3) [OF ok r'(1)] obtain p t where
    p: "p \<in> set (ip_pools d)" "t \<in> set (subnets d)" "p_id p = r_pool r" "s_id t = p_subnet p"
      "text_ok na (s_ip_version t) (r_first r)"
    by (auto simp: range_row_ok_def)
  have "p_subnet p = sid"
    using pool_in_unique [OF ok _ r'(2)] p by (auto simp: pool_in_def)
  with p s subnet_unique [OF ok, of s t] show ?thesis by simp
qed

lemma not_free_took: "tables_ok na d \<Longrightarrow> v \<notin> free_in na sid d \<Longrightarrow> took na d sid v d"
  unfolding took_def by (auto intro: exI [of _ "ip_ranges d"])

lemma allocate_specific_took:
  assumes na: "netaddr_ok na" and ok: "tables_ok na d"
    and s: "s \<in> set (subnets d)" "s_id s = sid" and adr: "text_ok na (s_ip_version s) adr"
  shows "\<exists>d'. allocate_specific_ip na sid adr d = Inr ((), d') \<and> took na d sid (ival na adr) d'"
proof -
  let ?ip = "IP (s_ip_version s) (ival na adr)"
  have "\<exists>d'. allocate_from_ranges na adr ?ip (ranges_of sid d) d = Inr ((), d') \<and>
      (took na d sid (ival na adr) d' \<or>
       d' = d \<and> ival na adr \<notin> (\<Union>r \<in> set (ranges_of sid d). row_vals na r))"
    using allocate_from_ranges_took [OF na ok text_ok_valid [OF na adr], of "ranges_of sid d" sid adr]
      ranges_of_text_ok [OF ok _ s] by auto
  then show ?thesis
    using text_okD(1) [OF adr] not_free_took [OF ok, of "ival na adr" sid]
    by (auto simp: allocate_specific_ip_def bindE_def liftE_def py_ip_def free_in_def)
qed

section \<open>Generating an address\<close>

lemma generate_ip_from_none:
  "\<forall>s \<in> set ss. ranges_of (s_id s) d = [] \<Longrightarrow> all = a # as \<Longrightarrow>
     generate_ip_from na all ss d = Inl (IpAddressGenerationFailure (s_network a))"
  by (induction ss) (auto simp: bindE_def)

lemma free_in_empty_iff:
  "tables_ok na d \<Longrightarrow> free_in na sid d = {} \<longleftrightarrow> ranges_of sid d = []"
proof -
  assume ok: "tables_ok na d"
  have "row_vals na r \<noteq> {}" if "r \<in> set (ranges_of sid d)" for r
    using that tables_ok_rows(3) [OF ok] row_vals_nonempty by (auto simp: mem_ranges_of)
  then show ?thesis unfolding free_in_def by (cases "ranges_of sid d") auto
qed

lemma generate_ip_from_some:
  assumes na: "netaddr_ok na" and ok: "tables_ok na d"
    and ss: "set ss \<subseteq> set (subnets d)" and some: "\<exists>s \<in> set ss. ranges_of (s_id s) d \<noteq> []"
  shows "\<exists>s \<in> set ss. \<exists>adr d'. generate_ip_from na all ss d = Inr ((adr, s_id s), d') \<and>
           text_ok na (s_ip_version s) adr \<and> ival na adr \<in> free_in na (s_id s) d \<and>
           took na d (s_id s) (ival na adr) d'"
  using ss some
proof (induction ss)
  case Nil
  then show ?case by simp
next
  case (Cons s ss)
  show ?case
  proof (cases "ranges_of (s_id s) d")
    case Nil
    with Cons show ?thesis by (auto simp: bindE_def)
  next
    case (Cons r rest)
    then have r: "r \<in> set (ranges_of (s_id s) d)" by simp
    have v: "text_ok na (s_ip_version s) (r_first r)"
      using Cons.prems by (intro ranges_of_text_ok [OF ok r]) auto
    from r have "range_row_ok na d r" using tables_ok_rows(3) [OF ok] by (simp add: mem_ranges_of)
    then obtain w where "text_ok na w (r_first r)" "text_ok na w (r_last r)"
      and le: "ival na (r_first r) \<le> ival na (r_last r)" by (rule range_row_okE)
    with v have l: "text_ok na (s_ip_version s) (r_last r)" using text_ok_ver_unique by blast
    have free: "ival na (r_first r) \<in> free_in na (s_id s) d"
      using r le by (auto simp: free_in_def row_vals_def)
    show ?thesis
    proof (cases "r_first r = r_last r")
      case True
      then have "row_vals na r = {ival na (r_first r)}" by (simp add: row_vals_def)
      from del_range_took [OF ok r this] True free v Cons show ?thesis
        by (auto simp: bindE_def thenE_def)
    next
      case False
      then have lt: "ival na (r_first r) < ival na (r_last r)"
        using text_ok_eq_iff [OF v l] le by simp
      have "ip_plus (IP (s_ip_version s) (ival na (r_first r))) 1 =
          Inr (IP (s_ip_version s) (ival na (r_first r) + 1))"
        using lt text_ok_valid [OF na v] text_ok_valid [OF na l] by (auto simp: ip_plus_def ip_valid_def)
      with first_moved_took [OF na ok r v lt] False free v Cons text_okD(1) [OF v] show ?thesis
        by (auto simp: bindE_def thenE_def liftE_def py_ip_def)
    qed
  qed
qed

section \<open>Returning an address\<close>

definition gave :: "netaddr \<Rightarrow> db \<Rightarrow> string \<Rightarrow> int \<Rightarrow> db \<Rightarrow> bool" where
  "gave na d sid v d' \<longleftrightarrow>
     tables_ok na d' \<and> (\<exists>rs. d' = d\<lparr>ip_ranges := rs\<rparr>) \<and>
     free_in na sid d' = insert v (free_in na sid d) \<and>
     (\<forall>sid'. sid' \<noteq> sid \<longrightarrow> free_in na sid' d' = free_in na sid' d)"

lemma gave_rows:
  assumes ok: "tables_ok na d" and pid: "pool_in d pid sid"
    and R: "R \<subseteq> set (ip_ranges d)" "\<forall>r \<in> R. r_pool r = pid"
    and q: "r_pool q = pid" "range_row_ok na d q" "row_vals na q = insert v (\<Union>r \<in> R. row_vals na r)"
    and v: "v \<notin> free_in na sid d"
    and rs: "set rs = set (ip_ranges d) - R \<union> {q}" "distinct rs"
  shows "gave na d sid v (d\<lparr>ip_ranges := rs\<rparr>)"
proof -
  have apart: "\<forall>q' \<in> {q}. \<forall>r \<in> set (ip_ranges d) - R. r_pool r = pid \<longrightarrow> row_vals na q' \<inter> row_vals na r = {}"
  proof (intro ballI impI, simp only: singleton_iff)
    fix r assume r: "r \<in> set (ip_ranges d) - R" "r_pool r = pid"
    then have "row_vals na r \<subseteq> free_in na sid d"
      using pid by (auto simp: free_in_def mem_ranges_of)
    moreover have "row_vals na r' \<inter> row_vals na r = {}" if "r' \<in> R" for r'
      using that r R by (intro tables_ok_ranges_apart [OF ok]) auto
    ultimately show "row_vals na q \<inter> row_vals na r = {}" unfolding q(3) using v by blast
  qed
  have N: "\<forall>q' \<in> {q}. r_pool q' = pid \<and> range_row_ok na d q'" using q by simp
  note upd = update_ranges [OF ok R N _ apart rs, simplified]
  have "(\<Union>r \<in> R. row_vals na r) \<subseteq> free_in na sid d"
    using R pid by (fastforce simp: free_in_def mem_ranges_of)
  then have "free_in na sid (d\<lparr>ip_ranges := rs\<rparr>) = insert v (free_in na sid d)"
    using upd(2) [of sid] pid q(3) by auto
  moreover have "free_in na sid' (d\<lparr>ip_ranges := rs\<rparr>) = free_in na sid' d" if "sid' \<noteq> sid" for sid'
    using upd(2) [of sid'] pool_in_unique [OF ok pid, of sid'] that by auto
  ultimately show ?thesis using upd(1) by (auto simp: gave_def)
qed

lemma row_with_free_value_new:
  assumes "pool_in d pid sid" "r_pool q = pid" "v \<in> row_vals na q" "v \<notin> free_in na sid d"
  shows "q \<notin> set (ip_ranges d)"
  using assms by (auto simp: free_in_def mem_ranges_of)

lemma range_bounds:
  assumes "tables_ok na d" "r \<in> set (ip_ranges d)"
  shows "ival na (r_first r) \<in> row_vals na r" "ival na (r_last r) \<in> row_vals na r"
  using tables_ok_rows(3) [OF assms] by (simp_all add: range_row_ok_def row_vals_def)

text \<open>The neighbours of an address that is not free: at most one row starts after it, one ends before it.\<close>

lemma range_starting_eq:
  assumes ok: "tables_ok na d"
  shows "range_starting pid t d = Inr (find (\<lambda>r. r_pool r = pid \<and> r_first r = t) (ip_ranges d))"
  unfolding range_starting_def
proof (rule one_row_unique [OF tables_ok_rows(5) [OF ok]], rule ccontr)
  fix r q assume *: "r \<in> set (ip_ranges d)" "q \<in> set (ip_ranges d)"
    "r_pool r = pid \<and> r_first r = t" "r_pool q = pid \<and> r_first q = t" "r \<noteq> q"
  then have "row_vals na r \<inter> row_vals na q = {}" by (intro tables_ok_ranges_apart [OF ok]) auto
  moreover have "ival na t \<in> row_vals na r \<inter> row_vals na q"
    using * range_bounds [OF ok *(1)] range_bounds [OF ok *(2)] by auto
  ultimately show False by blast
qed

lemma range_ending_eq:
  assumes ok: "tables_ok na d"
  shows "range_ending pid t d = Inr (find (\<lambda>r. r_pool r = pid \<and> r_last r = t) (ip_ranges d))"
  unfolding range_ending_def
proof (rule one_row_unique [OF tables_ok_rows(5) [OF ok]], rule ccontr)
  fix r q assume *: "r \<in> set (ip_ranges d)" "q \<in> set (ip_ranges d)"
    "r_pool r = pid \<and> r_last r = t" "r_pool q = pid \<and> r_last q = t" "r \<noteq> q"
  then have "row_vals na r \<inter> row_vals na q = {}" by (intro tables_ok_ranges_apart [OF ok]) auto
  moreover have "ival na t \<in> row_vals na r \<inter> row_vals na q"
    using * range_bounds [OF ok *(1)] range_bounds [OF ok *(2)] by auto
  ultimately show False by blast
qed

lemma pool_row_version:
  assumes ok: "tables_ok na d" and p: "p \<in> set (ip_pools d)"
    and s: "s \<in> set (subnets d)" "s_id s = p_subnet p"
  shows "text_ok na (s_ip_version s) (p_first p)" "text_ok na (s_ip_version s) (p_last p)"
    "0 < ival na (p_first p)" "ival na (p_first p) \<le> ival na (p_last p)"
    "ival na (p_last p) < ip_max (s_ip_version s)" "p_id p \<noteq> []"
proof -
  from tables_ok_rows(2) [OF ok p] obtain t where t: "t \<in> set (subnets d)" "s_id t = p_subnet p"
    "text_ok na (s_ip_version t) (p_first p)" "text_ok na (s_ip_version t) (p_last p)"
    "ival na (p_last p) < ip_max (s_ip_version t)"
    by (auto simp: pool_row_ok_def)
  moreover have "t = s" using subnet_unique [OF ok] s t by simp
  ultimately show "text_ok na (s_ip_version s) (p_first p)" "text_ok na (s_ip_version s) (p_last p)"
    "ival na (p_last p) < ip_max (s_ip_version s)" by simp_all
qed (use tables_ok_rows(2) [OF ok p] in \<open>auto simp: pool_row_ok_def\<close>)

lemma range_row_version:
  assumes ok: "tables_ok na d" and r: "r \<in> set (ip_ranges d)" "pool_in d (r_pool r) sid"
    and s: "s \<in> set (subnets d)" "s_id s = sid"
  shows "text_ok na (s_ip_version s) (r_first r)" "text_ok na (s_ip_version s) (r_last r)"
    "ival na (r_first r) \<le> ival na (r_last r)"
proof -
  show f: "text_ok na (s_ip_version s) (r_first r)"
    using r s by (intro ranges_of_text_ok [OF ok]) (auto simp: mem_ranges_of)
  from tables_ok_rows(3) [OF ok r(1)] obtain w where "text_ok na w (r_first r)" "text_ok na w (r_last r)"
    and le: "ival na (r_first r) \<le> ival na (r_last r)" by (rule range_row_okE)
  with f text_ok_ver_unique show "text_ok na (s_ip_version s) (r_last r)" by blast
  show "ival na (r_first r) \<le> ival na (r_last r)" by (rule le)
qed

lemma return_to_pool_gave:
  assumes na: "netaddr_ok na" and ok: "tables_ok na d"
    and p: "p \<in> set (ip_pools d)" and s: "s \<in> set (subnets d)" "s_id s = p_subnet p"
    and adr: "text_ok na (s_ip_version s) adr" "ival na adr \<in> pool_vals na p"
    and new: "ival na adr \<notin> free_in na (p_subnet p) d"
  shows "\<exists>d'. return_to_pool na (p_id p) adr d = Inr ((), d') \<and>
              gave na d (p_subnet p) (ival na adr) d'"
proof -
  let ?v = "s_ip_version s" and ?n = "ival na adr" and ?pid = "p_id p" and ?rs = "ip_ranges d"
  have pid: "pool_in d ?pid (p_subnet p)" using p by (auto simp: pool_in_def)
  note pv = pool_row_version [OF ok p s]
  have bounds: "0 < ?n" "?n < ip_max ?v" using adr(2) pv by (auto simp: pool_vals_def)
  have ver: "?v = 4 \<or> ?v = 6" using text_ok_valid [OF na adr(1)] by (auto simp: ip_valid_def)
  have valid: "ip_valid (IP ?v (?n + 1))" "ip_valid (IP ?v (?n - 1))"
    using bounds ver by (auto simp: ip_valid_def)
  have plus: "ip_plus (IP ?v ?n) 1 = Inr (IP ?v (?n + 1))" "ip_plus (IP ?v ?n) (- 1) = Inr (IP ?v (?n - 1))"
    using bounds by (auto simp: ip_plus_def)
  let ?r1 = "find (\<lambda>r. r_pool r = ?pid \<and> r_first r = na_str na (IP ?v (?n + 1))) ?rs"
  let ?r2 = "find (\<lambda>r. r_pool r = ?pid \<and> r_last r = na_str na (IP ?v (?n - 1))) ?rs"
  have row: "text_ok na ?v (r_first r)" "text_ok na ?v (r_last r)" "ival na (r_first r) \<le> ival na (r_last r)"
      "row_vals na r \<subseteq> pool_vals na p"
    if "r \<in> set ?rs" "r_pool r = ?pid" for r
    using range_row_version [OF ok that(1) _ s] pid range_in_pool [OF ok that(1) p] that(2) by simp_all
  have mk: "range_row_ok na d q"
    if "r_pool q = ?pid" "text_ok na ?v (r_first q)" "text_ok na ?v (r_last q)"
      "ival na (r_first q) \<le> ival na (r_last q)" "row_vals na q \<subseteq> pool_vals na p" for q
    using that p s unfolding range_row_ok_def by metis
  note run = return_to_pool_def bindE_def liftE_def checkE_def py_ip_def text_okD(1) [OF adr(1)] plus
    range_starting_eq [OF ok] range_ending_eq [OF ok]
  note fresh = row_with_free_value_new [OF pid _ _ new]
  have r1: "a \<in> set ?rs" "r_pool a = ?pid" "ival na (r_first a) = ?n + 1" if "?r1 = Some a" for a
    using find_SomeD [OF that] na valid by auto
  have r2: "b \<in> set ?rs" "r_pool b = ?pid" "ival na (r_last b) = ?n - 1" if "?r2 = Some b" for b
    using find_SomeD [OF that] na valid by auto
  note dist = tables_ok_rows(5) [OF ok]
  show ?thesis
  proof (cases ?r1)
    case N1: None
    show ?thesis
    proof (cases ?r2)
      case None
      let ?q = "\<lparr>r_pool = ?pid, r_first = adr, r_last = adr\<rparr>"
      have v: "row_vals na ?q = {?n}" by (simp add: row_vals_def)
      have "?q \<notin> set ?rs" by (rule fresh) (simp_all add: v)
      moreover have "gave na d (p_subnet p) ?n (d\<lparr>ip_ranges := ?rs @ [?q]\<rparr>)"
        using adr v dist calculation
        by (intro gave_rows [OF ok pid, where R = "{}" and q = ?q] mk new) auto
      ultimately show ?thesis using N1 None by (simp add: run add_range_def)
    next
      case (Some b)
      note b = r2 [OF Some] and rb = row [OF r2(1,2) [OF Some]]
      let ?q = "b\<lparr>r_last := adr\<rparr>"
      have v: "row_vals na ?q = insert ?n (row_vals na b)" using b rb by (auto simp: row_vals_def)
      have new_q: "?q \<notin> set ?rs" by (rule fresh) (simp_all add: v b)
      have "gave na d (p_subnet p) ?n (d\<lparr>ip_ranges := replace_row b ?q ?rs\<rparr>)"
        using adr v b rb dist new_q
        by (intro gave_rows [OF ok pid, where R = "{b}" and q = ?q] mk new)
          (auto simp: set_replace_row intro: distinct_replace_row)
      then show ?thesis using N1 Some new_q by (simp add: run set_range_def)
    qed
  next
    case S1: (Some a)
    note a = r1 [OF S1] and ra = row [OF r1(1,2) [OF S1]]
    show ?thesis
    proof (cases ?r2)
      case None
      let ?q = "a\<lparr>r_first := adr\<rparr>"
      have v: "row_vals na ?q = insert ?n (row_vals na a)" using a ra by (auto simp: row_vals_def)
      have new_q: "?q \<notin> set ?rs" by (rule fresh) (simp_all add: v a)
      have "gave na d (p_subnet p) ?n (d\<lparr>ip_ranges := replace_row a ?q ?rs\<rparr>)"
        using adr v a ra dist new_q
        by (intro gave_rows [OF ok pid, where R = "{a}" and q = ?q] mk new)
          (auto simp: set_replace_row intro: distinct_replace_row)
      then show ?thesis using S1 None new_q by (simp add: run set_range_def)
    next
      case (Some b)
      note b = r2 [OF Some] and rb = row [OF r2(1,2) [OF Some]]
      let ?q = "\<lparr>r_pool = ?pid, r_first = r_first b, r_last = r_last a\<rparr>"
      let ?rs' = "filter (\<lambda>q. q \<noteq> b) (filter (\<lambda>q. q \<noteq> a) (?rs @ [?q]))"
      have v: "row_vals na ?q = insert ?n (row_vals na a \<union> row_vals na b)"
        using a ra b rb by (auto simp: row_vals_def)
      have new_q: "?q \<notin> set ?rs" by (rule fresh) (simp_all add: v)
      then have neq: "?q \<noteq> a" "?q \<noteq> b" using a b by auto
      have "gave na d (p_subnet p) ?n (d\<lparr>ip_ranges := ?rs'\<rparr>)"
      proof (rule gave_rows [OF ok pid, where R = "{a, b}" and q = ?q])
        show "range_row_ok na d ?q"
          using a ra b rb adr(2) by (intro mk) (auto simp: v)
        show "set ?rs' = set ?rs - {a, b} \<union> {?q}" using neq by auto
        show "distinct ?rs'" using dist new_q by auto
      qed (use a b v new in auto)
      then show ?thesis using S1 Some new_q neq by (simp add: run thenE_def add_range_def del_range_def modifyE_def)
    qed
  qed
qed

definition pooled_in :: "netaddr \<Rightarrow> string \<Rightarrow> db \<Rightarrow> int set" where
  "pooled_in na sid d = (\<Union>p \<in> set (pools_of sid d). pool_vals na p)"

lemma find_pool_eq:
  assumes ok: "tables_ok na d" and s: "s \<in> set (subnets d)" "s_id s = sid"
    and adr: "text_ok na (s_ip_version s) adr" and ps: "set ps \<subseteq> set (pools_of sid d)"
  shows "find_pool na adr ps = Inr (map_option p_id (find (\<lambda>p. ival na adr \<in> pool_vals na p) ps))"
  using ps
proof (induction ps)
  case Nil
  then show ?case by simp
next
  case (Cons p ps)
  then have p: "p \<in> set (ip_pools d)" "s_id s = p_subnet p" using s(2) by (auto simp: pools_of_def)
  note pv = pool_row_version [OF ok p(1) s(1) p(2)]
  have rng: "py_range na (p_first p) (p_last p) =
      Inr (IP (s_ip_version s) (ival na (p_first p)), IP (s_ip_version s) (ival na (p_last p)))"
    using pv text_okD(1) [OF pv(1)] text_okD(1) [OF pv(2)] by simp
  have ip: "py_ip na adr = Inr (IP (s_ip_version s) (ival na adr))"
    using text_okD(1) [OF adr] by simp
  show ?case using Cons.IH Cons.prems by (simp add: rng ip in_range_def pool_vals_def)
qed

lemma free_in_allocs [simp]: "free_in na sid (d\<lparr>ip_allocs := x\<rparr>) = free_in na sid d"
  by (simp add: free_in_def ranges_of_def)

lemma recycle_ip_effect:
  assumes na: "netaddr_ok na" and ok: "tables_ok na d"
    and s: "s \<in> set (subnets d)" "s_id s = sid"
    and adr: "text_ok na (s_ip_version s) adr" and new: "ival na adr \<notin> free_in na sid d"
  shows "\<exists>rs. recycle_ip na nid sid adr d = Inr ((), d\<lparr>ip_ranges := rs, ip_allocs :=
              filter (\<lambda>a. \<not> (a_network a = nid \<and> a_ip a = adr \<and> a_subnet a = sid)) (ip_allocs d)\<rparr>) \<and>
           (if ival na adr \<in> pooled_in na sid d then gave na d sid (ival na adr) (d\<lparr>ip_ranges := rs\<rparr>)
            else rs = ip_ranges d)"
proof -
  let ?ps = "pools_with_ranges sid d @ pools_of sid d"
  have find: "find_pool na adr ?ps = Inr (map_option p_id (find (\<lambda>p. ival na adr \<in> pool_vals na p) ?ps))"
    by (rule find_pool_eq [OF ok s adr]) (auto simp: pools_with_ranges_def)
  show ?thesis
  proof (cases "find (\<lambda>p. ival na adr \<in> pool_vals na p) ?ps")
    case None
    then have "ival na adr \<notin> pooled_in na sid d"
      by (auto simp: find_None_iff pooled_in_def)
    moreover have "d\<lparr>ip_ranges := ip_ranges d\<rparr> = d" by simp
    ultimately show ?thesis using find None
      by (intro exI [of _ "ip_ranges d"]) (simp add: recycle_ip_def bindE_def checkE_def delete_ip_allocation_def)
  next
    case (Some p)
    from find_SomeD [OF Some] have p: "p \<in> set (ip_pools d)" "p_subnet p = sid" "ival na adr \<in> pool_vals na p"
      by (auto simp: pools_of_def pools_with_ranges_def)
    then have "ival na adr \<in> pooled_in na sid d" by (auto simp: pooled_in_def pools_of_def)
    moreover obtain d' where d': "return_to_pool na (p_id p) adr d = Inr ((), d')" "gave na d sid (ival na adr) d'"
      using return_to_pool_gave [OF na ok p(1) s(1) _ adr p(3)] p(2) s(2) new by auto
    moreover from d'(2) obtain rs where "d' = d\<lparr>ip_ranges := rs\<rparr>" by (auto simp: gave_def)
    moreover have "p_id p \<noteq> []" using tables_ok_rows(2) [OF ok p(1)] by (simp add: pool_row_ok_def)
    ultimately show ?thesis using find Some
      by (intro exI [of _ rs])
        (simp add: recycle_ip_def bindE_def thenE_def checkE_def delete_ip_allocation_def)
  qed
qed

section \<open>The invariant while addresses are held\<close>

lemma ipam_heldD:
  assumes "ipam_held na nid H d"
  shows "tables_ok na d"
    and "v \<in> free_in na sid d \<Longrightarrow> v \<notin> taken_in na sid d"
    and "v \<in> free_in na sid d \<Longrightarrow> v \<notin> held_in na H sid"
    and "h \<in> set H \<Longrightarrow> held_ok na nid d h"
    and "p \<in> set (ip_pools d) \<Longrightarrow> pool_vals na p \<subseteq>
           free_in na (p_subnet p) d \<union> taken_in na (p_subnet p) d \<union> held_in na H (p_subnet p)"
  using assms unfolding ipam_held_def by blast+

lemma ipam_held_nil: "ipam_held na nid [] d \<longleftrightarrow> ipam_inv na d"
  by (simp add: ipam_inv_def ipam_held_def)

lemma ipam_invD:
  assumes "ipam_inv na d"
  shows "tables_ok na d"
    and "v \<in> free_in na sid d \<Longrightarrow> v \<notin> taken_in na sid d"
    and "p \<in> set (ip_pools d) \<Longrightarrow> pool_vals na p \<subseteq> free_in na (p_subnet p) d \<union> taken_in na (p_subnet p) d"
  using assms unfolding ipam_inv_def ipam_held_def by (auto simp: held_in_def)

lemma taken_in_ranges [simp]: "taken_in na sid (d\<lparr>ip_ranges := rs\<rparr>) = taken_in na sid d"
  by (simp add: taken_in_def)

lemma held_ok_cong: "subnets d' = subnets d \<Longrightarrow> held_ok na nid d' h = held_ok na nid d h"
  by (simp add: held_ok_def)

lemma held_in_snoc: "held_in na (H @ [(t, sid)]) sid' =
    (if sid' = sid then insert (ival na t) (held_in na H sid') else held_in na H sid')"
  by (auto simp: held_in_def)

lemma held_in_Cons: "held_in na ((t, sid) # H) sid' =
    (if sid' = sid then insert (ival na t) (held_in na H sid') else held_in na H sid')"
  by (auto simp: held_in_def)

lemma took_held:
  assumes held: "ipam_held na nid H d" and took: "took na d sid (ival na t) d'"
    and new: "held_ok na nid d (t, sid)"
  shows "ipam_held na nid (H @ [(t, sid)]) d'"
proof -
  from took obtain rs where d': "d' = d\<lparr>ip_ranges := rs\<rparr>" by (auto simp: took_def)
  have free: "free_in na sid' d' = (if sid' = sid then free_in na sid' d - {ival na t} else free_in na sid' d)"
    for sid' using took by (auto simp: took_def)
  note D = ipam_heldD [OF held]
  show ?thesis
    unfolding ipam_held_def
  proof (intro conjI allI ballI)
    show "tables_ok na d'" using took by (simp add: took_def)
    show "free_in na sid' d' \<inter> (taken_in na sid' d' \<union> held_in na (H @ [(t, sid)]) sid') = {}" for sid'
      using D(2,3) [where sid = sid'] unfolding free held_in_snoc unfolding d' by auto
    show "held_ok na nid d' h" if "h \<in> set (H @ [(t, sid)])" for h
      using that new D(4) by (auto simp: d' held_ok_def)
    show "pool_vals na p \<subseteq> free_in na (p_subnet p) d' \<union> taken_in na (p_subnet p) d' \<union>
        held_in na (H @ [(t, sid)]) (p_subnet p)" if "p \<in> set (ip_pools d')" for p
      using D(5) [of p] that unfolding free held_in_snoc unfolding d' by auto
  qed
qed

lemma tables_ok_allocs:
  "tables_ok na d \<Longrightarrow> \<forall>a \<in> set as. alloc_row_ok na d a \<Longrightarrow> tables_ok na (d\<lparr>ip_allocs := as\<rparr>)"
  unfolding tables_ok_def ranges_apart_def pools_apart_def
  by (simp add: pool_row_ok_def alloc_row_ok_def range_row_ok_def)

lemma add_alloc_held:
  assumes held: "ipam_held na nid ((t, sid) # H) d"
    and add: "add_alloc \<lparr>a_port = prt, a_ip = t, a_subnet = sid, a_network = nid\<rparr> d = Inr ((), d')"
  shows "ipam_held na nid H d'"
proof -
  let ?a = "\<lparr>a_port = prt, a_ip = t, a_subnet = sid, a_network = nid\<rparr>"
  from add have d': "d' = d\<lparr>ip_allocs := ip_allocs d @ [?a]\<rparr>" by (simp add: op_simps)
  have taken: "taken_in na sid' d' =
      (if sid' = sid then insert (ival na t) (taken_in na sid' d) else taken_in na sid' d)" for sid'
    by (auto simp: taken_in_def d')
  note D = ipam_heldD [OF held]
  show ?thesis
    unfolding ipam_held_def
  proof (intro conjI allI ballI)
    have "alloc_row_ok na d ?a" using D(4) [of "(t, sid)"] by (auto simp: held_ok_def alloc_row_ok_def)
    then show "tables_ok na d'"
      using tables_ok_rows(4) [OF D(1)] unfolding d' by (intro tables_ok_allocs [OF D(1)]) auto
    show "free_in na sid' d' \<inter> (taken_in na sid' d' \<union> held_in na H sid') = {}" for sid'
      using D(2,3) [where sid = sid'] unfolding taken held_in_Cons unfolding d'
      by (cases "sid' = sid") auto
    show "held_ok na nid d' h" if "h \<in> set H" for h
      using that D(4) [of h] by (simp add: d' held_ok_def)
    show "pool_vals na p \<subseteq> free_in na (p_subnet p) d' \<union> taken_in na (p_subnet p) d' \<union> held_in na H (p_subnet p)"
      if "p \<in> set (ip_pools d')" for p
      using D(5) [of p] that unfolding taken held_in_Cons unfolding d'
      by (cases "p_subnet p = sid") auto
  qed
qed

lemma taken_without:
  assumes ok: "tables_ok na d" and s: "s \<in> set (subnets d)" "s_id s = sid" "s_network s = nid"
    and t: "text_ok na (s_ip_version s) t"
  shows "taken_in na sid' (d\<lparr>ip_allocs :=
      filter (\<lambda>a. \<not> (a_network a = nid \<and> a_ip a = t \<and> a_subnet a = sid)) (ip_allocs d)\<rparr>) =
    (if sid' = sid then taken_in na sid d - {ival na t} else taken_in na sid' d)"
proof -
  have *: "a_network a = nid \<and> (a_ip a = t \<longleftrightarrow> ival na (a_ip a) = ival na t)"
    if a: "a \<in> set (ip_allocs d)" "a_subnet a = sid" for a
  proof -
    from tables_ok_rows(4) [OF ok a(1)] obtain u where "u \<in> set (subnets d)" "s_id u = a_subnet a"
      "s_network u = a_network a" "text_ok na (s_ip_version u) (a_ip a)"
      by (auto simp: alloc_row_ok_def)
    moreover have "u = s" using subnet_unique [OF ok, of u s] s a(2) calculation by simp
    ultimately show ?thesis using s t text_ok_eq_iff [of na "s_ip_version s" "a_ip a" t] by auto
  qed
  let ?as = "filter (\<lambda>a. \<not> (a_network a = nid \<and> a_ip a = t \<and> a_subnet a = sid)) (ip_allocs d)"
  show ?thesis
  proof (cases "sid' = sid")
    case True
    have "{a \<in> set ?as. a_subnet a = sid} =
        {a \<in> set (ip_allocs d). a_subnet a = sid \<and> ival na (a_ip a) \<noteq> ival na t}"
      using * by auto
    with True show ?thesis by (auto simp: taken_in_def)
  next
    case False
    then have "{a \<in> set ?as. a_subnet a = sid'} = {a \<in> set (ip_allocs d). a_subnet a = sid'}"
      by auto
    with False show ?thesis by (simp add: taken_in_def)
  qed
qed

lemma recycle_ip_inv:
  assumes na: "netaddr_ok na" and inv: "ipam_inv na d" and t: "held_ok na nid d (t, sid)"
    and new: "ival na t \<notin> free_in na sid d"
  shows "\<exists>rs as d'. recycle_ip na nid sid t d = Inr ((), d') \<and> ipam_inv na d' \<and>
      d' = d\<lparr>ip_ranges := rs, ip_allocs := as\<rparr> \<and>
      as = filter (\<lambda>a. \<not> (a_network a = nid \<and> a_ip a = t \<and> a_subnet a = sid)) (ip_allocs d) \<and>
      (\<forall>sid'. free_in na sid' d' = (if sid' = sid \<and> ival na t \<in> pooled_in na sid d
                 then insert (ival na t) (free_in na sid' d) else free_in na sid' d))"
proof -
  note D = ipam_invD [OF inv]
  from t obtain s where s: "s \<in> set (subnets d)" "s_id s = sid" "s_network s = nid"
    "text_ok na (s_ip_version s) t" by (auto simp: held_ok_def)
  let ?as = "filter (\<lambda>a. \<not> (a_network a = nid \<and> a_ip a = t \<and> a_subnet a = sid)) (ip_allocs d)"
  obtain rs where rs: "recycle_ip na nid sid t d = Inr ((), d\<lparr>ip_ranges := rs, ip_allocs := ?as\<rparr>)"
    and eff: "if ival na t \<in> pooled_in na sid d then gave na d sid (ival na t) (d\<lparr>ip_ranges := rs\<rparr>)
            else rs = ip_ranges d"
    using recycle_ip_effect [OF na D(1) s(1,2,4) new, of nid] by blast
  let ?d = "d\<lparr>ip_ranges := rs\<rparr>"
  let ?d' = "d\<lparr>ip_ranges := rs, ip_allocs := ?as\<rparr>"
  have same: "d\<lparr>ip_ranges := ip_ranges d\<rparr> = d" by simp
  have ok: "tables_ok na ?d" using eff D(1) same by (auto simp: gave_def split: if_splits)
  have free: "free_in na sid' ?d' = (if sid' = sid \<and> ival na t \<in> pooled_in na sid d
      then insert (ival na t) (free_in na sid' d) else free_in na sid' d)" for sid'
    using eff same by (auto simp: gave_def split: if_splits)
  have taken: "taken_in na sid' ?d' = (if sid' = sid then taken_in na sid' d - {ival na t} else taken_in na sid' d)"
    for sid' using taken_without [OF D(1) s(1,2,3,4), of sid'] by (simp add: taken_in_def)
  have "ipam_inv na ?d'"
    unfolding ipam_inv_def ipam_held_def
  proof (intro conjI allI ballI)
    have "tables_ok na (?d\<lparr>ip_allocs := ?as\<rparr>)"
      using tables_ok_rows(4) [OF D(1)] by (intro tables_ok_allocs [OF ok]) (simp add: alloc_row_ok_def)
    then show "tables_ok na ?d'" by simp
    show "free_in na sid' ?d' \<inter> (taken_in na sid' ?d' \<union> held_in na [] sid') = {}" for sid'
      unfolding free taken using D(2) [where sid = sid'] by (auto simp: held_in_def)
    show "pool_vals na p \<subseteq> free_in na (p_subnet p) ?d' \<union> taken_in na (p_subnet p) ?d' \<union> held_in na [] (p_subnet p)"
      if p: "p \<in> set (ip_pools ?d')" for p
    proof
      fix x assume x: "x \<in> pool_vals na p"
      with D(3) [of p] p have "x \<in> free_in na (p_subnet p) d \<union> taken_in na (p_subnet p) d" by auto
      moreover have "x \<in> pooled_in na sid d" if "p_subnet p = sid"
        using x p that by (auto simp: pooled_in_def pools_of_def)
      ultimately show "x \<in> free_in na (p_subnet p) ?d' \<union> taken_in na (p_subnet p) ?d' \<union> held_in na [] (p_subnet p)"
        unfolding free taken by auto
    qed
  qed (simp add: held_in_def)
  with rs free show ?thesis by blast
qed

lemma generate_ip_held:
  assumes na: "netaddr_ok na" and held: "ipam_held na nid H d"
    and ss: "set ss \<subseteq> set (subnets d)" "\<forall>s \<in> set ss. s_network s = nid"
    and gen: "generate_ip na ss d = Inr ((t, sid), d')"
  shows "ipam_held na nid (H @ [(t, sid)]) d'" "took na d sid (ival na t) d'"
    "ival na t \<in> free_in na sid d" "\<exists>s \<in> set ss. s_id s = sid \<and> text_ok na (s_ip_version s) t"
proof -
  note ok = ipam_heldD(1) [OF held]
  have "\<exists>s \<in> set ss. ranges_of (s_id s) d \<noteq> []"
  proof (rule ccontr)
    assume none: "\<not> (\<exists>s \<in> set ss. ranges_of (s_id s) d \<noteq> [])"
    show False
    proof (cases ss)
      case Nil with gen show False by (simp add: generate_ip_def)
    next
      case (Cons a as)
      with generate_ip_from_none [of ss d ss a as] none gen show False by (simp add: generate_ip_def)
    qed
  qed
  from generate_ip_from_some [OF na ok ss(1) this, of ss] gen
  obtain s where s: "s \<in> set ss" "s_id s = sid" "text_ok na (s_ip_version s) t"
    "ival na t \<in> free_in na sid d" "took na d sid (ival na t) d'"
    by (auto simp: generate_ip_def)
  then show "took na d sid (ival na t) d'" "ival na t \<in> free_in na sid d"
    "\<exists>s \<in> set ss. s_id s = sid \<and> text_ok na (s_ip_version s) t" by auto
  have "held_ok na nid d (t, sid)" using s ss by (auto simp: held_ok_def)
  with took_held [OF held s(5)] show "ipam_held na nid (H @ [(t, sid)]) d'" .
qed

text \<open>What \<open>_test_fixed_ips_for_port\<close> establishes of each entry it returns.\<close>

definition tested_ok :: "netaddr \<Rightarrow> string \<Rightarrow> db \<Rightarrow> fixed_ip \<Rightarrow> bool" where
  "tested_ok na nid d f \<longleftrightarrow>
     (\<exists>s \<in> set (subnets d). fx_subnet f = Some (s_id s) \<and> s_network s = nid \<and>
        (\<forall>ip. fx_ip f = Some ip \<longrightarrow>
           check_subnet_ip na (s_cidr s) ip = Inr True \<and> check_unique_ip nid (s_id s) ip d = Inr True))"

lemma find_subnet_for_ip_Some:
  "find_subnet_for_ip na ip ss = Inr (Some s) \<Longrightarrow> s \<in> set ss \<and> check_subnet_ip na (s_cidr s) ip = Inr True"
  by (induction ss) (auto simp: op_simps split: if_splits)

lemma fixed_ip_subnet_Inr:
  assumes "fixed_ip_subnet na ctx nid f d = Inr (found, s)"
  shows "s \<in> set (subnets d)" "s_network s = nid"
    "found \<Longrightarrow> \<exists>ip. fx_ip f = Some ip \<and> check_subnet_ip na (s_cidr s) ip = Inr True"
  using assms query_subnets_subset [of ctx d, THEN subsetD]
  by (auto simp: fixed_ip_subnet_def op_simps dest!: find_subnet_for_ip_Some get_subnet_row_Inr(1)
      split: option.splits if_splits)

lemma test_fixed_ip_Inr:
  assumes "test_fixed_ip na ctx nid f d = Inr g"
  shows "tested_ok na nid d g" "fx_ip g = fx_ip f"
proof -
  from assms obtain found s where s: "fixed_ip_subnet na ctx nid f d = Inr (found, s)"
    by (auto simp: test_fixed_ip_def op_simps)
  note S = fixed_ip_subnet_Inr [OF s]
  show "fx_ip g = fx_ip f" using assms s
    by (auto simp: test_fixed_ip_def op_simps split: option.splits if_splits)
  show "tested_ok na nid d g" using assms s S unfolding tested_ok_def
    by (auto simp: test_fixed_ip_def op_simps split: option.splits if_splits)
qed

lemma test_fixed_ips_Inr:
  assumes "test_fixed_ips_for_port na ctx mx nid fs d = Inr gs"
  shows "\<forall>g \<in> set gs. tested_ok na nid d g" "map fx_ip gs = map fx_ip fs" "int (length gs) \<le> mx"
proof -
  from assms have "list_all2 (\<lambda>f g. test_fixed_ip na ctx nid f d = Inr g) fs gs" and "int (length gs) \<le> mx"
    by (auto simp: test_fixed_ips_for_port_def op_simps mapR_Inr split: if_splits)
  then show "\<forall>g \<in> set gs. tested_ok na nid d g" "map fx_ip gs = map fx_ip fs" "int (length gs) \<le> mx"
    by (induction rule: list_all2_induct) (auto dest: test_fixed_ip_Inr)
qed

text \<open>Addresses of tested entries are well-formed texts of the version of their subnet.\<close>

definition entry_ok :: "netaddr \<Rightarrow> string \<Rightarrow> db \<Rightarrow> fixed_ip \<Rightarrow> bool" where
  "entry_ok na nid d f \<longleftrightarrow>
     (\<exists>s \<in> set (subnets d). fx_subnet f = Some (s_id s) \<and> s_network s = nid \<and>
        (\<forall>ip. fx_ip f = Some ip \<longrightarrow> text_ok na (s_ip_version s) ip))"

lemma tested_entry_ok:
  assumes t: "tested_ok na nid d g" and req: "ip_request_ok na d nid fs" and f: "fx_ip g \<in> fx_ip ` set fs"
  shows "entry_ok na nid d g"
proof -
  from t obtain s where s: "s \<in> set (subnets d)" "fx_subnet g = Some (s_id s)" "s_network s = nid"
    "\<forall>ip. fx_ip g = Some ip \<longrightarrow> check_subnet_ip na (s_cidr s) ip = Inr True"
    unfolding tested_ok_def by blast
  have "text_ok na (s_ip_version s) ip" if "fx_ip g = Some ip" for ip
  proof -
    from f obtain f' where "f' \<in> set fs" "fx_ip f' = Some ip" using \<open>fx_ip g = Some ip\<close> by auto
    with req s \<open>fx_ip g = Some ip\<close> show ?thesis unfolding ip_request_ok_def by blast
  qed
  with s show ?thesis unfolding entry_ok_def by blast
qed

lemma entry_ok_cong: "subnets d' = subnets d \<Longrightarrow> entry_ok na nid d' f = entry_ok na nid d f"
  by (simp add: entry_ok_def)

lemma allocate_fixed_ip_held:
  assumes na: "netaddr_ok na" and held: "ipam_held na nid H d" and f: "entry_ok na nid d f"
    and al: "allocate_fixed_ip na ctx f d = Inr ((t, sid), d')"
  shows "ipam_held na nid (H @ [(t, sid)]) d'" "took na d sid (ival na t) d'"
    "fx_subnet f = Some sid" "fx_ip f = None \<or> fx_ip f = Some t"
proof -
  note ok = ipam_heldD(1) [OF held]
  from f obtain s where s: "s \<in> set (subnets d)" "fx_subnet f = Some (s_id s)" "s_network s = nid"
    "\<forall>ip. fx_ip f = Some ip \<longrightarrow> text_ok na (s_ip_version s) ip"
    unfolding entry_ok_def by blast
  have "took na d sid (ival na t) d' \<and> held_ok na nid d (t, sid) \<and> sid = s_id s \<and>
      (fx_ip f = None \<or> fx_ip f = Some t)"
  proof (cases "fx_ip f")
    case None
    with al s(2) obtain u where u: "get_subnet_row ctx (s_id s) d = Inr u"
      and gen: "generate_ip na [u] d = Inr ((t, sid), d')"
      by (auto simp: allocate_fixed_ip_def op_simps)
    note gu = get_subnet_row_Inr [OF u]
    have "u = s" using subnet_unique [OF ok gu(1) s(1)] gu(2) by simp
    with gen have gen: "generate_ip na [s] d = Inr ((t, sid), d')" by simp
    have "set [s] \<subseteq> set (subnets d)" "\<forall>s' \<in> set [s]. s_network s' = nid" using s by auto
    note G = generate_ip_held [OF na held this gen]
    from G(2,4) s None show ?thesis by (auto simp: held_ok_def)
  next
    case (Some ip)
    with al s(2) have run: "allocate_specific_ip na (s_id s) ip d = Inr ((), d')" and [simp]: "t = ip" "sid = s_id s"
      by (auto simp: allocate_fixed_ip_def op_simps)
    have "text_ok na (s_ip_version s) ip" using s(4) Some by simp
    from allocate_specific_took [OF na ok s(1) refl this] run this s Some show ?thesis
      by (auto simp: held_ok_def)
  qed
  then show "ipam_held na nid (H @ [(t, sid)]) d'" "took na d sid (ival na t) d'"
    "fx_subnet f = Some sid" "fx_ip f = None \<or> fx_ip f = Some t"
    using took_held [OF held] s(2) by auto
qed

lemma took_other: "took na d sid v d' \<Longrightarrow> \<exists>rs. d' = d\<lparr>ip_ranges := rs\<rparr>"
  by (simp add: took_def)

lemma allocate_fixed_ips_held:
  assumes na: "netaddr_ok na"
  shows "ipam_held na nid H d \<Longrightarrow> \<forall>f \<in> set fs. entry_ok na nid d f \<Longrightarrow>
    allocate_fixed_ips na ctx fs d = Inr (ips, d') \<Longrightarrow>
    ipam_held na nid (H @ ips) d' \<and> (\<exists>rs. d' = d\<lparr>ip_ranges := rs\<rparr>) \<and>
    list_all2 (\<lambda>f ip. fx_subnet f = Some (snd ip) \<and> (fx_ip f = None \<or> fx_ip f = Some (fst ip))) fs ips"
  unfolding allocate_fixed_ips_def
proof (induction fs arbitrary: H d ips)
  case Nil
  then show ?case by (auto intro: exI [of _ "ip_ranges d"])
next
  case (Cons f fs)
  from Cons.prems(3) obtain t sid d1 ips' where
    al: "allocate_fixed_ip na ctx f d = Inr ((t, sid), d1)"
    and rest: "mapE (allocate_fixed_ip na ctx) fs d1 = Inr (ips', d')" and ips: "ips = (t, sid) # ips'"
    by (auto simp: op_simps)
  note A = allocate_fixed_ip_held [OF na Cons.prems(1) _ al]
  have f: "entry_ok na nid d f" using Cons.prems(2) by simp
  obtain rs where d1: "d1 = d\<lparr>ip_ranges := rs\<rparr>" using took_other [OF A(2) [OF f]] by blast
  have "\<forall>f \<in> set fs. entry_ok na nid d1 f" using Cons.prems(2) by (simp add: d1 entry_ok_def)
  from Cons.IH [OF A(1) [OF f] this rest] A(3,4) [OF f] ips d1 show ?case by auto
qed

lemma mapE_generate_ip_held:
  assumes na: "netaddr_ok na"
  shows "ipam_held na nid H d \<Longrightarrow>
    \<forall>ss \<in> set gs. set ss \<subseteq> set (subnets d) \<and> (\<forall>s \<in> set ss. s_network s = nid) \<Longrightarrow>
    mapE (generate_ip na) gs d = Inr (ips, d') \<Longrightarrow>
    ipam_held na nid (H @ ips) d' \<and> (\<exists>rs. d' = d\<lparr>ip_ranges := rs\<rparr>)"
proof (induction gs arbitrary: H d ips)
  case Nil
  then show ?case by (auto intro: exI [of _ "ip_ranges d"])
next
  case (Cons ss gs)
  from Cons.prems(3) obtain t sid d1 ips' where
    gen: "generate_ip na ss d = Inr ((t, sid), d1)"
    and rest: "mapE (generate_ip na) gs d1 = Inr (ips', d')" and ips: "ips = (t, sid) # ips'"
    by (auto simp: op_simps)
  have ss: "set ss \<subseteq> set (subnets d)" "\<forall>s \<in> set ss. s_network s = nid" using Cons.prems(2) by auto
  note G = generate_ip_held [OF na Cons.prems(1) ss gen]
  obtain rs where d1: "d1 = d\<lparr>ip_ranges := rs\<rparr>" using took_other [OF G(2)] by blast
  have "\<forall>ss \<in> set gs. set ss \<subseteq> set (subnets d1) \<and> (\<forall>s \<in> set ss. s_network s = nid)"
    using Cons.prems(2) by (simp add: d1)
  from Cons.IH [OF G(1) this rest] ips d1 show ?case by auto
qed

lemma default_groups:
  assumes "g \<in> set (filter (\<lambda>g. g \<noteq> []) [filter P xs, filter Q xs])"
  shows "set g \<subseteq> set xs"
proof -
  from assms have "g \<in> set [filter P xs, filter Q xs]" by (rule subsetD [OF filter_is_subset])
  then have "g = filter P xs \<or> g = filter Q xs" by simp
  then show ?thesis using filter_is_subset [of P xs] filter_is_subset [of Q xs] by metis
qed

lemma allocate_ips_default_held:
  assumes na: "netaddr_ok na" and inv: "ipam_inv na d"
    and al: "allocate_ips_for_port na ctx mx nid None d = Inr (ips, d')"
  shows "ipam_held na nid ips d' \<and> (\<exists>rs. d' = d\<lparr>ip_ranges := rs\<rparr>)"
proof -
  let ?ss = "filter (\<lambda>s. s_network s = nid) (query_subnets ctx d)"
  let ?gs = "filter (\<lambda>g. g \<noteq> []) [filter (\<lambda>s. s_ip_version s = 4) ?ss, filter (\<lambda>s. s_ip_version s \<noteq> 4) ?ss]"
  have run: "mapE (generate_ip na) ?gs d = Inr (ips, d')"
    using al unfolding allocate_ips_for_port_def option.case bindE_gets .
  have "set ?ss \<subseteq> set (subnets d)" using query_subnets_subset [of ctx d] by auto
  moreover have "\<forall>s \<in> set ?ss. s_network s = nid" by simp
  ultimately have gs: "\<forall>g \<in> set ?gs. set g \<subseteq> set (subnets d) \<and> (\<forall>s \<in> set g. s_network s = nid)"
    using default_groups by blast
  have "ipam_held na nid [] d" using inv by (simp only: ipam_held_nil)
  from mapE_generate_ip_held [OF na this gs run] show ?thesis by (simp only: append_Nil)
qed

lemma allocate_ips_given_held:
  assumes na: "netaddr_ok na" and inv: "ipam_inv na d" and req: "ip_request_ok na d nid fs"
    and al: "allocate_ips_for_port na ctx mx nid (Some fs) d = Inr (ips, d')"
  shows "ipam_held na nid ips d' \<and> (\<exists>rs. d' = d\<lparr>ip_ranges := rs\<rparr>)"
proof -
  from al obtain gs where t: "test_fixed_ips_for_port na ctx mx nid fs d = Inr gs"
    and rest: "allocate_fixed_ips na ctx gs d = Inr (ips, d')"
    unfolding allocate_ips_for_port_def option.case bindE_Inr checkE_Inr by blast
  note T = test_fixed_ips_Inr [OF t]
  have same: "fx_ip ` set gs = fx_ip ` set fs"
    using arg_cong [OF T(2), of set] by (simp only: set_map)
  have ok: "\<forall>g \<in> set gs. entry_ok na nid d g"
  proof
    fix g assume g: "g \<in> set gs"
    then have "fx_ip g \<in> fx_ip ` set fs" unfolding same [symmetric] by (rule imageI)
    with T(1) g show "entry_ok na nid d g" by (intro tested_entry_ok [OF _ req]) blast+
  qed
  have "ipam_held na nid [] d" using inv by (simp only: ipam_held_nil)
  from allocate_fixed_ips_held [OF na this ok rest] show ?thesis unfolding append_Nil by blast
qed

lemma allocate_ips_for_port_held:
  assumes na: "netaddr_ok na" and inv: "ipam_inv na d"
    and req: "\<forall>fs. fixed = Some fs \<longrightarrow> ip_request_ok na d nid fs"
    and al: "allocate_ips_for_port na ctx mx nid fixed d = Inr (ips, d')"
  shows "ipam_held na nid ips d' \<and> (\<exists>rs. d' = d\<lparr>ip_ranges := rs\<rparr>)"
proof (cases fixed)
  case None
  show ?thesis by (rule allocate_ips_default_held [OF na inv al [unfolded None]])
next
  case (Some fs)
  with req have "ip_request_ok na d nid fs" by simp
  then show ?thesis by (rule allocate_ips_given_held [OF na inv _ al [unfolded Some]])
qed

end
