(* ===== verification/PyVal.thy ===== *)
theory PyVal
  imports NeutronExc
begin

text \<open>
  The Python values that pass through the API: what a JSON request decodes to, and the dicts the
  plugins return.  A dict is the list of its items in iteration order; the keys of a dict are
  distinct.  \<open>PAttrNotSpecified\<close> is the sentinel object \<open>ATTR_NOT_SPECIFIED\<close>.
\<close>

datatype pyval =
    PNone
  | PBool bool
  | PInt int
  | PStr string
  | PList "pyval list"
  | PDict "(string \<times> pyval) list"
  | PAttrNotSpecified

type_synonym pydict = "(string \<times> pyval) list"

definition dict_get :: "pydict \<Rightarrow> string \<Rightarrow> pyval option" where
  "dict_get d k = map_of d k"

definition dict_has :: "pydict \<Rightarrow> string \<Rightarrow> bool" where
  "dict_has d k \<longleftrightarrow> k \<in> fst ` set d"

fun dict_set :: "pydict \<Rightarrow> string \<Rightarrow> pyval \<Rightarrow> pydict" where
  "dict_set [] k v = [(k, v)]"
| "dict_set ((k', w) # d) k v = (if k' = k then (k, v) # d else (k', w) # dict_set d k v)"

lemma dict_get_set: "dict_get (dict_set d k v) k' = (if k' = k then Some v else dict_get d k')"
  by (induction d) (auto simp: dict_get_def)

lemma dict_has_iff: "dict_has d k \<longleftrightarrow> dict_get d k \<noteq> None"
  by (auto simp: dict_has_def dict_get_def map_of_eq_None_iff)

definition PStr_opt :: "string option \<Rightarrow> pyval" where
  "PStr_opt s = (case s of None \<Rightarrow> PNone | Some x \<Rightarrow> PStr x)"

text \<open>Truth value testing (\<open>if x:\<close>).\<close>

fun py_true :: "pyval \<Rightarrow> bool" where
  "py_true PNone = False"
| "py_true (PBool b) = b"
| "py_true (PInt n) = (n \<noteq> 0)"
| "py_true (PStr s) = (s \<noteq> [])"
| "py_true (PList xs) = (xs \<noteq> [])"
| "py_true (PDict d) = (d \<noteq> [])"
| "py_true PAttrNotSpecified = True"

text \<open>
  \<open>_fields\<close> of \<open>CommonDbMixin\<close>: with a non-empty list of field names the result is restricted
  to these keys, otherwise the resource itself is returned.
\<close>

definition only_fields :: "pydict \<Rightarrow> string list option \<Rightarrow> pydict" where
  "only_fields resource flds =
     (case flds of
        None \<Rightarrow> resource
      | Some [] \<Rightarrow> resource
      | Some fs \<Rightarrow> filter (\<lambda>(key, _). key \<in> set fs) resource)"

lemma dict_get_only_fields:
  "flds \<noteq> None \<Longrightarrow> flds \<noteq> Some [] \<Longrightarrow>
     dict_get (only_fields res flds) k = (if k \<in> set (the flds) then dict_get res k else None)"
proof -
  assume "flds \<noteq> None" "flds \<noteq> Some []"
  then obtain f fs where flds: "flds = Some (f # fs)" by (cases flds; cases "the flds") auto
  have *: "map_of (filter (\<lambda>(key, _). key \<in> K) res) k = (if k \<in> K then map_of res k else None)" for K
    by (induction res) auto
  show ?thesis unfolding flds only_fields_def dict_get_def option.case list.case option.sel by (rule *)
qed

end
