(* ===== verification/CorePlugin.thy ===== *)
theory CorePlugin
  imports IpamInv PyVal
begin

text \<open>
  The operations of \<open>NeutronDbPluginV2\<close> (\<open>neutron/db/db_base_plugin_v2.py\<close>) on networks,
  subnets and ports.  An operation takes the request after the API layer has validated it: a
  record with the attributes the operation reads.  \<open>'a attr\<close> is an attribute whose default is
  \<open>ATTR_NOT_SPECIFIED\<close>; in the update requests a key that is absent is \<open>None\<close>.

  Identifiers drawn by \<open>generate_uuid\<close> are an argument (\<open>uuid i\<close> is the i-th one drawn), and so
  are the configuration options and the random bytes of a generated MAC address.
\<close>

datatype 'a attr = NotSpecified | Given 'a

record conf =
  max_fixed_ips_per_port :: int
  max_dns_nameservers :: int
  max_subnet_host_routes :: int
  force_gateway_on_subnet :: bool
  allow_overlapping_ips :: bool
  base_mac :: "string list"
  mac_generation_retries :: nat

definition AUTO_DELETE_PORT_OWNERS :: "string list" where
  "AUTO_DELETE_PORT_OWNERS = [''network:dhcp'']"

section \<open>Views\<close>

text \<open>Extension functions registered with \<open>register_dict_extend_funcs\<close>, in their order.\<close>

type_synonym 'r dict_extend = "pydict \<Rightarrow> 'r \<Rightarrow> pydict"

definition apply_dict_extend_functions :: "'r dict_extend list \<Rightarrow> pydict \<Rightarrow> 'r \<Rightarrow> pydict" where
  "apply_dict_extend_functions funcs response db_object =
     foldl (\<lambda>res f. f res db_object) response funcs"

definition make_network_dict ::
    "network_row dict_extend list \<Rightarrow> db \<Rightarrow> network_row \<Rightarrow> string list option \<Rightarrow> pydict" where
  "make_network_dict funcs d n flds =
     only_fields (apply_dict_extend_functions funcs
       [(''id'', PStr (n_id n)),
        (''name'', PStr (n_name n)),
        (''tenant_id'', PStr (n_tenant n)),
        (''admin_state_up'', PBool (n_admin_state_up n)),
        (''status'', PStr (n_status n)),
        (''shared'', PBool (n_shared n)),
        (''subnets'', PList (map (\<lambda>s. PStr (s_id s)) (filter (\<lambda>s. s_network s = n_id n) (subnets d))))]
       n) flds"

definition make_subnet_dict :: "db \<Rightarrow> subnet_row \<Rightarrow> string list option \<Rightarrow> pydict" where
  "make_subnet_dict d s flds =
     only_fields
       [(''id'', PStr (s_id s)),
        (''name'', PStr (s_name s)),
        (''tenant_id'', PStr (s_tenant s)),
        (''network_id'', PStr (s_network s)),
        (''ip_version'', PInt (int (s_ip_version s))),
        (''cidr'', PStr (s_cidr s)),
        (''allocation_pools'', PList (map (\<lambda>p. PDict [(''start'', PStr (p_first p)), (''end'', PStr (p_last p))])
           (pools_of (s_id s) d))),
        (''gateway_ip'', PStr_opt (s_gateway s)),
        (''enable_dhcp'', PBool (s_enable_dhcp s)),
        (''dns_nameservers'', PList (map (\<lambda>n. PStr (dns_address n))
           (filter (\<lambda>n. dns_subnet n = s_id s) (dns_servers d)))),
        (''host_routes'', PList (map (\<lambda>r. PDict [(''destination'', PStr (rt_destination r)),
                                                    (''nexthop'', PStr (rt_nexthop r))])
           (filter (\<lambda>r. rt_subnet r = s_id s) (subnet_routes d)))),
        (''shared'', PBool (s_shared s))] flds"

definition port_allocs :: "string \<Rightarrow> db \<Rightarrow> ip_alloc_row list" where
  "port_allocs pid d = filter (\<lambda>a. a_port a = Some pid) (ip_allocs d)"

definition fixed_ips_dict :: "(string \<times> string) list \<Rightarrow> pyval" where
  "fixed_ips_dict ips = PList (map (\<lambda>(ip, sid). PDict [(''subnet_id'', PStr sid), (''ip_address'', PStr ip)]) ips)"

definition make_port_dict ::
    "port_row dict_extend list \<Rightarrow> db \<Rightarrow> port_row \<Rightarrow> string list option \<Rightarrow> pydict" where
  "make_port_dict funcs d p flds =
     only_fields (apply_dict_extend_functions funcs
       [(''id'', PStr (pt_id p)),
        (''name'', PStr (pt_name p)),
        (''network_id'', PStr (pt_network p)),
        (''tenant_id'', PStr (pt_tenant p)),
        (''mac_address'', PStr (pt_mac p)),
        (''admin_state_up'', PBool (pt_admin_state_up p)),
        (''status'', PStr (pt_status p)),
        (''fixed_ips'', fixed_ips_dict (map (\<lambda>a. (a_ip a, a_subnet a)) (port_allocs (pt_id p) d))),
        (''device_id'', PStr (pt_device_id p)),
        (''device_owner'', PStr (pt_device_owner p))] p) flds"

section \<open>Networks\<close>

record network_create =
  nc_tenant :: "string option"
  nc_id :: "string option"
  nc_name :: string
  nc_admin_state_up :: bool
  nc_shared :: bool
  nc_status :: "string option"

record network_update =
  nu_name :: "string option"
  nu_admin_state_up :: "bool option"
  nu_shared :: "bool option"
  nu_status :: "string option"

text \<open>\<open>x.get('id') or generate_uuid()\<close>.\<close>

definition id_or_uuid :: "string option \<Rightarrow> string \<Rightarrow> string" where
  "id_or_uuid i u = (case i of None \<Rightarrow> u | Some x \<Rightarrow> if x = [] then u else x)"

definition add_network :: "network_row \<Rightarrow> unit dbop" where
  "add_network n = (\<lambda>d. if n_id n \<in> n_id ` set (networks d) then Inl IntegrityError
                         else Inr ((), d\<lparr>networks := networks d @ [n]\<rparr>))"

definition create_network :: "ctxt \<Rightarrow> (nat \<Rightarrow> string) \<Rightarrow> network_create \<Rightarrow> pydict dbop" where
  "create_network ctx uuid n =
     bindE (liftE (get_tenant_id_for_create ctx (nc_tenant n))) (\<lambda>tenant_id.
     let network = \<lparr>n_id = id_or_uuid (nc_id n) (uuid 0), n_tenant = tenant_id, n_name = nc_name n,
                    n_status = (case nc_status n of None \<Rightarrow> ''ACTIVE'' | Some st \<Rightarrow> st),
                    n_admin_state_up = nc_admin_state_up n, n_shared = nc_shared n\<rparr>
     in thenE (add_network network) (getsE (\<lambda>d. make_network_dict [] d network None)))"

definition validate_shared_update ::
    "ctxt \<Rightarrow> string \<Rightarrow> network_row \<Rightarrow> bool \<Rightarrow> db \<Rightarrow> exc + unit" where
  "validate_shared_update ctx i original updated_shared d =
     (if updated_shared = n_shared original \<or> updated_shared then Inr ()
      else
        let tenant_ids = remdups
              (map pt_tenant (filter (\<lambda>p. pt_network p = i) (query_ports ctx d)) @
               map s_tenant (filter (\<lambda>s. s_network s = i) (query_subnets ctx d)))
        in if length tenant_ids > 1 \<or> length tenant_ids = 1 \<and> hd tenant_ids \<noteq> n_tenant original
           then Inl (InvalidSharedSetting (n_name original)) else Inr ())"

definition apply_network_update :: "network_update \<Rightarrow> network_row \<Rightarrow> network_row" where
  "apply_network_update u n =
     n\<lparr>n_name := (case nu_name u of None \<Rightarrow> n_name n | Some x \<Rightarrow> x),
       n_admin_state_up := (case nu_admin_state_up u of None \<Rightarrow> n_admin_state_up n | Some x \<Rightarrow> x),
       n_shared := (case nu_shared u of None \<Rightarrow> n_shared n | Some x \<Rightarrow> x),
       n_status := (case nu_status u of None \<Rightarrow> n_status n | Some x \<Rightarrow> x)\<rparr>"

definition update_network ::
    "ctxt \<Rightarrow> network_row dict_extend list \<Rightarrow> string \<Rightarrow> network_update \<Rightarrow> pydict dbop" where
  "update_network ctx funcs i u =
     bindE (checkE (get_network_row ctx i)) (\<lambda>network.
     bindE (case nu_shared u of None \<Rightarrow> returnE ()
            | Some sh \<Rightarrow> checkE (validate_shared_update ctx i network sh)) (\<lambda>_.
     let network' = apply_network_update u network in
     bindE (modifyE (\<lambda>d. d\<lparr>networks := replace_row network network' (networks d),
                            subnets := map (\<lambda>s. if s_network s = i then s\<lparr>s_shared := n_shared network'\<rparr> else s)
                                         (subnets d)\<rparr>)) (\<lambda>_.
       getsE (\<lambda>d. make_network_dict funcs d network' None))))"

section \<open>Ports\<close>

text \<open>
  \<open>_generate_mac\<close>: up to \<open>mac_generation_retries\<close> attempts, each with three random bytes
  (the list \<open>rnd\<close> holds the bytes drawn in each attempt).
\<close>

definition hex_digits :: "char list" where
  "hex_digits = ''0123456789abcdef''"

definition hex2 :: "nat \<Rightarrow> string" where
  "hex2 n = (if n < 16 then [CHR ''0'', hex_digits ! n]
             else [hex_digits ! (n div 16 mod 16), hex_digits ! (n mod 16)])"

fun join_colon :: "string list \<Rightarrow> string" where
  "join_colon [] = []"
| "join_colon [x] = x"
| "join_colon (x # y # zs) = x @ '':'' @ join_colon (y # zs)"

text \<open>\<open>int(text, 16)\<close> on the octets of \<open>base_mac\<close>.\<close>

definition hex_val :: "char \<Rightarrow> nat option" where
  "hex_val c = map_of (zip ''0123456789abcdefABCDEF'' ([0..<16] @ [10..<16])) c"

fun int16_from :: "nat \<Rightarrow> string \<Rightarrow> exc + nat" where
  "int16_from acc [] = Inr acc"
| "int16_from acc (c # cs) =
     (case hex_val c of None \<Rightarrow> Inl ValueError | Some v \<Rightarrow> int16_from (16 * acc + v) cs)"

definition int16 :: "string \<Rightarrow> exc + nat" where
  "int16 s = (if s = [] then Inl ValueError else int16_from 0 s)"

definition check_unique_mac :: "string \<Rightarrow> string \<Rightarrow> db \<Rightarrow> exc + bool" where
  "check_unique_mac network_id mac_address d =
     bindR (one_row MultipleResultsFound
       (filter (\<lambda>p. pt_network p = network_id \<and> pt_mac p = mac_address) (ports d)))
       (\<lambda>row. Inr (row = None))"

definition mac_attempt :: "string list \<Rightarrow> nat \<times> nat \<times> nat \<Rightarrow> exc + string" where
  "mac_attempt base rnd =
     (case (base, rnd) of
        (b0 # b1 # b2 # b3 # _, (x3, x4, x5)) \<Rightarrow>
          bindR (int16 b0) (\<lambda>m0. bindR (int16 b1) (\<lambda>m1. bindR (int16 b2) (\<lambda>m2.
          bindR (if b3 \<noteq> ''00'' then int16 b3 else Inr x3) (\<lambda>m3.
            Inr (join_colon (map hex2 [m0, m1, m2, m3, x4, x5]))))))
      | _ \<Rightarrow> Inl IndexError)"

fun generate_mac_from :: "string list \<Rightarrow> string \<Rightarrow> (nat \<times> nat \<times> nat) list \<Rightarrow> db \<Rightarrow> exc + string" where
  "generate_mac_from base network_id [] d = Inl (MacAddressGenerationFailure network_id)"
| "generate_mac_from base network_id (rnd # rest) d =
     bindR (mac_attempt base rnd) (\<lambda>mac_address.
     bindR (check_unique_mac network_id mac_address d) (\<lambda>unique.
       if unique then Inr mac_address else generate_mac_from base network_id rest d))"

definition generate_mac :: "conf \<Rightarrow> (nat \<Rightarrow> nat \<times> nat \<times> nat) \<Rightarrow> string \<Rightarrow> db \<Rightarrow> exc + string" where
  "generate_mac cfg rnd network_id d =
     generate_mac_from (base_mac cfg) network_id (map rnd [0..<mac_generation_retries cfg]) d"

record port_create =
  pc_tenant :: "string option"
  pc_id :: "string option"
  pc_name :: string
  pc_network :: string
  pc_mac :: "string attr"
  pc_fixed_ips :: "fixed_ip list attr"
  pc_admin_state_up :: bool
  pc_status :: "string option"
  pc_device_id :: string
  pc_device_owner :: string

record port_update =
  pu_name :: "string option"
  pu_mac :: "string option"
  pu_fixed_ips :: "fixed_ip list option"
  pu_admin_state_up :: "bool option"
  pu_status :: "string option"
  pu_device_id :: "string option"
  pu_device_owner :: "string option"

definition add_port :: "port_row \<Rightarrow> unit dbop" where
  "add_port p = (\<lambda>d. if pt_id p \<in> pt_id ` set (ports d) then Inl IntegrityError
                      else Inr ((), d\<lparr>ports := ports d @ [p]\<rparr>))"

definition add_allocs :: "string \<Rightarrow> string \<Rightarrow> (string \<times> string) list \<Rightarrow> unit dbop" where
  "add_allocs network_id port_id ips =
     forE (\<lambda>(ip, sid). add_alloc \<lparr>a_port = Some port_id, a_ip = ip, a_subnet = sid, a_network = network_id\<rparr>) ips"

definition attr_opt :: "'a attr \<Rightarrow> 'a option" where
  "attr_opt a = (case a of NotSpecified \<Rightarrow> None | Given x \<Rightarrow> Some x)"

definition port_mac :: "conf \<Rightarrow> (nat \<Rightarrow> nat \<times> nat \<times> nat) \<Rightarrow> string \<Rightarrow> string attr \<Rightarrow> db \<Rightarrow> exc + string" where
  "port_mac cfg rnd network_id mac d =
     (case mac of
        NotSpecified \<Rightarrow> generate_mac cfg rnd network_id d
      | Given m \<Rightarrow>
          bindR (check_unique_mac network_id m d) (\<lambda>unique.
            if unique then Inr m else Inl (MacAddressInUse network_id m)))"

definition new_port :: "port_create \<Rightarrow> string \<Rightarrow> string \<Rightarrow> string \<Rightarrow> port_row" where
  "new_port p port_id tenant_id mac_address =
     \<lparr>pt_id = port_id, pt_tenant = tenant_id, pt_name = pc_name p, pt_network = pc_network p,
      pt_mac = mac_address, pt_admin_state_up = pc_admin_state_up p,
      pt_status = (case pc_status p of None \<Rightarrow> ''ACTIVE'' | Some st \<Rightarrow> st),
      pt_device_id = pc_device_id p, pt_device_owner = pc_device_owner p\<rparr>"

definition create_port ::
    "netaddr \<Rightarrow> conf \<Rightarrow> ctxt \<Rightarrow> (nat \<Rightarrow> string) \<Rightarrow> (nat \<Rightarrow> nat \<times> nat \<times> nat) \<Rightarrow> port_create \<Rightarrow> pydict dbop" where
  "create_port na cfg ctx uuid rnd p =
     (let port_id = id_or_uuid (pc_id p) (uuid 0); network_id = pc_network p in
     bindE (liftE (get_tenant_id_for_create ctx (pc_tenant p))) (\<lambda>tenant_id.
     bindE (checkE (get_network_row ctx network_id)) (\<lambda>network.
     bindE (checkE (port_mac cfg rnd network_id (pc_mac p))) (\<lambda>mac_address.
     bindE (allocate_ips_for_port na ctx (max_fixed_ips_per_port cfg) network_id (attr_opt (pc_fixed_ips p))) (\<lambda>ips.
     let port = new_port p port_id tenant_id mac_address in
     bindE (add_port port) (\<lambda>_.
     bindE (add_allocs network_id port_id ips) (\<lambda>_.
       getsE (\<lambda>d. make_port_dict [] d port None))))))))"

definition apply_port_update :: "port_update \<Rightarrow> port_row \<Rightarrow> port_row" where
  "apply_port_update u p =
     p\<lparr>pt_name := (case pu_name u of None \<Rightarrow> pt_name p | Some x \<Rightarrow> x),
       pt_mac := (case pu_mac u of None \<Rightarrow> pt_mac p | Some x \<Rightarrow> x),
       pt_admin_state_up := (case pu_admin_state_up u of None \<Rightarrow> pt_admin_state_up p | Some x \<Rightarrow> x),
       pt_status := (case pu_status u of None \<Rightarrow> pt_status p | Some x \<Rightarrow> x),
       pt_device_id := (case pu_device_id u of None \<Rightarrow> pt_device_id p | Some x \<Rightarrow> x),
       pt_device_owner := (case pu_device_owner u of None \<Rightarrow> pt_device_owner p | Some x \<Rightarrow> x)\<rparr>"

definition update_port ::
    "netaddr \<Rightarrow> conf \<Rightarrow> ctxt \<Rightarrow> port_row dict_extend list \<Rightarrow> string \<Rightarrow> port_update \<Rightarrow> pydict dbop" where
  "update_port na cfg ctx funcs i u =
     bindE (checkE (get_port_row ctx i)) (\<lambda>port.
     bindE (case pu_fixed_ips u of
              None \<Rightarrow> returnE None
            | Some new_ips \<Rightarrow>
                bindE (getsE (\<lambda>d. map (\<lambda>a. (a_ip a, a_subnet a)) (port_allocs (pt_id port) d))) (\<lambda>original.
                bindE (update_ips_for_port na ctx (max_fixed_ips_per_port cfg) (pt_network port) original new_ips)
                  (\<lambda>(added_ips, prev_ips).
                bindE (add_allocs (pt_network port) (pt_id port) added_ips) (\<lambda>_.
                  returnE (Some (prev_ips @ added_ips)))))) (\<lambda>changed.
     let port' = apply_port_update u port in
     bindE (modifyE (\<lambda>d. d\<lparr>ports := replace_row port port' (ports d)\<rparr>)) (\<lambda>_.
     bindE (getsE (\<lambda>d. make_port_dict funcs d port' None)) (\<lambda>result.
       returnE (case changed of None \<Rightarrow> result
                | Some ips \<Rightarrow> dict_set result ''fixed_ips'' (fixed_ips_dict ips))))))"

text \<open>One allocated address of a port that is being deleted.\<close>

definition release_alloc :: "netaddr \<Rightarrow> ctxt \<Rightarrow> ip_alloc_row \<Rightarrow> unit dbop" where
  "release_alloc na ctx a =
     bindE (checkE (get_subnet_row ctx (a_subnet a))) (\<lambda>subnet.
     bindE (checkE (check_ip_in_allocation_pool na (a_subnet a) (s_gateway subnet) (a_ip a))) (\<lambda>in_pool.
       if in_pool then recycle_ip na (a_network a) (a_subnet a) (a_ip a)
       else delete_ip_allocation (a_network a) (a_subnet a) (a_ip a)))"

text \<open>Deleting a port row; allocations of the port that are left go with it (\<open>ondelete="CASCADE"\<close>).\<close>

definition del_port_row :: "string \<Rightarrow> unit dbop" where
  "del_port_row i = modifyE (\<lambda>d. d\<lparr>ports := filter (\<lambda>p. pt_id p \<noteq> i) (ports d),
      ip_allocs := filter (\<lambda>a. a_port a \<noteq> Some i) (ip_allocs d)\<rparr>)"

definition find_port_for_delete :: "ctxt \<Rightarrow> string \<Rightarrow> db \<Rightarrow> exc + port_row" where
  "find_port_for_delete ctx i d =
     bindR (one_row MultipleResultsFound
       (filter (\<lambda>p. pt_id p = i \<and> (ctx_is_admin ctx \<or> pt_tenant p = ctx_tenant ctx)) (ports d)))
       (\<lambda>row. case row of None \<Rightarrow> Inl NoResultFound | Some p \<Rightarrow> Inr p)"

definition delete_port_row :: "netaddr \<Rightarrow> ctxt \<Rightarrow> string \<Rightarrow> unit dbop" where
  "delete_port_row na ctx i =
     bindE (checkE (find_port_for_delete ctx i)) (\<lambda>port.
     bindE (getsE (port_allocs i)) (\<lambda>allocated.
     thenE (forE (release_alloc na ctx) allocated) (del_port_row i)))"

definition delete_port :: "netaddr \<Rightarrow> ctxt \<Rightarrow> string \<Rightarrow> unit dbop" where
  "delete_port na ctx i = delete_port_row na ctx i"

text \<open>\<open>delete_ports\<close> with the filters of the request as a predicate on the columns.\<close>

definition delete_ports :: "netaddr \<Rightarrow> ctxt \<Rightarrow> (port_row \<Rightarrow> bool) \<Rightarrow> unit dbop" where
  "delete_ports na ctx flt =
     bindE (getsE (\<lambda>d. filter flt (ports d))) (\<lambda>ps.
       forE (\<lambda>p. delete_port na ctx (pt_id p)) ps)"

end
