(* ===== verification/SubnetOps.thy ===== *)
theory SubnetOps
  imports CorePlugin
begin

text \<open>
  Subnets (\<open>create_subnet\<close>, \<open>update_subnet\<close>, \<open>delete_subnet\<close> and the validation they share)
  and the deletion of networks, in \<open>neutron/db/db_base_plugin_v2.py\<close>.
\<close>

section \<open>Validation\<close>

text \<open>Addresses compare by version, then by value.\<close>

definition ip_less :: "ipaddr \<Rightarrow> ipaddr \<Rightarrow> bool" where
  "ip_less a b \<longleftrightarrow> ip_ver a < ip_ver b \<or> ip_ver a = ip_ver b \<and> ip_val a < ip_val b"

definition validate_subnet_cidr ::
    "netaddr \<Rightarrow> conf \<Rightarrow> network_row \<Rightarrow> string \<Rightarrow> db \<Rightarrow> exc + unit" where
  "validate_subnet_cidr na cfg network new_cidr d =
     bindR (py_net na new_cidr) (\<lambda>new_net.
     let subnet_list = (if allow_overlapping_ips cfg then filter (\<lambda>s. s_network s = n_id network) (subnets d)
                        else subnets d)
     in forR (\<lambda>s. bindR (py_net na (s_cidr s)) (\<lambda>net.
          if nets_meet net new_net
          then Inl (InvalidInput ''Requested subnet with cidr: %(cidr)s for network: %(network_id)s overlaps with another subnet'')
          else Inr ())) subnet_list)"

text \<open>One pool of \<open>_validate_allocation_pools\<close>; the result is the IP set made for it.\<close>

definition validate_pool ::
    "netaddr \<Rightarrow> string \<Rightarrow> ipnet \<Rightarrow> ipaddr \<Rightarrow> ipaddr \<Rightarrow> string \<times> string \<Rightarrow> exc + ipaddr \<times> ipaddr" where
  "validate_pool na subnet_cidr subnet subnet_first_ip subnet_last_ip pool =
     (case (na_ip na (fst pool), na_ip na (snd pool)) of
        (Some start_ip, Some end_ip) \<Rightarrow>
          (if ip_ver start_ip \<noteq> net_ver subnet \<or> ip_ver end_ip \<noteq> net_ver subnet
           then Inl (InvalidAllocationPool pool)
           else if ip_less end_ip start_ip then Inl (InvalidAllocationPool pool)
           else if ip_less start_ip subnet_first_ip \<or> ip_less subnet_last_ip end_ip
             then Inl (OutOfBoundsAllocationPool pool subnet_cidr)
           else Inr (start_ip, end_ip))
      | _ \<Rightarrow> Inl (InvalidAllocationPool pool))"

text \<open>The cursors over all pairs \<open>l < r\<close>.\<close>

fun check_overlaps_with ::
    "string \<Rightarrow> (ipaddr \<times> ipaddr) \<times> (string \<times> string) \<Rightarrow> ((ipaddr \<times> ipaddr) \<times> (string \<times> string)) list \<Rightarrow> exc + unit" where
  "check_overlaps_with cidr l [] = Inr ()"
| "check_overlaps_with cidr l (r # rs) =
     (if ranges_meet (fst l) (fst r) then Inl (OverlappingAllocationPools (snd l) (snd r) cidr)
      else check_overlaps_with cidr l rs)"

fun check_overlaps :: "string \<Rightarrow> ((ipaddr \<times> ipaddr) \<times> (string \<times> string)) list \<Rightarrow> exc + unit" where
  "check_overlaps cidr [] = Inr ()"
| "check_overlaps cidr (l # rs) =
     bindR (check_overlaps_with cidr l rs) (\<lambda>_. check_overlaps cidr rs)"

definition validate_allocation_pools :: "netaddr \<Rightarrow> (string \<times> string) list \<Rightarrow> string \<Rightarrow> exc + unit" where
  "validate_allocation_pools na pools subnet_cidr =
     bindR (py_net na subnet_cidr) (\<lambda>subnet.
     bindR (ip_of_int (net_first subnet + 1)) (\<lambda>subnet_first_ip.
     bindR (ip_of_int (net_last subnet - 1)) (\<lambda>subnet_last_ip.
     bindR (mapR (validate_pool na subnet_cidr subnet subnet_first_ip subnet_last_ip) pools) (\<lambda>ip_sets.
       check_overlaps subnet_cidr (zip ip_sets pools)))))"

text \<open>
  \<open>_validate_ip_version\<close> reads the address as a network; the error is given by its
  message template, without the quotes in it.
\<close>

definition validate_ip_version :: "netaddr \<Rightarrow> nat \<Rightarrow> string \<Rightarrow> exc + unit" where
  "validate_ip_version na ip_version addr =
     bindR (py_net na addr) (\<lambda>ip.
       if net_ver ip \<noteq> ip_version
       then Inl (InvalidInput ''%(name)s %(addr)s does not match the ip_version %(ip_version)s'')
       else Inr ())"

definition validate_host_route :: "netaddr \<Rightarrow> string \<times> string \<Rightarrow> nat \<Rightarrow> exc + unit" where
  "validate_host_route na route ip_version =
     (if na_net na (fst route) = None \<or> na_ip na (snd route) = None
      then Inl (InvalidInput ''Invalid route: %s'')
      else bindR (validate_ip_version na ip_version (snd route)) (\<lambda>_.
             validate_ip_version na ip_version (fst route)))"

definition allocate_pools_for_subnet ::
    "netaddr \<Rightarrow> string \<Rightarrow> string option \<Rightarrow> exc + (string \<times> string) list" where
  "allocate_pools_for_subnet na cidr gateway_ip =
     bindR (py_net na cidr) (\<lambda>net.
     let first_ip = net_first net + 1; last_ip = net_last net - 1 in
     bindR (case gateway_ip of
              None \<Rightarrow> ip_of_int (net_last net)
            | Some g \<Rightarrow> if g = [] then ip_of_int (net_last net) else py_ip na g) (\<lambda>gw.
     let split_ip = min (max (ip_val gw) (net_first net)) (net_last net) in
     bindR (if split_ip > first_ip
            then bindR (ip_of_int first_ip) (\<lambda>a. bindR (ip_of_int (split_ip - 1)) (\<lambda>b.
                   Inr [(na_str na a, na_str na b)]))
            else Inr []) (\<lambda>lower.
     bindR (if split_ip < last_ip
            then bindR (ip_of_int (split_ip + 1)) (\<lambda>a. bindR (ip_of_int last_ip) (\<lambda>b.
                   Inr [(na_str na a, na_str na b)]))
            else Inr []) (\<lambda>upper.
       Inr (lower @ upper)))))"

definition validate_gw_out_of_pools :: "netaddr \<Rightarrow> string \<Rightarrow> (string \<times> string) list \<Rightarrow> exc + unit" where
  "validate_gw_out_of_pools na gateway_ip pools =
     forR (\<lambda>pool. bindR (py_range na (fst pool) (snd pool)) (\<lambda>pool_range.
        bindR (py_ip na gateway_ip) (\<lambda>gw.
          if in_range gw pool_range then Inl (GatewayConflictWithAllocationPools gateway_ip pool)
          else Inr ()))) pools"

text \<open>
  The attributes of a subnet that \<open>_validate_subnet\<close> looks at.  An attribute that is missing,
  \<open>None\<close> or not specified is \<open>None\<close> here (\<open>is_attr_set\<close>).
\<close>

record subnet_spec =
  sp_id :: "string option"
  sp_ip_version :: nat
  sp_cidr :: string
  sp_gateway :: "string option"
  sp_dns :: "string list option"
  sp_routes :: "(string \<times> string) list option"

definition validate_gateway ::
    "netaddr \<Rightarrow> conf \<Rightarrow> subnet_spec \<Rightarrow> string \<Rightarrow> subnet_row option \<Rightarrow> db \<Rightarrow> exc + unit" where
  "validate_gateway na cfg s gw cur_subnet d =
     bindR (validate_ip_version na (sp_ip_version s) gw) (\<lambda>_.
     bindR (if force_gateway_on_subnet cfg
            then bindR (check_subnet_ip na (sp_cidr s) gw) (\<lambda>ok.
                   if ok then Inr () else Inl (InvalidInput ''Gateway is not valid on subnet''))
            else Inr ()) (\<lambda>_.
       case cur_subnet of
         None \<Rightarrow> Inr ()
       | Some cur \<Rightarrow>
           (case first_row (filter (\<lambda>a. Some (a_ip a) = s_gateway cur \<and> a_subnet a = s_id cur) (ip_allocs d)) of
              None \<Rightarrow> Inr ()
            | Some a \<Rightarrow>
                (case a_port a of
                   None \<Rightarrow> Inr ()
                 | Some pid \<Rightarrow> if pid = [] then Inr () else Inl (GatewayIpInUse (a_ip a) pid)))))"

definition validate_subnet ::
    "netaddr \<Rightarrow> conf \<Rightarrow> subnet_spec \<Rightarrow> subnet_row option \<Rightarrow> db \<Rightarrow> exc + unit" where
  "validate_subnet na cfg s cur_subnet d =
     bindR (validate_ip_version na (sp_ip_version s) (sp_cidr s)) (\<lambda>_.
     bindR (case sp_gateway s of None \<Rightarrow> Inr () | Some gw \<Rightarrow> validate_gateway na cfg s gw cur_subnet d) (\<lambda>_.
     bindR (case sp_dns s of None \<Rightarrow> Inr ()
            | Some dns \<Rightarrow>
                (if int (length dns) > max_dns_nameservers cfg
                 then Inl (DNSNameServersExhausted (sp_id s) (max_dns_nameservers cfg))
                 else forR (\<lambda>x. if na_ip na x = None then Inl (InvalidInput ''Error parsing dns address %s'')
                                else validate_ip_version na (sp_ip_version s) x) dns)) (\<lambda>_.
       case sp_routes s of None \<Rightarrow> Inr ()
       | Some rts \<Rightarrow>
           (if int (length rts) > max_subnet_host_routes cfg
            then Inl (HostRoutesExhausted (sp_id s) (max_subnet_host_routes cfg))
            else forR (\<lambda>rt. validate_host_route na rt (sp_ip_version s)) rts))))"

section \<open>Creation\<close>

record subnet_create =
  sc_tenant :: "string option"
  sc_id :: "string option"
  sc_name :: string
  sc_network :: string
  sc_ip_version :: nat
  sc_cidr :: string
  sc_enable_dhcp :: bool
  sc_gateway :: "string option attr"
  sc_pools :: "(string \<times> string) list attr"
  sc_dns :: "string list attr"
  sc_routes :: "(string \<times> string) list attr"

definition add_subnet :: "subnet_row \<Rightarrow> unit dbop" where
  "add_subnet s = (\<lambda>d. if s_id s \<in> s_id ` set (subnets d) then Inl IntegrityError
                        else Inr ((), d\<lparr>subnets := subnets d @ [s]\<rparr>))"

definition add_dns :: "dns_row \<Rightarrow> unit dbop" where
  "add_dns n = (\<lambda>d. if n \<in> set (dns_servers d) then Inl IntegrityError
                     else Inr ((), d\<lparr>dns_servers := dns_servers d @ [n]\<rparr>))"

definition add_route :: "subnet_route_row \<Rightarrow> unit dbop" where
  "add_route r = (\<lambda>d. if r \<in> set (subnet_routes d) then Inl IntegrityError
                       else Inr ((), d\<lparr>subnet_routes := subnet_routes d @ [r]\<rparr>))"

definition add_pool :: "ip_pool_row \<Rightarrow> unit dbop" where
  "add_pool p = (\<lambda>d. if p_id p \<in> p_id ` set (ip_pools d) then Inl IntegrityError
                      else Inr ((), d\<lparr>ip_pools := ip_pools d @ [p]\<rparr>))"

text \<open>One iteration of the loop that stores the pools, with the identifier drawn for the pool.\<close>

definition add_pool_with_range :: "string \<Rightarrow> string \<times> (string \<times> string) \<Rightarrow> unit dbop" where
  "add_pool_with_range sid ip =
     (let (pid, (start, end_ip)) = ip in
      thenE (add_pool \<lparr>p_id = pid, p_subnet = sid, p_first = start, p_last = end_ip\<rparr>)
        (add_range \<lparr>r_pool = pid, r_first = start, r_last = end_ip\<rparr>))"

definition default_gateway :: "netaddr \<Rightarrow> ipnet \<Rightarrow> string option attr \<Rightarrow> exc + string option" where
  "default_gateway na net gw =
     (case gw of
        Given g \<Rightarrow> Inr g
      | NotSpecified \<Rightarrow> bindR (ip_of_int (net_first net + 1)) (\<lambda>a. Inr (Some (na_str na a))))"

definition subnet_pools ::
    "netaddr \<Rightarrow> string \<Rightarrow> string option \<Rightarrow> (string \<times> string) list attr \<Rightarrow> exc + (string \<times> string) list" where
  "subnet_pools na cidr gateway_ip pools =
     (case pools of
        NotSpecified \<Rightarrow> allocate_pools_for_subnet na cidr gateway_ip
      | Given ps \<Rightarrow>
          bindR (validate_allocation_pools na ps cidr) (\<lambda>_.
          bindR (case gateway_ip of None \<Rightarrow> Inr () | Some g \<Rightarrow> validate_gw_out_of_pools na g ps) (\<lambda>_.
            Inr ps)))"

text \<open>The part of \<open>create_subnet\<close> inside its transaction.\<close>

definition store_subnet ::
    "netaddr \<Rightarrow> conf \<Rightarrow> ctxt \<Rightarrow> (nat \<Rightarrow> string) \<Rightarrow> subnet_create \<Rightarrow> string \<Rightarrow> string option
       \<Rightarrow> (string \<times> string) list \<Rightarrow> subnet_row dbop" where
  "store_subnet na cfg ctx uuid s tenant_id gateway_ip pools =
     bindE (checkE (get_network_row ctx (sc_network s))) (\<lambda>network.
     bindE (checkE (validate_subnet_cidr na cfg network (sc_cidr s))) (\<lambda>_.
     let sid = id_or_uuid (sc_id s) (uuid 0);
         subnet = \<lparr>s_id = sid, s_tenant = tenant_id, s_name = sc_name s, s_network = sc_network s,
                   s_ip_version = sc_ip_version s, s_cidr = sc_cidr s, s_gateway = gateway_ip,
                   s_enable_dhcp = sc_enable_dhcp s, s_shared = n_shared network\<rparr> in
     bindE (add_subnet subnet) (\<lambda>_.
     bindE (case sc_dns s of NotSpecified \<Rightarrow> returnE ()
            | Given dns \<Rightarrow> forE (\<lambda>a. add_dns \<lparr>dns_address = a, dns_subnet = sid\<rparr>) dns) (\<lambda>_.
     bindE (case sc_routes s of NotSpecified \<Rightarrow> returnE ()
            | Given rts \<Rightarrow> forE (\<lambda>(dst, hop). add_route \<lparr>rt_subnet = sid, rt_destination = dst, rt_nexthop = hop\<rparr>) rts) (\<lambda>_.
     bindE (forE (add_pool_with_range sid) (zip (map (\<lambda>i. uuid (Suc i)) [0..<length pools]) pools)) (\<lambda>_.
       returnE subnet))))))"

definition create_subnet ::
    "netaddr \<Rightarrow> conf \<Rightarrow> ctxt \<Rightarrow> (nat \<Rightarrow> string) \<Rightarrow> subnet_create \<Rightarrow> pydict dbop" where
  "create_subnet na cfg ctx uuid s =
     bindE (liftE (py_net na (sc_cidr s))) (\<lambda>net.
     bindE (liftE (default_gateway na net (sc_gateway s))) (\<lambda>gateway_ip.
     bindE (liftE (subnet_pools na (sc_cidr s) gateway_ip (sc_pools s))) (\<lambda>pools.
     bindE (checkE (validate_subnet na cfg
              \<lparr>sp_id = sc_id s, sp_ip_version = sc_ip_version s, sp_cidr = sc_cidr s,
               sp_gateway = gateway_ip, sp_dns = attr_opt (sc_dns s), sp_routes = attr_opt (sc_routes s)\<rparr> None)) (\<lambda>_.
     bindE (liftE (get_tenant_id_for_create ctx (sc_tenant s))) (\<lambda>tenant_id.
     bindE (store_subnet na cfg ctx uuid s tenant_id gateway_ip pools) (\<lambda>subnet.
       getsE (\<lambda>d. make_subnet_dict d subnet None)))))))"

section \<open>Update\<close>

text \<open>
  A subnet update; \<open>su_gateway = Some None\<close> removes the gateway.  The name servers and routes of
  the request are compared as sets with those stored; sets are enumerated in the order of the first
  occurrence.
\<close>

record subnet_update =
  su_name :: "string option"
  su_gateway :: "string option option"
  su_enable_dhcp :: "bool option"
  su_dns :: "string list option"
  su_routes :: "(string \<times> string) list option"

definition update_dns :: "string \<Rightarrow> string list \<Rightarrow> unit dbop" where
  "update_dns sid new =
     bindE (getsE (\<lambda>d. map dns_address (filter (\<lambda>n. dns_subnet n = sid) (dns_servers d)))) (\<lambda>old.
     bindE (modifyE (\<lambda>d. d\<lparr>dns_servers :=
              filter (\<lambda>n. \<not> (dns_subnet n = sid \<and> dns_address n \<notin> set new)) (dns_servers d)\<rparr>)) (\<lambda>_.
       forE (\<lambda>a. add_dns \<lparr>dns_address = a, dns_subnet = sid\<rparr>)
         (filter (\<lambda>a. a \<notin> set old) (remdups new))))"

definition combine_route :: "string \<times> string \<Rightarrow> string" where
  "combine_route ht = fst ht @ ''_'' @ snd ht"

text \<open>\<open>partition("_")\<close>, the parts before and after the first underscore.\<close>

fun partition_underscore :: "string \<Rightarrow> string \<times> string" where
  "partition_underscore [] = ([], [])"
| "partition_underscore (c # cs) =
     (if c = CHR ''_'' then ([], cs)
      else (let (a, b) = partition_underscore cs in (c # a, b)))"

definition update_routes :: "string \<Rightarrow> (string \<times> string) list \<Rightarrow> (string \<times> string) list dbop" where
  "update_routes sid routes =
     (let new_route_set = remdups (map combine_route routes) in
     bindE (getsE (\<lambda>d. map (\<lambda>r. combine_route (rt_destination r, rt_nexthop r))
              (filter (\<lambda>r. rt_subnet r = sid) (subnet_routes d)))) (\<lambda>old.
     bindE (modifyE (\<lambda>d. d\<lparr>subnet_routes :=
              filter (\<lambda>r. \<not> (rt_subnet r = sid \<and>
                 combine_route (rt_destination r, rt_nexthop r) \<notin> set new_route_set)) (subnet_routes d)\<rparr>)) (\<lambda>_.
     bindE (forE (\<lambda>s. add_route \<lparr>rt_subnet = sid, rt_destination = fst (partition_underscore s),
                              rt_nexthop = snd (partition_underscore s)\<rparr>)
              (filter (\<lambda>s. s \<notin> set old) new_route_set)) (\<lambda>_.
       returnE (map partition_underscore new_route_set)))))"

definition apply_subnet_update :: "subnet_update \<Rightarrow> subnet_row \<Rightarrow> subnet_row" where
  "apply_subnet_update u s =
     s\<lparr>s_name := (case su_name u of None \<Rightarrow> s_name s | Some x \<Rightarrow> x),
       s_gateway := (case su_gateway u of None \<Rightarrow> s_gateway s | Some x \<Rightarrow> x),
       s_enable_dhcp := (case su_enable_dhcp u of None \<Rightarrow> s_enable_dhcp s | Some x \<Rightarrow> x)\<rparr>"

definition update_subnet ::
    "netaddr \<Rightarrow> conf \<Rightarrow> ctxt \<Rightarrow> string \<Rightarrow> subnet_update \<Rightarrow> pydict dbop" where
  "update_subnet na cfg ctx i u =
     bindE (checkE (get_subnet_row ctx i)) (\<lambda>db_subnet.
     bindE (checkE (validate_subnet na cfg
              \<lparr>sp_id = Some (s_id db_subnet), sp_ip_version = s_ip_version db_subnet,
               sp_cidr = s_cidr db_subnet, sp_gateway = Option.bind (su_gateway u) id,
               sp_dns = su_dns u, sp_routes = su_routes u\<rparr> (Some db_subnet))) (\<lambda>_.
     bindE (case Option.bind (su_gateway u) id of
              None \<Rightarrow> returnE ()
            | Some gw \<Rightarrow> checkE (\<lambda>d. validate_gw_out_of_pools na gw
                (map (\<lambda>p. (p_first p, p_last p)) (pools_of (s_id db_subnet) d)))) (\<lambda>_.
     bindE (case su_dns u of None \<Rightarrow> returnE () | Some new \<Rightarrow> update_dns i new) (\<lambda>_.
     bindE (case su_routes u of None \<Rightarrow> returnE None
            | Some rts \<Rightarrow> bindE (update_routes i rts) (\<lambda>r. returnE (Some r))) (\<lambda>new_routes.
     bindE (checkE (get_subnet_row ctx i)) (\<lambda>subnet.
     let subnet' = apply_subnet_update u subnet in
     bindE (modifyE (\<lambda>d. d\<lparr>subnets := replace_row subnet subnet' (subnets d)\<rparr>)) (\<lambda>_.
     bindE (getsE (\<lambda>d. make_subnet_dict d subnet' None)) (\<lambda>result.
     let result1 = (case su_dns u of None \<Rightarrow> result
                    | Some new \<Rightarrow> dict_set result ''dns_nameservers'' (PList (map PStr (remdups new)))) in
       returnE (case new_routes of None \<Rightarrow> result1
                | Some rs \<Rightarrow> dict_set result1 ''host_routes''
                    (PList (map (\<lambda>(dst, hop). PDict [(''destination'', PStr dst), (''nexthop'', PStr hop)]) rs)))))))))))"

section \<open>Deletion\<close>

text \<open>
  Deleting the rows of subnets cascades to their pools, to the ranges of these, to the
  allocations, the name servers and the routes.
\<close>

definition drop_subnets :: "(string \<Rightarrow> bool) \<Rightarrow> db \<Rightarrow> db" where
  "drop_subnets gone d =
     d\<lparr>subnets := filter (\<lambda>s. \<not> gone (s_id s)) (subnets d),
       ip_pools := filter (\<lambda>p. \<not> gone (p_subnet p)) (ip_pools d),
       ip_ranges := filter (\<lambda>r. \<not> (\<exists>p \<in> set (ip_pools d). p_id p = r_pool r \<and> gone (p_subnet p))) (ip_ranges d),
       ip_allocs := filter (\<lambda>a. \<not> gone (a_subnet a)) (ip_allocs d),
       dns_servers := filter (\<lambda>n. \<not> gone (dns_subnet n)) (dns_servers d),
       subnet_routes := filter (\<lambda>r. \<not> gone (rt_subnet r)) (subnet_routes d)\<rparr>"

text \<open>
  The allocations \<open>delete_subnet\<close> looks at: those joined with a port of the subnet's network,
  each with the owner of its port.
\<close>

definition network_allocations :: "string \<Rightarrow> db \<Rightarrow> (ip_alloc_row \<times> string) list" where
  "network_allocations network_id d =
     concat (map (\<lambda>a. map (\<lambda>p. (a, pt_device_owner p))
        (filter (\<lambda>p. a_port a = Some (pt_id p) \<and> pt_network p = network_id) (ports d))) (ip_allocs d))"

definition delete_subnet :: "ctxt \<Rightarrow> string \<Rightarrow> unit dbop" where
  "delete_subnet ctx i =
     bindE (checkE (get_subnet_row ctx i)) (\<lambda>subnet.
     bindE (getsE (network_allocations (s_network subnet))) (\<lambda>allocated.
     bindE (forE (\<lambda>(a, owner).
              if owner \<in> set AUTO_DELETE_PORT_OWNERS
              then delete_ip_allocation (s_network subnet) i (a_ip a)
              else raiseE (SubnetInUse i)) allocated) (\<lambda>_.
       modifyE (drop_subnets (\<lambda>sid. sid = i)))))"

definition delete_network_row :: "string \<Rightarrow> unit dbop" where
  "delete_network_row i =
     (\<lambda>d. if \<exists>p \<in> set (ports d). pt_network p = i then Inl IntegrityError
          else Inr ((), d\<lparr>networks := filter (\<lambda>n. n_id n \<noteq> i) (networks d),
                          ip_allocs := filter (\<lambda>a. a_network a \<noteq> i) (ip_allocs d)\<rparr>))"

definition delete_network :: "netaddr \<Rightarrow> ctxt \<Rightarrow> string \<Rightarrow> unit dbop" where
  "delete_network na ctx i =
     bindE (checkE (get_network_row ctx i)) (\<lambda>network.
     bindE (getsE (\<lambda>d. filter (\<lambda>p. pt_network p = i) (query_ports ctx d))) (\<lambda>ps.
     if \<not> (\<forall>p \<in> set ps. pt_device_owner p \<in> set AUTO_DELETE_PORT_OWNERS) then raiseE (NetworkInUse i)
     else
       bindE (forE (\<lambda>p. delete_port_row na ctx (pt_id p)) ps) (\<lambda>_.
       bindE (modifyE (\<lambda>d. drop_subnets (\<lambda>sid. \<exists>s \<in> set (subnets d). s_id s = sid \<and> s_network s = i) d)) (\<lambda>_.
         delete_network_row i))))"

text \<open>\<open>_create_bulk\<close>: the items in order, in one transaction.\<close>

definition create_bulk :: "('r \<Rightarrow> pydict dbop) \<Rightarrow> 'r list \<Rightarrow> pydict list dbop" where
  "create_bulk create_item items = mapE create_item items"

end
