(* ===== verification/CoreInv.thy ===== *)
theory CoreInv
  imports SubnetOps "HOL-Library.Multiset"
begin

text \<open>
  The operations of the core plugin preserve the invariant of the address tables, the keys of the
  tables and the link between allocations and ports.
\<close>

section \<open>What the address invariant depends on\<close>

definition skey :: "subnet_row \<Rightarrow> string \<times> string \<times> nat" where
  "skey s = (s_id s, s_network s, s_ip_version s)"

lemma ex_subnet_skey:
  "(\<exists>s \<in> set ss. P (s_id s) (s_network s) (s_ip_version s)) \<longleftrightarrow>
     (\<exists>(i, n, v) \<in> set (map skey ss). P i n v)"
  by (auto simp: skey_def)

lemma rows_ok_cong:
  assumes "map skey (subnets d') = map skey (subnets d)" "ip_pools d' = ip_pools d"
  shows "pool_row_ok na d' p = pool_row_ok na d p" "range_row_ok na d' r = range_row_ok na d r"
    "alloc_row_ok na d' a = alloc_row_ok na d a" "held_ok na nid d' h = held_ok na nid d h"
proof -
  have *: "(\<exists>s \<in> set (subnets d'). P (s_id s) (s_network s) (s_ip_version s)) =
      (\<exists>s \<in> set (subnets d). P (s_id s) (s_network s) (s_ip_version s))" for P
    unfolding ex_subnet_skey assms(1) ..
  show "pool_row_ok na d' p = pool_row_ok na d p"
    unfolding pool_row_ok_def
    using * [of "\<lambda>i n v. i = p_subnet p \<and> text_ok na v (p_first p) \<and> text_ok na v (p_last p) \<and>
      ival na (p_last p) < ip_max v"] by simp
  show "range_row_ok na d' r = range_row_ok na d r"
    unfolding range_row_ok_def assms(2)
    using * [of "\<lambda>i n v. p_id p = r_pool r \<and> i = p_subnet p \<and> text_ok na v (r_first r) \<and>
      text_ok na v (r_last r) \<and> row_vals na r \<subseteq> pool_vals na p" for p] by simp
  show "alloc_row_ok na d' a = alloc_row_ok na d a"
    unfolding alloc_row_ok_def
    using * [of "\<lambda>i n v. i = a_subnet a \<and> n = a_network a \<and> text_ok na v (a_ip a)"] by simp
  show "held_ok na nid d' h = held_ok na nid d h"
    unfolding held_ok_def using * [of "\<lambda>i n v. i = snd h \<and> n = nid \<and> text_ok na v (fst h)"] by simp
qed

lemma ipam_held_cong:
  assumes "map skey (subnets d') = map skey (subnets d)" "ip_pools d' = ip_pools d"
    "ip_ranges d' = ip_ranges d" "ip_allocs d' = ip_allocs d"
  shows "ipam_held na nid H d' = ipam_held na nid H d"
proof -
  have ids: "map s_id (subnets d') = map s_id (subnets d)"
    using arg_cong [OF assms(1), of "map fst"] by (simp add: comp_def skey_def)
  show ?thesis
    unfolding ipam_held_def tables_ok_def ranges_apart_def pools_apart_def
    by (simp add: ids rows_ok_cong [OF assms(1,2)] free_in_def ranges_of_def taken_in_def assms(2-4))
qed

lemmas ipam_inv_cong = ipam_held_cong [where H = "[]" and nid = "[]", folded ipam_inv_def]

section \<open>Keys and links\<close>

definition allocs_ok :: "db \<Rightarrow> bool" where
  "allocs_ok d \<longleftrightarrow>
     distinct (ip_allocs d) \<and>
     (\<forall>a \<in> set (ip_allocs d). \<forall>b \<in> set (ip_allocs d). same_alloc a b \<longrightarrow> a = b) \<and>
     (\<forall>a \<in> set (ip_allocs d). \<forall>pid. a_port a = Some pid \<longrightarrow>
        (\<exists>p \<in> set (ports d). pt_id p = pid \<and> pt_network p = a_network a))"

definition gateway_free :: "netaddr \<Rightarrow> db \<Rightarrow> bool" where
  "gateway_free na d \<longleftrightarrow>
     (\<forall>s \<in> set (subnets d). \<forall>g. s_gateway s = Some g \<longrightarrow> text_ok na (s_ip_version s) g \<longrightarrow>
        ival na g \<notin> pooled_in na (s_id s) d)"

definition db_inv :: "netaddr \<Rightarrow> db \<Rightarrow> bool" where
  "db_inv na d \<longleftrightarrow>
     ipam_inv na d \<and> gateway_free na d \<and> allocs_ok d \<and>
     distinct (map pt_id (ports d)) \<and> distinct (map n_id (networks d))"

lemma db_invD:
  assumes "db_inv na d"
  shows "ipam_inv na d" "gateway_free na d" "allocs_ok d" "distinct (map pt_id (ports d))"
    "distinct (map n_id (networks d))" "tables_ok na d"
  using assms by (auto simp: db_inv_def dest: ipam_invD(1))

lemma allocs_okD:
  assumes "allocs_ok d"
  shows "distinct (ip_allocs d)"
    "a \<in> set (ip_allocs d) \<Longrightarrow> b \<in> set (ip_allocs d) \<Longrightarrow> same_alloc a b \<Longrightarrow> a = b"
    "a \<in> set (ip_allocs d) \<Longrightarrow> a_port a = Some pid \<Longrightarrow>
       \<exists>p \<in> set (ports d). pt_id p = pid \<and> pt_network p = a_network a"
  using assms unfolding allocs_ok_def by blast+

lemma allocs_ok_filter:
  assumes "allocs_ok d" "ip_allocs d' = filter P (ip_allocs d)"
    and "\<And>p. p \<in> set (ports d) \<Longrightarrow> \<exists>a \<in> set (ip_allocs d'). a_port a = Some (pt_id p) \<Longrightarrow>
           \<exists>p' \<in> set (ports d'). pt_id p' = pt_id p \<and> pt_network p' = pt_network p"
  shows "allocs_ok d'"
  unfolding allocs_ok_def
proof (intro conjI ballI allI impI)
  show "distinct (ip_allocs d')" using allocs_okD(1) [OF assms(1)] assms(2) by simp
  show "a = b" if "a \<in> set (ip_allocs d')" "b \<in> set (ip_allocs d')" "same_alloc a b" for a b
    using that assms(2) allocs_okD(2) [OF assms(1)] by simp
  fix a pid assume a: "a \<in> set (ip_allocs d')" "a_port a = Some pid"
  then obtain p where p: "p \<in> set (ports d)" "pt_id p = pid" "pt_network p = a_network a"
    using allocs_okD(3) [OF assms(1), of a pid] assms(2) by auto
  then show "\<exists>p \<in> set (ports d'). pt_id p = pid \<and> pt_network p = a_network a"
    using assms(3) [of p] a by metis
qed

lemma gateway_free_cong:
  assumes "subnets d' = subnets d" "ip_pools d' = ip_pools d"
  shows "gateway_free na d' = gateway_free na d"
  by (simp add: gateway_free_def pooled_in_def pools_of_def assms)

lemma held_of_alloc:
  assumes ok: "tables_ok na d" and a: "a \<in> set (ip_allocs d)"
  shows "held_ok na (a_network a) d (a_ip a, a_subnet a)"
  using tables_ok_rows(4) [OF ok a] by (auto simp: alloc_row_ok_def held_ok_def)

lemma alloc_not_free:
  assumes inv: "ipam_inv na d" and a: "a \<in> set (ip_allocs d)"
  shows "ival na (a_ip a) \<notin> free_in na (a_subnet a) d"
  using ipam_invD(2) [OF inv, of "ival na (a_ip a)" "a_subnet a"] a by (auto simp: taken_in_def)

section \<open>Recording and releasing the addresses of a port\<close>

definition without :: "string \<Rightarrow> (string \<times> string) set \<Rightarrow> ip_alloc_row list \<Rightarrow> ip_alloc_row list" where
  "without nid L as = filter (\<lambda>a. \<not> (a_network a = nid \<and> (a_ip a, a_subnet a) \<in> L)) as"

text \<open>Recycling distinct allocated addresses of a network never raises.\<close>

lemma recycle_all:
  assumes na: "netaddr_ok na"
  shows "ipam_inv na d \<Longrightarrow> distinct L \<Longrightarrow>
    \<forall>(t, sid) \<in> set L. \<exists>a \<in> set (ip_allocs d). a_ip a = t \<and> a_subnet a = sid \<and> a_network a = nid \<Longrightarrow>
    \<exists>rs d'. forE (\<lambda>(t, sid). recycle_ip na nid sid t) L d = Inr ((), d') \<and> ipam_inv na d' \<and>
      d' = d\<lparr>ip_ranges := rs, ip_allocs := without nid (set L) (ip_allocs d)\<rparr>"
proof (induction L arbitrary: d)
  case Nil
  then show ?case by (auto simp: without_def intro!: exI [of _ "ip_ranges d"])
next
  case (Cons h L)
  obtain t sid where h: "h = (t, sid)" by (cases h)
  from Cons.prems(3) h obtain a where a: "a \<in> set (ip_allocs d)" "a_ip a = t" "a_subnet a = sid"
    "a_network a = nid" by auto
  have "held_ok na nid d (t, sid)" "ival na t \<notin> free_in na sid d"
    using held_of_alloc [OF ipam_invD(1) [OF Cons.prems(1)] a(1)] alloc_not_free [OF Cons.prems(1) a(1)]
      a(2-4) by simp_all
  from recycle_ip_inv [OF na Cons.prems(1) this] obtain rs d1 where
    d1: "recycle_ip na nid sid t d = Inr ((), d1)" "ipam_inv na d1"
      "d1 = d\<lparr>ip_ranges := rs, ip_allocs := filter (\<lambda>a. \<not> (a_network a = nid \<and> a_ip a = t \<and> a_subnet a = sid))
          (ip_allocs d)\<rparr>" by auto
  have "\<forall>(t', sid') \<in> set L. \<exists>a \<in> set (ip_allocs d1). a_ip a = t' \<and> a_subnet a = sid' \<and> a_network a = nid"
  proof clarify
    fix t' sid' assume L: "(t', sid') \<in> set L"
    with Cons.prems(3) obtain b where b: "b \<in> set (ip_allocs d)" "a_ip b = t'" "a_subnet b = sid'"
      "a_network b = nid" by auto
    with L Cons.prems(2) h have "\<not> (a_ip b = t \<and> a_subnet b = sid)" by auto
    with b show "\<exists>a \<in> set (ip_allocs d1). a_ip a = t' \<and> a_subnet a = sid' \<and> a_network a = nid"
      by (auto simp: d1(3))
  qed
  with Cons.IH [OF d1(2)] Cons.prems(2) obtain rs' d' where
    d': "forE (\<lambda>(t, sid). recycle_ip na nid sid t) L d1 = Inr ((), d')" "ipam_inv na d'"
      "d' = d1\<lparr>ip_ranges := rs', ip_allocs := without nid (set L) (ip_allocs d1)\<rparr>" by auto
  have "without nid (set L) (ip_allocs d1) = without nid (set (h # L)) (ip_allocs d)"
    by (auto simp: without_def d1(3) h intro!: filter_cong)
  with d1 d' h show ?case by (auto intro!: exI [of _ rs'])
qed

lemma add_allocs_Inr:
  assumes "add_allocs nid pid ips d = Inr ((), d')"
  shows "d' = d\<lparr>ip_allocs := ip_allocs d @
           map (\<lambda>(t, sid). \<lparr>a_port = Some pid, a_ip = t, a_subnet = sid, a_network = nid\<rparr>) ips\<rparr>"
  using assms unfolding add_allocs_def
proof (induction ips arbitrary: d)
  case Nil
  then show ?case by simp
next
  case (Cons h ips)
  obtain t sid where h: "h = (t, sid)" by (cases h)
  let ?d1 = "d\<lparr>ip_allocs := ip_allocs d @
      [\<lparr>a_port = Some pid, a_ip = t, a_subnet = sid, a_network = nid\<rparr>]\<rparr>"
  from Cons.prems h have
    "forE (\<lambda>(ip, sid). add_alloc \<lparr>a_port = Some pid, a_ip = ip, a_subnet = sid, a_network = nid\<rparr>) ips ?d1
       = Inr ((), d')" by (auto simp: bindE_Inr add_alloc_Inr)
  from Cons.IH [OF this] h show ?case by simp
qed

lemma add_allocs_held:
  assumes "ipam_held na nid ips d" "add_allocs nid pid ips d = Inr ((), d')"
  shows "ipam_inv na d'"
  using assms unfolding add_allocs_def
proof (induction ips arbitrary: d)
  case Nil
  then show ?case by (simp add: ipam_held_nil)
next
  case (Cons h ips)
  obtain t sid where h: "h = (t, sid)" by (cases h)
  from Cons.prems(2) h obtain d1 where
    d1: "add_alloc \<lparr>a_port = Some pid, a_ip = t, a_subnet = sid, a_network = nid\<rparr> d = Inr ((), d1)"
    "forE (\<lambda>(ip, sid). add_alloc \<lparr>a_port = Some pid, a_ip = ip, a_subnet = sid, a_network = nid\<rparr>) ips d1
       = Inr ((), d')" by (auto simp: bindE_Inr)
  from add_alloc_held [OF _ d1(1)] Cons.prems(1) h have "ipam_held na nid ips d1" by simp
  then show ?case using d1(2) by (rule Cons.IH)
qed

lemma add_alloc_allocs_ok:
  assumes "allocs_ok d" "add_alloc a d = Inr (u, d')"
    and "\<And>pid. a_port a = Some pid \<Longrightarrow> \<exists>p \<in> set (ports d). pt_id p = pid \<and> pt_network p = a_network a"
  shows "allocs_ok d'"
proof -
  from assms(2) have d': "d' = d\<lparr>ip_allocs := ip_allocs d @ [a]\<rparr>"
    and new: "\<forall>b \<in> set (ip_allocs d). \<not> same_alloc a b" by (auto simp: add_alloc_Inr)
  have sym: "same_alloc x y = same_alloc y x" for x y by (auto simp: same_alloc_def)
  have "a \<notin> set (ip_allocs d)" using new by (auto simp: same_alloc_def)
  then show ?thesis
    using assms(1,3) new unfolding allocs_ok_def d' by (auto simp: sym)
qed

lemma add_allocs_allocs_ok:
  assumes "allocs_ok d" "add_allocs nid pid ips d = Inr ((), d')"
    and "\<exists>p \<in> set (ports d). pt_id p = pid \<and> pt_network p = nid"
  shows "allocs_ok d'"
  using assms unfolding add_allocs_def
proof (induction ips arbitrary: d)
  case Nil
  then show ?case by simp
next
  case (Cons h ips)
  obtain t sid where h: "h = (t, sid)" by (cases h)
  from Cons.prems(2) h obtain d1 where
    d1: "add_alloc \<lparr>a_port = Some pid, a_ip = t, a_subnet = sid, a_network = nid\<rparr> d = Inr ((), d1)"
    "forE (\<lambda>(ip, sid). add_alloc \<lparr>a_port = Some pid, a_ip = ip, a_subnet = sid, a_network = nid\<rparr>) ips d1
       = Inr ((), d')" by (auto simp: bindE_Inr)
  have "allocs_ok d1" by (rule add_alloc_allocs_ok [OF Cons.prems(1) d1(1)]) (use Cons.prems(3) in auto)
  moreover have "ports d1 = ports d" using d1(1) by (auto simp: add_alloc_Inr)
  ultimately show ?case using Cons.IH d1(2) Cons.prems(3) by simp
qed

section \<open>Ports\<close>

lemma get_network_row_Inr:
  assumes "get_network_row ctx i d = Inr n"
  shows "n \<in> set (networks d)" "n_id n = i"
  using get_by_id_Inr [OF assms [unfolded get_network_row_def]]
    model_query_subset [of ctx "Some n_tenant" "Some n_shared" "networks d"]
  by (auto simp: query_networks_def)

lemma get_port_row_Inr:
  assumes "get_port_row ctx i d = Inr p"
  shows "p \<in> set (ports d)" "pt_id p = i"
  using get_by_id_Inr [OF assms [unfolded get_port_row_def]]
    model_query_subset [of ctx "Some pt_tenant" None "ports d"]
  by (auto simp: query_ports_def)

lemma add_port_Inr [op_simps]:
  "add_port p d = Inr (u, d') \<longleftrightarrow>
     pt_id p \<notin> pt_id ` set (ports d) \<and> d' = d\<lparr>ports := ports d @ [p]\<rparr>"
  by (auto simp: add_port_def)

lemma pooled_in_cong: "ip_pools d' = ip_pools d \<Longrightarrow> pooled_in na sid d' = pooled_in na sid d"
  by (simp add: pooled_in_def pools_of_def)

lemma store_port_inv:
  assumes inv: "db_inv na d" and held: "ipam_held na (pt_network p) ips d1"
    and d1: "d1 = d\<lparr>ip_ranges := rs\<rparr>" and port: "add_port p d1 = Inr ((), d2)"
    and allocs: "add_allocs (pt_network p) (pt_id p) ips d2 = Inr ((), d')"
  shows "db_inv na d'"
proof -
  note I = db_invD [OF inv]
  from port d1 have d2: "d2 = d\<lparr>ip_ranges := rs, ports := ports d @ [p]\<rparr>"
    and new: "pt_id p \<notin> pt_id ` set (ports d)" by (simp_all add: op_simps)
  have "ipam_held na (pt_network p) ips d2"
    using held by (subst ipam_held_cong [where d = d1]) (simp_all add: d1 d2)
  from add_allocs_held [OF this allocs] have "ipam_inv na d'" .
  moreover have "allocs_ok d2"
    using I(3) unfolding d2 by (auto simp: allocs_ok_def)
  then have "allocs_ok d'" by (rule add_allocs_allocs_ok [OF _ allocs]) (simp add: d2)
  moreover have d': "subnets d' = subnets d" "ip_pools d' = ip_pools d" "ports d' = ports d @ [p]"
    "networks d' = networks d"
    using add_allocs_Inr [OF allocs] by (simp_all add: d2)
  then have "gateway_free na d'" using I(2) gateway_free_cong [of d' d] by simp
  ultimately show ?thesis using I(4,5) new unfolding db_inv_def by (simp add: d')
qed

definition port_create_ok :: "netaddr \<Rightarrow> port_create \<Rightarrow> db \<Rightarrow> bool" where
  "port_create_ok na p d \<longleftrightarrow>
     (\<forall>fs. pc_fixed_ips p = Given fs \<longrightarrow> ip_request_ok na d (pc_network p) fs)"

lemma create_port_effect:
  assumes "create_port na cfg ctx uuid rnd p d = Inr (r, d')"
  obtains ips port d1 d2 where
    "allocate_ips_for_port na ctx (max_fixed_ips_per_port cfg) (pc_network p) (attr_opt (pc_fixed_ips p)) d
       = Inr (ips, d1)"
    "add_port port d1 = Inr ((), d2)" "add_allocs (pt_network port) (pt_id port) ips d2 = Inr ((), d')"
    "pt_network port = pc_network p" "pt_id port = id_or_uuid (pc_id p) (uuid 0)"
    "port_mac cfg rnd (pc_network p) (pc_mac p) d = Inr (pt_mac port)"
    "r = make_port_dict [] d' port None" "pc_network p \<in> n_id ` set (networks d)"
    "get_tenant_id_for_create ctx (pc_tenant p) = Inr (pt_tenant port)"
proof -
  from assms obtain tid n mac ips d1 d2 where run:
    "get_tenant_id_for_create ctx (pc_tenant p) = Inr tid"
    "get_network_row ctx (pc_network p) d = Inr n"
    "port_mac cfg rnd (pc_network p) (pc_mac p) d = Inr mac"
    "allocate_ips_for_port na ctx (max_fixed_ips_per_port cfg) (pc_network p) (attr_opt (pc_fixed_ips p)) d
       = Inr (ips, d1)"
    "add_port (new_port p (id_or_uuid (pc_id p) (uuid 0)) tid mac) d1 = Inr ((), d2)"
    "add_allocs (pc_network p) (id_or_uuid (pc_id p) (uuid 0)) ips d2 = Inr ((), d')"
    "r = make_port_dict [] d' (new_port p (id_or_uuid (pc_id p) (uuid 0)) tid mac) None"
    unfolding create_port_def Let_def bindE_Inr by (auto simp: liftE_Inr checkE_Inr)
  then show thesis
    using get_network_row_Inr [OF run(2)]
    by (intro that [where port = "new_port p (id_or_uuid (pc_id p) (uuid 0)) tid mac"])
       (auto simp: new_port_def intro: rev_image_eqI)
qed

lemma create_port_inv:
  assumes na: "netaddr_ok na" and inv: "db_inv na d" and req: "port_create_ok na p d"
    and run: "create_port na cfg ctx uuid rnd p d = Inr (r, d')"
  shows "db_inv na d'"
proof -
  from run obtain ips port d1 d2 where
    al: "allocate_ips_for_port na ctx (max_fixed_ips_per_port cfg) (pc_network p)
           (attr_opt (pc_fixed_ips p)) d = Inr (ips, d1)"
    and rest: "add_port port d1 = Inr ((), d2)"
      "add_allocs (pt_network port) (pt_id port) ips d2 = Inr ((), d')"
    and net: "pt_network port = pc_network p" by (rule create_port_effect)
  have "\<forall>fs. attr_opt (pc_fixed_ips p) = Some fs \<longrightarrow> ip_request_ok na d (pc_network p) fs"
    using req by (auto simp: port_create_ok_def attr_opt_def split: attr.splits)
  from allocate_ips_for_port_held [OF na db_invD(1) [OF inv] this al] obtain rs where
    "ipam_held na (pc_network p) ips d1" "d1 = d\<lparr>ip_ranges := rs\<rparr>" by blast
  then show ?thesis using store_port_inv [OF inv _ _ rest] net by simp
qed

text \<open>What removing the common addresses keeps: nothing is lost on either side.\<close>

definition same_ips :: "ip_lists \<Rightarrow> ip_lists \<Rightarrow> bool" where
  "same_ips st st' \<longleftrightarrow>
     (case (st, st') of ((origs, news, prevs), (origs', news', prevs')) \<Rightarrow>
        mset origs + mset prevs = mset origs' + mset prevs' \<and>
        image_mset fx_ip (mset news) + image_mset (\<lambda>h. Some (fst h)) (mset prevs) =
          image_mset fx_ip (mset news') + image_mset (\<lambda>h. Some (fst h)) (mset prevs') \<and>
        set news' \<subseteq> set news)"

lemma same_ips_refl: "same_ips st st"
  by (cases st) (auto simp: same_ips_def)

lemma same_ips_trans: "same_ips s t \<Longrightarrow> same_ips t u \<Longrightarrow> same_ips s u"
  by (cases s; cases t; cases u) (auto simp: same_ips_def)

lemma same_ips_match:
  assumes "orig \<in> set origs" "new \<in> set news" "fx_ip new = Some (fst orig)"
  shows "same_ips (origs, news, prevs) (remove1 orig origs, remove1 new news, prevs @ [orig])"
proof -
  have M: "mset origs = add_mset orig (mset (remove1 orig origs))" using assms(1) by simp
  have N: "mset news = add_mset new (mset (remove1 new news))" using assms(2) by simp
  show ?thesis using assms(3) set_remove1_subset [of new news]
    unfolding same_ips_def prod.case M N by (auto simp del: mset_remove1)
qed

lemma match_new_ips_same: "match_new_ips orig rest st = Inr st' \<Longrightarrow> same_ips st st'"
proof (induction rest arbitrary: st)
  case Nil
  then show ?case by (simp add: same_ips_refl)
next
  case (Cons new rest)
  obtain origs news prevs where st: "st = (origs, news, prevs)" by (cases st) auto
  show ?case
  proof (cases "fx_ip new = Some (fst orig)")
    case True
    with Cons.prems st have mem: "orig \<in> set origs" "new \<in> set news"
      and "match_new_ips orig rest (remove1 orig origs, remove1 new news, prevs @ [orig]) = Inr st'"
      by (auto simp: op_simps py_remove_def split: if_splits)
    from Cons.IH [OF this(3)] same_ips_match [OF mem True, of prevs] show ?thesis
      unfolding st by (rule same_ips_trans [rotated])
  next
    case False
    with Cons st show ?thesis by simp
  qed
qed

lemma remove_common_ips_same: "remove_common_ips os st = Inr st' \<Longrightarrow> same_ips st st'"
proof (induction os arbitrary: st)
  case Nil
  then show ?case by (simp add: same_ips_refl)
next
  case (Cons orig os)
  then obtain st1 where "match_new_ips orig (fst (snd st)) st = Inr st1" "remove_common_ips os st1 = Inr st'"
    by (auto simp: op_simps)
  with Cons.IH match_new_ips_same same_ips_trans show ?case by blast
qed

definition port_update_ok :: "netaddr \<Rightarrow> string \<Rightarrow> port_update \<Rightarrow> db \<Rightarrow> bool" where
  "port_update_ok na i u d \<longleftrightarrow>
     (\<forall>fs p. pu_fixed_ips u = Some fs \<longrightarrow> p \<in> set (ports d) \<longrightarrow> pt_id p = i \<longrightarrow>
        ip_request_ok na d (pt_network p) fs)"

definition alloc_pairs :: "string \<Rightarrow> db \<Rightarrow> (string \<times> string) list" where
  "alloc_pairs pid d = map (\<lambda>a. (a_ip a, a_subnet a)) (port_allocs pid d)"

lemma ip_request_ok_subset:
  "ip_request_ok na d nid fs \<Longrightarrow> set gs \<subseteq> set fs \<Longrightarrow> ip_request_ok na d nid gs"
  unfolding ip_request_ok_def by blast

lemma alloc_pairs_mem:
  assumes "(t, sid) \<in> set (alloc_pairs pid d)" "allocs_ok d"
    "p \<in> set (ports d)" "pt_id p = pid" "distinct (map pt_id (ports d))"
  shows "\<exists>a \<in> set (ip_allocs d). a_ip a = t \<and> a_subnet a = sid \<and> a_network a = pt_network p \<and> a_port a = Some pid"
proof -
  from assms(1) obtain a where a: "a \<in> set (ip_allocs d)" "a_port a = Some pid" "a_ip a = t" "a_subnet a = sid"
    by (auto simp: alloc_pairs_def port_allocs_def)
  from allocs_okD(3) [OF assms(2) a(1,2)] obtain q where "q \<in> set (ports d)" "pt_id q = pid"
    "pt_network q = a_network a" by blast
  with assms(3-5) have "pt_network p = a_network a"
    by (metis distinct_map inj_onD)
  with a show ?thesis by auto
qed

lemma alloc_pairs_distinct:
  assumes ok: "allocs_ok d" and p: "p \<in> set (ports d)" "pt_id p = pid" "distinct (map pt_id (ports d))"
  shows "distinct (alloc_pairs pid d)"
  unfolding alloc_pairs_def distinct_map
proof (intro conjI inj_onI)
  show "distinct (port_allocs pid d)" using allocs_okD(1) [OF ok] by (simp add: port_allocs_def)
  fix a b assume a: "a \<in> set (port_allocs pid d)" and b: "b \<in> set (port_allocs pid d)"
    and eq: "(a_ip a, a_subnet a) = (a_ip b, a_subnet b)"
  then have in_d: "a \<in> set (ip_allocs d)" "b \<in> set (ip_allocs d)" "a_port a = Some pid" "a_port b = Some pid"
    by (auto simp: port_allocs_def)
  have "a_network a = a_network b"
    using allocs_okD(3) [OF ok in_d(1,3)] allocs_okD(3) [OF ok in_d(2,4)] p(3)
    by (metis distinct_map inj_onD)
  with eq allocs_okD(2) [OF ok in_d(1,2)] show "a = b" by (simp add: same_alloc_def)
qed

text \<open>The addresses a port gives up and those it gets, with the tables in between.\<close>

lemma update_ips_effect:
  assumes run: "update_ips_for_port na ctx mx nid original new_ips d = Inr ((added, prevs), d')"
  obtains origs news to_add d1 where
    "same_ips (original, new_ips, []) (origs, news, prevs)"
    "test_fixed_ips_for_port na ctx mx nid news d = Inr to_add"
    "forE (\<lambda>(t, sid). recycle_ip na nid sid t) origs d = Inr ((), d1)"
    "allocate_fixed_ips na ctx to_add d1 = Inr (added, d')"
    "int (length new_ips) \<le> mx"
proof -
  from run obtain origs news to_add d1 where
    c: "int (length new_ips) \<le> mx" "remove_common_ips original (original, new_ips, []) = Inr (origs, news, prevs)"
      "test_fixed_ips_for_port na ctx mx nid news d = Inr to_add"
      "forE (\<lambda>(t, sid). recycle_ip na nid sid t) origs d = Inr ((), d1)"
    and e: "(if to_add \<noteq> [] then allocate_fixed_ips na ctx to_add d1 = Inr (added, d')
         else added = [] \<and> d' = d1)"
    unfolding update_ips_for_port_def
    by (fastforce simp: op_simps split: if_splits)
  from e have "allocate_fixed_ips na ctx to_add d1 = Inr (added, d')"
    by (cases "to_add = []") (simp_all add: allocate_fixed_ips_def)
  with c remove_common_ips_same [OF c(2)] show thesis by (intro that)
qed

lemma update_ips_held:
  assumes na: "netaddr_ok na" and inv: "db_inv na d" and p: "p \<in> set (ports d)"
    and req: "ip_request_ok na d (pt_network p) new_ips"
    and run: "update_ips_for_port na ctx mx (pt_network p) (alloc_pairs (pt_id p) d) new_ips d
                = Inr ((added, prevs), d')"
  obtains rs origs where "ipam_held na (pt_network p) added d'"
    "d' = d\<lparr>ip_ranges := rs, ip_allocs := without (pt_network p) (set origs) (ip_allocs d)\<rparr>"
    "mset (alloc_pairs (pt_id p) d) = mset origs + mset prevs" "length (prevs @ added) = length new_ips"
    "\<forall>f \<in> set new_ips. \<forall>t. fx_ip f = Some t \<longrightarrow> t \<in> fst ` set (prevs @ added)"
proof -
  let ?nid = "pt_network p" and ?orig = "alloc_pairs (pt_id p) d"
  note I = db_invD [OF inv]
  from run obtain origs news to_add d1 where
    same: "same_ips (?orig, new_ips, []) (origs, news, prevs)"
    and test: "test_fixed_ips_for_port na ctx mx ?nid news d = Inr to_add"
    and rec: "forE (\<lambda>(t, sid). recycle_ip na ?nid sid t) origs d = Inr ((), d1)"
    and alloc: "allocate_fixed_ips na ctx to_add d1 = Inr (added, d')"
    by (rule update_ips_effect)
  from same have ms: "mset ?orig = mset origs + mset prevs"
    and ips: "image_mset fx_ip (mset new_ips) =
      image_mset fx_ip (mset news) + image_mset (\<lambda>h. Some (fst h)) (mset prevs)"
    and sub: "set news \<subseteq> set new_ips" by (auto simp: same_ips_def)
  have dist: "distinct ?orig" by (rule alloc_pairs_distinct [OF I(3) p _ I(4)]) simp
  have "mset (origs @ prevs) = mset ?orig" using ms by simp
  then have "distinct (origs @ prevs)" "set (origs @ prevs) = set ?orig"
    using dist by (metis mset_eq_imp_distinct_iff, metis mset_eq_setD)
  then have "distinct origs" "set origs \<subseteq> set ?orig" by auto
  then have "\<forall>(t, sid) \<in> set origs. \<exists>a \<in> set (ip_allocs d). a_ip a = t \<and> a_subnet a = sid \<and> a_network a = ?nid"
    using alloc_pairs_mem [OF _ I(3) p refl I(4)] by blast
  from recycle_all [OF na I(1) \<open>distinct origs\<close> this] rec obtain rs where
    d1: "ipam_inv na d1" "d1 = d\<lparr>ip_ranges := rs, ip_allocs := without ?nid (set origs) (ip_allocs d)\<rparr>"
    by auto
  note tested = test_fixed_ips_Inr [OF test]
  have "entry_ok na ?nid d1 g" if "g \<in> set to_add" for g
  proof -
    from that tested(2) have "fx_ip g \<in> fx_ip ` set news" by (metis image_eqI list.set_map)
    then have "entry_ok na ?nid d g"
      using tested(1) that ip_request_ok_subset [OF req sub] tested_entry_ok by blast
    then show ?thesis by (simp add: entry_ok_def d1(2))
  qed
  moreover have "ipam_held na ?nid [] d1" using d1(1) by (simp add: ipam_held_nil)
  ultimately have out: "ipam_held na ?nid added d'" "\<exists>rs. d' = d1\<lparr>ip_ranges := rs\<rparr>"
    "list_all2 (\<lambda>f ip. fx_subnet f = Some (snd ip) \<and> (fx_ip f = None \<or> fx_ip f = Some (fst ip))) to_add added"
    using allocate_fixed_ips_held [OF na, of ?nid "[]" d1 to_add ctx added d'] alloc by auto
  have len: "length (prevs @ added) = length new_ips"
  proof -
    have "length new_ips = length news + length prevs"
      using arg_cong [OF ips, of size] by simp
    moreover have "length news = length to_add" using tested(2) by (metis length_map)
    ultimately show ?thesis using list_all2_lengthD [OF out(3)] by simp
  qed
  have req_in: "t \<in> fst ` set (prevs @ added)" if f: "f \<in> set new_ips" "fx_ip f = Some t" for f t
  proof -
    have "fx_ip f \<in># image_mset fx_ip (mset new_ips)" using f(1) by auto
    then have "fx_ip f \<in> fx_ip ` set news \<or> fx_ip f \<in> (\<lambda>h. Some (fst h)) ` set prevs"
      unfolding ips by auto
    then show ?thesis
    proof
      assume "fx_ip f \<in> fx_ip ` set news"
      then have "fx_ip f \<in> fx_ip ` set to_add" using tested(2) by (metis list.set_map)
      then obtain g where g: "g \<in> set to_add" "fx_ip g = Some t" using f(2) by auto
      then obtain i where i: "i < length to_add" "to_add ! i = g" by (auto simp: in_set_conv_nth)
      then have "fst (added ! i) = t" "i < length added"
        using list_all2_nthD [OF out(3) i(1)] list_all2_lengthD [OF out(3)] g(2) by auto
      then show ?thesis by (metis UnCI image_eqI nth_mem set_append)
    next
      assume "fx_ip f \<in> (\<lambda>h. Some (fst h)) ` set prevs"
      then show ?thesis using f(2) by auto
    qed
  qed
  from out(2) obtain rs' where d': "d' = d1\<lparr>ip_ranges := rs'\<rparr>" by blast
  have "d' = d\<lparr>ip_ranges := rs', ip_allocs := without ?nid (set origs) (ip_allocs d)\<rparr>"
    by (simp add: d' d1(2))
  then show thesis using that out(1) ms len req_in by blast
qed

lemma apply_port_update_key [simp]:
  "pt_id (apply_port_update u p) = pt_id p" "pt_network (apply_port_update u p) = pt_network p"
  "pt_tenant (apply_port_update u p) = pt_tenant p"
  by (simp_all add: apply_port_update_def)

lemma replace_row_map: "f y = f x \<Longrightarrow> map f (replace_row x y xs) = map f xs"
  by (auto simp: replace_row_def)

lemma replace_row_id: "replace_row x x xs = xs"
  by (auto simp: replace_row_def intro: map_idI)

lemma replace_port_inv:
  assumes inv: "db_inv na d" and p: "pt_id q = pt_id p" "pt_network q = pt_network p"
  shows "db_inv na (d\<lparr>ports := replace_row p q (ports d)\<rparr>)"
proof -
  let ?d = "d\<lparr>ports := replace_row p q (ports d)\<rparr>"
  note I = db_invD [OF inv]
  have "ipam_inv na ?d" using I(1) by (subst ipam_inv_cong [where d = d]) simp_all
  moreover have "gateway_free na ?d" using I(2) by (subst gateway_free_cong [where d = d]) simp_all
  moreover have "\<exists>q' \<in> set (replace_row p q (ports d)). pt_id q' = pt_id p' \<and> pt_network q' = pt_network p'"
    if "p' \<in> set (ports d)" for p'
    using that p by (cases "p' = p") (auto simp: replace_row_def intro!: bexI [of _ p'])
  then have "allocs_ok ?d"
    by (intro allocs_ok_filter [OF I(3), where P = "\<lambda>_. True"]) auto
  ultimately show ?thesis
    using I(4,5) replace_row_map [of pt_id q p "ports d"] p by (simp add: db_inv_def)
qed

lemma update_port_effect:
  assumes "update_port na cfg ctx funcs i u d = Inr (r, d')"
  obtains (keep) port where "pu_fixed_ips u = None" "get_port_row ctx i d = Inr port"
      "d' = d\<lparr>ports := replace_row port (apply_port_update u port) (ports d)\<rparr>"
      "r = make_port_dict funcs d' (apply_port_update u port) None"
  | (ips) port new_ips added prevs d1 d2 where
      "pu_fixed_ips u = Some new_ips" "get_port_row ctx i d = Inr port"
      "update_ips_for_port na ctx (max_fixed_ips_per_port cfg) (pt_network port) (alloc_pairs (pt_id port) d)
         new_ips d = Inr ((added, prevs), d1)"
      "add_allocs (pt_network port) (pt_id port) added d1 = Inr ((), d2)"
      "d' = d2\<lparr>ports := replace_row port (apply_port_update u port) (ports d2)\<rparr>"
      "r = dict_set (make_port_dict funcs d' (apply_port_update u port) None) ''fixed_ips''
             (fixed_ips_dict (prevs @ added))"
proof -
  from assms obtain port where port: "get_port_row ctx i d = Inr port"
    unfolding update_port_def by (auto simp: op_simps)
  show thesis
  proof (cases "pu_fixed_ips u")
    case None
    with assms port show thesis
      by (intro keep [OF None port]) (auto simp: update_port_def Let_def op_simps)
  next
    case (Some new_ips)
    from assms port Some obtain added prevs d1 d2 where
      "update_ips_for_port na ctx (max_fixed_ips_per_port cfg) (pt_network port) (alloc_pairs (pt_id port) d)
         new_ips d = Inr ((added, prevs), d1)"
      "add_allocs (pt_network port) (pt_id port) added d1 = Inr ((), d2)"
      "d' = d2\<lparr>ports := replace_row port (apply_port_update u port) (ports d2)\<rparr>"
      "r = dict_set (make_port_dict funcs d' (apply_port_update u port) None) ''fixed_ips''
             (fixed_ips_dict (prevs @ added))"
      by (auto simp: update_port_def Let_def op_simps alloc_pairs_def)
    then show thesis by (rule ips [OF Some port])
  qed
qed

lemma without_ports_ok:
  assumes "allocs_ok d" "ip_allocs d' = without nid L (ip_allocs d)" "ports d' = ports d"
  shows "allocs_ok d'"
  using assms by (intro allocs_ok_filter [OF assms(1)]) (auto simp: without_def)

lemma update_port_inv:
  assumes na: "netaddr_ok na" and inv: "db_inv na d" and req: "port_update_ok na i u d"
    and run: "update_port na cfg ctx funcs i u d = Inr (r, d')"
  shows "db_inv na d'"
  using run
proof (cases rule: update_port_effect)
  case (keep port)
  then show ?thesis using replace_port_inv [OF inv] by simp
next
  case (ips port new_ips added prevs d1 d2)
  note I = db_invD [OF inv]
  note P = get_port_row_Inr [OF ips(2)]
  have "ip_request_ok na d (pt_network port) new_ips"
    using req ips(1) P by (auto simp: port_update_ok_def)
  from update_ips_held [OF na inv P(1) this ips(3)] obtain rs origs where
    held: "ipam_held na (pt_network port) added d1"
    and d1: "d1 = d\<lparr>ip_ranges := rs, ip_allocs := without (pt_network port) (set origs) (ip_allocs d)\<rparr>"
    by blast
  have "allocs_ok d1" using I(3) by (rule without_ports_ok) (simp_all add: d1)
  then have "allocs_ok d2"
    by (rule add_allocs_allocs_ok [OF _ ips(4)]) (use P in \<open>auto simp: d1\<close>)
  moreover have "ipam_inv na d2" by (rule add_allocs_held [OF held ips(4)])
  moreover have d2: "subnets d2 = subnets d" "ip_pools d2 = ip_pools d" "ports d2 = ports d"
    "networks d2 = networks d"
    using add_allocs_Inr [OF ips(4)] by (simp_all add: d1)
  ultimately have "db_inv na d2"
    using I gateway_free_cong [OF d2(1,2)] by (simp add: db_inv_def)
  then show ?thesis unfolding ips(5) by (rule replace_port_inv) simp_all
qed

lemma alloc_pairs_without:
  assumes ok: "allocs_ok d" and p: "p \<in> set (ports d)" "distinct (map pt_id (ports d))"
  shows "mset (map (\<lambda>a. (a_ip a, a_subnet a)) (filter (\<lambda>a. a_port a = Some (pt_id p))
           (without (pt_network p) L (ip_allocs d)))) =
         filter_mset (\<lambda>h. h \<notin> L) (mset (alloc_pairs (pt_id p) d))"
proof -
  have net: "a_network a = pt_network p" if "a \<in> set (ip_allocs d)" "a_port a = Some (pt_id p)" for a
    using allocs_okD(3) [OF ok that] p by (metis distinct_map inj_onD)
  have "filter (\<lambda>a. a_port a = Some (pt_id p)) (without (pt_network p) L (ip_allocs d)) =
      filter (\<lambda>a. (a_ip a, a_subnet a) \<notin> L) (port_allocs (pt_id p) d)"
    unfolding without_def port_allocs_def filter_filter
    by (rule filter_cong) (auto simp: net)
  then show ?thesis
    by (simp add: alloc_pairs_def filter_mset_image_mset flip: mset_map mset_filter)
       (simp add: filter_map comp_def)
qed

text \<open>The allocations of a port after an update are exactly the kept and the added addresses.\<close>

lemma update_port_allocs:
  assumes na: "netaddr_ok na" and inv: "db_inv na d" and req: "port_update_ok na i u d"
    and u: "pu_fixed_ips u = Some new_ips"
    and run: "update_port na cfg ctx funcs i u d = Inr (r, d')"
  obtains addrs where "mset (alloc_pairs i d') = mset addrs" "length addrs = length new_ips"
    "\<forall>f \<in> set new_ips. \<forall>t. fx_ip f = Some t \<longrightarrow> t \<in> fst ` set addrs"
    "dict_get r ''fixed_ips'' = Some (fixed_ips_dict addrs)"
  using run
proof (cases rule: update_port_effect)
  case (keep port)
  with u show thesis by simp
next
  case (ips port new_ips' added prevs d1 d2)
  note I = db_invD [OF inv]
  note P = get_port_row_Inr [OF ips(2)]
  have new: "new_ips' = new_ips" using u ips(1) by simp
  have "ip_request_ok na d (pt_network port) new_ips'"
    using req ips(1) P by (auto simp: port_update_ok_def)
  from update_ips_held [OF na inv P(1) this ips(3)] obtain rs origs where
    d1: "d1 = d\<lparr>ip_ranges := rs, ip_allocs := without (pt_network port) (set origs) (ip_allocs d)\<rparr>"
    and ms: "mset (alloc_pairs (pt_id port) d) = mset origs + mset prevs"
    and len: "length (prevs @ added) = length new_ips'"
    and mem: "\<forall>f \<in> set new_ips'. \<forall>t. fx_ip f = Some t \<longrightarrow> t \<in> fst ` set (prevs @ added)"
    by blast
  have "distinct (alloc_pairs (pt_id port) d)" by (rule alloc_pairs_distinct [OF I(3) P(1) refl I(4)])
  moreover have "mset (alloc_pairs (pt_id port) d) = mset (origs @ prevs)" using ms by simp
  ultimately have "distinct (origs @ prevs)" by (metis mset_eq_imp_distinct_iff)
  then have "set origs \<inter> set prevs = {}" by simp
  then have "filter_mset (\<lambda>h. h \<notin> set origs) (mset origs + mset prevs) = mset prevs"
    by (auto simp flip: mset_filter intro!: arg_cong [where f = mset] filter_True filter_False)
  then have "mset (alloc_pairs (pt_id port) d') = mset (prevs @ added)"
    using alloc_pairs_without [OF I(3) P(1) I(4), of "set origs"] ms
    unfolding ips(5) add_allocs_Inr [OF ips(4)]
    by (simp add: alloc_pairs_def port_allocs_def d1 filter_map comp_def case_prod_unfold)
  then show thesis
    using that [of "prevs @ added"] len mem P(2) new ips(6) by (simp add: dict_get_set)
qed

section \<open>Deleting a port\<close>

lemma check_pool_gateway:
  assumes "check_ip_in_allocation_pool na sid gw t d = Inr False" "tables_ok na d"
    and s: "s \<in> set (subnets d)" "s_id s = sid" "s_gateway s = gw" and t: "text_ok na (s_ip_version s) t"
    and gf: "gateway_free na d"
  shows "ival na t \<notin> pooled_in na sid d"
proof (cases "Some t = gw")
  case True
  with gf s t show ?thesis by (auto simp: gateway_free_def)
next
  case False
  have ip: "na_ip na t = Some (IP (s_ip_version s) (ival na t))" using text_okD(1) [OF t] .
  have "ival na t \<notin> pool_vals na p"
    if "in_some_pool na (IP (s_ip_version s) (ival na t)) ps = Inr False" "p \<in> set ps"
      "set ps \<subseteq> set (pools_of sid d)" for p ps
    using that
  proof (induction ps)
    case (Cons q ps)
    then have q: "q \<in> set (ip_pools d)" "s_id s = p_subnet q" using s(2) by (auto simp: pools_of_def)
    note pv = pool_row_version [OF assms(2) q(1) s(1) q(2)]
    have "py_range na (p_first q) (p_last q) =
        Inr (IP (s_ip_version s) (ival na (p_first q)), IP (s_ip_version s) (ival na (p_last q)))"
      using pv text_okD(1) [OF pv(1)] text_okD(1) [OF pv(2)] by simp
    with Cons show ?case by (auto simp: in_range_def pool_vals_def split: if_splits)
  qed simp
  then show ?thesis
    using assms(1) False ip
    by (auto simp: check_ip_in_allocation_pool_def pooled_in_def py_ip_def split: if_splits)
qed

text \<open>Deleting the allocation of an address outside the pools.\<close>

lemma delete_allocation_inv:
  assumes inv: "ipam_inv na d" and s: "s \<in> set (subnets d)" "s_id s = sid" "s_network s = nid"
    and t: "text_ok na (s_ip_version s) t" and out: "ival na t \<notin> pooled_in na sid d"
  shows "ipam_inv na (d\<lparr>ip_allocs :=
      filter (\<lambda>a. \<not> (a_network a = nid \<and> a_ip a = t \<and> a_subnet a = sid)) (ip_allocs d)\<rparr>)"
    (is "ipam_inv na ?d")
proof -
  note D = ipam_invD [OF inv]
  note taken = taken_without [OF D(1) s t]
  show ?thesis
    unfolding ipam_inv_def ipam_held_def
  proof (intro conjI allI ballI)
    show "tables_ok na ?d"
      using tables_ok_rows(4) [OF D(1)] by (intro tables_ok_allocs [OF D(1)]) simp
    show "free_in na sid' ?d \<inter> (taken_in na sid' ?d \<union> held_in na [] sid') = {}" for sid'
      unfolding taken using D(2) [where sid = sid'] by (auto simp: held_in_def)
    show "pool_vals na p \<subseteq> free_in na (p_subnet p) ?d \<union> taken_in na (p_subnet p) ?d \<union> held_in na [] (p_subnet p)"
      if p: "p \<in> set (ip_pools ?d)" for p
    proof
      fix x assume x: "x \<in> pool_vals na p"
      then have "p_subnet p = sid \<Longrightarrow> x \<noteq> ival na t" using out p by (auto simp: pooled_in_def pools_of_def)
      then show "x \<in> free_in na (p_subnet p) ?d \<union> taken_in na (p_subnet p) ?d \<union> held_in na [] (p_subnet p)"
        unfolding taken using x D(3) [of p] p by auto
    qed
  qed simp
qed

text \<open>One round of the loop of \<open>_delete_port\<close>: it can only raise because the subnet is not visible.\<close>

lemma release_alloc_inv:
  assumes na: "netaddr_ok na" and inv: "ipam_inv na d" and gf: "gateway_free na d"
    and a: "a \<in> set (ip_allocs d)" and run: "release_alloc na ctx a d = Inr ((), d')"
  shows "ipam_inv na d' \<and> (\<exists>rs. d' = d\<lparr>ip_ranges := rs,
           ip_allocs := filter (\<lambda>b. \<not> same_alloc b a) (ip_allocs d)\<rparr>)"
proof -
  let ?sid = "a_subnet a" and ?nid = "a_network a" and ?t = "a_ip a"
  note D = ipam_invD [OF inv]
  from run obtain s b where s: "get_subnet_row ctx ?sid d = Inr s"
    and b: "check_ip_in_allocation_pool na ?sid (s_gateway s) ?t d = Inr b"
    and act: "(if b then recycle_ip na ?nid ?sid ?t else delete_ip_allocation ?nid ?sid ?t) d = Inr ((), d')"
    by (auto simp: release_alloc_def op_simps)
  note S = get_subnet_row_Inr [OF s]
  from tables_ok_rows(4) [OF D(1) a] obtain u where u: "u \<in> set (subnets d)" "s_id u = ?sid" "s_network u = ?nid"
    "text_ok na (s_ip_version u) ?t" by (auto simp: alloc_row_ok_def)
  then have "u = s" using subnet_unique [OF D(1) u(1) S(1)] S(2) by simp
  note u = u [unfolded this]
  have same: "filter (\<lambda>b. \<not> same_alloc b a) (ip_allocs d) =
      filter (\<lambda>b. \<not> (a_network b = ?nid \<and> a_ip b = ?t \<and> a_subnet b = ?sid)) (ip_allocs d)"
    by (rule filter_cong) (auto simp: same_alloc_def)
  show ?thesis
  proof (cases b)
    case True
    have "held_ok na ?nid d (?t, ?sid)" "ival na ?t \<notin> free_in na ?sid d"
      using held_of_alloc [OF D(1) a] alloc_not_free [OF inv a] by simp_all
    from recycle_ip_inv [OF na inv this] True act show ?thesis by (auto simp: same)
  next
    case False
    with b have "check_ip_in_allocation_pool na ?sid (s_gateway s) ?t d = Inr False" by simp
    then have "ival na ?t \<notin> pooled_in na ?sid d"
      by (rule check_pool_gateway [OF _ D(1) u(1,2) refl u(4) gf])
    from delete_allocation_inv [OF inv u(1-4) this] False act show ?thesis
      by (auto simp: delete_ip_allocation_def same intro!: exI [of _ "ip_ranges d"])
  qed
qed

lemma same_alloc_refl: "same_alloc a a"
  by (simp add: same_alloc_def)

lemma release_all:
  assumes na: "netaddr_ok na"
  shows "ipam_inv na d \<Longrightarrow> gateway_free na d \<Longrightarrow> allocs_ok d \<Longrightarrow> distinct L \<Longrightarrow> set L \<subseteq> set (ip_allocs d) \<Longrightarrow>
    forE (release_alloc na ctx) L d = Inr ((), d') \<Longrightarrow>
    ipam_inv na d' \<and> (\<exists>rs. d' = d\<lparr>ip_ranges := rs, ip_allocs := filter (\<lambda>b. b \<notin> set L) (ip_allocs d)\<rparr>)"
proof (induction L arbitrary: d)
  case Nil
  then show ?case by (auto intro!: exI [of _ "ip_ranges d"])
next
  case (Cons a L)
  from Cons.prems(6) obtain d1 where run: "release_alloc na ctx a d = Inr ((), d1)"
    "forE (release_alloc na ctx) L d1 = Inr ((), d')" by (auto simp: op_simps)
  have a: "a \<in> set (ip_allocs d)" using Cons.prems(5) by simp
  from release_alloc_inv [OF na Cons.prems(1,2) a run(1)] obtain rs where
    inv: "ipam_inv na d1"
    and d1: "d1 = d\<lparr>ip_ranges := rs, ip_allocs := filter (\<lambda>b. \<not> same_alloc b a) (ip_allocs d)\<rparr>" by auto
  have only: "filter (\<lambda>b. \<not> same_alloc b a) (ip_allocs d) = filter (\<lambda>b. b \<noteq> a) (ip_allocs d)"
    using allocs_okD(2) [OF Cons.prems(3) _ a] same_alloc_refl by (intro filter_cong) auto
  have "allocs_ok d1" by (rule allocs_ok_filter [OF Cons.prems(3)]) (auto simp: d1)
  moreover have "gateway_free na d1" using Cons.prems(2) gateway_free_cong [of d1 d] by (simp add: d1)
  moreover have "set L \<subseteq> set (ip_allocs d1)" using Cons.prems(4,5) by (auto simp: d1 only)
  ultimately obtain rs' where IH: "ipam_inv na d'"
    "d' = d1\<lparr>ip_ranges := rs', ip_allocs := filter (\<lambda>b. b \<notin> set L) (ip_allocs d1)\<rparr>"
    using Cons.IH [OF inv _ _ _ _ run(2)] Cons.prems(4) by auto
  have "d' = d\<lparr>ip_ranges := rs', ip_allocs := filter (\<lambda>b. b \<notin> set (a # L)) (ip_allocs d)\<rparr>"
    by (auto simp: IH(2) d1 only intro!: filter_cong)
  with IH(1) show ?case by blast
qed

text \<open>A deleted port takes its row and exactly its own allocations with it.\<close>

lemma delete_port_effect:
  assumes na: "netaddr_ok na" and inv: "db_inv na d" and run: "delete_port na ctx i d = Inr ((), d')"
  shows "\<exists>rs. d' = d\<lparr>ip_ranges := rs, ports := filter (\<lambda>p. pt_id p \<noteq> i) (ports d),
            ip_allocs := filter (\<lambda>a. a_port a \<noteq> Some i) (ip_allocs d)\<rparr>"
    and "ipam_inv na d'"
proof -
  note I = db_invD [OF inv]
  from run obtain d1 where d1: "forE (release_alloc na ctx) (port_allocs i d) d = Inr ((), d1)"
    and d': "d' = d1\<lparr>ports := filter (\<lambda>p. pt_id p \<noteq> i) (ports d1),
                     ip_allocs := filter (\<lambda>a. a_port a \<noteq> Some i) (ip_allocs d1)\<rparr>"
    by (auto simp: delete_port_def delete_port_row_def del_port_row_def op_simps)
  have "distinct (port_allocs i d)" "set (port_allocs i d) \<subseteq> set (ip_allocs d)"
    using allocs_okD(1) [OF I(3)] by (auto simp: port_allocs_def)
  from release_all [OF na I(1-3) this d1] obtain rs where held: "ipam_inv na d1"
    and e: "d1 = d\<lparr>ip_ranges := rs, ip_allocs := filter (\<lambda>b. b \<notin> set (port_allocs i d)) (ip_allocs d)\<rparr>"
    by blast
  have only: "ip_allocs d1 = filter (\<lambda>a. a_port a \<noteq> Some i) (ip_allocs d)"
    unfolding e by (auto simp: port_allocs_def intro!: filter_cong)
  have "d' = d\<lparr>ip_ranges := rs, ports := filter (\<lambda>p. pt_id p \<noteq> i) (ports d),
            ip_allocs := filter (\<lambda>a. a_port a \<noteq> Some i) (ip_allocs d)\<rparr>"
    unfolding d' only by (simp add: e)
  then show "\<exists>rs. d' = d\<lparr>ip_ranges := rs, ports := filter (\<lambda>p. pt_id p \<noteq> i) (ports d),
            ip_allocs := filter (\<lambda>a. a_port a \<noteq> Some i) (ip_allocs d)\<rparr>" by blast
  have "ip_allocs d' = ip_allocs d1" by (simp add: d' only)
  then show "ipam_inv na d'" using held by (subst ipam_inv_cong [where d = d1]) (simp_all add: d')
qed

lemma delete_port_inv:
  assumes na: "netaddr_ok na" and inv: "db_inv na d" and run: "delete_port na ctx i d = Inr ((), d')"
  shows "db_inv na d'"
proof -
  note I = db_invD [OF inv]
  from delete_port_effect [OF na inv run] obtain rs where
    d': "d' = d\<lparr>ip_ranges := rs, ports := filter (\<lambda>p. pt_id p \<noteq> i) (ports d),
            ip_allocs := filter (\<lambda>a. a_port a \<noteq> Some i) (ip_allocs d)\<rparr>" and held: "ipam_inv na d'" by blast
  have "allocs_ok d'"
    by (rule allocs_ok_filter [OF I(3), where P = "\<lambda>a. a_port a \<noteq> Some i"]) (auto simp: d')
  moreover have "gateway_free na d'" using I(2) gateway_free_cong [of d' d] by (simp add: d')
  moreover have "distinct (map pt_id (ports d'))" using I(4) by (simp add: d' distinct_map_filter)
  ultimately show ?thesis using held I(5) by (simp add: db_inv_def d')
qed

lemma delete_port_keeps: "netaddr_ok na \<Longrightarrow> keeps (db_inv na) (delete_port na ctx i)"
  by (rule keepsI) (rule delete_port_inv, auto)

lemma delete_ports_keeps: "netaddr_ok na \<Longrightarrow> keeps (db_inv na) (delete_ports na ctx flt)"
  unfolding delete_ports_def by (intro keeps_bind keeps_gets keeps_for delete_port_keeps)

end
