(* ===== verification/SubnetInv.thy ===== *)
theory SubnetInv
  imports CoreInv
begin

text \<open>
  The subnet and network operations of the core plugin: what their validation establishes of the
  allocation pools, and that they preserve the invariant of the database.
\<close>

section \<open>Dropping subnets\<close>

lemma drop_subnets_sel [simp]:
  "networks (drop_subnets gone d) = networks d" "ports (drop_subnets gone d) = ports d"
  "subnets (drop_subnets gone d) = filter (\<lambda>s. \<not> gone (s_id s)) (subnets d)"
  "ip_pools (drop_subnets gone d) = filter (\<lambda>p. \<not> gone (p_subnet p)) (ip_pools d)"
  "ip_allocs (drop_subnets gone d) = filter (\<lambda>a. \<not> gone (a_subnet a)) (ip_allocs d)"
  "ip_ranges (drop_subnets gone d) =
     filter (\<lambda>r. \<not> (\<exists>p \<in> set (ip_pools d). p_id p = r_pool r \<and> gone (p_subnet p))) (ip_ranges d)"
  by (simp_all add: drop_subnets_def)

lemma drop_pool_in: "pool_in (drop_subnets gone d) pid sid \<longleftrightarrow> pool_in d pid sid \<and> \<not> gone sid"
  by (auto simp: pool_in_def)

lemma pool_gone:
  assumes ok: "tables_ok na d" and r: "pool_in d pid sid"
  shows "(\<exists>p \<in> set (ip_pools d). p_id p = pid \<and> gone (p_subnet p)) \<longleftrightarrow> gone sid"
  using pool_in_unique [OF ok r] r unfolding pool_in_def by metis

lemma drop_ranges_of:
  assumes ok: "tables_ok na d"
  shows "r \<in> set (ranges_of sid (drop_subnets gone d)) \<longleftrightarrow> r \<in> set (ranges_of sid d) \<and> \<not> gone sid"
  unfolding mem_ranges_of drop_pool_in drop_subnets_sel set_filter mem_Collect_eq
  using pool_gone [OF ok, of "r_pool r" sid gone] by argo

lemma drop_free_in:
  assumes ok: "tables_ok na d"
  shows "free_in na sid (drop_subnets gone d) = (if gone sid then {} else free_in na sid d)"
proof (cases "gone sid")
  case True
  have "set (ranges_of sid (drop_subnets gone d)) = {}"
    by (rule set_eqI) (simp only: drop_ranges_of [OF ok] True not_True_eq_False simp_thms empty_iff)
  then show ?thesis using True by (simp add: free_in_def)
next
  case False
  have "set (ranges_of sid (drop_subnets gone d)) = set (ranges_of sid d)"
    by (rule set_eqI) (simp only: drop_ranges_of [OF ok] False not_False_eq_True simp_thms)
  then show ?thesis using False by (simp add: free_in_def)
qed

lemma drop_taken_in: "taken_in na sid (drop_subnets gone d) = (if gone sid then {} else taken_in na sid d)"
  by (auto simp: taken_in_def)

lemma drop_tables_ok:
  assumes ok: "tables_ok na d"
  shows "tables_ok na (drop_subnets gone d)"
proof -
  have sub: "s \<in> set (subnets (drop_subnets gone d)) \<longleftrightarrow> s \<in> set (subnets d) \<and> \<not> gone (s_id s)" for s
    by simp
  have pool: "pool_row_ok na (drop_subnets gone d) p" if "p \<in> set (ip_pools (drop_subnets gone d))" for p
    using that tables_ok_rows(2) [OF ok, of p] unfolding pool_row_ok_def sub by auto
  have alloc: "alloc_row_ok na (drop_subnets gone d) a" if "a \<in> set (ip_allocs (drop_subnets gone d))" for a
    using that tables_ok_rows(4) [OF ok, of a] unfolding alloc_row_ok_def sub by auto
  have range: "range_row_ok na (drop_subnets gone d) r" if "r \<in> set (ip_ranges (drop_subnets gone d))" for r
    using that tables_ok_rows(3) [OF ok, of r] unfolding range_row_ok_def sub by fastforce
  show ?thesis
    unfolding tables_ok_def ranges_apart_def pools_apart_def
    using pool alloc range tables_ok_rows(1,5,6) [OF ok] tables_ok_pools_apart [OF ok] tables_ok_ranges_apart [OF ok]
    by (simp add: distinct_map_filter)
qed

lemma drop_subnets_ipam:
  assumes inv: "ipam_inv na d"
  shows "ipam_inv na (drop_subnets gone d)"
  unfolding ipam_inv_def ipam_held_def drop_free_in [OF ipam_invD(1) [OF inv]] drop_taken_in
  using drop_tables_ok [OF ipam_invD(1) [OF inv]] ipam_invD(2,3) [OF inv] by (auto simp: held_in_def)

lemma drop_pooled_in: "pooled_in na sid (drop_subnets gone d) \<subseteq> pooled_in na sid d"
  by (auto simp: pooled_in_def pools_of_def)

lemma drop_subnets_inv:
  assumes inv: "db_inv na d"
  shows "db_inv na (drop_subnets gone d)"
proof -
  note I = db_invD [OF inv]
  have "allocs_ok (drop_subnets gone d)"
    by (rule allocs_ok_filter [OF I(3), where P = "\<lambda>a. \<not> gone (a_subnet a)"]) auto
  moreover have "gateway_free na (drop_subnets gone d)"
    using I(2) drop_pooled_in [of na _ gone d] unfolding gateway_free_def by fastforce
  ultimately show ?thesis
    using drop_subnets_ipam [OF I(1)] I(4,5) by (simp add: db_inv_def)
qed

section \<open>Deleting a subnet\<close>

text \<open>
  When \<open>delete_subnet\<close> succeeds every allocation it looked at belongs to a DHCP port, and the
  result is the database without the subnet; what it deletes one by one is part of what the
  deletion of the row cascades to.
\<close>

lemma drop_without_alloc:
  "drop_subnets (\<lambda>sid. sid = i) (d\<lparr>ip_allocs :=
     filter (\<lambda>a. \<not> (a_network a = nid \<and> a_ip a = t \<and> a_subnet a = i)) (ip_allocs d)\<rparr>) =
   drop_subnets (\<lambda>sid. sid = i) d"
proof -
  have "filter (\<lambda>a. a_subnet a \<noteq> i) (filter (\<lambda>a. \<not> (a_network a = nid \<and> a_ip a = t \<and> a_subnet a = i)) (ip_allocs d)) =
      filter (\<lambda>a. a_subnet a \<noteq> i) (ip_allocs d)"
    unfolding filter_filter by (rule filter_cong) auto
  then show ?thesis by (simp add: drop_subnets_def)
qed

lemma delete_subnet_loop:
  "forE (\<lambda>(a, owner). if owner \<in> set AUTO_DELETE_PORT_OWNERS then delete_ip_allocation nid i (a_ip a)
      else raiseE (SubnetInUse i)) L d = Inr ((), d') \<longleftrightarrow>
   (\<forall>(a, owner) \<in> set L. owner \<in> set AUTO_DELETE_PORT_OWNERS) \<and>
   forE (\<lambda>(a, owner). delete_ip_allocation nid i (a_ip a)) L d = Inr ((), d')"
  by (induction L arbitrary: d) (auto simp: bindE_Inr split: if_splits)

lemma delete_allocations_drop:
  "forE (\<lambda>(a, owner). delete_ip_allocation nid i (a_ip a)) L d = Inr ((), d') \<Longrightarrow>
     drop_subnets (\<lambda>sid. sid = i) d' = drop_subnets (\<lambda>sid. sid = i) d"
proof (induction L arbitrary: d)
  case (Cons h L)
  from Cons.prems obtain d1 where d1: "delete_ip_allocation nid i (a_ip (fst h)) d = Inr ((), d1)"
    "forE (\<lambda>(a, owner). delete_ip_allocation nid i (a_ip a)) L d1 = Inr ((), d')"
    by (cases h) (auto simp: bindE_Inr)
  have "drop_subnets (\<lambda>sid. sid = i) d1 = drop_subnets (\<lambda>sid. sid = i) d"
    using d1(1) drop_without_alloc [of i nid "a_ip (fst h)" d] unfolding delete_ip_allocation_def op_apply
    by (simp del: de_Morgan_conj)
  with Cons.IH [OF d1(2)] show ?case by simp
qed simp

lemma delete_subnet_iff:
  "delete_subnet ctx i d = Inr ((), d') \<longleftrightarrow>
     (\<exists>s. get_subnet_row ctx i d = Inr s \<and>
        (\<forall>(a, owner) \<in> set (network_allocations (s_network s) d). owner \<in> set AUTO_DELETE_PORT_OWNERS)) \<and>
     d' = drop_subnets (\<lambda>sid. sid = i) d" (is "_ \<longleftrightarrow> ?ok \<and> _")
proof
  assume run: "delete_subnet ctx i d = Inr ((), d')"
  then obtain s d1 where s: "get_subnet_row ctx i d = Inr s"
    "forE (\<lambda>(a, owner). if owner \<in> set AUTO_DELETE_PORT_OWNERS then delete_ip_allocation (s_network s) i (a_ip a)
      else raiseE (SubnetInUse i)) (network_allocations (s_network s) d) d = Inr ((), d1)"
    "d' = drop_subnets (\<lambda>sid. sid = i) d1"
    by (auto simp: delete_subnet_def op_simps)
  then show "?ok \<and> d' = drop_subnets (\<lambda>sid. sid = i) d"
    unfolding delete_subnet_loop using delete_allocations_drop by blast
next
  assume "?ok \<and> d' = drop_subnets (\<lambda>sid. sid = i) d"
  then obtain s where s: "get_subnet_row ctx i d = Inr s"
    "\<forall>(a, owner) \<in> set (network_allocations (s_network s) d). owner \<in> set AUTO_DELETE_PORT_OWNERS"
    and d': "d' = drop_subnets (\<lambda>sid. sid = i) d" by blast
  have "\<exists>d1. forE (\<lambda>(a, owner). delete_ip_allocation (s_network s) i (a_ip a)) L d = Inr ((), d1)" for L
    by (induction L arbitrary: d) (auto simp: bindE_def delete_ip_allocation_def)
  then obtain d1 where d1: "forE (\<lambda>(a, owner). delete_ip_allocation (s_network s) i (a_ip a))
      (network_allocations (s_network s) d) d = Inr ((), d1)" by blast
  with s(2) delete_subnet_loop [of "s_network s" i "network_allocations (s_network s) d" d d1]
  show "delete_subnet ctx i d = Inr ((), d')"
    using s(1) delete_allocations_drop [OF d1] unfolding delete_subnet_def d'
    by (simp add: bindE_def checkE_def)
qed

lemma delete_subnet_keeps: "keeps (db_inv na) (delete_subnet ctx i)"
  by (rule keepsI) (auto simp: delete_subnet_iff drop_subnets_inv)

section \<open>Networks\<close>

lemma create_network_keeps: "keeps (db_inv na) (create_network ctx uuid n)"
proof (rule keepsI)
  fix d r d' assume inv: "db_inv na d" and run: "create_network ctx uuid n d = Inr (r, d')"
  obtain net where "add_network net d = Inr ((), d')"
    using run unfolding create_network_def Let_def by (auto simp: op_simps)
  then have net: "n_id net \<notin> n_id ` set (networks d)" "d' = d\<lparr>networks := networks d @ [net]\<rparr>"
    by (simp_all add: add_network_def split: if_splits)
  note I = db_invD [OF inv]
  have "ipam_inv na d'" using I(1) by (subst ipam_inv_cong [where d = d]) (simp_all add: net)
  moreover have "gateway_free na d'" using I(2) gateway_free_cong [of d' d] by (simp add: net)
  moreover have "allocs_ok d'" using I(3) by (simp add: allocs_ok_def net)
  ultimately show "db_inv na d'" using I(4,5) net by (simp add: db_inv_def)
qed

lemma update_network_keeps: "keeps (db_inv na) (update_network ctx funcs i u)"
proof (rule keepsI)
  fix d r d' assume inv: "db_inv na d" and run: "update_network ctx funcs i u d = Inr (r, d')"
  define f where "f = (\<lambda>x (s :: subnet_row). if s_network s = i then s\<lparr>s_shared := x\<rparr> else s)"
  obtain n x where d': "d' = d\<lparr>networks := replace_row n (apply_network_update u n) (networks d),
      subnets := map (f x) (subnets d)\<rparr>"
    using run unfolding update_network_def Let_def f_def
    by (auto simp: op_simps split: option.splits if_splits)
  have f: "skey (f x s) = skey s \<and> s_gateway (f x s) = s_gateway s" for s
    by (simp add: f_def skey_def)
  note I = db_invD [OF inv]
  have "ipam_inv na d'" using I(1) f by (subst ipam_inv_cong [where d = d]) (simp_all add: d')
  moreover have "s_id (f x s) = s_id s \<and> s_ip_version (f x s) = s_ip_version s" for s
    using f [of s] by (simp add: skey_def)
  then have "gateway_free na d'" using I(2) f by (simp add: gateway_free_def d' pooled_in_def pools_of_def)
  moreover have "allocs_ok d'" using I(3) by (simp add: allocs_ok_def d')
  moreover have "n_id (apply_network_update u n) = n_id n" by (simp add: apply_network_update_def)
  ultimately show "db_inv na d'"
    using I(4,5) replace_row_map [of n_id "apply_network_update u n" n "networks d"] by (simp add: db_inv_def d')
qed

lemma delete_network_row_inv:
  assumes inv: "db_inv na d" and "delete_network_row i d = Inr ((), d')"
    and none: "\<forall>s \<in> set (subnets d). s_network s \<noteq> i"
  shows "db_inv na d'"
proof -
  note I = db_invD [OF inv]
  have "a_network a \<noteq> i" if "a \<in> set (ip_allocs d)" for a
    using tables_ok_rows(4) [OF I(6) that] none by (auto simp: alloc_row_ok_def)
  then have "filter (\<lambda>a. a_network a \<noteq> i) (ip_allocs d) = ip_allocs d" by (intro filter_True) auto
  with assms(2) have d': "d' = d\<lparr>networks := filter (\<lambda>n. n_id n \<noteq> i) (networks d)\<rparr>"
    by (auto simp: delete_network_row_def split: if_splits)
  have "ipam_inv na d'" using I(1) by (subst ipam_inv_cong [where d = d]) (simp_all add: d')
  moreover have "gateway_free na d'" using I(2) gateway_free_cong [of d' d] by (simp add: d')
  moreover have "allocs_ok d'" using I(3) by (simp add: allocs_ok_def d')
  ultimately show ?thesis using I(4,5) by (simp add: db_inv_def d' distinct_map_filter)
qed

lemma delete_network_keeps:
  assumes na: "netaddr_ok na"
  shows "keeps (db_inv na) (delete_network na ctx i)"
proof (rule keepsI)
  fix d r d' assume inv: "db_inv na d" and "delete_network na ctx i d = Inr (r, d')"
  then obtain ps :: "port_row list" and d1 where d1: "forE (\<lambda>p. delete_port na ctx (pt_id p)) ps d = Inr ((), d1)"
    and d': "delete_network_row i (drop_subnets (\<lambda>sid. \<exists>s \<in> set (subnets d1). s_id s = sid \<and> s_network s = i) d1)
      = Inr ((), d')"
    by (auto simp: delete_network_def delete_port_def [symmetric] op_simps split: if_splits)
  have "keeps (db_inv na) (forE (\<lambda>p. delete_port na ctx (pt_id p)) ps)"
    by (intro keeps_for delete_port_keeps na)
  then have "db_inv na d1" using d1 inv by (rule keepsD)
  from delete_network_row_inv [OF drop_subnets_inv [OF this] d'] show "db_inv na d'" by auto
qed

end
