(* ===== verification/PoolValid.thy ===== *)
theory PoolValid
  imports SubnetInv
begin

text \<open>
  Allocation pools of a subnet: what \<open>_validate_allocation_pools\<close> accepts, and that the pools
  \<open>_allocate_pools_for_subnet\<close> computes are of that kind.  Both ends of a valid pool lie strictly
  between the first and the last address of the subnet and different pools do not meet.

  \<open>netaddr.IPAddress(n)\<close> chooses the version of an address by the size of the number, so the
  bounds the code computes for an IPv6 network below \<open>2^32\<close> are IPv4 addresses.  The lemmas are
  about the other networks (\<open>net_wide\<close>).
\<close>

definition net_wide :: "ipnet \<Rightarrow> bool" where
  "net_wide n \<longleftrightarrow> (net_ver n = 6 \<longrightarrow> ip_max 4 < net_first n)"

definition pool_span :: "netaddr \<Rightarrow> string \<times> string \<Rightarrow> int set" where
  "pool_span na p = {ival na (fst p) .. ival na (snd p)}"

definition pool_in_net :: "netaddr \<Rightarrow> ipnet \<Rightarrow> string \<times> string \<Rightarrow> bool" where
  "pool_in_net na n p \<longleftrightarrow>
     (\<exists>x y. na_ip na (fst p) = Some (IP (net_ver n) x) \<and> na_ip na (snd p) = Some (IP (net_ver n) y) \<and>
        net_first n < x \<and> x \<le> y \<and> y < net_last n)"

definition pools_valid :: "netaddr \<Rightarrow> ipnet \<Rightarrow> (string \<times> string) list \<Rightarrow> bool" where
  "pools_valid na n ps \<longleftrightarrow>
     (\<forall>p \<in> set ps. pool_in_net na n p) \<and> sorted_wrt (\<lambda>p q. pool_span na p \<inter> pool_span na q = {}) ps"

lemma ip_of_int_net:
  assumes "net_ok n" "net_wide n" "net_first n \<le> k" "k \<le> net_last n"
  shows "ip_of_int k = Inr (IP (net_ver n) k)" "ip_valid (IP (net_ver n) k)"
  using assms by (auto simp: ip_of_int_def net_ok_def net_wide_def ip_valid_def ip_max_def)

section \<open>Validation\<close>

lemma check_overlaps_with_iff:
  "check_overlaps_with cidr l rs = Inr () \<longleftrightarrow> (\<forall>r \<in> set rs. \<not> ranges_meet (fst l) (fst r))"
  by (induction rs) auto

lemma check_overlaps_iff:
  "check_overlaps cidr rs = Inr () \<longleftrightarrow> sorted_wrt (\<lambda>l r. \<not> ranges_meet (fst l) (fst r)) rs"
  by (induction rs) (auto simp: op_simps check_overlaps_with_iff)

lemma validate_pool_Inr:
  assumes n: "net_ok n" "net_wide n" and room: "net_first n < net_last n"
    and v: "ip_valid (IP (net_ver n) 0)"
  shows "validate_pool na cidr n (IP (net_ver n) (net_first n + 1)) (IP (net_ver n) (net_last n - 1)) p = Inr r \<longleftrightarrow>
     pool_in_net na n p \<and> r = (IP (net_ver n) (ival na (fst p)), IP (net_ver n) (ival na (snd p)))"
proof (cases "na_ip na (fst p)")
  case None
  then show ?thesis by (simp add: validate_pool_def pool_in_net_def)
next
  case (Some a)
  show ?thesis
  proof (cases "na_ip na (snd p)")
    case None
    with Some show ?thesis by (simp add: validate_pool_def pool_in_net_def)
  next
    case (Some b)
    with \<open>na_ip na (fst p) = Some a\<close> show ?thesis
      by (cases a; cases b) (auto simp: validate_pool_def pool_in_net_def ip_less_def ival_def)
  qed
qed

lemma sorted_wrt_zip:
  assumes "list_all2 R ps qs" "\<And>p q x y. R p x \<Longrightarrow> R q y \<Longrightarrow> P x y \<longleftrightarrow> Q p q"
  shows "sorted_wrt (\<lambda>l r. P (fst l) (fst r)) (zip qs ps) \<longleftrightarrow> sorted_wrt Q ps"
  using assms(1)
proof (induction ps qs rule: list_all2_induct)
  case (Cons p ps x qs)
  have "(\<forall>z \<in> set (zip qs ps). P x (fst z)) \<longleftrightarrow> (\<forall>q \<in> set ps. Q p q)"
    using Cons(2) Cons(1) assms(2)
    by (induction ps qs rule: list_all2_induct) auto
  with Cons show ?case by simp
qed simp

lemma pool_in_net_span:
  assumes "pool_in_net na n p"
  shows "text_ok na (net_ver n) (fst p) \<longleftrightarrow> canonical na (fst p)"
    "text_ok na (net_ver n) (snd p) \<longleftrightarrow> canonical na (snd p)"
    "net_first n < ival na (fst p)" "ival na (fst p) \<le> ival na (snd p)" "ival na (snd p) < net_last n"
  using assms by (auto simp: pool_in_net_def text_ok_def canonical_def ival_def)

lemma validate_allocation_pools_iff:
  assumes na: "netaddr_ok na" and net: "na_net na cidr = Some n" and wide: "net_wide n"
    and room: "net_first n < net_last n"
  shows "validate_allocation_pools na ps cidr = Inr () \<longleftrightarrow> pools_valid na n ps"
proof -
  note ok = na_net_ok [OF na net]
  have b: "ip_of_int (net_first n + 1) = Inr (IP (net_ver n) (net_first n + 1))"
    "ip_of_int (net_last n - 1) = Inr (IP (net_ver n) (net_last n - 1))"
    using room by (intro ip_of_int_net [OF ok wide]; simp)+
  have v: "ip_valid (IP (net_ver n) 0)" using ok by (auto simp: net_ok_def ip_valid_def ip_max_def)
  let ?f = "validate_pool na cidr n (IP (net_ver n) (net_first n + 1)) (IP (net_ver n) (net_last n - 1))"
  let ?iv = "\<lambda>p. (IP (net_ver n) (ival na (fst p)), IP (net_ver n) (ival na (snd p)))"
  note vp = validate_pool_Inr [OF ok wide room v]
  have all: "list_all2 (\<lambda>p r. ?f p = Inr r) ps rs \<longleftrightarrow> (\<forall>p \<in> set ps. pool_in_net na n p) \<and> rs = map ?iv ps" for rs
    unfolding vp by (induction ps arbitrary: rs) (auto simp: list_all2_Cons1)
  have meet: "sorted_wrt (\<lambda>l r. \<not> ranges_meet (fst l) (fst r)) (zip (map ?iv ps) ps) \<longleftrightarrow>
      sorted_wrt (\<lambda>p q. pool_span na p \<inter> pool_span na q = {}) ps"
    if "\<forall>p \<in> set ps. pool_in_net na n p"
  proof (rule sorted_wrt_zip [where R = "\<lambda>p r. pool_in_net na n p \<and> r = ?iv p"])
    show "list_all2 (\<lambda>p r. pool_in_net na n p \<and> r = ?iv p) ps (map ?iv ps)"
      using that by (auto simp: list_all2_conv_all_nth)
    show "(\<not> ranges_meet x y) = (pool_span na p \<inter> pool_span na q = {})"
      if "pool_in_net na n p \<and> x = ?iv p" "pool_in_net na n q \<and> y = ?iv q" for p q x y
      using that pool_in_net_span(4) [of na n p] pool_in_net_span(4) [of na n q]
      by (auto simp: ranges_meet_def pool_span_def)
  qed
  show ?thesis
    unfolding validate_allocation_pools_def pools_valid_def
    using meet by (auto simp: op_simps net b mapR_Inr all check_overlaps_iff py_net_def)
qed

section \<open>Computed pools\<close>

text \<open>
  The computed pools partition the addresses between the first and the last one, without the
  gateway; the computation never raises when the gateway is an address.
\<close>

lemma allocate_pools_ok:
  assumes na: "netaddr_ok na" and net: "na_net na cidr = Some n" and wide: "net_wide n"
    and gw: "case gw of None \<Rightarrow> True | Some g \<Rightarrow> na_ip na g \<noteq> None"
  obtains ps where "allocate_pools_for_subnet na cidr gw = Inr ps"
    "pools_valid na n ps" "\<forall>p \<in> set ps. canonical na (fst p) \<and> canonical na (snd p)"
    "(\<Union>p \<in> set ps. pool_span na p) =
       {net_first n + 1 .. net_last n - 1} - (case gw of None \<Rightarrow> {} | Some g \<Rightarrow> {ival na g})"
proof -
  note ok = na_net_ok [OF na net]
  have gw_text: "g \<noteq> []" if "gw = Some g" for g using gw that na_ip_nonempty [OF na] by auto
  let ?f = "net_first n" and ?l = "net_last n" and ?ip = "IP (net_ver n)"
  have le: "?f \<le> ?l" using ok by (simp add: net_ok_def)
  have last: "ip_of_int ?l = Inr (?ip ?l)" using le by (intro ip_of_int_net [OF ok wide]) auto
  define g where "g = (case gw of None \<Rightarrow> ?l | Some t \<Rightarrow> ival na t)"
  define sp where "sp = min (max g ?f) ?l"
  have sp: "?f \<le> sp" "sp \<le> ?l" using le by (auto simp: sp_def)
  define lower where "lower = (if sp > ?f + 1 then [(na_str na (?ip (?f + 1)), na_str na (?ip (sp - 1)))] else [])"
  define upper where "upper = (if sp < ?l - 1 then [(na_str na (?ip (sp + 1)), na_str na (?ip (?l - 1)))] else [])"
  have ips: "ip_of_int k = Inr (?ip k)" "ip_valid (?ip k)" if "?f \<le> k" "k \<le> ?l" for k
    using ip_of_int_net [OF ok wide that] by auto
  have run: "allocate_pools_for_subnet na cidr gw = Inr (lower @ upper)"
  proof -
    have gw': "(case gw of None \<Rightarrow> ip_of_int ?l | Some t \<Rightarrow> if t = [] then ip_of_int ?l else py_ip na t) = Inr a \<longrightarrow>
        ip_val a = g" for a
      using gw gw_text last by (auto simp: g_def ival_def py_ip_def split: option.splits)
    have "\<exists>a. (case gw of None \<Rightarrow> ip_of_int ?l | Some t \<Rightarrow> if t = [] then ip_of_int ?l else py_ip na t) = Inr a"
      using gw gw_text last by (auto simp: py_ip_def split: option.splits)
    with gw' obtain a where a: "(case gw of None \<Rightarrow> ip_of_int ?l | Some t \<Rightarrow> if t = [] then ip_of_int ?l else py_ip na t) = Inr a"
      "ip_val a = g" by blast
    have e: "min (max (ip_val a) ?f) ?l = sp" by (simp add: sp_def a(2))
    show ?thesis
      unfolding allocate_pools_for_subnet_def py_net_def net Let_def option.case bindR_simps a(1) e
      using sp by (simp add: ips lower_def upper_def)
  qed
  have lo: "pool_in_net na n p \<and> canonical na (fst p) \<and> canonical na (snd p) \<and>
      pool_span na p = {?f + 1 .. sp - 1}" if "p \<in> set lower" for p
    using that sp na ips by (auto simp: lower_def pool_in_net_def pool_span_def split: if_splits)
  have up: "pool_in_net na n p \<and> canonical na (fst p) \<and> canonical na (snd p) \<and>
      pool_span na p = {sp + 1 .. ?l - 1}" if "p \<in> set upper" for p
    using that sp na ips by (auto simp: upper_def pool_in_net_def pool_span_def split: if_splits)
  show thesis
  proof (rule that [OF run])
    have "sorted_wrt (\<lambda>p q. pool_span na p \<inter> pool_span na q = {}) (lower @ upper)"
      unfolding sorted_wrt_append using lo up by (auto simp: lower_def upper_def)
    then show "pools_valid na n (lower @ upper)" using lo up by (auto simp: pools_valid_def)
    show "\<forall>p \<in> set (lower @ upper). canonical na (fst p) \<and> canonical na (snd p)" using lo up by auto
    have L: "(\<Union>p \<in> set lower. pool_span na p) = {?f + 1 .. sp - 1}"
    proof (cases "lower = []")
      case True
      then show ?thesis by (auto simp: lower_def split: if_splits)
    next
      case False
      then show ?thesis using lo by (auto simp: lower_def split: if_splits)
    qed
    have U: "(\<Union>p \<in> set upper. pool_span na p) = {sp + 1 .. ?l - 1}"
    proof (cases "upper = []")
      case True
      then show ?thesis by (auto simp: upper_def split: if_splits)
    next
      case False
      then show ?thesis using up by (auto simp: upper_def split: if_splits)
    qed
    show "(\<Union>p \<in> set (lower @ upper). pool_span na p) =
        {?f + 1 .. ?l - 1} - (case gw of None \<Rightarrow> {} | Some t \<Rightarrow> {ival na t})"
      unfolding set_append UN_Un L U using le by (cases gw) (auto simp: sp_def g_def)
  qed
qed

end
