(* ===== verification/CreateSubnet.thy ===== *)
theory CreateSubnet
  imports PoolValid
begin

text \<open>
  \<open>create_subnet\<close> and \<open>update_subnet\<close> preserve the invariant of the database: the pools they
  store are disjoint, their addresses are free, and the gateway is in none of them.
\<close>

section \<open>The parts of the database the name servers and routes leave alone\<close>

definition core :: "db \<Rightarrow> network_row list \<times> subnet_row list \<times> port_row list \<times>
    ip_pool_row list \<times> ip_range_row list \<times> ip_alloc_row list" where
  "core d = (networks d, subnets d, ports d, ip_pools d, ip_ranges d, ip_allocs d)"

lemma core_eqD:
  assumes "core d' = core d"
  shows "networks d' = networks d" "subnets d' = subnets d" "ports d' = ports d"
    "ip_pools d' = ip_pools d" "ip_ranges d' = ip_ranges d" "ip_allocs d' = ip_allocs d"
  using assms by (simp_all add: core_def)

lemma db_inv_core:
  assumes "core d' = core d"
  shows "db_inv na d' = db_inv na d"
proof -
  note C = core_eqD [OF assms]
  have "ipam_inv na d' = ipam_inv na d" by (rule ipam_inv_cong) (simp_all add: C)
  then show ?thesis
    using gateway_free_cong [OF C(2,4)] by (simp add: db_inv_def allocs_ok_def C)
qed

lemma leaves_add_dns: "leaves core (add_dns n)"
  by (rule leavesI) (auto simp: add_dns_def core_def split: if_splits)

lemma leaves_add_route: "leaves core (add_route r)"
  by (rule leavesI) (auto simp: add_route_def core_def split: if_splits)

lemma leaves_update_dns: "leaves core (update_dns sid new)"
  unfolding update_dns_def
  by (intro leaves_intro leaves_add_dns) (auto intro!: leavesI simp: core_def)

lemma leaves_update_routes: "leaves core (update_routes sid rts)"
  unfolding update_routes_def Let_def
  by (intro leaves_intro leaves_add_route) (auto intro!: leavesI simp: core_def)

section \<open>Storing a subnet\<close>

lemma add_subnet_inv:
  assumes inv: "db_inv na d" and run: "add_subnet s d = Inr ((), d')"
  shows "db_inv na d'" "pooled_in na (s_id s) d' = {}" "taken_in na (s_id s) d' = {}"
    "subnets d' = subnets d @ [s]" "ip_pools d' = ip_pools d"
proof -
  note I = db_invD [OF inv]
  from run have new: "s_id s \<notin> s_id ` set (subnets d)" and d': "d' = d\<lparr>subnets := subnets d @ [s]\<rparr>"
    by (simp_all add: add_subnet_def split: if_splits)
  show "subnets d' = subnets d @ [s]" "ip_pools d' = ip_pools d" by (simp_all add: d')
  have sub: "set (subnets d) \<subseteq> set (subnets d')" by (auto simp: d')
  have pool: "p_subnet p \<noteq> s_id s" if "p \<in> set (ip_pools d)" for p
    using tables_ok_rows(2) [OF I(6) that] new unfolding pool_row_ok_def by (metis imageI)
  show pooled: "pooled_in na (s_id s) d' = {}"
    using pool by (auto simp: pooled_in_def pools_of_def d')
  have "a_subnet a \<noteq> s_id s" if "a \<in> set (ip_allocs d)" for a
    using tables_ok_rows(4) [OF I(6) that] new unfolding alloc_row_ok_def by (metis imageI)
  then show taken: "taken_in na (s_id s) d' = {}" by (auto simp: taken_in_def d')
  have "pool_row_ok na d' p" if "p \<in> set (ip_pools d)" for p
    using tables_ok_rows(2) [OF I(6) that] sub by (fastforce simp: pool_row_ok_def)
  moreover have "range_row_ok na d' r" if "r \<in> set (ip_ranges d)" for r
    using tables_ok_rows(3) [OF I(6) that] sub unfolding range_row_ok_def by (fastforce simp: d')
  moreover have "alloc_row_ok na d' a" if "a \<in> set (ip_allocs d)" for a
    using tables_ok_rows(4) [OF I(6) that] sub by (fastforce simp: alloc_row_ok_def)
  ultimately have "tables_ok na d'"
    using I(6) new unfolding tables_ok_def pools_apart_def ranges_apart_def by (simp add: d')
  moreover have "free_in na sid d' = free_in na sid d" "taken_in na sid d' = taken_in na sid d" for sid
    by (simp_all add: free_in_def ranges_of_def taken_in_def d')
  ultimately have "ipam_inv na d'"
    using I(1) unfolding ipam_inv_def ipam_held_def by (simp add: d')
  moreover have "pooled_in na sid d' = pooled_in na sid d" for sid by (rule pooled_in_cong) (simp add: d')
  then have "gateway_free na d'" using I(2) pooled by (auto simp: gateway_free_def d')
  moreover have "allocs_ok d'" using I(3) by (simp add: allocs_ok_def d')
  ultimately show "db_inv na d'" using I(4,5) by (simp add: db_inv_def d')
qed

text \<open>One pool that meets no other pool of its subnet and no allocation.\<close>

lemma add_pool_inv:
  assumes inv: "ipam_inv na d" and s: "s \<in> set (subnets d)" "s_id s = sid"
    and t: "text_ok na (s_ip_version s) a" "text_ok na (s_ip_version s) b"
      "0 < ival na a" "ival na a \<le> ival na b" "ival na b < ip_max (s_ip_version s)" and pid: "pid \<noteq> []"
    and apart: "pool_span na (a, b) \<inter> pooled_in na sid d = {}"
    and none: "pool_span na (a, b) \<inter> taken_in na sid d = {}"
    and run: "add_pool_with_range sid (pid, (a, b)) d = Inr ((), d')"
  shows "ipam_inv na d'" "pooled_in na sid d' = pool_span na (a, b) \<union> pooled_in na sid d"
    "\<exists>ps rs. d' = d\<lparr>ip_pools := ps, ip_ranges := rs\<rparr>"
    "sid' \<noteq> sid \<Longrightarrow> pooled_in na sid' d' = pooled_in na sid' d"
proof -
  let ?p = "\<lparr>p_id = pid, p_subnet = sid, p_first = a, p_last = b\<rparr>"
  let ?r = "\<lparr>r_pool = pid, r_first = a, r_last = b\<rparr>"
  note D = ipam_invD [OF inv]
  from run have new: "pid \<notin> p_id ` set (ip_pools d)" "?r \<notin> set (ip_ranges d)"
    and d': "d' = d\<lparr>ip_pools := ip_pools d @ [?p], ip_ranges := ip_ranges d @ [?r]\<rparr>"
    by (auto simp: add_pool_with_range_def op_simps add_pool_def split: if_splits)
  then show "\<exists>ps rs. d' = d\<lparr>ip_pools := ps, ip_ranges := rs\<rparr>" by blast
  have span: "row_vals na ?r = pool_span na (a, b)" "pool_vals na ?p = pool_span na (a, b)"
    by (simp_all add: row_vals_def pool_vals_def pool_span_def)
  show pooled: "pooled_in na sid d' = pool_span na (a, b) \<union> pooled_in na sid d"
    by (auto simp: pooled_in_def pools_of_def d' span)
  show "pooled_in na sid' d' = pooled_in na sid' d" if "sid' \<noteq> sid"
    using that by (auto simp: pooled_in_def pools_of_def d')
  have range_pid: "r_pool r \<noteq> pid" if "r \<in> set (ip_ranges d)" for r
    using tables_ok_rows(3) [OF D(1) that] new(1) unfolding range_row_ok_def by (metis imageI)
  have ok: "tables_ok na d'"
    unfolding tables_ok_def
  proof (intro conjI ballI)
    show "distinct (map s_id (subnets d'))" using tables_ok_rows(1) [OF D(1)] by (simp add: d')
    show "pool_row_ok na d' p" if "p \<in> set (ip_pools d')" for p
      using that tables_ok_rows(2) [OF D(1), of p] s t pid by (auto simp: d' pool_row_ok_def)
    show "range_row_ok na d' r" if "r \<in> set (ip_ranges d')" for r
    proof (cases "r = ?r")
      case True
      then show ?thesis using s t unfolding range_row_ok_def by (auto simp: d' span)
    next
      case False
      then have "range_row_ok na d r" using that tables_ok_rows(3) [OF D(1), of r] by (auto simp: d')
      then show ?thesis unfolding range_row_ok_def by (fastforce simp: d')
    qed
    show "alloc_row_ok na d' x" if "x \<in> set (ip_allocs d')" for x
      using that tables_ok_rows(4) [OF D(1), of x] by (auto simp: d' alloc_row_ok_def)
    have "pool_vals na q \<inter> pool_vals na ?p = {}" if "q \<in> set (ip_pools d)" "p_subnet q = sid" for q
      using that apart by (auto simp: span pooled_in_def pools_of_def)
    then show "pools_apart na d'"
      using tables_ok_pools_apart [OF D(1)] tables_ok_rows(6) [OF D(1)] new(1)
      unfolding pools_apart_def by (auto simp: d' Int_commute)
    show "ranges_apart na d'"
      using tables_ok_ranges_apart [OF D(1)] tables_ok_rows(5) [OF D(1)] new(2) range_pid
      unfolding ranges_apart_def by (auto simp: d')
  qed
  have free: "free_in na x d' = (if x = sid then pool_span na (a, b) \<union> free_in na x d else free_in na x d)" for x
  proof -
    have "pool_in d' (r_pool r) x \<longleftrightarrow> pool_in d (r_pool r) x" if "r \<in> set (ip_ranges d)" for r
      using range_pid [OF that] by (auto simp: pool_in_def d')
    moreover have "pool_in d' pid x \<longleftrightarrow> x = sid" using new(1) by (auto simp: pool_in_def d')
    ultimately have "set (ranges_of x d') = (if x = sid then insert ?r (set (ranges_of x d)) else set (ranges_of x d))"
      by (intro set_eqI) (auto simp: mem_ranges_of d')
    then show ?thesis by (simp add: free_in_def span)
  qed
  have taken: "taken_in na x d' = taken_in na x d" for x by (simp add: taken_in_def d')
  show "ipam_inv na d'"
    unfolding ipam_inv_def ipam_held_def
  proof (intro conjI allI ballI)
    show "tables_ok na d'" by (rule ok)
    show "free_in na x d' \<inter> (taken_in na x d' \<union> held_in na [] x) = {}" for x
      unfolding free taken using none D(2) [where sid = x] by (auto simp: held_in_def)
    show "pool_vals na p \<subseteq> free_in na (p_subnet p) d' \<union> taken_in na (p_subnet p) d' \<union> held_in na [] (p_subnet p)"
      if "p \<in> set (ip_pools d')" for p
      unfolding free taken using that D(3) [of p] by (auto simp: d' span)
  qed simp
qed

text \<open>The pools of the request, with the identifiers drawn for them.\<close>

definition pool_texts_ok :: "netaddr \<Rightarrow> nat \<Rightarrow> string \<times> string \<Rightarrow> bool" where
  "pool_texts_ok na v p \<longleftrightarrow>
     text_ok na v (fst p) \<and> text_ok na v (snd p) \<and>
     0 < ival na (fst p) \<and> ival na (fst p) \<le> ival na (snd p) \<and> ival na (snd p) < ip_max v"

lemma add_pools_inv:
  assumes s: "s_id s = sid"
  shows "ipam_inv na d \<Longrightarrow> s \<in> set (subnets d) \<Longrightarrow>
    \<forall>(pid, p) \<in> set L. pid \<noteq> [] \<and> pool_texts_ok na (s_ip_version s) p \<and>
       pool_span na p \<inter> pooled_in na sid d = {} \<Longrightarrow>
    taken_in na sid d = {} \<Longrightarrow>
    sorted_wrt (\<lambda>p q. pool_span na p \<inter> pool_span na q = {}) (map snd L) \<Longrightarrow>
    forE (add_pool_with_range sid) L d = Inr ((), d') \<Longrightarrow>
    ipam_inv na d' \<and> (\<exists>ps rs. d' = d\<lparr>ip_pools := ps, ip_ranges := rs\<rparr>) \<and>
    pooled_in na sid d' = (\<Union>p \<in> snd ` set L. pool_span na p) \<union> pooled_in na sid d \<and>
    (\<forall>sid'. sid' \<noteq> sid \<longrightarrow> pooled_in na sid' d' = pooled_in na sid' d)"
proof (induction L arbitrary: d)
  case Nil
  then show ?case by (auto intro!: exI [of _ "ip_pools d"] exI [of _ "ip_ranges d"])
next
  case (Cons h L)
  obtain pid a b where h: "h = (pid, (a, b))" by (cases h) auto
  from Cons.prems(6) h obtain d1 where run: "add_pool_with_range sid (pid, (a, b)) d = Inr ((), d1)"
    "forE (add_pool_with_range sid) L d1 = Inr ((), d')" by (auto simp: op_simps)
  have pid: "pid \<noteq> []" and t: "pool_texts_ok na (s_ip_version s) (a, b)"
    and apart0: "pool_span na (a, b) \<inter> pooled_in na sid d = {}"
    using Cons.prems(3) h by auto
  have T: "text_ok na (s_ip_version s) a" "text_ok na (s_ip_version s) b" "0 < ival na a"
    "ival na a \<le> ival na b" "ival na b < ip_max (s_ip_version s)"
    using t by (simp_all add: pool_texts_ok_def)
  have none: "pool_span na (a, b) \<inter> taken_in na sid d = {}" using Cons.prems(4) by simp
  note d1 = add_pool_inv [OF Cons.prems(1,2) s T pid apart0 none run(1)]
  obtain ps rs where e: "d1 = d\<lparr>ip_pools := ps, ip_ranges := rs\<rparr>" using d1(3) by blast
  have apart: "pool_span na p \<inter> pool_span na (a, b) = {}" if "p \<in> snd ` set L" for p
  proof -
    have "\<forall>p \<in> set (map snd L). pool_span na (a, b) \<inter> pool_span na p = {}"
      using Cons.prems(5) unfolding h by (simp only: list.map snd_conv sorted_wrt.simps) (rule conjunct1)
    moreover have "p \<in> set (map snd L)" using that by (simp only: set_map)
    ultimately have "pool_span na (a, b) \<inter> pool_span na p = {}" by (rule bspec)
    then show ?thesis by (subst Int_commute)
  qed
  have L1: "\<forall>(pid, p) \<in> set L. pid \<noteq> [] \<and> pool_texts_ok na (s_ip_version s) p \<and>
       pool_span na p \<inter> pooled_in na sid d1 = {}"
  proof clarify
    fix pid' x y assume L: "(pid', x, y) \<in> set L"
    then have "pool_span na (x, y) \<inter> pool_span na (a, b) = {}" by (intro apart) force
    moreover have "pid' \<noteq> [] \<and> pool_texts_ok na (s_ip_version s) (x, y) \<and>
        pool_span na (x, y) \<inter> pooled_in na sid d = {}" using L Cons.prems(3) by auto
    ultimately show "pid' \<noteq> [] \<and> pool_texts_ok na (s_ip_version s) (x, y) \<and>
        pool_span na (x, y) \<inter> pooled_in na sid d1 = {}" unfolding d1(2) by blast
  qed
  have s1: "s \<in> set (subnets d1)" "taken_in na sid d1 = {}"
    using Cons.prems(2,4) unfolding e taken_in_def by simp_all
  have sorted: "sorted_wrt (\<lambda>p q. pool_span na p \<inter> pool_span na q = {}) (map snd L)"
    using Cons.prems(5) by (simp only: list.map sorted_wrt.simps)
  have IH: "ipam_inv na d' \<and> (\<exists>ps rs. d' = d1\<lparr>ip_pools := ps, ip_ranges := rs\<rparr>) \<and>
      pooled_in na sid d' = (\<Union>p \<in> snd ` set L. pool_span na p) \<union> pooled_in na sid d1 \<and>
      (\<forall>sid'. sid' \<noteq> sid \<longrightarrow> pooled_in na sid' d' = pooled_in na sid' d1)"
    by (rule Cons.IH [OF d1(1) s1(1) L1 s1(2) sorted run(2)])
  then have inv: "ipam_inv na d'"
    and pooled: "pooled_in na sid d' = (\<Union>p \<in> snd ` set L. pool_span na p) \<union> pooled_in na sid d1"
    and other: "\<And>x. x \<noteq> sid \<Longrightarrow> pooled_in na x d' = pooled_in na x d1"
    and rows: "\<exists>ps rs. d' = d1\<lparr>ip_pools := ps, ip_ranges := rs\<rparr>" by blast+
  obtain ps' rs' where d': "d' = d1\<lparr>ip_pools := ps', ip_ranges := rs'\<rparr>" using rows by blast
  have "d' = d\<lparr>ip_pools := ps', ip_ranges := rs'\<rparr>" unfolding d' e by simp
  moreover have "pooled_in na sid d' = (\<Union>p \<in> snd ` set (h # L). pool_span na p) \<union> pooled_in na sid d"
    unfolding pooled d1(2) h list.set image_insert snd_conv UN_insert by blast
  moreover have "pooled_in na x d' = pooled_in na x d" if "x \<noteq> sid" for x
    using other [OF that] d1(4) [OF that] by simp
  ultimately show ?case using inv by blast
qed

text \<open>What \<open>store_subnet\<close> does when it does not raise.\<close>

lemma store_subnet_effect:
  assumes "store_subnet na cfg ctx uuid s tenant gw pools d = Inr (sub, d')"
  obtains d1 d2 where
    "add_subnet sub d = Inr ((), d1)" "core d2 = core d1"
    "forE (add_pool_with_range (s_id sub)) (zip (map (\<lambda>i. uuid (Suc i)) [0..<length pools]) pools) d2 = Inr ((), d')"
    "s_network sub = sc_network s" "s_ip_version sub = sc_ip_version s" "s_cidr sub = sc_cidr s"
    "s_gateway sub = gw" "s_id sub = id_or_uuid (sc_id s) (uuid 0)"
    "sc_network s \<in> n_id ` set (networks d)"
proof -
  let ?sid = "id_or_uuid (sc_id s) (uuid 0)"
  let ?dns = "case sc_dns s of NotSpecified \<Rightarrow> returnE ()
            | Given dns \<Rightarrow> forE (\<lambda>a. add_dns \<lparr>dns_address = a, dns_subnet = ?sid\<rparr>) dns"
  let ?rts = "case sc_routes s of NotSpecified \<Rightarrow> returnE ()
            | Given rts \<Rightarrow> forE (\<lambda>(dst, hop). add_route \<lparr>rt_subnet = ?sid, rt_destination = dst, rt_nexthop = hop\<rparr>) rts"
  have leaves: "leaves core ?dns" "leaves core ?rts"
    by (cases "sc_dns s"; simp add: leaves_pure leaves_for leaves_add_dns)
       (cases "sc_routes s"; simp add: leaves_pure leaves_for leaves_add_route case_prod_unfold)
  from assms obtain n d1 e d2 where run: "get_network_row ctx (sc_network s) d = Inr n"
    "add_subnet sub d = Inr ((), d1)" "?dns d1 = Inr ((), e)" "?rts e = Inr ((), d2)"
    "forE (add_pool_with_range ?sid) (zip (map (\<lambda>i. uuid (Suc i)) [0..<length pools]) pools) d2 = Inr ((), d')"
    and sub: "sub = \<lparr>s_id = ?sid, s_tenant = tenant, s_name = sc_name s, s_network = sc_network s,
                   s_ip_version = sc_ip_version s, s_cidr = sc_cidr s, s_gateway = gw,
                   s_enable_dhcp = sc_enable_dhcp s, s_shared = n_shared n\<rparr>"
    unfolding store_subnet_def Let_def bindE_Inr checkE_Inr by auto
  have "core d2 = core d1"
    using leavesD [OF leaves(1) run(3)] leavesD [OF leaves(2) run(4)] by simp
  moreover have "sc_network s \<in> n_id ` set (networks d)"
    using get_network_row_Inr [OF run(1)] by force
  ultimately show thesis using that run(2,5) by (simp add: sub)
qed

lemma store_subnet_inv:
  assumes na: "netaddr_ok na" and inv: "db_inv na d"
    and net: "net_ok n" "net_ver n = sc_ip_version s" and valid: "pools_valid na n pools"
    and texts: "\<forall>p \<in> set pools. canonical na (fst p) \<and> canonical na (snd p)" and uuid: "\<forall>i. uuid i \<noteq> []"
    and gw: "\<And>g. gw = Some g \<Longrightarrow> text_ok na (net_ver n) g \<Longrightarrow>
               \<forall>p \<in> set pools. ival na g \<notin> pool_span na p"
    and run: "store_subnet na cfg ctx uuid s tenant gw pools d = Inr (sub, d')"
  shows "db_inv na d'"
proof -
  let ?sid = "s_id sub" and ?L = "zip (map (\<lambda>i. uuid (Suc i)) [0..<length pools]) pools"
  from run obtain d1 d2 where add: "add_subnet sub d = Inr ((), d1)" and core: "core d2 = core d1"
    and loop: "forE (add_pool_with_range ?sid) ?L d2 = Inr ((), d')"
    and sub: "s_ip_version sub = sc_ip_version s" "s_gateway sub = gw"
    by (rule store_subnet_effect)
  note A = add_subnet_inv [OF inv add]
  note C = core_eqD [OF core]
  have inv2: "db_inv na d2" using A(1) db_inv_core [OF core] by simp
  note I = db_invD [OF inv2]
  have new: "pooled_in na ?sid d2 = {}" "taken_in na ?sid d2 = {}"
    using A(2,3) by (simp_all add: pooled_in_cong [OF C(4)] taken_in_def C)
  have snd: "map snd ?L = pools" by simp
  have that: "pool_texts_ok na (s_ip_version sub) p" if p: "p \<in> set pools" for p
    using pool_in_net_span [of na n p] valid texts p net sub(1)
    by (auto simp: pools_valid_def pool_texts_ok_def net_ok_def)
  have "\<forall>(pid, p) \<in> set ?L. pid \<noteq> [] \<and> pool_texts_ok na (s_ip_version sub) p \<and>
      pool_span na p \<inter> pooled_in na ?sid d2 = {}"
  proof clarify
    fix pid x y assume L: "(pid, x, y) \<in> set ?L"
    then obtain i where "pid = uuid i" using set_zip_leftD [OF L] by auto
    with L that set_zip_rightD [OF L] uuid new(1)
    show "pid \<noteq> [] \<and> pool_texts_ok na (s_ip_version sub) (x, y) \<and>
        pool_span na (x, y) \<inter> pooled_in na ?sid d2 = {}" by simp
  qed
  moreover have "sub \<in> set (subnets d2)" by (simp add: C A(4))
  moreover have "sorted_wrt (\<lambda>p q. pool_span na p \<inter> pool_span na q = {}) (map snd ?L)"
    using valid by (simp add: snd pools_valid_def)
  ultimately have out: "ipam_inv na d'" "\<exists>ps rs. d' = d2\<lparr>ip_pools := ps, ip_ranges := rs\<rparr>"
    "pooled_in na ?sid d' = (\<Union>p \<in> snd ` set ?L. pool_span na p)"
    "\<And>sid'. sid' \<noteq> ?sid \<Longrightarrow> pooled_in na sid' d' = pooled_in na sid' d2"
    using add_pools_inv [OF refl I(1) _ _ new(2) _ loop] new(1) by auto
  obtain ps rs where d': "d' = d2\<lparr>ip_pools := ps, ip_ranges := rs\<rparr>" using out(2) by blast
  have "snd ` set ?L = set pools" by (metis snd list.set_map)
  note pooled = out(3) [unfolded this]
  have "gateway_free na d'"
    unfolding gateway_free_def
  proof (intro ballI allI impI)
    fix u g assume u: "u \<in> set (subnets d')" "s_gateway u = Some g" "text_ok na (s_ip_version u) g"
    show "ival na g \<notin> pooled_in na (s_id u) d'"
    proof (cases "s_id u = ?sid")
      case True
      have "u = sub" using subnet_unique [OF I(6), of u sub] u(1) True by (simp add: d' C A(4))
      with gw [of g] u(2,3) sub net(2) show ?thesis by (auto simp: pooled)
    next
      case False
      with out(4) I(2) u show ?thesis by (auto simp: gateway_free_def d')
    qed
  qed
  moreover have "allocs_ok d'" using I(3) by (simp add: allocs_ok_def d')
  ultimately show ?thesis using out(1) I(4,5) by (simp add: db_inv_def d')
qed

end
