(* ===== verification/CoreReach.thy ===== *)
theory CoreReach
  imports CreateSubnet
begin

text \<open>
  The step relation of the plugin, one rule per operation of \<open>NeutronDbPluginV2\<close>, labelled with the
  request and without any condition on it; \<open>db_reach\<close> are the databases it reaches from the empty one.
  The invariant \<open>db_inv\<close> needs the addresses of the requests to be written in the canonical way, which the
  program does not check: \<open>canonical_reach\<close> are the databases reached by such requests, and they satisfy it.
\<close>

section \<open>Creating a subnet\<close>

definition subnet_create_ok :: "netaddr \<Rightarrow> (nat \<Rightarrow> string) \<Rightarrow> subnet_create \<Rightarrow> bool" where
  "subnet_create_ok na uuid s \<longleftrightarrow>
     (\<forall>i. uuid i \<noteq> []) \<and> sc_gateway s \<noteq> Given (Some []) \<and>
     (\<forall>n. na_net na (sc_cidr s) = Some n \<longrightarrow> net_wide n \<and>
        (sc_pools s \<noteq> NotSpecified \<longrightarrow> net_first n < net_last n)) \<and>
     (\<forall>ps. sc_pools s = Given ps \<longrightarrow> (\<forall>p \<in> set ps. canonical na (fst p) \<and> canonical na (snd p)))"

lemma create_subnet_effect:
  assumes "create_subnet na cfg ctx uuid s d = Inr (r, d')"
  obtains n gw pools tenant sub where
    "na_net na (sc_cidr s) = Some n" "default_gateway na n (sc_gateway s) = Inr gw"
    "subnet_pools na (sc_cidr s) gw (sc_pools s) = Inr pools"
    "validate_subnet na cfg \<lparr>sp_id = sc_id s, sp_ip_version = sc_ip_version s, sp_cidr = sc_cidr s,
       sp_gateway = gw, sp_dns = attr_opt (sc_dns s), sp_routes = attr_opt (sc_routes s)\<rparr> None d = Inr ()"
    "get_tenant_id_for_create ctx (sc_tenant s) = Inr tenant"
    "store_subnet na cfg ctx uuid s tenant gw pools d = Inr (sub, d')"
    "r = make_subnet_dict d' sub None"
  using assms unfolding create_subnet_def bindE_Inr checkE_Inr liftE_Inr py_net_Inr by auto

lemma validate_subnet_version:
  assumes "validate_subnet na cfg sp cur d = Inr ()" "na_net na (sp_cidr sp) = Some n"
  shows "net_ver n = sp_ip_version sp"
  using assms by (auto simp: validate_subnet_def validate_ip_version_def op_simps split: if_splits)

text \<open>A gateway that passes \<open>_validate_gw_out_of_pools\<close> is in none of the pools.\<close>

lemma gw_out_of_pools:
  assumes "validate_gw_out_of_pools na g ps = Inr ()" "text_ok na v g"
    and "p \<in> set ps" "text_ok na v (fst p)"
  shows "ival na g \<notin> pool_span na p"
proof -
  from assms(1,3) have "bindR (py_range na (fst p) (snd p)) (\<lambda>pool_range. bindR (py_ip na g) (\<lambda>gw.
      if in_range gw pool_range then Inl (GatewayConflictWithAllocationPools g p) else Inr ())) = Inr ()"
    unfolding validate_gw_out_of_pools_def forR_Inr by (rule bspec)
  then obtain r gw where r: "py_range na (fst p) (snd p) = Inr r" "py_ip na g = Inr gw"
    and out: "(if in_range gw r then Inl (GatewayConflictWithAllocationPools g p) else Inr ()) = Inr ()"
    unfolding bindR_Inr_iff by blast
  obtain a b where e: "r = (a, b)" by (cases r)
  have "\<not> in_range gw r" using out by (cases "in_range gw r") simp_all
  then have "\<not> in_range gw (a, b)" unfolding e .
  moreover have "gw = IP v (ival na g)" using r(2) text_okD(1) [OF assms(2)] by simp
  moreover have ab: "a = IP v (ival na (fst p))" "na_ip na (snd p) = Some b"
    using r(1) text_okD(1) [OF assms(4)] unfolding e by simp_all
  moreover have "ival na (snd p) = ip_val b" by (simp add: ival_def ab(2))
  ultimately show ?thesis by (simp add: in_range_def pool_span_def)
qed

lemma subnet_pools_valid:
  assumes na: "netaddr_ok na" and net: "na_net na (sc_cidr s) = Some n"
    and req: "subnet_create_ok na uuid s" and gw: "default_gateway na n (sc_gateway s) = Inr gw"
    and pools: "subnet_pools na (sc_cidr s) gw (sc_pools s) = Inr ps"
  shows "pools_valid na n ps" "\<forall>p \<in> set ps. canonical na (fst p) \<and> canonical na (snd p)"
    "gw = Some g \<Longrightarrow> text_ok na (net_ver n) g \<Longrightarrow> \<forall>p \<in> set ps. ival na g \<notin> pool_span na p"
proof -
  have wide: "net_wide n" using req net by (simp add: subnet_create_ok_def)
  have "pools_valid na n ps \<and> (\<forall>p \<in> set ps. canonical na (fst p) \<and> canonical na (snd p)) \<and>
    (\<forall>g. gw = Some g \<longrightarrow> text_ok na (net_ver n) g \<longrightarrow> (\<forall>p \<in> set ps. ival na g \<notin> pool_span na p))"
  proof (cases "sc_pools s")
    case NotSpecified
    with pools have run: "allocate_pools_for_subnet na (sc_cidr s) gw = Inr ps" by (simp add: subnet_pools_def)
    have "na_ip na g \<noteq> None" if g: "gw = Some g" for g
    proof (cases "g = []")
      case True
      with g gw req show ?thesis
        using ip_of_int_Inr na_ip_str [OF na]
        by (fastforce simp: subnet_create_ok_def default_gateway_def op_simps split: attr.splits)
    next
      case False
      with run g show ?thesis by (auto simp: allocate_pools_for_subnet_def op_simps Let_def)
    qed
    then have "case gw of None \<Rightarrow> True | Some g \<Rightarrow> na_ip na g \<noteq> None" by (simp split: option.split)
    from allocate_pools_ok [OF na net wide this] run
    have P: "pools_valid na n ps" "\<forall>p \<in> set ps. canonical na (fst p) \<and> canonical na (snd p)"
      "(\<Union>p \<in> set ps. pool_span na p) =
         {net_first n + 1 .. net_last n - 1} - (case gw of None \<Rightarrow> {} | Some g \<Rightarrow> {ival na g})" by auto
    have "ival na g \<notin> pool_span na p" if "gw = Some g" "p \<in> set ps" for g p
    proof -
      have "ival na g \<notin> (\<Union>p \<in> set ps. pool_span na p)" unfolding P(3) using that(1) by simp
      with that(2) show ?thesis by blast
    qed
    with P show ?thesis by blast
  next
    case (Given qs)
    with pools have v: "validate_allocation_pools na ps (sc_cidr s) = Inr ()" and "ps = qs"
      and g: "\<And>g. gw = Some g \<Longrightarrow> validate_gw_out_of_pools na g ps = Inr ()"
      by (auto simp: subnet_pools_def op_simps split: option.splits)
    have room: "net_first n < net_last n" and can: "\<forall>p \<in> set ps. canonical na (fst p) \<and> canonical na (snd p)"
      using req net Given \<open>ps = qs\<close> by (auto simp: subnet_create_ok_def)
    have valid: "pools_valid na n ps" using v validate_allocation_pools_iff [OF na net wide room] by simp
    have "ival na g \<notin> pool_span na p" if "gw = Some g" "text_ok na (net_ver n) g" "p \<in> set ps" for g p
    proof (rule gw_out_of_pools [OF g [OF that(1)] that(2,3)])
      have "pool_in_net na n p" using valid that(3) by (simp add: pools_valid_def)
      then show "text_ok na (net_ver n) (fst p)" using can that(3) by (simp add: pool_in_net_span(1))
    qed
    with valid can show ?thesis by blast
  qed
  then show "pools_valid na n ps" "\<forall>p \<in> set ps. canonical na (fst p) \<and> canonical na (snd p)"
    "gw = Some g \<Longrightarrow> text_ok na (net_ver n) g \<Longrightarrow> \<forall>p \<in> set ps. ival na g \<notin> pool_span na p"
    by blast+
qed

lemma create_subnet_inv:
  assumes na: "netaddr_ok na" and inv: "db_inv na d" and req: "subnet_create_ok na uuid s"
    and run: "create_subnet na cfg ctx uuid s d = Inr (r, d')"
  shows "db_inv na d'"
proof -
  from run obtain n gw pools tenant sub where net: "na_net na (sc_cidr s) = Some n"
    and gw: "default_gateway na n (sc_gateway s) = Inr gw"
    and pools: "subnet_pools na (sc_cidr s) gw (sc_pools s) = Inr pools"
    and valid: "validate_subnet na cfg \<lparr>sp_id = sc_id s, sp_ip_version = sc_ip_version s, sp_cidr = sc_cidr s,
       sp_gateway = gw, sp_dns = attr_opt (sc_dns s), sp_routes = attr_opt (sc_routes s)\<rparr> None d = Inr ()"
    and store: "store_subnet na cfg ctx uuid s tenant gw pools d = Inr (sub, d')"
    by (rule create_subnet_effect)
  have ver: "net_ver n = sc_ip_version s" using validate_subnet_version [OF valid] net by simp
  note P = subnet_pools_valid [OF na net req gw pools]
  have "\<forall>i. uuid i \<noteq> []" using req by (simp add: subnet_create_ok_def)
  then show ?thesis by (rule store_subnet_inv [OF na inv na_net_ok [OF na net] ver P(1,2) _ P(3) store])
qed

section \<open>Updating a subnet\<close>

lemma apply_subnet_update_key [simp]:
  "skey (apply_subnet_update u s) = skey s" "s_id (apply_subnet_update u s) = s_id s"
  "s_ip_version (apply_subnet_update u s) = s_ip_version s"
  by (simp_all add: apply_subnet_update_def skey_def)

lemma update_subnet_effect:
  assumes "update_subnet na cfg ctx i u d = Inr (r, d')"
  obtains s d1 where "get_subnet_row ctx i d = Inr s" "core d1 = core d" "s \<in> set (subnets d)"
    "d' = d1\<lparr>subnets := replace_row s (apply_subnet_update u s) (subnets d)\<rparr>"
    "\<forall>g. su_gateway u = Some (Some g) \<longrightarrow>
       validate_gw_out_of_pools na g (map (\<lambda>p. (p_first p, p_last p)) (pools_of i d)) = Inr ()"
proof -
  let ?dns = "case su_dns u of None \<Rightarrow> returnE () | Some new \<Rightarrow> update_dns i new"
  let ?rts = "case su_routes u of None \<Rightarrow> returnE None
            | Some rts \<Rightarrow> bindE (update_routes i rts) (\<lambda>r. returnE (Some r))"
  let ?gw = "\<lambda>s. case Option.bind (su_gateway u) id of None \<Rightarrow> returnE ()
            | Some gw \<Rightarrow> checkE (\<lambda>d. validate_gw_out_of_pools na gw
                (map (\<lambda>p. (p_first p, p_last p)) (pools_of (s_id s) d)))"
  have leaves: "leaves core ?dns" "leaves core ?rts"
    by (cases "su_dns u"; simp add: leaves_pure leaves_update_dns)
       (cases "su_routes u"; simp add: leaves_pure leaves_bind leaves_update_routes)
  from assms obtain s0 v d0 e d1 rts s where run: "get_subnet_row ctx i d = Inr s0"
    "?gw s0 d = Inr (v, d0)" "?dns d0 = Inr ((), e)" "?rts e = Inr (rts, d1)"
    "get_subnet_row ctx i d1 = Inr s"
    "d' = d1\<lparr>subnets := replace_row s (apply_subnet_update u s) (subnets d1)\<rparr>"
    unfolding update_subnet_def Let_def bindE_Inr checkE_Inr bindE_gets op_apply by auto
  have d0: "d0 = d" using run(2) by (auto simp: checkE_Inr split: option.splits)
  have core: "core d1 = core d"
    using leavesD [OF leaves(1) run(3)] leavesD [OF leaves(2) run(4)] d0 by simp
  then have sub: "subnets d1 = subnets d" by (rule core_eqD)
  then have "s = s0" using run(1,5) by (simp add: get_subnet_row_def query_subnets_def)
  moreover have "validate_gw_out_of_pools na g (map (\<lambda>p. (p_first p, p_last p)) (pools_of i d)) = Inr ()"
    if "su_gateway u = Some (Some g)" for g
    using run(2) that get_subnet_row_Inr(2) [OF run(1)] by (auto simp: checkE_Inr)
  ultimately show thesis
    using that [OF run(1) core] run(6) get_subnet_row_Inr(1) [OF run(1)] sub by simp
qed

lemma update_subnet_inv:
  assumes inv: "db_inv na d" and run: "update_subnet na cfg ctx i u d = Inr (r, d')"
  shows "db_inv na d'"
proof -
  from run obtain s d1 where s: "get_subnet_row ctx i d = Inr s" and core: "core d1 = core d"
    and mem: "s \<in> set (subnets d)"
    and d': "d' = d1\<lparr>subnets := replace_row s (apply_subnet_update u s) (subnets d)\<rparr>"
    and gw: "\<forall>g. su_gateway u = Some (Some g) \<longrightarrow>
       validate_gw_out_of_pools na g (map (\<lambda>p. (p_first p, p_last p)) (pools_of i d)) = Inr ()"
    by (rule update_subnet_effect)
  note I = db_invD [OF inv]
  note C = core_eqD [OF core]
  have sid: "s_id s = i" by (rule get_subnet_row_Inr(2) [OF s])
  have "ipam_inv na d'"
    using I(1) replace_row_map [of skey "apply_subnet_update u s" s "subnets d"]
    by (subst ipam_inv_cong [where d = d]) (simp_all add: d' C)
  moreover have pooled: "pooled_in na x d' = pooled_in na x d" for x
    by (rule pooled_in_cong) (simp add: d' C)
  have "gateway_free na d'"
    unfolding gateway_free_def pooled
  proof (intro ballI allI impI)
    fix q g assume q: "q \<in> set (subnets d')" "s_gateway q = Some g" "text_ok na (s_ip_version q) g"
    show "ival na g \<notin> pooled_in na (s_id q) d"
    proof (cases "q \<in> set (subnets d)")
      case True
      with q I(2) show ?thesis by (auto simp: gateway_free_def)
    next
      case False
      then have e: "q = apply_subnet_update u s" using q(1) mem by (auto simp: d' set_replace_row)
      show ?thesis
      proof (cases "su_gateway u")
        case None
        then have "s_gateway s = Some g" using q(2) e by (simp add: apply_subnet_update_def)
        with I(2) mem q(3) show ?thesis by (simp add: gateway_free_def e)
      next
        case (Some x)
        then have "su_gateway u = Some (Some g)" using q(2) e by (simp add: apply_subnet_update_def)
        with gw have valid: "validate_gw_out_of_pools na g (map (\<lambda>p. (p_first p, p_last p)) (pools_of i d)) = Inr ()"
          by blast
        have "ival na g \<notin> pool_vals na p" if p: "p \<in> set (pools_of i d)" for p
        proof -
          have p': "p \<in> set (ip_pools d)" "s_id s = p_subnet p" using p sid by (auto simp: pools_of_def)
          have "ival na g \<notin> pool_span na (p_first p, p_last p)"
            using p q(3) pool_row_version(1) [OF I(6) p'(1) mem p'(2)]
            by (intro gw_out_of_pools [OF valid]) (auto simp: e)
          then show ?thesis by (simp add: pool_span_def pool_vals_def)
        qed
        then show ?thesis by (simp add: e sid pooled_in_def)
      qed
    qed
  qed
  moreover have "allocs_ok d'" using I(3) by (simp add: allocs_ok_def d' C)
  ultimately show ?thesis using I(4,5) by (simp add: db_inv_def d' C)
qed

section \<open>The plugin as a transition system\<close>

text \<open>
  One step is one operation that does not raise, labelled with the request it serves; an operation
  that raises leaves the database as it was.  \<open>db_reach\<close> are the databases that arbitrary
  requests reach from the empty one.

  The code compares addresses as texts although netaddr reads several texts as one address, so the
  address invariant needs a condition on the requests that the code does not check:
  \<open>canonical_request\<close> says that the addresses of a request are written the way netaddr
  prints them (and what \<open>subnet_create_ok\<close> and \<open>ip_request_ok\<close> add to that), and
  \<open>canonical_reach\<close> are the databases reached by such requests only.
\<close>

datatype request =
  Create_Network network_create | Update_Network string network_update | Delete_Network string
| Create_Subnet "nat \<Rightarrow> string" subnet_create | Update_Subnet string subnet_update | Delete_Subnet string
| Create_Port port_create | Update_Port string port_update | Delete_Port string
| Delete_Ports "port_row \<Rightarrow> bool"

inductive db_step :: "netaddr \<Rightarrow> conf \<Rightarrow> request \<Rightarrow> db \<Rightarrow> db \<Rightarrow> bool" for na cfg where
  create_network: "create_network ctx uuid n d = Inr (r, d') \<Longrightarrow> db_step na cfg (Create_Network n) d d'"
| update_network: "update_network ctx funcs i nu d = Inr (r, d') \<Longrightarrow> db_step na cfg (Update_Network i nu) d d'"
| delete_network: "delete_network na ctx i d = Inr ((), d') \<Longrightarrow> db_step na cfg (Delete_Network i) d d'"
| create_subnet: "create_subnet na cfg ctx uuid s d = Inr (r, d') \<Longrightarrow> db_step na cfg (Create_Subnet uuid s) d d'"
| update_subnet: "update_subnet na cfg ctx i su d = Inr (r, d') \<Longrightarrow> db_step na cfg (Update_Subnet i su) d d'"
| delete_subnet: "delete_subnet ctx i d = Inr ((), d') \<Longrightarrow> db_step na cfg (Delete_Subnet i) d d'"
| create_port: "create_port na cfg ctx uuid rnd p d = Inr (r, d') \<Longrightarrow> db_step na cfg (Create_Port p) d d'"
| update_port: "update_port na cfg ctx pfuncs i pu d = Inr (r, d') \<Longrightarrow> db_step na cfg (Update_Port i pu) d d'"
| delete_port: "delete_port na ctx i d = Inr ((), d') \<Longrightarrow> db_step na cfg (Delete_Port i) d d'"
| delete_ports: "delete_ports na ctx flt d = Inr ((), d') \<Longrightarrow> db_step na cfg (Delete_Ports flt) d d'"

fun canonical_request :: "netaddr \<Rightarrow> request \<Rightarrow> db \<Rightarrow> bool" where
  "canonical_request na (Create_Subnet uuid s) d = subnet_create_ok na uuid s"
| "canonical_request na (Create_Port p) d = port_create_ok na p d"
| "canonical_request na (Update_Port i u) d = port_update_ok na i u d"
| "canonical_request na _ d = True"

inductive db_reach :: "netaddr \<Rightarrow> conf \<Rightarrow> db \<Rightarrow> bool" for na cfg where
  init: "db_reach na cfg empty_db"
| step: "db_reach na cfg d \<Longrightarrow> db_step na cfg q d d' \<Longrightarrow> db_reach na cfg d'"

inductive canonical_reach :: "netaddr \<Rightarrow> conf \<Rightarrow> db \<Rightarrow> bool" for na cfg where
  init: "canonical_reach na cfg empty_db"
| step: "canonical_reach na cfg d \<Longrightarrow> db_step na cfg q d d' \<Longrightarrow> canonical_request na q d \<Longrightarrow>
    canonical_reach na cfg d'"

lemma canonical_db_reach: "canonical_reach na cfg d \<Longrightarrow> db_reach na cfg d"
  by (induction rule: canonical_reach.induct) (auto intro: db_reach.intros)

lemma empty_db_inv: "db_inv na empty_db"
  by (simp add: db_inv_def ipam_inv_def ipam_held_def tables_ok_def pools_apart_def ranges_apart_def
      gateway_free_def allocs_ok_def empty_db_def free_in_def ranges_of_def)

lemma db_step_inv:
  assumes na: "netaddr_ok na"
  shows "db_step na cfg q d d' \<Longrightarrow> canonical_request na q d \<Longrightarrow> db_inv na d \<Longrightarrow> db_inv na d'"
proof (induction rule: db_step.induct)
  case create_network
  then show ?case by (blast intro: keepsD [OF create_network_keeps])
next
  case update_network
  then show ?case by (blast intro: keepsD [OF update_network_keeps])
next
  case delete_network
  then show ?case by (blast intro: keepsD [OF delete_network_keeps [OF na]])
next
  case create_subnet
  then show ?case using create_subnet_inv [OF na] by auto
next
  case update_subnet
  then show ?case using update_subnet_inv by blast
next
  case delete_subnet
  then show ?case by (blast intro: keepsD [OF delete_subnet_keeps])
next
  case create_port
  then show ?case using create_port_inv [OF na] by auto
next
  case update_port
  then show ?case using update_port_inv [OF na] by auto
next
  case delete_port
  then show ?case by (blast intro: keepsD [OF delete_port_keeps [OF na]])
next
  case delete_ports
  then show ?case by (blast intro: keepsD [OF delete_ports_keeps [OF na]])
qed

lemma canonical_reach_inv:
  assumes na: "netaddr_ok na" and "canonical_reach na cfg d"
  shows "db_inv na d"
  using assms(2) by induction (auto intro: empty_db_inv db_step_inv [OF na])

end
