(* ===== verification/CoreDemo.thy ===== *)
theory CoreDemo
  imports CoreReach
begin

text \<open>
  A database for the examples: an administrator creates a network, a subnet with the computed
  pools (addresses 10 to 14, gateway 9) and a port, which gets the address 10.
\<close>

definition demo_conf :: conf where
  "demo_conf = \<lparr>max_fixed_ips_per_port = 5, max_dns_nameservers = 5, max_subnet_host_routes = 20,
     force_gateway_on_subnet = False, allow_overlapping_ips = False,
     base_mac = [''fa'', ''16'', ''3e'', ''00'', ''00'', ''00''], mac_generation_retries = 16\<rparr>"

definition demo_admin :: ctxt where
  "demo_admin = \<lparr>ctx_is_admin = True, ctx_tenant = ''t''\<rparr>"

definition demo_uuid :: "nat \<Rightarrow> string" where
  "demo_uuid i = replicate (Suc i) (CHR ''u'')"

definition demo_rnd :: "nat \<Rightarrow> nat \<times> nat \<times> nat" where
  "demo_rnd i = (127, i, 255)"

definition demo_adr :: "int \<Rightarrow> string" where
  "demo_adr n = demo_str (IP 4 n)"

definition demo_network :: network_create where
  "demo_network = \<lparr>nc_tenant = None, nc_id = Some ''n'', nc_name = ''net'', nc_admin_state_up = True,
     nc_shared = False, nc_status = None\<rparr>"

definition demo_subnet :: subnet_create where
  "demo_subnet = \<lparr>sc_tenant = None, sc_id = Some ''s'', sc_name = ''sub'', sc_network = ''n'',
     sc_ip_version = 4, sc_cidr = ''net8'', sc_enable_dhcp = True, sc_gateway = NotSpecified,
     sc_pools = NotSpecified, sc_dns = NotSpecified, sc_routes = NotSpecified\<rparr>"

definition demo_port :: port_create where
  "demo_port = \<lparr>pc_tenant = None, pc_id = Some ''p'', pc_name = ''port'', pc_network = ''n'',
     pc_mac = NotSpecified, pc_fixed_ips = NotSpecified, pc_admin_state_up = True, pc_status = None,
     pc_device_id = ''vm'', pc_device_owner = ''compute:x''\<rparr>"

definition demo_network_row :: network_row where
  "demo_network_row = \<lparr>n_id = ''n'', n_tenant = ''t'', n_name = ''net'', n_status = ''ACTIVE'',
     n_admin_state_up = True, n_shared = False\<rparr>"

definition demo_subnet_row :: subnet_row where
  "demo_subnet_row = \<lparr>s_id = ''s'', s_tenant = ''t'', s_name = ''sub'', s_network = ''n'', s_ip_version = 4,
     s_cidr = ''net8'', s_gateway = Some (demo_adr 9), s_enable_dhcp = True, s_shared = False\<rparr>"

definition demo_port_row :: port_row where
  "demo_port_row = \<lparr>pt_id = ''p'', pt_tenant = ''t'', pt_name = ''port'', pt_network = ''n'',
     pt_mac = ''fa:16:3e:7f:00:ff'', pt_admin_state_up = True, pt_status = ''ACTIVE'',
     pt_device_id = ''vm'', pt_device_owner = ''compute:x''\<rparr>"

definition demo_db1 :: db where
  "demo_db1 = empty_db\<lparr>networks := [demo_network_row]\<rparr>"

definition demo_db2 :: db where
  "demo_db2 = demo_db1\<lparr>subnets := [demo_subnet_row],
     ip_pools := [\<lparr>p_id = ''uu'', p_subnet = ''s'', p_first = demo_adr 10, p_last = demo_adr 14\<rparr>],
     ip_ranges := [\<lparr>r_pool = ''uu'', r_first = demo_adr 10, r_last = demo_adr 14\<rparr>]\<rparr>"

definition demo_db3 :: db where
  "demo_db3 = demo_db2\<lparr>ports := [demo_port_row],
     ip_ranges := [\<lparr>r_pool = ''uu'', r_first = demo_adr 11, r_last = demo_adr 14\<rparr>],
     ip_allocs := [\<lparr>a_port = Some ''p'', a_ip = demo_adr 10, a_subnet = ''s'', a_network = ''n''\<rparr>]\<rparr>"

definition after :: "exc + 'a \<times> db \<Rightarrow> db option" where
  "after r = (case r of Inl _ \<Rightarrow> None | Inr (_, d) \<Rightarrow> Some d)"

lemma after_Some: "after r = Some d \<longleftrightarrow> (\<exists>a. r = Inr (a, d))"
  by (auto simp: after_def split: sum.splits)

lemma demo_run1: "after (create_network demo_admin demo_uuid demo_network empty_db) = Some demo_db1"
  by code_simp

lemma demo_run2:
  "after (create_subnet demo_netaddr demo_conf demo_admin demo_uuid demo_subnet demo_db1) = Some demo_db2"
  by code_simp

lemma demo_run3:
  "after (create_port demo_netaddr demo_conf demo_admin demo_uuid demo_rnd demo_port demo_db2) = Some demo_db3"
  by code_simp

end
