(* ===== verification/CoreLinks.thy ===== *)
theory CoreLinks
  imports CoreReach
begin

text \<open>
  What holds of the allocations whatever the requests contain: no text is recorded twice for a subnet
  of a network, every allocation names a subnet of its network and, when it names a port, a port of
  that network.  No condition is put on the requests or on netaddr.
\<close>

definition links_ok :: "db \<Rightarrow> bool" where
  "links_ok d \<longleftrightarrow> allocs_ok d \<and>
     (\<forall>a \<in> set (ip_allocs d). \<exists>s \<in> set (subnets d). s_id s = a_subnet a \<and> s_network s = a_network a)"

lemma links_ok_filter:
  assumes "links_ok d" "ip_allocs d' = filter P (ip_allocs d)"
    and "\<And>p. p \<in> set (ports d) \<Longrightarrow> \<exists>a \<in> set (ip_allocs d'). a_port a = Some (pt_id p) \<Longrightarrow>
           \<exists>p' \<in> set (ports d'). pt_id p' = pt_id p \<and> pt_network p' = pt_network p"
    and "\<And>s. s \<in> set (subnets d) \<Longrightarrow> \<exists>a \<in> set (ip_allocs d'). a_subnet a = s_id s \<Longrightarrow>
           \<exists>s' \<in> set (subnets d'). s_id s' = s_id s \<and> s_network s' = s_network s"
  shows "links_ok d'"
proof -
  have "allocs_ok d'" using assms(1) by (intro allocs_ok_filter [OF _ assms(2,3)]) (simp_all add: links_ok_def)
  moreover have "\<exists>s \<in> set (subnets d'). s_id s = a_subnet a \<and> s_network s = a_network a"
    if a: "a \<in> set (ip_allocs d')" for a
  proof -
    from assms(1,2) a obtain s where s: "s \<in> set (subnets d)" "s_id s = a_subnet a" "s_network s = a_network a"
      by (auto simp: links_ok_def)
    with assms(4) [OF s(1)] a show ?thesis by metis
  qed
  ultimately show ?thesis by (simp add: links_ok_def)
qed

section \<open>Taking and returning addresses\<close>

definition linked_at :: "port_row list \<Rightarrow> subnet_row list \<Rightarrow> db \<Rightarrow> bool" where
  "linked_at ps ss d \<longleftrightarrow> links_ok d \<and> ports d = ps \<and> subnets d = ss"

text \<open>The operations on the ranges change nothing else.\<close>

definition off_ranges :: "db \<Rightarrow> port_row list \<times> subnet_row list \<times> ip_alloc_row list" where
  "off_ranges d = (ports d, subnets d, ip_allocs d)"

lemma leaves_linked: "leaves off_ranges m \<Longrightarrow> keeps (linked_at ps ss) m"
  by (rule keepsI) (auto simp: linked_at_def links_ok_def allocs_ok_def off_ranges_def dest!: leavesD)

lemma leaves_ranges:
  "leaves off_ranges (add_range r)" "leaves off_ranges (del_range r)" "leaves off_ranges (set_range r q)"
  by (rule leavesI; auto simp: off_ranges_def op_simps)+

lemmas leaves_ranges_intro = leaves_intro leaves_ranges

lemma leaves_then: "leaves g m \<Longrightarrow> leaves g k \<Longrightarrow> leaves g (thenE m k)"
  by (simp add: thenE_def leaves_bind)

lemma leaves_return_to_pool: "leaves off_ranges (return_to_pool na pid t)"
  unfolding return_to_pool_def
  by (intro leaves_bind leaves_pure) (auto intro!: leaves_ranges leaves_then split: option.splits prod.splits)

lemma leaves_option: "leaves g m \<Longrightarrow> (\<And>x. leaves g (k x)) \<Longrightarrow> leaves g (case v of None \<Rightarrow> m | Some x \<Rightarrow> k x)"
  by (cases v) simp_all

lemma leaves_if: "leaves g m \<Longrightarrow> leaves g k \<Longrightarrow> leaves g (if b then m else k)"
  by simp

lemma leaves_generate_ip: "leaves off_ranges (generate_ip na ss)"
proof -
  have "leaves off_ranges (generate_ip_from na all ss)" for all
  proof (induction ss)
    case Nil
    show ?case by (rule leavesI) (simp split: list.splits)
  next
    case (Cons s ss)
    then show ?case unfolding generate_ip_from.simps
      by (intro leaves_bind leaves_pure leaves_option leaves_then leaves_if leaves_ranges)
  qed
  then show ?thesis by (simp add: generate_ip_def)
qed

lemma leaves_allocate_specific: "leaves off_ranges (allocate_specific_ip na sid t)"
proof -
  have "leaves off_ranges (allocate_from_ranges na t ip rs)" for ip rs
  proof (induction rs)
    case Nil
    show ?case by (rule leavesI) simp
  next
    case (Cons r rs)
    then show ?case
      by (auto intro!: leaves_bind leaves_pure leaves_then leaves_ranges)
  qed
  then show ?thesis unfolding allocate_specific_ip_def by (intro leaves_bind leaves_pure)
qed

lemma leaves_allocate_fixed: "leaves off_ranges (allocate_fixed_ips na ctx fs)"
  unfolding allocate_fixed_ips_def allocate_fixed_ip_def
  by (intro leaves_mapE)
     (auto intro!: leaves_bind leaves_pure leaves_then leaves_generate_ip leaves_allocate_specific
       split: option.splits)

lemma linked_without:
  "linked_at ps ss d \<Longrightarrow> linked_at ps ss (d\<lparr>ip_allocs := filter P (ip_allocs d)\<rparr>)"
  unfolding linked_at_def by (auto elim!: links_ok_filter [where P = P])

lemma linked_delete_allocation: "keeps (linked_at ps ss) (delete_ip_allocation nid sid t)"
  unfolding delete_ip_allocation_def by (intro keeps_modify linked_without)

lemma linked_recycle: "keeps (linked_at ps ss) (recycle_ip na nid sid t)"
  unfolding recycle_ip_def
  by (intro keeps_bind keeps_check)
     (auto intro!: keeps_then linked_delete_allocation leaves_linked [OF leaves_return_to_pool]
       split: option.splits)

section \<open>Addresses of a port\<close>

text \<open>Every address that is taken for a port comes with a subnet of its network.\<close>

definition from_subnets :: "string \<Rightarrow> db \<Rightarrow> (string \<times> string) list \<Rightarrow> bool" where
  "from_subnets nid d ips \<longleftrightarrow> (\<forall>(t, sid) \<in> set ips. \<exists>s \<in> set (subnets d). s_id s = sid \<and> s_network s = nid)"

lemma generate_ip_from_member:
  "generate_ip_from na all ss d = Inr ((t, sid), d') \<Longrightarrow> sid \<in> s_id ` set ss"
  by (induction na all ss arbitrary: d rule: generate_ip_from.induct)
     (auto simp: op_simps split: list.splits option.splits)

lemma generate_ip_member: "generate_ip na ss d = Inr ((t, sid), d') \<Longrightarrow> sid \<in> s_id ` set ss"
  unfolding generate_ip_def by (rule generate_ip_from_member)

lemma allocate_fixed_ip_subnet:
  "allocate_fixed_ip na ctx f d = Inr ((t, sid), d') \<Longrightarrow> fx_subnet f = Some sid"
  by (auto simp: allocate_fixed_ip_def op_simps split: option.splits
      dest: get_subnet_row_Inr(2) dest!: generate_ip_member)

lemma allocate_fixed_ips_subnets:
  "allocate_fixed_ips na ctx fs d = Inr (ips, d') \<Longrightarrow> (t, sid) \<in> set ips \<Longrightarrow> Some sid \<in> fx_subnet ` set fs"
  unfolding allocate_fixed_ips_def
proof (induction fs arbitrary: d ips)
  case (Cons f fs)
  then obtain ip rest d1 where run: "allocate_fixed_ip na ctx f d = Inr (ip, d1)"
    "mapE (allocate_fixed_ip na ctx) fs d1 = Inr (rest, d')" "ips = ip # rest" by (auto simp: op_simps)
  show ?case
  proof (cases "ip = (t, sid)")
    case True
    with allocate_fixed_ip_subnet [of na ctx f d t sid d1] run(1) show ?thesis by force
  next
    case False
    with Cons.IH [OF run(2)] Cons.prems(2) run(3) show ?thesis by auto
  qed
qed simp

lemma fixed_from_subnets:
  assumes "test_fixed_ips_for_port na ctx mx nid fs d = Inr gs" and "allocate_fixed_ips na ctx gs d1 = Inr (ips, d')"
  shows "from_subnets nid d ips"
  unfolding from_subnets_def
proof clarify
  fix t sid assume "(t, sid) \<in> set ips"
  from allocate_fixed_ips_subnets [OF assms(2) this] obtain g where "g \<in> set gs" "fx_subnet g = Some sid" by force
  with test_fixed_ips_Inr(1) [OF assms(1)] show "\<exists>s \<in> set (subnets d). s_id s = sid \<and> s_network s = nid"
    by (fastforce simp: tested_ok_def)
qed

lemma allocate_ips_links:
  assumes "allocate_ips_for_port na ctx mx nid fixed d = Inr (ips, d')"
  shows "from_subnets nid d ips" "off_ranges d' = off_ranges d"
proof -
  let ?ss = "filter (\<lambda>s. s_network s = nid) (query_subnets ctx d)"
  have gen: "from_subnets nid d ips \<and> off_ranges d' = off_ranges d0"
    if "mapE (generate_ip na) gs d0 = Inr (ips, d')" "\<forall>g \<in> set gs. set g \<subseteq> set ?ss" for gs d0 ips
    using that
  proof (induction gs arbitrary: d0 ips)
    case Nil
    then show ?case by (simp add: from_subnets_def)
  next
    case (Cons g gs)
    then obtain t sid rest d1 where run: "generate_ip na g d0 = Inr ((t, sid), d1)"
      "mapE (generate_ip na) gs d1 = Inr (rest, d')" "ips = (t, sid) # rest" by (auto simp: op_simps)
    obtain s where s: "s \<in> set g" "s_id s = sid" using generate_ip_member [OF run(1)] by auto
    with Cons.prems(2) query_subnets_subset [of ctx d] have "s \<in> set (subnets d)" "s_network s = nid" by auto
    with s(2) Cons.IH [OF run(2)] Cons.prems(2) leavesD [OF leaves_generate_ip run(1)] run(3) show ?case
      by (auto simp: from_subnets_def)
  qed
  have "from_subnets nid d ips \<and> off_ranges d' = off_ranges d"
  proof (cases fixed)
    case None
    with assms have "mapE (generate_ip na) (filter (\<lambda>g. g \<noteq> [])
        [filter (\<lambda>s. s_ip_version s = 4) ?ss, filter (\<lambda>s. s_ip_version s \<noteq> 4) ?ss]) d = Inr (ips, d')"
      unfolding allocate_ips_for_port_def None option.case bindE_gets by blast
    then show ?thesis by (rule gen) (simp split: if_splits, blast)
  next
    case (Some fs)
    with assms obtain gs where run: "test_fixed_ips_for_port na ctx mx nid fs d = Inr gs"
      "allocate_fixed_ips na ctx gs d = Inr (ips, d')" by (auto simp: allocate_ips_for_port_def op_simps)
    then show ?thesis using fixed_from_subnets leavesD [OF leaves_allocate_fixed run(2)] by blast
  qed
  then show "from_subnets nid d ips" "off_ranges d' = off_ranges d" by blast+
qed

lemma add_allocs_links:
  assumes ok: "links_ok d" and run: "add_allocs nid pid ips d = Inr ((), d')"
    and port: "\<exists>p \<in> set (ports d). pt_id p = pid \<and> pt_network p = nid" and ips: "from_subnets nid d ips"
  shows "links_ok d'"
proof -
  have "allocs_ok d'" using ok by (intro add_allocs_allocs_ok [OF _ run port]) (simp add: links_ok_def)
  then show ?thesis using ok ips unfolding add_allocs_Inr [OF run]
    by (auto simp: links_ok_def from_subnets_def)
qed

section \<open>The operations\<close>

lemma create_port_links:
  assumes ok: "links_ok d" and run: "create_port na cfg ctx uuid rnd p d = Inr (r, d')"
  obtains port ips where "links_ok d'" "ports d' = ports d @ [port]" "pt_id port \<notin> pt_id ` set (ports d)"
    "pt_network port = pc_network p" "subnets d' = subnets d" "from_subnets (pc_network p) d ips"
    "ip_allocs d' = ip_allocs d @ map (\<lambda>(t, sid). \<lparr>a_port = Some (pt_id port), a_ip = t, a_subnet = sid,
        a_network = pc_network p\<rparr>) ips"
proof -
  from run obtain ips port d1 d2 where
    al: "allocate_ips_for_port na ctx (max_fixed_ips_per_port cfg) (pc_network p)
           (attr_opt (pc_fixed_ips p)) d = Inr (ips, d1)"
    and port: "add_port port d1 = Inr ((), d2)"
      "add_allocs (pt_network port) (pt_id port) ips d2 = Inr ((), d')"
    and net: "pt_network port = pc_network p" by (rule create_port_effect)
  note A = allocate_ips_links [OF al]
  from port(1) A(2) have d2: "ports d2 = ports d @ [port]" "subnets d2 = subnets d" "ip_allocs d2 = ip_allocs d"
    "pt_id port \<notin> pt_id ` set (ports d)" by (auto simp: op_simps off_ranges_def)
  have "links_ok d2" using ok by (rule links_ok_filter [where P = "\<lambda>_. True"]) (auto simp: d2)
  then have "links_ok d'" using A(1)
    by (intro add_allocs_links [OF _ port(2)]) (auto simp: d2 from_subnets_def net)
  then show thesis using that [of port ips] add_allocs_Inr [OF port(2)] d2 net A(1) by simp
qed

lemma update_port_links:
  assumes ok: "links_ok d" and run: "update_port na cfg ctx funcs i u d = Inr (r, d')"
  shows "links_ok d'"
proof -
  have replace: "links_ok (e\<lparr>ports := replace_row p (apply_port_update u p) (ports e)\<rparr>)" if "links_ok e" for e p
    using that
  proof (rule links_ok_filter [where P = "\<lambda>_. True"])
    fix q assume "q \<in> set (ports e)"
    then show "\<exists>p' \<in> set (ports (e\<lparr>ports := replace_row p (apply_port_update u p) (ports e)\<rparr>)).
        pt_id p' = pt_id q \<and> pt_network p' = pt_network q"
      by (cases "q = p") (auto simp: replace_row_def intro!: bexI [of _ q])
  qed auto
  from run show ?thesis
  proof (cases rule: update_port_effect)
    case (keep port)
    with replace [OF ok] show ?thesis by simp
  next
    case (ips port new_ips added prevs d1 d2)
    note P = get_port_row_Inr [OF ips(2)]
    from ips(3) obtain origs news to_add e where
      test: "test_fixed_ips_for_port na ctx (max_fixed_ips_per_port cfg) (pt_network port) news d = Inr to_add"
      and rec: "forE (\<lambda>(t, sid). recycle_ip na (pt_network port) sid t) origs d = Inr ((), e)"
      and alloc: "allocate_fixed_ips na ctx to_add e = Inr (added, d1)" by (rule update_ips_effect)
    have "keeps (linked_at (ports d) (subnets d)) (forE (\<lambda>(t, sid). recycle_ip na (pt_network port) sid t) origs)"
      by (intro keeps_for) (auto intro: linked_recycle)
    from keepsD [OF this rec] ok have "linked_at (ports d) (subnets d) e" by (simp add: linked_at_def)
    then have d1: "links_ok d1" "ports d1 = ports d" "subnets d1 = subnets d"
      using keepsD [OF leaves_linked [OF leaves_allocate_fixed] alloc] by (auto simp: linked_at_def)
    have "from_subnets (pt_network port) d1 added"
      using fixed_from_subnets [OF test alloc] by (simp add: from_subnets_def d1(3))
    then have "links_ok d2"
      by (intro add_allocs_links [OF d1(1) ips(4)]) (auto simp: d1(2) intro: bexI [OF _ P(1)])
    from replace [OF this] show ?thesis by (simp add: ips(5))
  qed
qed

lemma release_alloc_links: "keeps (linked_at ps ss) (release_alloc na ctx a)"
  unfolding release_alloc_def by (intro keeps_bind keeps_check keeps_if linked_recycle linked_delete_allocation)

lemma delete_port_links: "keeps links_ok (delete_port na ctx i)"
proof (rule keepsI)
  fix d r d' assume ok: "links_ok d" and run: "delete_port na ctx i d = Inr (r, d')"
  from run obtain d1 where d1: "forE (release_alloc na ctx) (port_allocs i d) d = Inr ((), d1)"
    and d': "d' = d1\<lparr>ports := filter (\<lambda>p. pt_id p \<noteq> i) (ports d1),
                     ip_allocs := filter (\<lambda>a. a_port a \<noteq> Some i) (ip_allocs d1)\<rparr>"
    by (auto simp: delete_port_def delete_port_row_def del_port_row_def op_simps)
  have "keeps (linked_at (ports d) (subnets d)) (forE (release_alloc na ctx) (port_allocs i d))"
    by (intro keeps_for release_alloc_links)
  from keepsD [OF this d1] ok have "links_ok d1" by (simp add: linked_at_def)
  then show "links_ok d'"
    by (rule links_ok_filter [where P = "\<lambda>a. a_port a \<noteq> Some i"]) (auto simp: d')
qed

lemma delete_ports_links: "keeps links_ok (delete_ports na ctx flt)"
  unfolding delete_ports_def by (intro keeps_bind keeps_gets keeps_for delete_port_links)

lemma drop_subnets_links: "links_ok d \<Longrightarrow> links_ok (drop_subnets gone d)"
  by (rule links_ok_filter [where P = "\<lambda>a. \<not> gone (a_subnet a)"]) auto

lemma create_network_links: "keeps links_ok (create_network ctx uuid n)"
  by (rule keepsI) (auto simp: create_network_def add_network_def Let_def op_simps links_ok_def allocs_ok_def
      split: if_splits)

lemma update_network_links: "keeps links_ok (update_network ctx funcs i u)"
proof (rule keepsI)
  fix d r d' assume ok: "links_ok d" and run: "update_network ctx funcs i u d = Inr (r, d')"
  obtain n x where d': "d' = d\<lparr>networks := replace_row n (apply_network_update u n) (networks d),
      subnets := map (\<lambda>s. if s_network s = i then s\<lparr>s_shared := x\<rparr> else s) (subnets d)\<rparr>"
    using run unfolding update_network_def Let_def by (auto simp: op_simps split: option.splits if_splits)
  from ok show "links_ok d'"
  proof (rule links_ok_filter [where P = "\<lambda>_. True"])
    fix s assume "s \<in> set (subnets d)"
    then show "\<exists>s' \<in> set (subnets d'). s_id s' = s_id s \<and> s_network s' = s_network s"
      by (intro bexI [of _ "if s_network s = i then s\<lparr>s_shared := x\<rparr> else s"]) (auto simp: d')
  qed (auto simp: d')
qed

lemma delete_network_links: "keeps links_ok (delete_network na ctx i)"
proof (rule keepsI)
  fix d r d' assume ok: "links_ok d" and "delete_network na ctx i d = Inr (r, d')"
  then obtain ps :: "port_row list" and d1 where d1: "forE (\<lambda>p. delete_port na ctx (pt_id p)) ps d = Inr ((), d1)"
    and d': "delete_network_row i (drop_subnets (\<lambda>sid. \<exists>s \<in> set (subnets d1). s_id s = sid \<and> s_network s = i) d1)
      = Inr ((), d')"
    by (auto simp: delete_network_def delete_port_def [symmetric] op_simps split: if_splits)
  have "keeps links_ok (forE (\<lambda>p. delete_port na ctx (pt_id p)) ps)" by (intro keeps_for delete_port_links)
  from drop_subnets_links [OF keepsD [OF this d1 ok]]
  have "links_ok (drop_subnets (\<lambda>sid. \<exists>s \<in> set (subnets d1). s_id s = sid \<and> s_network s = i) d1)" .
  moreover have "links_ok e \<Longrightarrow> delete_network_row i e = Inr ((), d') \<Longrightarrow> links_ok d'" for e
    by (erule links_ok_filter [where P = "\<lambda>a. a_network a \<noteq> i"]) (auto simp: delete_network_row_def split: if_splits)
  ultimately show "links_ok d'" using d' by blast
qed

lemma add_pools_leaves: "leaves off_ranges (forE (add_pool_with_range sid) L)"
  by (intro leaves_for)
     (auto intro!: leavesI simp: add_pool_with_range_def add_pool_def off_ranges_def op_simps split: if_splits prod.splits)

lemma create_subnet_links: "keeps links_ok (create_subnet na cfg ctx uuid s)"
proof (rule keepsI)
  fix d r d' assume ok: "links_ok d" and "create_subnet na cfg ctx uuid s d = Inr (r, d')"
  then obtain gw pools tenant sub where "store_subnet na cfg ctx uuid s tenant gw pools d = Inr (sub, d')"
    by (auto elim: create_subnet_effect)
  then obtain d1 d2 where add: "add_subnet sub d = Inr ((), d1)" and core: "core d2 = core d1"
    and loop: "forE (add_pool_with_range (s_id sub)) (zip (map (\<lambda>i. uuid (Suc i)) [0..<length pools]) pools) d2
      = Inr ((), d')" by (rule store_subnet_effect)
  have "off_ranges d' = off_ranges d2" by (rule leavesD [OF add_pools_leaves loop])
  then have "ports d' = ports d" "subnets d' = subnets d @ [sub]" "ip_allocs d' = ip_allocs d"
    using add core_eqD [OF core] by (auto simp: add_subnet_def off_ranges_def split: if_splits)
  then show "links_ok d'" using ok by (intro links_ok_filter [OF ok, where P = "\<lambda>_. True"]) auto
qed

lemma update_subnet_links: "keeps links_ok (update_subnet na cfg ctx i u)"
proof (rule keepsI)
  fix d r d' assume ok: "links_ok d" and "update_subnet na cfg ctx i u d = Inr (r, d')"
  then obtain s d1 where core: "core d1 = core d"
    and d': "d' = d1\<lparr>subnets := replace_row s (apply_subnet_update u s) (subnets d)\<rparr>"
    by (auto elim: update_subnet_effect)
  show "links_ok d'" using ok
  proof (rule links_ok_filter [where P = "\<lambda>_. True"])
    fix q assume "q \<in> set (subnets d)"
    then show "\<exists>s' \<in> set (subnets d'). s_id s' = s_id q \<and> s_network s' = s_network q"
      by (cases "q = s") (auto simp: d' replace_row_def apply_subnet_update_def intro!: bexI [of _ q])
  qed (auto simp: d' core_eqD [OF core])
qed

lemma delete_subnet_links: "keeps links_ok (delete_subnet ctx i)"
  by (rule keepsI) (auto simp: delete_subnet_iff drop_subnets_links)

lemma db_step_links: "db_step na cfg q d d' \<Longrightarrow> links_ok d \<Longrightarrow> links_ok d'"
  by (induction rule: db_step.induct)
     (blast intro: keepsD [OF create_network_links] keepsD [OF update_network_links]
        keepsD [OF delete_network_links] keepsD [OF create_subnet_links] keepsD [OF update_subnet_links]
        keepsD [OF delete_subnet_links] update_port_links keepsD [OF delete_port_links]
        keepsD [OF delete_ports_links] elim: create_port_links)+

lemma db_reach_links: "db_reach na cfg d \<Longrightarrow> links_ok d"
proof (induction rule: db_reach.induct)
  case init
  show ?case by (simp add: links_ok_def allocs_ok_def empty_db_def)
next
  case step
  then show ?case using db_step_links by blast
qed

end
