(* ===== verification/Allocator.thy ===== *)
theory Allocator
  imports Prelude
begin

text \<open>
  The interface of an allocator: a state with a set of free values, an operation that takes one
  and, for some allocators, one that gives a value back.  IP addresses (\<open>generate_ip\<close>,
  \<open>recycle_ip\<close>), VLAN ids and tunnel ids are allocated behind it; each theory that models such a
  component interprets the locales on its own operations.
\<close>

locale allocator =
  fixes inv :: "'s \<Rightarrow> bool"
    and free :: "'s \<Rightarrow> 'v set"
    and val :: "'a \<Rightarrow> 'v"
    and take_op :: "('e, 's, 'a) op"
  assumes take_free: "inv s \<Longrightarrow> take_op s = Inr (a, t) \<Longrightarrow>
      val a \<in> free s \<and> free t = free s - {val a} \<and> inv t"
    and take_some: "inv s \<Longrightarrow> free s \<noteq> {} \<Longrightarrow> \<exists>a t. take_op s = Inr (a, t)"
    and take_none: "inv s \<Longrightarrow> free s = {} \<Longrightarrow> \<exists>e. take_op s = Inl e"
begin

definition take_many :: "nat \<Rightarrow> ('e, 's, 'a list) op" where
  "take_many n = mapE (\<lambda>_. take_op) [0..<n]"

lemma mapE_take:
  "inv s \<Longrightarrow> mapE (\<lambda>_. take_op) ks s = Inr (as, t) \<Longrightarrow>
     inv t \<and> length as = length ks \<and> distinct (map val as) \<and>
     val ` set as \<subseteq> free s \<and> free t = free s - val ` set as"
proof (induction ks arbitrary: s as)
  case Nil
  then show ?case by simp
next
  case (Cons k ks)
  from Cons.prems(2) obtain a u bs where run: "take_op s = Inr (a, u)" "mapE (\<lambda>_. take_op) ks u = Inr (bs, t)"
    and as: "as = a # bs" by (auto simp: op_simps)
  note T = take_free [OF Cons.prems(1) run(1)]
  from Cons.IH [OF _ run(2)] T as show ?case by auto
qed

text \<open>Values taken one after the other are different and were free.\<close>

lemma take_many_distinct:
  assumes "inv s" "take_many n s = Inr (as, t)"
  shows "inv t" "length as = n" "distinct (map val as)" "val ` set as \<subseteq> free s"
    "free t = free s - val ` set as"
  using mapE_take [OF assms(1) assms(2) [unfolded take_many_def]] by auto

lemma mapE_take_iff:
  "inv s \<Longrightarrow> finite (free s) \<Longrightarrow>
     (\<exists>as t. mapE (\<lambda>_. take_op) ks s = Inr (as, t)) \<longleftrightarrow> length ks \<le> card (free s)"
proof (induction ks arbitrary: s)
  case Nil
  then show ?case by simp
next
  case (Cons k ks)
  show ?case
  proof (cases "free s = {}")
    case True
    with take_none [OF Cons.prems(1)] obtain e where "take_op s = Inl e" by blast
    with True show ?thesis by (simp add: bindE_def)
  next
    case False
    with take_some [OF Cons.prems(1)] obtain a u where run: "take_op s = Inr (a, u)" by blast
    note T = take_free [OF Cons.prems(1) run]
    have c: "card (free s) = Suc (card (free u))"
      using T Cons.prems(2) by (metis card_Suc_Diff1)
    have e: "(\<exists>as t. mapE (\<lambda>_. take_op) (k # ks) s = Inr (as, t)) \<longleftrightarrow>
        (\<exists>as t. mapE (\<lambda>_. take_op) ks u = Inr (as, t))"
      by (auto simp: bindE_def run split: sum.splits)
    have "(\<exists>as t. mapE (\<lambda>_. take_op) ks u = Inr (as, t)) \<longleftrightarrow> length ks \<le> card (free u)"
      using Cons.IH [of u] T Cons.prems(2) by simp
    then show ?thesis unfolding e by (simp only: c list.size add_Suc_right add_0_right Suc_le_mono)
  qed
qed

text \<open>Exactly as many values can be taken as are free.\<close>

lemma take_many_iff:
  assumes "inv s" "finite (free s)"
  shows "(\<exists>as t. take_many n s = Inr (as, t)) \<longleftrightarrow> n \<le> card (free s)"
  using mapE_take_iff [OF assms, of "[0..<n]"] by (simp add: take_many_def)

end

locale store = allocator inv free val take_op
  for inv :: "'s \<Rightarrow> bool" and free :: "'s \<Rightarrow> 'v set" and val :: "'a \<Rightarrow> 'v"
    and take_op :: "('e, 's, 'a) op" +
  fixes managed :: "'s \<Rightarrow> 'v set"
    and give_op :: "'a \<Rightarrow> ('e, 's, unit) op"
  assumes free_managed: "inv s \<Longrightarrow> free s \<subseteq> managed s"
    and take_managed: "inv s \<Longrightarrow> take_op s = Inr (a, t) \<Longrightarrow> managed t = managed s"
    and give: "inv s \<Longrightarrow> take_op s = Inr (a, t) \<Longrightarrow> inv u \<Longrightarrow> managed u = managed s \<Longrightarrow> val a \<notin> free u \<Longrightarrow>
      \<exists>w. give_op a u = Inr ((), w) \<and> inv w \<and> free w = insert (val a) (free u)"
begin

text \<open>Giving back the value just taken restores the free set.\<close>

lemma take_give:
  assumes "inv s" "take_op s = Inr (a, t)"
  shows "\<exists>w. give_op a t = Inr ((), w) \<and> inv w \<and> free w = free s"
proof -
  note T = take_free [OF assms]
  from give [OF assms, of t] T take_managed [OF assms] obtain w where
    "give_op a t = Inr ((), w)" "inv w" "free w = insert (val a) (free t)" by auto
  with T show ?thesis by (auto simp: insert_absorb)
qed

end

end
