(* ===== verification/IpamAlloc.thy ===== *)
theory IpamAlloc
  imports IpamInv Allocator
begin

text \<open>
  The address tables as an allocator: for a subnet \<open>s\<close>, \<open>generate_ip na [s]\<close> takes a free
  address of \<open>s\<close> and \<open>recycle_ip\<close> gives it back.
\<close>

definition subnet_ready :: "netaddr \<Rightarrow> subnet_row \<Rightarrow> db \<Rightarrow> bool" where
  "subnet_ready na s d \<longleftrightarrow> netaddr_ok na \<and> tables_ok na d \<and> s \<in> set (subnets d)"

definition addr_val :: "netaddr \<Rightarrow> string \<times> string \<Rightarrow> int" where
  "addr_val na a = ival na (fst a)"

definition recycle_addr :: "netaddr \<Rightarrow> subnet_row \<Rightarrow> string \<times> string \<Rightarrow> unit dbop" where
  "recycle_addr na s a = recycle_ip na (s_network s) (snd a) (fst a)"

lemma generate_one:
  assumes ready: "subnet_ready na s d" and free: "free_in na (s_id s) d \<noteq> {}"
  shows "\<exists>t d'. generate_ip na [s] d = Inr ((t, s_id s), d') \<and> text_ok na (s_ip_version s) t \<and>
     ival na t \<in> free_in na (s_id s) d \<and> took na d (s_id s) (ival na t) d'"
proof -
  have R: "netaddr_ok na" "tables_ok na d" "s \<in> set (subnets d)" using ready by (auto simp: subnet_ready_def)
  have "ranges_of (s_id s) d \<noteq> []" using free free_in_empty_iff [OF R(2)] by simp
  with generate_ip_from_some [OF R(1,2), of "[s]" "[s]"] R(3) show ?thesis
    by (simp add: generate_ip_def)
qed

lemma generate_none:
  assumes "subnet_ready na s d" "free_in na (s_id s) d = {}"
  shows "generate_ip na [s] d = Inl (IpAddressGenerationFailure (s_network s))"
  using assms free_in_empty_iff [of na d "s_id s"] generate_ip_from_none [of "[s]" d "[s]" s "[]"]
  by (simp add: generate_ip_def subnet_ready_def)

lemma took_ready:
  assumes "subnet_ready na s d" "took na d sid v d'"
  shows "subnet_ready na s d'" "ip_pools d' = ip_pools d"
  using assms by (auto simp: subnet_ready_def took_def)

lemma took_free: "took na d sid v d' \<Longrightarrow> free_in na sid d' = free_in na sid d - {v}"
  by (simp add: took_def)

lemma ready_recycle:
  assumes ready: "subnet_ready na s d" and t: "text_ok na (s_ip_version s) t"
    and new: "ival na t \<notin> free_in na (s_id s) d" and pooled: "ival na t \<in> pooled_in na (s_id s) d"
  shows "\<exists>d'. recycle_ip na (s_network s) (s_id s) t d = Inr ((), d') \<and> subnet_ready na s d' \<and>
     free_in na (s_id s) d' = insert (ival na t) (free_in na (s_id s) d) \<and> ip_pools d' = ip_pools d"
proof -
  have R: "netaddr_ok na" "tables_ok na d" "s \<in> set (subnets d)" using ready by (auto simp: subnet_ready_def)
  let ?as = "filter (\<lambda>a. \<not> (a_network a = s_network s \<and> a_ip a = t \<and> a_subnet a = s_id s)) (ip_allocs d)"
  from recycle_ip_effect [OF R(1,2,3) refl t new, of "s_network s"] pooled obtain rs where
    run: "recycle_ip na (s_network s) (s_id s) t d = Inr ((), d\<lparr>ip_ranges := rs, ip_allocs := ?as\<rparr>)"
    and gave: "gave na d (s_id s) (ival na t) (d\<lparr>ip_ranges := rs\<rparr>)" by auto
  have G: "tables_ok na (d\<lparr>ip_ranges := rs\<rparr>)"
    "free_in na (s_id s) (d\<lparr>ip_ranges := rs\<rparr>) = insert (ival na t) (free_in na (s_id s) d)"
    using gave by (simp_all add: gave_def)
  have "tables_ok na (d\<lparr>ip_ranges := rs\<rparr>\<lparr>ip_allocs := ?as\<rparr>)"
    using tables_ok_rows(4) [OF G(1)] by (intro tables_ok_allocs [OF G(1)]) simp
  with run G(2) R show ?thesis
    by (intro exI [of _ "d\<lparr>ip_ranges := rs, ip_allocs := ?as\<rparr>"]) (simp add: subnet_ready_def)
qed

lemma free_pooled:
  assumes "tables_ok na d"
  shows "free_in na sid d \<subseteq> pooled_in na sid d"
proof
  fix x assume "x \<in> free_in na sid d"
  then obtain r where r: "r \<in> set (ranges_of sid d)" "x \<in> row_vals na r" by (auto simp: free_in_def)
  then obtain p where p: "p \<in> set (ip_pools d)" "p_id p = r_pool r" "p_subnet p = sid"
    by (auto simp: mem_ranges_of pool_in_def)
  have "row_vals na r \<subseteq> pool_vals na p"
    using r(1) p by (intro range_in_pool [OF assms]) (auto simp: mem_ranges_of)
  with r(2) p show "x \<in> pooled_in na sid d" by (auto simp: pooled_in_def pools_of_def)
qed

interpretation addresses: store "subnet_ready na s" "free_in na (s_id s)" "addr_val na" "generate_ip na [s]"
    "pooled_in na (s_id s)" "recycle_addr na s" for na s
proof unfold_locales
  fix d a d'
  assume ready: "subnet_ready na s d"
  have gen: "\<exists>t. a = (t, s_id s) \<and> text_ok na (s_ip_version s) t \<and>
      ival na t \<in> free_in na (s_id s) d \<and> took na d (s_id s) (ival na t) d'"
    if run: "generate_ip na [s] d = Inr (a, d')"
  proof -
    from run generate_none [OF ready] have "free_in na (s_id s) d \<noteq> {}" by auto
    from generate_one [OF ready this] run show ?thesis by auto
  qed
  show "addr_val na a \<in> free_in na (s_id s) d \<and>
      free_in na (s_id s) d' = free_in na (s_id s) d - {addr_val na a} \<and> subnet_ready na s d'"
    if "generate_ip na [s] d = Inr (a, d')"
    using gen [OF that] took_free took_ready [OF ready] by (auto simp: addr_val_def)
  show "pooled_in na (s_id s) d' = pooled_in na (s_id s) d" if "generate_ip na [s] d = Inr (a, d')"
    using gen [OF that] took_ready(2) [OF ready] by (auto simp: pooled_in_def pools_of_def)
  show "\<exists>d''. recycle_addr na s a u = Inr ((), d'') \<and> subnet_ready na s d'' \<and>
      free_in na (s_id s) d'' = insert (addr_val na a) (free_in na (s_id s) u)"
    if run: "generate_ip na [s] d = Inr (a, d')" and u: "subnet_ready na s u"
      "pooled_in na (s_id s) u = pooled_in na (s_id s) d" "addr_val na a \<notin> free_in na (s_id s) u" for u
  proof -
    from gen [OF run] obtain t where t: "a = (t, s_id s)" "text_ok na (s_ip_version s) t"
      "ival na t \<in> free_in na (s_id s) d" by blast
    have "ival na t \<in> pooled_in na (s_id s) u"
      using t(3) u(2) free_pooled [of na d "s_id s"] ready by (auto simp: subnet_ready_def)
    from ready_recycle [OF u(1) t(2) _ this] u(3) t(1) show ?thesis
      by (auto simp: recycle_addr_def addr_val_def)
  qed
next
  fix d assume ready: "subnet_ready na s d"
  show "\<exists>a t. generate_ip na [s] d = Inr (a, t)" if "free_in na (s_id s) d \<noteq> {}"
    using generate_one [OF ready that] by blast
  show "\<exists>e. generate_ip na [s] d = Inl e" if "free_in na (s_id s) d = {}"
    using generate_none [OF ready that] by blast
  show "free_in na (s_id s) d \<subseteq> pooled_in na (s_id s) d"
    using ready free_pooled by (auto simp: subnet_ready_def)
qed

lemma free_finite: "finite (free_in na sid d)"
  by (auto simp: free_in_def row_vals_def)

end
