(* ===== verification/CoreProps.thy ===== *)
theory CoreProps
  imports CoreDemo CoreLinks IpamAlloc
begin

text \<open>
  The properties of the core plugin and of its address management, each with an instance on the
  database of the examples.
\<close>

lemma demo_subnet_ok: "subnet_create_ok demo_netaddr demo_uuid demo_subnet"
  by (auto simp: subnet_create_ok_def demo_uuid_def demo_subnet_def demo_net_def net_wide_def)

lemma demo_port_ok: "port_create_ok demo_netaddr demo_port d"
  by (simp add: port_create_ok_def demo_port_def)

lemma demo_reach1: "canonical_reach demo_netaddr demo_conf demo_db1"
proof -
  from demo_run1 obtain r where "create_network demo_admin demo_uuid demo_network empty_db = Inr (r, demo_db1)"
    by (auto simp: after_Some)
  then have "db_step demo_netaddr demo_conf (Create_Network demo_network) empty_db demo_db1"
    by (rule db_step.create_network)
  with canonical_reach.init show ?thesis by (rule canonical_reach.step) simp
qed

lemma demo_reach2: "canonical_reach demo_netaddr demo_conf demo_db2"
proof -
  from demo_run2 obtain r where
    "create_subnet demo_netaddr demo_conf demo_admin demo_uuid demo_subnet demo_db1 = Inr (r, demo_db2)"
    by (auto simp: after_Some)
  then have "db_step demo_netaddr demo_conf (Create_Subnet demo_uuid demo_subnet) demo_db1 demo_db2"
    by (rule db_step.create_subnet)
  with demo_reach1 show ?thesis by (rule canonical_reach.step) (simp add: demo_subnet_ok)
qed

lemma demo_reach3: "canonical_reach demo_netaddr demo_conf demo_db3"
proof -
  from demo_run3 obtain r where
    "create_port demo_netaddr demo_conf demo_admin demo_uuid demo_rnd demo_port demo_db2 = Inr (r, demo_db3)"
    by (auto simp: after_Some)
  then have "db_step demo_netaddr demo_conf (Create_Port demo_port) demo_db2 demo_db3" by (rule db_step.create_port)
  with demo_reach2 show ?thesis by (rule canonical_reach.step) (simp add: demo_port_ok)
qed

lemmas demo_inv3 = canonical_reach_inv [OF demo_netaddr_ok demo_reach3]

section \<open>Helpers\<close>

lemma free_eq:
  assumes inv: "ipam_inv na d"
  shows "free_in na sid d = pooled_in na sid d - taken_in na sid d"
proof
  show "free_in na sid d \<subseteq> pooled_in na sid d - taken_in na sid d"
    using free_pooled [OF ipam_invD(1) [OF inv], of sid] ipam_invD(2) [OF inv, of _ sid] by blast
  show "pooled_in na sid d - taken_in na sid d \<subseteq> free_in na sid d"
    using ipam_invD(3) [OF inv] by (fastforce simp: pooled_in_def pools_of_def)
qed

lemma same_address:
  assumes inv: "db_inv na d" and a: "a \<in> set (ip_allocs d)" and b: "b \<in> set (ip_allocs d)"
    and eq: "a_subnet a = a_subnet b" "ival na (a_ip a) = ival na (a_ip b)"
  shows "a = b"
proof -
  note I = db_invD [OF inv]
  from tables_ok_rows(4) [OF I(6) a] obtain s where s: "s \<in> set (subnets d)" "s_id s = a_subnet a"
    "s_network s = a_network a" "text_ok na (s_ip_version s) (a_ip a)" by (auto simp: alloc_row_ok_def)
  from tables_ok_rows(4) [OF I(6) b] obtain t where t: "t \<in> set (subnets d)" "s_id t = a_subnet b"
    "s_network t = a_network b" "text_ok na (s_ip_version t) (a_ip b)" by (auto simp: alloc_row_ok_def)
  have "s = t" using subnet_unique [OF I(6) s(1) t(1)] s(2) t(2) eq(1) by simp
  then have "a_ip a = a_ip b" using text_ok_eq_iff [OF s(4)] t(4) eq(2) by simp
  with s(3) t(3) \<open>s = t\<close> eq(1) have "same_alloc a b" by (simp add: same_alloc_def)
  then show ?thesis by (rule allocs_okD(2) [OF I(3) a b])
qed

section \<open>Reachable databases\<close>



text \<open>
  C2: whatever the requests were, in a reachable database (\<open>db_reach\<close>) no two rows allocate the same
  text in a subnet of a network, each allocation belongs to a subnet of its network and, when it names
  a port, to an existing port of that network.  When the requests wrote addresses the way netaddr
  prints them (\<open>canonical_reach\<close>, a condition the code does not check), no two rows allocate the
  same address of a subnet; without it they can, see \<open>alias_text_allocated_twice\<close>.
\<close>

theorem reachable_no_double_allocation:
  assumes "netaddr_ok na" and "db_reach na cfg d"
  shows "(\<forall>a \<in> set (ip_allocs d). \<forall>b \<in> set (ip_allocs d).
             a_ip a = a_ip b \<longrightarrow> a_subnet a = a_subnet b \<longrightarrow> a_network a = a_network b \<longrightarrow> a = b) \<and>
         distinct (ip_allocs d) \<and>
         (\<forall>a \<in> set (ip_allocs d).
             (\<exists>s \<in> set (subnets d). s_id s = a_subnet a \<and> s_network s = a_network a) \<and>
             (\<forall>pid. a_port a = Some pid \<longrightarrow> (\<exists>p \<in> set (ports d). pt_id p = pid \<and> pt_network p = a_network a))) \<and>
         (canonical_reach na cfg d \<longrightarrow>
            (\<forall>a \<in> set (ip_allocs d). \<forall>b \<in> set (ip_allocs d).
               a_subnet a = a_subnet b \<longrightarrow> na_ip na (a_ip a) = na_ip na (a_ip b) \<longrightarrow> a = b))"
proof -
  have "allocs_ok d" and sub: "\<forall>a \<in> set (ip_allocs d). \<exists>s \<in> set (subnets d). s_id s = a_subnet a \<and> s_network s = a_network a"
    using db_reach_links [OF assms(2)] by (auto simp: links_ok_def)
  note A = allocs_okD [OF this(1), unfolded same_alloc_def]
  have "a = b" if "canonical_reach na cfg d" "a \<in> set (ip_allocs d)" "b \<in> set (ip_allocs d)"
    "a_subnet a = a_subnet b" "na_ip na (a_ip a) = na_ip na (a_ip b)" for a b
    using same_address [OF canonical_reach_inv [OF assms(1) that(1)] that(2-4)] that(5) by (simp add: ival_def)
  then show ?thesis using A sub by blast
qed

theorem reachable_no_double_allocation_witness:
  "\<exists>s \<in> set (subnets demo_db3). s_id s = ''s'' \<and> s_network s = ''n''"
proof -
  have "\<lparr>a_port = Some ''p'', a_ip = demo_adr 10, a_subnet = ''s'', a_network = ''n''\<rparr> \<in> set (ip_allocs demo_db3)"
    by (simp add: demo_db3_def)
  with reachable_no_double_allocation [OF demo_netaddr_ok canonical_db_reach [OF demo_reach3]] show ?thesis by force
qed

text \<open>
  The condition is needed: in the database of the example the address 10 is in use, and a second port
  asks for it with another text that netaddr reads as the same address.
\<close>

definition alias_port :: port_create where
  "alias_port = demo_port\<lparr>pc_id := Some ''q'', pc_fixed_ips :=
     Given [\<lparr>fx_subnet = Some ''s'', fx_ip = Some (CHR ''4'' # replicate 10 (CHR ''j''))\<rparr>]\<rparr>"

lemma alias_text_allocated_twice:
  "\<exists>d a b. db_reach demo_netaddr demo_conf d \<and> a \<in> set (ip_allocs d) \<and> b \<in> set (ip_allocs d) \<and>
     a_subnet a = a_subnet b \<and> na_ip demo_netaddr (a_ip a) = na_ip demo_netaddr (a_ip b) \<and> a_port a \<noteq> a_port b"
proof -
  let ?run = "create_port demo_netaddr demo_conf demo_admin demo_uuid (\<lambda>i. (i, i, i)) alias_port demo_db3"
  let ?a = "\<lparr>a_port = Some ''p'', a_ip = demo_adr 10, a_subnet = ''s'', a_network = ''n''\<rparr>"
  let ?b = "\<lparr>a_port = Some ''q'', a_ip = CHR ''4'' # replicate 10 (CHR ''j''), a_subnet = ''s'', a_network = ''n''\<rparr>"
  have "map_option ip_allocs (after ?run) = Some [?a, ?b]" by code_simp
  then obtain r d where run: "?run = Inr (r, d)" and d: "ip_allocs d = [?a, ?b]"
    by (auto simp: after_def split: sum.splits)
  have "db_step demo_netaddr demo_conf (Create_Port alias_port) demo_db3 d" by (rule db_step.create_port [OF run])
  with canonical_db_reach [OF demo_reach3] have "db_reach demo_netaddr demo_conf d" by (rule db_reach.step)
  moreover have "na_ip demo_netaddr (a_ip ?a) = na_ip demo_netaddr (a_ip ?b)" by code_simp
  ultimately show ?thesis using d by (intro exI [of _ d] exI [of _ ?a] exI [of _ ?b]) simp
qed

section \<open>Ports\<close>



text \<open>
  C4: in a database that satisfies the invariant, after an update whose fixed addresses are written the
  way netaddr prints them and pass the mask of no subnet of the other IP version, the port has
  as many addresses as were requested, every requested address is among them, and they are the
  addresses of the response.
\<close>

theorem update_port_addresses:
  assumes "netaddr_ok na" and "db_inv na d" and "port_update_ok na i u d"
    and "pu_fixed_ips u = Some new_ips" and "update_port na cfg ctx funcs i u d = Inr (r, d')"
  shows "\<exists>addrs. mset (alloc_pairs i d') = mset addrs \<and> length addrs = length new_ips \<and>
           (\<forall>f \<in> set new_ips. \<forall>t. fx_ip f = Some t \<longrightarrow> t \<in> fst ` set addrs) \<and>
           dict_get r ''fixed_ips'' = Some (fixed_ips_dict addrs)"
  using update_port_allocs [OF assms] by metis

definition demo_update :: port_update where
  "demo_update = \<lparr>pu_name = None, pu_mac = None, pu_fixed_ips = Some [\<lparr>fx_subnet = None, fx_ip = Some (demo_adr 12)\<rparr>],
     pu_admin_state_up = None, pu_status = None, pu_device_id = None, pu_device_owner = None\<rparr>"

lemma demo_update_ok: "port_update_ok demo_netaddr ''p'' demo_update demo_db3"
proof -
  have "text_ok demo_netaddr 4 (demo_adr 12)"
    unfolding demo_adr_def demo_netaddr_sel(2) [symmetric]
    by (rule text_ok_str) (simp_all add: ip_valid_def ip_max_def)
  moreover from this have "canonical demo_netaddr (demo_adr 12)" by (auto simp: text_ok_def canonical_def)
  ultimately show ?thesis
    by (simp add: port_update_ok_def demo_update_def ip_request_ok_def demo_db3_def demo_db2_def
        demo_subnet_row_def)
qed

lemma demo_update_run:
  "\<exists>r d'. update_port demo_netaddr demo_conf demo_admin [] ''p'' demo_update demo_db3 = Inr (r, d')"
proof -
  have "after (update_port demo_netaddr demo_conf demo_admin [] ''p'' demo_update demo_db3) \<noteq> None"
    by code_simp
  then show ?thesis by (auto simp: after_def split: sum.splits)
qed

theorem update_port_addresses_witness:
  "\<exists>r d' addrs. update_port demo_netaddr demo_conf demo_admin [] ''p'' demo_update demo_db3 = Inr (r, d') \<and>
     mset (alloc_pairs ''p'' d') = mset addrs \<and> length addrs = 1 \<and> demo_adr 12 \<in> fst ` set addrs"
proof -
  obtain r d' where run: "update_port demo_netaddr demo_conf demo_admin [] ''p'' demo_update demo_db3 = Inr (r, d')"
    using demo_update_run by blast
  have "pu_fixed_ips demo_update = Some [\<lparr>fx_subnet = None, fx_ip = Some (demo_adr 12)\<rparr>]"
    by (simp add: demo_update_def)
  from update_port_addresses [OF demo_netaddr_ok demo_inv3 demo_update_ok this run] run show ?thesis
    by fastforce
qed

text \<open>
  C5: in a database that satisfies the invariant, deleting a port removes its row and its allocations and nothing else of the ports and
  allocations, and the addresses that become free are exactly those of the port that lie in a pool.
\<close>

theorem delete_port_releases:
  assumes na: "netaddr_ok na" and inv: "db_inv na d" and run: "delete_port na ctx i d = Inr ((), d')"
  shows "ports d' = filter (\<lambda>p. pt_id p \<noteq> i) (ports d) \<and>
         ip_allocs d' = filter (\<lambda>a. a_port a \<noteq> Some i) (ip_allocs d) \<and>
         free_in na sid d' = free_in na sid d \<union>
           (pooled_in na sid d \<inter> {ival na t | t. (t, sid) \<in> set (alloc_pairs i d)})"
proof -
  from delete_port_effect(1) [OF na inv run] obtain rs where
    d': "d' = d\<lparr>ip_ranges := rs, ports := filter (\<lambda>p. pt_id p \<noteq> i) (ports d),
            ip_allocs := filter (\<lambda>a. a_port a \<noteq> Some i) (ip_allocs d)\<rparr>" by blast
  have held: "ipam_inv na d'" by (rule delete_port_effect(2) [OF na inv run])
  let ?S = "{ival na t | t. (t, sid) \<in> set (alloc_pairs i d)}"
  have S: "?S = {ival na (a_ip a) | a. a \<in> set (ip_allocs d) \<and> a_port a = Some i \<and> a_subnet a = sid}"
    by (auto simp: alloc_pairs_def port_allocs_def)
  have "taken_in na sid d' = taken_in na sid d - ?S"
  proof
    show "taken_in na sid d' \<subseteq> taken_in na sid d - ?S"
    proof
      fix x assume "x \<in> taken_in na sid d'"
      then obtain a where a: "a \<in> set (ip_allocs d)" "a_port a \<noteq> Some i" "a_subnet a = sid" "x = ival na (a_ip a)"
        by (auto simp: taken_in_def d')
      have "x \<notin> ?S"
      proof
        assume "x \<in> ?S"
        then obtain b where "b \<in> set (ip_allocs d)" "a_port b = Some i" "a_subnet b = sid" "x = ival na (a_ip b)"
          unfolding S by auto
        with same_address [OF inv a(1), of b] a show False by auto
      qed
      with a show "x \<in> taken_in na sid d - ?S" by (auto simp: taken_in_def)
    qed
    show "taken_in na sid d - ?S \<subseteq> taken_in na sid d'" unfolding S by (auto simp: taken_in_def d')
  qed
  moreover have "pooled_in na sid d' = pooled_in na sid d" by (rule pooled_in_cong) (simp add: d')
  moreover have "free_in na sid d \<inter> ?S = {}"
    using alloc_not_free [OF db_invD(1) [OF inv]] unfolding S by auto
  moreover have "?S \<subseteq> taken_in na sid d" unfolding S by (auto simp: taken_in_def)
  ultimately have "free_in na sid d' = free_in na sid d \<union> (pooled_in na sid d \<inter> ?S)"
    unfolding free_eq [OF held] free_eq [OF db_invD(1) [OF inv]] by blast
  then show ?thesis by (simp add: d')
qed

theorem delete_port_releases_witness:
  "\<exists>d'. delete_port demo_netaddr demo_admin ''p'' demo_db3 = Inr ((), d') \<and>
     ports d' = filter (\<lambda>p. pt_id p \<noteq> ''p'') (ports demo_db3)"
proof -
  have "after (delete_port demo_netaddr demo_admin ''p'' demo_db3) \<noteq> None" by code_simp
  then obtain d' where "delete_port demo_netaddr demo_admin ''p'' demo_db3 = Inr ((), d')"
    by (auto simp: after_def split: sum.splits)
  with delete_port_releases [OF demo_netaddr_ok demo_inv3] show ?thesis by blast
qed

section \<open>Addresses\<close>




lemma demo_free3: "card (free_in demo_netaddr ''s'' demo_db3) = 4"
proof -
  have "ip_valid (IP 4 11)" "ip_valid (IP 4 14)" by (simp_all add: ip_valid_def ip_max_def)
  from ival_str [OF demo_netaddr_ok this(1)] ival_str [OF demo_netaddr_ok this(2)]
  have "row_vals demo_netaddr \<lparr>r_pool = ''uu'', r_first = demo_adr 11, r_last = demo_adr 14\<rparr> = {11..14}"
    by (simp add: row_vals_def demo_adr_def)
  then have "free_in demo_netaddr ''s'' demo_db3 = {11..14}"
    by (simp add: free_in_def ranges_of_def demo_db3_def demo_db2_def)
  then show ?thesis by simp
qed


text \<open>C8: recycling the address that was just taken makes the free addresses what they were before.\<close>

theorem generate_recycle:
  assumes "netaddr_ok na" and "tables_ok na d" and "s \<in> set (subnets d)"
    and "generate_ip na [s] d = Inr ((t, sid), d')"
  shows "\<exists>d''. recycle_ip na (s_network s) sid t d' = Inr ((), d'') \<and>
           free_in na (s_id s) d'' = free_in na (s_id s) d"
proof -
  have "subnet_ready na s d" using assms(1-3) by (simp add: subnet_ready_def)
  from addresses.take_give [OF this assms(4)] show ?thesis by (auto simp: recycle_addr_def)
qed

theorem generate_recycle_witness:
  "\<exists>t d' d''. generate_ip demo_netaddr [demo_subnet_row] demo_db3 = Inr ((t, ''s''), d') \<and>
     recycle_ip demo_netaddr ''n'' ''s'' t d' = Inr ((), d'') \<and>
     free_in demo_netaddr ''s'' d'' = free_in demo_netaddr ''s'' demo_db3"
proof -
  have sub: "demo_subnet_row \<in> set (subnets demo_db3)" by (simp add: demo_db3_def demo_db2_def)
  have s: "s_id demo_subnet_row = ''s''" "s_network demo_subnet_row = ''n''"
    by (simp_all add: demo_subnet_row_def)
  have ready: "subnet_ready demo_netaddr demo_subnet_row demo_db3"
    using sub db_invD(6) [OF demo_inv3] by (simp add: subnet_ready_def)
  have "free_in demo_netaddr (s_id demo_subnet_row) demo_db3 \<noteq> {}"
    using demo_free3 by (auto simp: s)
  from generate_one [OF ready this] obtain t d' where
    run: "generate_ip demo_netaddr [demo_subnet_row] demo_db3 = Inr ((t, ''s''), d')" by (auto simp: s)
  from generate_recycle [OF demo_netaddr_ok db_invD(6) [OF demo_inv3] sub run] run show ?thesis
    by (auto simp: s)
qed

end
