(* ===== verification/SubnetProps.thy ===== *)
theory SubnetProps
  imports CoreProps
begin

text \<open>
  The properties of the subnet operations, of generated MAC addresses, and of what a tenant sees.
\<close>

section \<open>Allocation pools\<close>

text \<open>
  C9: \<open>_validate_allocation_pools\<close> accepts a list of pools exactly when both ends of every pool are
  addresses of the subnet's version, in order and strictly between the first and the last address
  of the subnet, and no two pools meet.
\<close>

theorem validate_pools_exact:
  assumes "netaddr_ok na" and "na_net na cidr = Some n" and "net_wide n" and "net_first n < net_last n"
  shows "validate_allocation_pools na ps cidr = Inr () \<longleftrightarrow>
     (\<forall>p \<in> set ps. \<exists>x y. na_ip na (fst p) = Some (IP (net_ver n) x) \<and>
        na_ip na (snd p) = Some (IP (net_ver n) y) \<and> net_first n < x \<and> x \<le> y \<and> y < net_last n) \<and>
     sorted_wrt (\<lambda>p q. pool_span na p \<inter> pool_span na q = {}) ps"
  using validate_allocation_pools_iff [OF assms] by (simp add: pools_valid_def pool_in_net_def)

lemma demo_net8:
  obtains n where "na_net demo_netaddr ''net8'' = Some n" "net_ver n = 4" "net_first n = 8" "net_last n = 15"
  by (simp add: demo_net_def)

lemma demo_adr_ip: "0 \<le> n \<Longrightarrow> n \<le> 2 ^ 32 - 1 \<Longrightarrow> demo_ip (demo_adr n) = Some (IP 4 n)"
  by (simp add: demo_adr_def demo_ip_str ip_valid_def ip_max_def)

theorem validate_pools_exact_witness:
  "validate_allocation_pools demo_netaddr [(demo_adr 9, demo_adr 11), (demo_adr 12, demo_adr 12)] ''net8'' = Inr () \<and>
   validate_allocation_pools demo_netaddr [(demo_adr 9, demo_adr 12), (demo_adr 12, demo_adr 13)] ''net8'' \<noteq> Inr ()"
proof -
  obtain n where n: "na_net demo_netaddr ''net8'' = Some n" "net_ver n = 4" "net_first n = 8" "net_last n = 15"
    by (rule demo_net8)
  have "net_wide n" "net_first n < net_last n" using n by (simp_all add: net_wide_def)
  note V = validate_pools_exact [OF demo_netaddr_ok n(1) this]
  show ?thesis unfolding V by (simp add: n demo_adr_ip pool_span_def ival_def)
qed

text \<open>
  C10: the pools \<open>_allocate_pools_for_subnet\<close> computes cover all addresses between the first and the
  last one of the subnet except the gateway, and \<open>_validate_allocation_pools\<close> would accept them.
\<close>

theorem computed_pools:
  assumes "netaddr_ok na" and "na_net na cidr = Some n" and "net_wide n" and "net_first n < net_last n"
    and "na_ip na g \<noteq> None"
  shows "\<exists>ps. allocate_pools_for_subnet na cidr (Some g) = Inr ps \<and>
     (\<Union>p \<in> set ps. pool_span na p) = {net_first n + 1 .. net_last n - 1} - {ival na g} \<and>
     validate_allocation_pools na ps cidr = Inr ()"
proof -
  obtain ps where "allocate_pools_for_subnet na cidr (Some g) = Inr ps" "pools_valid na n ps"
    "(\<Union>p \<in> set ps. pool_span na p) = {net_first n + 1 .. net_last n - 1} - {ival na g}"
    using assms(5) by (rule allocate_pools_ok [OF assms(1-3), of "Some g", unfolded option.case])
  with validate_allocation_pools_iff [OF assms(1-4)] show ?thesis by blast
qed

theorem computed_pools_witness:
  "\<exists>ps. allocate_pools_for_subnet demo_netaddr ''net8'' (Some (demo_adr 11)) = Inr ps \<and>
     (\<Union>p \<in> set ps. pool_span demo_netaddr p) = {9, 10, 12, 13, 14}"
proof -
  obtain n where n: "na_net demo_netaddr ''net8'' = Some n" "net_ver n = 4" "net_first n = 8" "net_last n = 15"
    by (rule demo_net8)
  have *: "net_wide n" "net_first n < net_last n" "na_ip demo_netaddr (demo_adr 11) \<noteq> None"
    using n by (simp_all add: net_wide_def demo_adr_ip)
  have "{8 + 1 .. 15 - 1} - {11 :: int} = {9, 10, 12, 13, 14}" by auto
  with computed_pools [OF demo_netaddr_ok n(1) *] show ?thesis
    by (auto simp: n ival_def demo_adr_ip)
qed

section \<open>Deleting a subnet\<close>

text \<open>
  C11: \<open>delete_subnet\<close> succeeds exactly when the caller sees the subnet and every address allocated
  to a port of the subnet's network, in whatever subnet, belongs to a DHCP port; the result is the
  database without the subnet and what depends on it.
\<close>

theorem delete_subnet_exact:
  "delete_subnet ctx i d = Inr ((), d') \<longleftrightarrow>
     (\<exists>s. get_subnet_row ctx i d = Inr s \<and>
        (\<forall>a \<in> set (ip_allocs d). \<forall>p \<in> set (ports d). a_port a = Some (pt_id p) \<longrightarrow>
           pt_network p = s_network s \<longrightarrow> pt_device_owner p = ''network:dhcp'')) \<and>
     d' = drop_subnets (\<lambda>sid. sid = i) d"
  unfolding delete_subnet_iff by (force simp: network_allocations_def AUTO_DELETE_PORT_OWNERS_def)

theorem delete_subnet_exact_witness:
  "delete_subnet demo_admin ''s'' demo_db2 = Inr ((), drop_subnets (\<lambda>sid. sid = ''s'') demo_db2) \<and>
   \<not> (\<exists>d'. delete_subnet demo_admin ''s'' demo_db3 = Inr ((), d'))"
proof -
  have "get_subnet_row demo_admin ''s'' demo_db2 = Inr demo_subnet_row"
    "get_subnet_row demo_admin ''s'' demo_db3 = Inr demo_subnet_row" by code_simp+
  then show ?thesis unfolding delete_subnet_exact
    by (simp add: demo_db3_def demo_db2_def demo_db1_def empty_db_def demo_port_row_def demo_subnet_row_def)
qed

section \<open>MAC addresses\<close>

definition mac_used :: "string \<Rightarrow> string \<Rightarrow> db \<Rightarrow> bool" where
  "mac_used nid m d \<longleftrightarrow> (\<exists>p \<in> set (ports d). pt_network p = nid \<and> pt_mac p = m)"

lemma check_unique_mac_Inr: "check_unique_mac nid m d = Inr b \<Longrightarrow> b = (\<not> mac_used nid m d)"
proof -
  assume "check_unique_mac nid m d = Inr b"
  then obtain row where "one_row MultipleResultsFound (filter (\<lambda>p. pt_network p = nid \<and> pt_mac p = m) (ports d)) = Inr row"
    "b = (row = None)" by (auto simp: check_unique_mac_def op_simps)
  moreover have "filter (\<lambda>p. pt_network p = nid \<and> pt_mac p = m) (ports d) = [] \<longleftrightarrow> \<not> mac_used nid m d"
    by (auto simp: mac_used_def filter_empty_conv)
  ultimately show ?thesis by (cases row) auto
qed

lemma generate_mac_from_Inr:
  "generate_mac_from base nid rs d = Inr m \<Longrightarrow>
     \<not> mac_used nid m d \<and> (\<exists>k < length rs. mac_attempt base (rs ! k) = Inr m \<and>
        (\<forall>j < k. \<exists>m'. mac_attempt base (rs ! j) = Inr m' \<and> mac_used nid m' d))"
proof (induction rs)
  case Nil
  then show ?case by simp
next
  case (Cons r rs)
  from Cons.prems obtain a u where a: "mac_attempt base r = Inr a" "check_unique_mac nid a d = Inr u"
    and rest: "(if u then Inr a else generate_mac_from base nid rs d) = Inr m"
    by (auto simp: op_simps)
  show ?case
  proof (cases u)
    case True
    with rest a check_unique_mac_Inr [OF a(2)] show ?thesis by (auto intro!: exI [of _ 0])
  next
    case False
    with rest Cons.IH obtain k where k: "\<not> mac_used nid m d" "k < length rs" "mac_attempt base (rs ! k) = Inr m"
      "\<forall>j < k. \<exists>m'. mac_attempt base (rs ! j) = Inr m' \<and> mac_used nid m' d" by auto
    have "mac_used nid a d" using check_unique_mac_Inr [OF a(2)] False by simp
    with k a have "\<forall>j < Suc k. \<exists>m'. mac_attempt base ((r # rs) ! j) = Inr m' \<and> mac_used nid m' d"
      by (auto simp: less_Suc_eq_0_disj)
    with k show ?thesis by (intro conjI exI [of _ "Suc k"]) auto
  qed
qed

text \<open>
  A generated MAC address is not used by any port of the network and comes from the first
  attempt whose address is unused; with the MAC addresses of a network different, the generation
  fails with \<open>MacAddressGenerationFailure\<close> exactly when every attempt gives an address in use
  (for a well-formed base address).
\<close>

theorem generated_mac_unused:
  assumes "generate_mac cfg rnd nid d = Inr m"
  shows "\<not> mac_used nid m d \<and> (\<exists>k < mac_generation_retries cfg. mac_attempt (base_mac cfg) (rnd k) = Inr m \<and>
     (\<forall>j < k. \<exists>m'. mac_attempt (base_mac cfg) (rnd j) = Inr m' \<and> mac_used nid m' d))"
  using generate_mac_from_Inr [OF assms [unfolded generate_mac_def]] by fastforce

theorem generated_mac_unused_witness:
  "generate_mac demo_conf demo_rnd ''n'' demo_db3 = Inr ''fa:16:3e:7f:01:ff'' \<and>
   \<not> mac_used ''n'' ''fa:16:3e:7f:01:ff'' demo_db3"
proof -
  have run: "generate_mac demo_conf demo_rnd ''n'' demo_db3 = Inr ''fa:16:3e:7f:01:ff''" by code_simp
  with generated_mac_unused [OF run] show ?thesis by blast
qed

section \<open>Tenants\<close>

lemma get_by_id_iff:
  assumes "distinct (map idf rows)"
  shows "get_by_id idf i (filter P rows) e = Inr r \<longleftrightarrow> r \<in> set rows \<and> idf r = i \<and> P r"
    and "get_by_id idf i (filter P rows) e = Inl x \<Longrightarrow> x = e"
proof -
  have inj: "inj_on idf (set rows)" and dist: "distinct rows" using assms by (simp_all add: distinct_map)
  let ?Q = "\<lambda>r. P r \<and> idf r = i"
  have "one_row MultipleResultsFound (filter ?Q rows) = Inr (find ?Q rows)"
    by (rule one_row_unique [OF dist]) (metis inj inj_onD)
  then have eq: "get_by_id idf i (filter P rows) e = (case find ?Q rows of None \<Rightarrow> Inl e | Some x \<Rightarrow> Inr x)"
    by (simp add: get_by_id_def conj_commute)
  show "get_by_id idf i (filter P rows) e = Inl x \<Longrightarrow> x = e" unfolding eq by (simp split: option.splits)
  show "get_by_id idf i (filter P rows) e = Inr r \<longleftrightarrow> r \<in> set rows \<and> idf r = i \<and> P r"
  proof
    assume "get_by_id idf i (filter P rows) e = Inr r"
    then show "r \<in> set rows \<and> idf r = i \<and> P r" unfolding eq by (auto split: option.splits dest: find_SomeD)
  next
    assume r: "r \<in> set rows \<and> idf r = i \<and> P r"
    then have "find ?Q rows \<noteq> None" by (auto simp: find_None_iff)
    then obtain y where "find ?Q rows = Some y" by blast
    moreover from find_SomeD [OF this] r inj have "y = r" by (metis inj_onD)
    ultimately show "get_by_id idf i (filter P rows) e = Inr r" unfolding eq by simp
  qed
qed

lemma query_eq:
  "query_ports ctx d = filter (\<lambda>p. ctx_is_admin ctx \<or> pt_tenant p = ctx_tenant ctx) (ports d)"
  "query_networks ctx d = filter (\<lambda>n. ctx_is_admin ctx \<or> n_tenant n = ctx_tenant ctx \<or> n_shared n) (networks d)"
  by (simp_all add: query_ports_def query_networks_def model_query_def)

text \<open>
  C12: a caller reaches a port by its id exactly when the port is the caller's own or the caller is
  an administrator, and a network also when it is shared; otherwise the answer is a not-found error
  that does not tell whether the resource exists.
\<close>

theorem tenant_isolation:
  assumes "db_inv na d"
  shows "(get_port_row ctx i d = Inr p \<longleftrightarrow>
            p \<in> set (ports d) \<and> pt_id p = i \<and> (ctx_is_admin ctx \<or> pt_tenant p = ctx_tenant ctx)) \<and>
         (get_network_row ctx i d = Inr n \<longleftrightarrow>
            n \<in> set (networks d) \<and> n_id n = i \<and>
            (ctx_is_admin ctx \<or> n_tenant n = ctx_tenant ctx \<or> n_shared n)) \<and>
         (\<forall>e. get_port_row ctx i d = Inl e \<longrightarrow> e = PortNotFound i) \<and>
         (\<forall>e. get_network_row ctx i d = Inl e \<longrightarrow> e = NetworkNotFound i)"
proof (intro conjI allI impI)
  note I = db_invD [OF assms]
  show "get_port_row ctx i d = Inr p \<longleftrightarrow>
      p \<in> set (ports d) \<and> pt_id p = i \<and> (ctx_is_admin ctx \<or> pt_tenant p = ctx_tenant ctx)"
    unfolding get_port_row_def query_eq by (rule get_by_id_iff(1) [OF I(4)])
  show "get_network_row ctx i d = Inr n \<longleftrightarrow>
      n \<in> set (networks d) \<and> n_id n = i \<and> (ctx_is_admin ctx \<or> n_tenant n = ctx_tenant ctx \<or> n_shared n)"
    unfolding get_network_row_def query_eq by (rule get_by_id_iff(1) [OF I(5)])
  show "e = PortNotFound i" if "get_port_row ctx i d = Inl e" for e
    using that unfolding get_port_row_def query_eq by (rule get_by_id_iff(2) [OF I(4)])
  show "e = NetworkNotFound i" if "get_network_row ctx i d = Inl e" for e
    using that unfolding get_network_row_def query_eq by (rule get_by_id_iff(2) [OF I(5)])
qed

theorem tenant_isolation_witness:
  "get_port_row demo_admin ''p'' demo_db3 = Inr demo_port_row \<and>
   get_port_row \<lparr>ctx_is_admin = False, ctx_tenant = ''other''\<rparr> ''p'' demo_db3 = Inl (PortNotFound ''p'')"
proof -
  have p: "demo_port_row \<in> set (ports demo_db3)" "pt_id demo_port_row = ''p''" "pt_tenant demo_port_row = ''t''"
    and only: "ports demo_db3 = [demo_port_row]"
    by (simp_all add: demo_db3_def demo_port_row_def)
  let ?other = "\<lparr>ctx_is_admin = False, ctx_tenant = ''other''\<rparr>"
  note T = tenant_isolation [OF demo_inv3]
  have "get_port_row demo_admin ''p'' demo_db3 = Inr demo_port_row"
    unfolding conjunct1 [OF T] using p by (simp add: demo_admin_def)
  moreover have "get_port_row ?other ''p'' demo_db3 \<noteq> Inr q" for q
    unfolding conjunct1 [OF T] using p(3) only by auto
  then obtain e where e: "get_port_row ?other ''p'' demo_db3 = Inl e"
    by (cases "get_port_row ?other ''p'' demo_db3") auto
  have "\<forall>e. get_port_row ?other ''p'' demo_db3 = Inl e \<longrightarrow> e = PortNotFound ''p''"
    using T by (rule conjunct1 [OF conjunct2 [OF conjunct2]])
  with e have "get_port_row ?other ''p'' demo_db3 = Inl (PortNotFound ''p'')" by simp
  ultimately show ?thesis by blast
qed

end
