(* ===== verification/PyText.thy ===== *)
theory PyText
  imports NeutronExc
begin

text \<open>
  The string methods of Python the modelled code uses: \<open>strip\<close>, \<open>split\<close> at a character,
  \<open>int\<close> of a text, \<open>startswith\<close> and \<open>join\<close>.
\<close>

definition py_space :: "char \<Rightarrow> bool" where
  "py_space c \<longleftrightarrow> c \<in> set [CHR '' '', CHR 0x09, CHR 0x0A, CHR 0x0B, CHR 0x0C, CHR 0x0D]"

definition py_strip :: "string \<Rightarrow> string" where
  "py_strip s = rev (dropWhile py_space (rev (dropWhile py_space s)))"

text \<open>\<open>s.split(c)\<close>: the result is never empty.\<close>

fun py_split :: "char \<Rightarrow> string \<Rightarrow> string list" where
  "py_split c [] = [[]]"
| "py_split c (x # xs) =
     (if x = c then [] # py_split c xs
      else (case py_split c xs of [] \<Rightarrow> [[x]] | w # ws \<Rightarrow> (x # w) # ws))"

fun py_join :: "string \<Rightarrow> string list \<Rightarrow> string" where
  "py_join sep [] = []"
| "py_join sep [x] = x"
| "py_join sep (x # y # zs) = x @ sep @ py_join sep (y # zs)"

lemma py_split_not_Nil [simp]: "py_split c s \<noteq> []"
  by (cases s) (auto split: list.splits)

lemma join_split: "py_join [c] (py_split c s) = s"
proof (induction s)
  case Nil
  then show ?case by simp
next
  case (Cons x xs)
  obtain w ws where w: "py_split c xs = w # ws" by (cases "py_split c xs") auto
  with Cons show ?case by (cases ws) auto
qed

lemma split_word: "c \<notin> set x \<Longrightarrow> py_split c x = [x]"
  by (induction x) auto

lemma split_word_sep: "c \<notin> set x \<Longrightarrow> py_split c (x @ c # r) = x # py_split c r"
  by (induction x) auto

lemma split_join:
  assumes "ws \<noteq> []" and "\<forall>w \<in> set ws. c \<notin> set w"
  shows "py_split c (py_join [c] ws) = ws"
  using assms
proof (induction ws rule: induct_list012)
  case (3 x y zs)
  then show ?case by (simp add: split_word_sep)
qed (simp_all add: split_word)

text \<open>\<open>int(s)\<close> for a text: surrounding white space, a sign and decimal digits.\<close>

definition digit_val :: "char \<Rightarrow> int option" where
  "digit_val c = map_of (zip ''0123456789'' [0..9]) c"

fun digits_from :: "int \<Rightarrow> string \<Rightarrow> int option" where
  "digits_from acc [] = Some acc"
| "digits_from acc (c # cs) =
     (case digit_val c of None \<Rightarrow> None | Some v \<Rightarrow> digits_from (10 * acc + v) cs)"

definition py_nat :: "string \<Rightarrow> int option" where
  "py_nat s = (if s = [] then None else digits_from 0 s)"

definition py_int :: "string \<Rightarrow> exc + int" where
  "py_int s =
     (case (case py_strip s of
              c # cs \<Rightarrow>
                (if c = CHR ''-'' then map_option uminus (py_nat cs)
                 else if c = CHR ''+'' then py_nat cs else py_nat (c # cs))
            | [] \<Rightarrow> None) of
        None \<Rightarrow> Inl ValueError | Some n \<Rightarrow> Inr n)"

definition py_startswith :: "string \<Rightarrow> string \<Rightarrow> bool" where
  "py_startswith s p \<longleftrightarrow> prefix p s"

lemma py_int_examples:
  "py_int ''42'' = Inr 42" "py_int '' -7 '' = Inr (-7)" "py_int ''4a'' = Inl ValueError" "py_int [] = Inl ValueError"
  by code_simp+

text \<open>\<open>"%d" % n\<close>.\<close>

definition digit_char :: "nat \<Rightarrow> char" where
  "digit_char n = ''0123456789'' ! n"

fun show_nat :: "nat \<Rightarrow> string" where
  "show_nat n = (if n < 10 then [digit_char n] else show_nat (n div 10) @ [digit_char (n mod 10)])"

declare show_nat.simps [simp del]

definition show_int :: "int \<Rightarrow> string" where
  "show_int n = (if n < 0 then CHR ''-'' # show_nat (nat (- n)) else show_nat (nat n))"

lemma digit_char_val: "n < 10 \<Longrightarrow> digit_val (digit_char n) = Some (int n)"
proof -
  assume "n < 10"
  then have "n \<in> {0,1,2,3,4,5,6,7,8,9}" by auto
  then show ?thesis by (elim insertE emptyE) (simp_all add: digit_val_def digit_char_def upto.simps)
qed

lemma digits_from_append: "digits_from a (xs @ ys) = Option.bind (digits_from a xs) (\<lambda>b. digits_from b ys)"
  by (induction xs arbitrary: a) (auto split: option.splits)

lemma digits_show: "digits_from 0 (show_nat n) = Some (int n)"
proof (induction n rule: show_nat.induct)
  case (1 n)
  show ?case
  proof (cases "n < 10")
    case True
    then show ?thesis by (simp add: show_nat.simps [of n] digit_char_val)
  next
    case False
    have "10 * (int n div 10) + int (n mod 10) = int n" by (simp add: zdiv_int zmod_int)
    with 1 [OF False] False show ?thesis
      by (simp add: show_nat.simps [of n] digits_from_append digit_char_val zdiv_int)
  qed
qed

lemma digit_not_special: "n < 10 \<Longrightarrow> \<not> py_space (digit_char n) \<and> digit_char n \<noteq> CHR ''-'' \<and>
    digit_char n \<noteq> CHR ''+'' \<and> digit_char n \<noteq> CHR '':''"
proof -
  assume "n < 10"
  then have "n \<in> {0,1,2,3,4,5,6,7,8,9}" by auto
  then show ?thesis by (elim insertE emptyE) (simp_all add: py_space_def digit_char_def)
qed

lemma show_nat_chars: "show_nat n \<noteq> [] \<and> (\<forall>c \<in> set (show_nat n). \<exists>k < 10. c = digit_char k)"
proof (induction n rule: show_nat.induct)
  case (1 n)
  then show ?case
    by (cases "n < 10") (auto simp: show_nat.simps [of n] intro!: exI [of _ "n mod 10"])
qed

lemma dropWhile_id: "\<forall>c \<in> set s. \<not> P c \<Longrightarrow> dropWhile P s = s"
  by (cases s) simp_all

lemma strip_id: "\<forall>c \<in> set s. \<not> py_space c \<Longrightarrow> py_strip s = s"
  unfolding py_strip_def by (simp only: dropWhile_id set_rev rev_rev_ident)

lemma show_nat_nonempty: "show_nat n \<noteq> []"
  by (rule conjunct1 [OF show_nat_chars])

lemma show_nat_char:
  assumes "c \<in> set (show_nat n)"
  shows "\<not> py_space c \<and> c \<noteq> CHR ''-'' \<and> c \<noteq> CHR ''+'' \<and> c \<noteq> CHR '':''"
proof -
  have "\<exists>k < 10. c = digit_char k" by (rule bspec [OF conjunct2 [OF show_nat_chars] assms])
  then obtain k where k: "k < 10" "c = digit_char k" by (elim exE conjE)
  show ?thesis unfolding k(2) by (rule digit_not_special [OF k(1)])
qed

lemma minus_char: "\<not> py_space (CHR ''-'')" "CHR ''-'' \<noteq> CHR '':''"
  by (simp_all add: py_space_def)

lemma show_int_chars:
  assumes "c \<in> set (show_int n)"
  shows "\<not> py_space c \<and> c \<noteq> CHR '':''"
proof -
  from assms have "c = CHR ''-'' \<or> (\<exists>m. c \<in> set (show_nat m))"
    unfolding show_int_def by (cases "n < 0") auto
  then show ?thesis using show_nat_char minus_char by blast
qed

lemma show_int_nonempty: "show_int n \<noteq> []"
  unfolding show_int_def using show_nat_nonempty by simp

text \<open>Reading a printed number gives the number back.\<close>

lemma py_int_show: "py_int (show_int n) = Inr n"
proof -
  have strip: "py_strip (show_int n) = show_int n"
    by (rule strip_id) (use show_int_chars in blast)
  have nat: "py_nat (show_nat m) = Some (int m)" for m
    by (simp add: py_nat_def show_nat_nonempty digits_show)
  show ?thesis
  proof (cases "n < 0")
    case True
    then have e: "show_int n = CHR ''-'' # show_nat (nat (- n))" by (simp add: show_int_def)
    have "py_nat (show_nat (nat (- n))) = Some (- n)" using nat [of "nat (- n)"] True by simp
    then show ?thesis unfolding py_int_def strip unfolding e by simp
  next
    case False
    then have e: "show_int n = show_nat (nat n)" by (simp add: show_int_def)
    obtain c cs where c: "show_nat (nat n) = c # cs" using show_nat_nonempty by (metis list.exhaust)
    then have "c \<noteq> CHR ''-'' \<and> c \<noteq> CHR ''+''" using show_nat_char [of c "nat n"] by simp
    moreover have "py_nat (c # cs) = Some n" using nat [of "nat n"] False by (simp add: c)
    ultimately show ?thesis unfolding py_int_def strip unfolding e c by simp
  qed
qed

end
