(* ===== verification/SegTable.thy ===== *)
theory SegTable
  imports Allocator PyText
begin

text \<open>
  Allocation tables.  The VLAN and tunnel tables of ML2 (\<open>type_vlan.py\<close>, \<open>type_gre.py\<close>,
  \<open>type_vxlan.py\<close>), of the Open vSwitch plugin (\<open>ovs_db_v2.py\<close>) and of the Linux bridge plugin
  (\<open>l2network_db_v2.py\<close>) have the same shape: a row per identifier, whose flag tells whether it is
  allocated.  A row without the flag is free; an identifier without a row is outside the pool and
  not in use.  The identifier is a tunnel id, or a physical network with a VLAN id.

  The queries with \<open>one()\<close> are on the primary key of the table.
\<close>

type_synonym 'k table = "('k \<times> bool) list"

definition get_alloc :: "'k \<Rightarrow> 'k table \<Rightarrow> exc + ('k \<times> bool) option" where
  "get_alloc k t = one_row MultipleResultsFound (filter (\<lambda>r. fst r = k) t)"

definition set_alloc :: "'k \<Rightarrow> bool \<Rightarrow> 'k table \<Rightarrow> 'k table" where
  "set_alloc k b t = map (\<lambda>r. if fst r = k then (k, b) else r) t"

definition del_alloc :: "'k \<Rightarrow> 'k table \<Rightarrow> 'k table" where
  "del_alloc k t = filter (\<lambda>r. fst r \<noteq> k) t"

text \<open>Reserving a given identifier, inside or outside the pool; \<open>in_use\<close> is the exception raised.\<close>

definition reserve_specific :: "exc \<Rightarrow> 'k \<Rightarrow> (exc, 'k table, unit) op" where
  "reserve_specific in_use k =
     bindE (checkE (get_alloc k)) (\<lambda>row.
       case row of
         None \<Rightarrow> modifyE (\<lambda>t. t @ [(k, True)])
       | Some (_, True) \<Rightarrow> raiseE in_use
       | Some (_, False) \<Rightarrow> modifyE (set_alloc k True))"

text \<open>The first free identifier, \<open>None\<close> when there is none.\<close>

definition reserve_first :: "(exc, 'k table, 'k option) op" where
  "reserve_first =
     bindE (getsE (\<lambda>t. first_row (filter (\<lambda>r. \<not> snd r) t))) (\<lambda>row.
       case row of
         None \<Rightarrow> returnE None
       | Some (k, _) \<Rightarrow> bindE (modifyE (set_alloc k True)) (\<lambda>_. returnE (Some k)))"

text \<open>Releasing an identifier: it stays in the table only when it belongs to the pool.\<close>

definition release_id :: "('k \<Rightarrow> bool) \<Rightarrow> 'k \<Rightarrow> (exc, 'k table, unit) op" where
  "release_id inside k =
     bindE (checkE (get_alloc k)) (\<lambda>row.
       case row of
         None \<Rightarrow> returnE ()
       | Some _ \<Rightarrow> modifyE (\<lambda>t. if inside k then set_alloc k False t else del_alloc k t))"

text \<open>
  The loop of the synchronisation over existing rows: \<open>remove\<close> of an allocatable identifier from the
  set of those to be added, and deletion of the free rows that are not allocatable.
\<close>

fun sync_rows :: "'k list \<Rightarrow> 'k table \<Rightarrow> 'k list \<times> 'k table" where
  "sync_rows ids [] = (ids, [])"
| "sync_rows ids (r # rs) =
     (if fst r \<in> set ids then
        (let (rest, kept) = sync_rows (removeAll (fst r) ids) rs in (rest, r # kept))
      else if snd r then (let (rest, kept) = sync_rows ids rs in (rest, r # kept))
      else sync_rows ids rs)"

definition range_ids :: "int \<times> int \<Rightarrow> int list" where
  "range_ids r = [fst r .. snd r]"

text \<open>Tunnel ranges that are larger than \<open>limit\<close> are skipped.\<close>

definition tunnel_ids :: "int \<Rightarrow> (int \<times> int) list \<Rightarrow> int list" where
  "tunnel_ids limit ranges =
     remdups (concat (map range_ids (filter (\<lambda>(lo, hi). \<not> hi + 1 - lo > limit) ranges)))"

definition sync_tunnels :: "int \<Rightarrow> (int \<times> int) list \<Rightarrow> int table \<Rightarrow> int table" where
  "sync_tunnels limit ranges t =
     (let (rest, kept) = sync_rows (tunnel_ids limit ranges) t
      in kept @ map (\<lambda>k. (k, False)) (sort rest))"

type_synonym vlan_ranges = "(string \<times> (int \<times> int) list) list"

definition vlan_ids :: "(int \<times> int) list \<Rightarrow> int list" where
  "vlan_ids rngs = remdups (concat (map range_ids rngs))"

definition sync_physnet :: "string \<times> (int \<times> int) list \<Rightarrow> (string \<times> int) table \<Rightarrow> (string \<times> int) table" where
  "sync_physnet pr t =
     (let (rest, kept) = sync_rows (map (Pair (fst pr)) (vlan_ids (snd pr))) (filter (\<lambda>r. fst (fst r) = fst pr) t)
      in filter (\<lambda>r. fst (fst r) \<noteq> fst pr) t @ kept @ map (\<lambda>k. (k, False)) (sort_key snd rest))"

text \<open>First the configured physical networks, then the free rows of all others are removed.\<close>

definition sync_vlans :: "vlan_ranges \<Rightarrow> (string \<times> int) table \<Rightarrow> (string \<times> int) table" where
  "sync_vlans ranges t =
     filter (\<lambda>r. fst (fst r) \<in> fst ` set ranges \<or> snd r) (foldl (\<lambda>t pr. sync_physnet pr t) t ranges)"

definition in_ranges :: "(int \<times> int) list \<Rightarrow> int \<Rightarrow> bool" where
  "in_ranges rngs n \<longleftrightarrow> (\<exists>(lo, hi) \<in> set rngs. lo \<le> n \<and> n \<le> hi)"

definition vlan_in_pool :: "vlan_ranges \<Rightarrow> string \<times> int \<Rightarrow> bool" where
  "vlan_in_pool ranges k \<longleftrightarrow>
     in_ranges (case map_of ranges (fst k) of None \<Rightarrow> [] | Some rngs \<Rightarrow> rngs) (snd k)"

section \<open>Abstraction\<close>

text \<open>The identifiers in use and the free ones; the keys of a table are distinct.\<close>

definition table_ok :: "'k table \<Rightarrow> bool" where
  "table_ok t \<longleftrightarrow> distinct (map fst t)"

definition used_ids :: "'k table \<Rightarrow> 'k set" where
  "used_ids t = {k. (k, True) \<in> set t}"

definition free_ids :: "'k table \<Rightarrow> 'k set" where
  "free_ids t = {k. (k, False) \<in> set t}"

lemma table_ok_unique: "table_ok t \<Longrightarrow> (k, a) \<in> set t \<Longrightarrow> (k, b) \<in> set t \<Longrightarrow> a = b"
  by (auto simp: table_ok_def eq_key_imp_eq_value)

lemma used_free_disjoint: "table_ok t \<Longrightarrow> used_ids t \<inter> free_ids t = {}"
  by (auto simp: used_ids_def free_ids_def dest: table_ok_unique)

lemma finite_free_ids: "finite (free_ids t)"
proof -
  have "free_ids t \<subseteq> fst ` set t" by (force simp: free_ids_def)
  then show ?thesis by (rule finite_subset) simp
qed

lemma fst_set_alloc [simp]: "map fst (set_alloc k b t) = map fst t"
  by (auto simp: set_alloc_def)

lemma set_alloc_mem:
  "(x, a) \<in> set (set_alloc k b t) \<longleftrightarrow> (if x = k then a = b \<and> k \<in> fst ` set t else (x, a) \<in> set t)"
  by (force simp: set_alloc_def)

lemma table_ok_set [simp]: "table_ok (set_alloc k b t) = table_ok t"
  by (simp add: table_ok_def)

lemma used_set_alloc:
  "k \<in> fst ` set t \<Longrightarrow> used_ids (set_alloc k b t) = (if b then insert k (used_ids t) else used_ids t - {k})"
  by (auto simp: used_ids_def set_alloc_mem)

lemma free_set_alloc:
  "k \<in> fst ` set t \<Longrightarrow> free_ids (set_alloc k b t) = (if b then free_ids t - {k} else insert k (free_ids t))"
  by (auto simp: free_ids_def set_alloc_mem)

lemma del_alloc_ids:
  "used_ids (del_alloc k t) = used_ids t - {k}" "free_ids (del_alloc k t) = free_ids t - {k}"
  "table_ok t \<Longrightarrow> table_ok (del_alloc k t)"
  by (auto simp: used_ids_def free_ids_def del_alloc_def table_ok_def distinct_map_filter)

lemma in_keys: "k \<in> fst ` set t \<longleftrightarrow> (k, True) \<in> set t \<or> (k, False) \<in> set t"
proof
  assume "k \<in> fst ` set t"
  then obtain b where "(k, b) \<in> set t" by force
  then show "(k, True) \<in> set t \<or> (k, False) \<in> set t" by (cases b) auto
qed (metis fst_conv imageI)

lemma get_alloc_eq:
  assumes ok: "table_ok t"
  shows "get_alloc k t = Inr (if (k, True) \<in> set t then Some (k, True)
           else if (k, False) \<in> set t then Some (k, False) else None)"
proof -
  have dist: "distinct t" using ok by (auto simp: table_ok_def distinct_map)
  have inj: "inj_on fst (set t)" using ok by (simp add: table_ok_def distinct_map)
  have "get_alloc k t = Inr (find (\<lambda>r. fst r = k) t)"
    unfolding get_alloc_def
  proof (rule one_row_unique [OF dist])
    show "x = y" if "x \<in> set t" "y \<in> set t" "fst x = k" "fst y = k" for x y
      using inj_onD [OF inj _ that(1,2)] that(3,4) by simp
  qed
  moreover have "find (\<lambda>r. fst r = k) t = (if (k, True) \<in> set t then Some (k, True)
           else if (k, False) \<in> set t then Some (k, False) else None)"
  proof (cases "find (\<lambda>r. fst r = k) t")
    case None
    then show ?thesis by (auto simp: find_None_iff)
  next
    case (Some r)
    from find_SomeD [OF this] obtain b where r: "r = (k, b)" "(k, b) \<in> set t" by (cases r) auto
    with Some ok show ?thesis by (cases b) (auto dest: table_ok_unique)
  qed
  ultimately show ?thesis by simp
qed

section \<open>The operations on the abstraction\<close>

lemma reserve_specific_spec:
  assumes ok: "table_ok t"
  shows "if k \<in> used_ids t then reserve_specific e k t = Inl e
    else \<exists>t'. reserve_specific e k t = Inr ((), t') \<and> table_ok t' \<and>
      used_ids t' = insert k (used_ids t) \<and> free_ids t' = free_ids t - {k}"
proof -
  consider "(k, True) \<in> set t" | "(k, True) \<notin> set t" "(k, False) \<in> set t" | "k \<notin> fst ` set t"
    using in_keys [of k t] by blast
  then show ?thesis
  proof cases
    case 1
    then show ?thesis
      by (simp add: reserve_specific_def bindE_def checkE_def get_alloc_eq [OF ok] used_ids_def)
  next
    case 2
    then have k: "k \<in> fst ` set t" by (simp add: in_keys)
    have "reserve_specific e k t = Inr ((), set_alloc k True t)"
      using 2 by (simp add: reserve_specific_def bindE_def checkE_def get_alloc_eq [OF ok])
    moreover have "k \<notin> used_ids t" using 2 by (simp add: used_ids_def)
    ultimately show ?thesis
      using used_set_alloc [OF k, of True] free_set_alloc [OF k, of True] ok by simp
  next
    case 3
    then have no: "(k, b) \<notin> set t" for b by (cases b) (simp_all add: in_keys)
    have "table_ok (t @ [(k, True)])" using ok 3 by (auto simp: table_ok_def)
    moreover have "used_ids (t @ [(k, True)]) = insert k (used_ids t)" "free_ids (t @ [(k, True)]) = free_ids t - {k}"
      using no by (auto simp: used_ids_def free_ids_def)
    ultimately show ?thesis
      using no by (simp add: reserve_specific_def bindE_def checkE_def get_alloc_eq [OF ok] used_ids_def [of t])
  qed
qed

lemma reserve_first_spec:
  assumes ok: "table_ok t"
  shows "if free_ids t = {} then reserve_first t = Inr (None, t)
    else \<exists>k t'. reserve_first t = Inr (Some k, t') \<and> k \<in> free_ids t \<and> table_ok t' \<and>
      used_ids t' = insert k (used_ids t) \<and> free_ids t' = free_ids t - {k}"
proof (cases "filter (\<lambda>r. \<not> snd r) t")
  case Nil
  then have "free_ids t = {}" by (force simp: free_ids_def filter_empty_conv)
  with Nil show ?thesis by (simp add: reserve_first_def)
next
  case (Cons r rs)
  obtain k b where r: "r = (k, b)" by (cases r)
  have "r \<in> set (filter (\<lambda>r. \<not> snd r) t)" unfolding Cons by simp
  then have mem: "(k, False) \<in> set t" using r by (cases b) auto
  then have k: "k \<in> fst ` set t" "k \<in> free_ids t" by (force simp: free_ids_def)+
  have run: "reserve_first t = Inr (Some k, set_alloc k True t)"
    by (simp add: reserve_first_def Cons r bindE_def)
  show ?thesis
    using run k used_set_alloc [OF k(1), of True] free_set_alloc [OF k(1), of True] ok by auto
qed

lemma release_id_spec:
  assumes ok: "table_ok t"
  shows "\<exists>t'. release_id inside k t = Inr ((), t') \<and> table_ok t' \<and> used_ids t' = used_ids t - {k} \<and>
    free_ids t' = (if k \<in> fst ` set t then (if inside k then insert k (free_ids t) else free_ids t - {k})
                   else free_ids t)"
proof (cases "k \<in> fst ` set t")
  case True
  then obtain b where "(k, b) \<in> set t" by force
  then have "\<exists>r. get_alloc k t = Inr (Some r)" using get_alloc_eq [OF ok, of k] by (cases b) auto
  then obtain r where "get_alloc k t = Inr (Some r)" by blast
  then have run: "release_id inside k t = Inr ((), if inside k then set_alloc k False t else del_alloc k t)"
    by (simp add: release_id_def bindE_def checkE_def)
  show ?thesis
    using run True used_set_alloc [OF True, of False] free_set_alloc [OF True, of False] ok
    by (cases "inside k") (simp_all add: del_alloc_ids)
next
  case False
  then have "(k, b) \<notin> set t" for b by (cases b) (simp_all add: in_keys)
  with False show ?thesis
    using ok by (auto simp: release_id_def bindE_def checkE_def get_alloc_eq [OF ok] used_ids_def)
qed

section \<open>Synchronisation\<close>

lemma sync_rows_spec:
  assumes "sync_rows ids t = (rest, kept)" "distinct (map fst t)" "distinct ids"
  shows "kept = filter (\<lambda>r. fst r \<in> set ids \<or> snd r) t" "set rest = set ids - fst ` set t" "distinct rest"
proof -
  have "kept = filter (\<lambda>r. fst r \<in> set ids \<or> snd r) t \<and> set rest = set ids - fst ` set t \<and> distinct rest"
    using assms
  proof (induction t arbitrary: ids rest kept)
    case Nil
    then show ?case by simp
  next
    case (Cons r t)
    have notin: "fst r \<notin> fst ` set t" using Cons.prems(2) by simp
    show ?case
    proof (cases "fst r \<in> set ids")
      case True
      then obtain kept' where run: "sync_rows (removeAll (fst r) ids) t = (rest, kept')" "kept = r # kept'"
        using Cons.prems(1) by (auto split: prod.splits)
      have "filter (\<lambda>q. fst q \<in> set (removeAll (fst r) ids) \<or> snd q) t = filter (\<lambda>q. fst q \<in> set ids \<or> snd q) t"
      proof (rule filter_cong)
        fix q assume "q \<in> set t"
        then have "fst q \<noteq> fst r" using notin by (metis imageI)
        then show "(fst q \<in> set (removeAll (fst r) ids) \<or> snd q) = (fst q \<in> set ids \<or> snd q)" by simp
      qed simp
      with Cons.IH [OF run(1)] Cons.prems(2,3) True run(2) show ?thesis by (auto simp: distinct_removeAll)
    next
      case False
      then obtain kept' where run: "sync_rows ids t = (rest, kept')" "kept = (if snd r then r # kept' else kept')"
        using Cons.prems(1) by (auto split: prod.splits if_splits)
      with Cons.IH [OF run(1)] Cons.prems(2,3) False show ?thesis by auto
    qed
  qed
  then show "kept = filter (\<lambda>r. fst r \<in> set ids \<or> snd r) t" "set rest = set ids - fst ` set t" "distinct rest"
    by blast+
qed

lemma tunnel_ids_set:
  "k \<in> set (tunnel_ids limit ranges) \<longleftrightarrow> (\<exists>(lo, hi) \<in> set ranges. hi + 1 - lo \<le> limit \<and> lo \<le> k \<and> k \<le> hi)"
  by (force simp: tunnel_ids_def range_ids_def not_less)

text \<open>After a synchronisation the free identifiers are the allocatable ones that are not in use.\<close>

lemma sync_tunnels_spec:
  assumes ok: "table_ok t"
  shows "table_ok (sync_tunnels limit ranges t)" "used_ids (sync_tunnels limit ranges t) = used_ids t"
    "free_ids (sync_tunnels limit ranges t) = set (tunnel_ids limit ranges) - used_ids t"
proof -
  let ?ids = "tunnel_ids limit ranges"
  obtain rest kept where run: "sync_rows ?ids t = (rest, kept)" by fastforce
  have "distinct ?ids" by (simp add: tunnel_ids_def)
  note S = sync_rows_spec [OF run ok [unfolded table_ok_def] this]
  have t': "sync_tunnels limit ranges t = filter (\<lambda>r. fst r \<in> set ?ids \<or> snd r) t @ map (\<lambda>k. (k, False)) (sort rest)"
    by (simp add: sync_tunnels_def run S(1))
  have "distinct (map fst (filter P t))" for P using ok by (simp add: table_ok_def distinct_map_filter)
  then show "table_ok (sync_tunnels limit ranges t)"
    using S(2,3) unfolding t' table_ok_def by (auto simp: comp_def)
  show "used_ids (sync_tunnels limit ranges t) = used_ids t" unfolding t' by (auto simp: used_ids_def)
  show "free_ids (sync_tunnels limit ranges t) = set ?ids - used_ids t"
  proof
    show "free_ids (sync_tunnels limit ranges t) \<subseteq> set ?ids - used_ids t"
    proof
      fix k assume "k \<in> free_ids (sync_tunnels limit ranges t)"
      then consider "(k, False) \<in> set t" "k \<in> set ?ids" | "k \<in> set rest"
        by (auto simp: free_ids_def t')
      then show "k \<in> set ?ids - used_ids t"
      proof cases
        case 1
        then show ?thesis using table_ok_unique [OF ok] by (auto simp: used_ids_def)
      next
        case 2
        then show ?thesis unfolding S(2) in_keys Diff_iff by (simp add: used_ids_def)
      qed
    qed
    show "set ?ids - used_ids t \<subseteq> free_ids (sync_tunnels limit ranges t)"
    proof
      fix k assume k: "k \<in> set ?ids - used_ids t"
      show "k \<in> free_ids (sync_tunnels limit ranges t)"
      proof (cases "k \<in> fst ` set t")
        case True
        then have "(k, False) \<in> set t" using k unfolding in_keys by (auto simp: used_ids_def)
        with k show ?thesis by (auto simp: free_ids_def t')
      next
        case False
        with k show ?thesis by (auto simp: free_ids_def t' S(2))
      qed
    qed
  qed
qed

lemma sync_physnet_spec:
  assumes ok: "table_ok t"
  shows "table_ok (sync_physnet pr t)" "used_ids (sync_physnet pr t) = used_ids t"
    "(pn, v) \<in> free_ids (sync_physnet pr t) \<longleftrightarrow>
       (if pn = fst pr then in_ranges (snd pr) v \<and> (pn, v) \<notin> used_ids t else (pn, v) \<in> free_ids t)"
proof -
  let ?ids = "map (Pair (fst pr)) (vlan_ids (snd pr))" and ?mine = "filter (\<lambda>r. fst (fst r) = fst pr) t"
  let ?other = "filter (\<lambda>r. fst (fst r) \<noteq> fst pr) t"
  obtain rest kept where run: "sync_rows ?ids ?mine = (rest, kept)" by fastforce
  have dist: "distinct (map fst (filter P t))" for P using ok by (simp add: table_ok_def distinct_map_filter)
  have "distinct ?ids" by (simp add: vlan_ids_def distinct_map inj_on_def)
  note S = sync_rows_spec [OF run dist this]
  have t': "sync_physnet pr t = ?other @ filter (\<lambda>r. fst r \<in> set ?ids \<or> snd r) ?mine @
      map (\<lambda>k. (k, False)) (sort_key snd rest)"
    by (simp add: sync_physnet_def run S(1))
  have rest: "set rest \<subseteq> {k. fst k = fst pr}" using S(2) by auto
  have ids: "(fst pr, v) \<in> set ?ids \<longleftrightarrow> in_ranges (snd pr) v" for v
    by (force simp: vlan_ids_def in_ranges_def range_ids_def)
  have disj: "(k, b) \<notin> set t" if "k \<in> set rest" for k b
  proof
    assume "(k, b) \<in> set t"
    moreover have "fst k = fst pr" using that rest by auto
    ultimately have "k \<in> fst ` set ?mine" by force
    with that S(2) show False by simp
  qed
  show "table_ok (sync_physnet pr t)"
    unfolding table_ok_def t' using dist S(3) rest disj by (force simp: filter_filter comp_def)
  show "used_ids (sync_physnet pr t) = used_ids t" unfolding t' by (auto simp: used_ids_def)
  show "(pn, v) \<in> free_ids (sync_physnet pr t) \<longleftrightarrow>
       (if pn = fst pr then in_ranges (snd pr) v \<and> (pn, v) \<notin> used_ids t else (pn, v) \<in> free_ids t)"
  proof (cases "pn = fst pr")
    case False
    then show ?thesis using rest by (auto simp: free_ids_def t')
  next
    case True
    have "(pn, v) \<in> free_ids (sync_physnet pr t) \<longleftrightarrow>
        ((pn, v), False) \<in> set t \<and> in_ranges (snd pr) v \<or> (pn, v) \<in> set rest"
      using ids [of v] True by (auto simp: free_ids_def t')
    moreover have "(pn, v) \<in> fst ` set ?mine \<longleftrightarrow> (pn, v) \<in> fst ` set t" using True by force
    then have "(pn, v) \<in> set rest \<longleftrightarrow> in_ranges (snd pr) v \<and> (pn, v) \<notin> fst ` set t"
      using S(2) ids [of v] True by auto
    ultimately show ?thesis
      using True table_ok_unique [OF ok, of "(pn, v)" True False] unfolding in_keys
      by (auto simp: used_ids_def)
  qed
qed

lemma sync_fold_spec:
  assumes "table_ok t" "distinct (map fst ranges)"
  shows "table_ok (foldl (\<lambda>t pr. sync_physnet pr t) t ranges) \<and>
    used_ids (foldl (\<lambda>t pr. sync_physnet pr t) t ranges) = used_ids t \<and>
    (\<forall>pn v. (pn, v) \<in> free_ids (foldl (\<lambda>t pr. sync_physnet pr t) t ranges) \<longleftrightarrow>
       (case map_of ranges pn of Some rngs \<Rightarrow> in_ranges rngs v \<and> (pn, v) \<notin> used_ids t
        | None \<Rightarrow> (pn, v) \<in> free_ids t))"
  using assms
proof (induction ranges arbitrary: t)
  case Nil
  then show ?case by simp
next
  case (Cons pr ranges)
  note P = sync_physnet_spec [OF Cons.prems(1), where pr = pr]
  have none: "map_of ranges (fst pr) = None" using Cons.prems(2) by (simp add: map_of_eq_None_iff)
  have "distinct (map fst ranges)" using Cons.prems(2) by simp
  note IH = Cons.IH [OF P(1) this]
  show ?case
    using IH none unfolding foldl.simps P(2) P(3)
    by (cases pr) (auto split: option.splits)
qed

lemma sync_vlans_spec:
  assumes ok: "table_ok t" and dist: "distinct (map fst ranges)"
  shows "table_ok (sync_vlans ranges t)" "used_ids (sync_vlans ranges t) = used_ids t"
    "free_ids (sync_vlans ranges t) = {k. vlan_in_pool ranges k} - used_ids t"
proof -
  let ?t = "foldl (\<lambda>t pr. sync_physnet pr t) t ranges"
  have F: "table_ok ?t" "used_ids ?t = used_ids t"
    "\<And>pn v. (pn, v) \<in> free_ids ?t \<longleftrightarrow>
       (case map_of ranges pn of Some rngs \<Rightarrow> in_ranges rngs v \<and> (pn, v) \<notin> used_ids t
        | None \<Rightarrow> (pn, v) \<in> free_ids t)" using sync_fold_spec [OF assms] by auto
  show "table_ok (sync_vlans ranges t)"
    using F(1) by (simp add: sync_vlans_def table_ok_def distinct_map_filter)
  have "used_ids (sync_vlans ranges t) = used_ids ?t" by (auto simp: sync_vlans_def used_ids_def)
  then show "used_ids (sync_vlans ranges t) = used_ids t" using F(2) by simp
  have "k \<in> free_ids (sync_vlans ranges t) \<longleftrightarrow> k \<in> free_ids ?t \<and> fst k \<in> fst ` set ranges" for k
    by (auto simp: sync_vlans_def free_ids_def)
  moreover have "fst k \<in> fst ` set ranges \<longleftrightarrow> map_of ranges (fst k) \<noteq> None" for k :: "string \<times> int"
    by (simp add: map_of_eq_None_iff)
  moreover have "vlan_in_pool ranges (pn, v) \<longleftrightarrow> (\<exists>rngs. map_of ranges pn = Some rngs \<and> in_ranges rngs v)" for pn v
    by (cases "map_of ranges pn") (simp_all add: vlan_in_pool_def in_ranges_def)
  ultimately have "(pn, v) \<in> free_ids (sync_vlans ranges t) \<longleftrightarrow>
      vlan_in_pool ranges (pn, v) \<and> (pn, v) \<notin> used_ids t" for pn v
    using F(3) [of pn v] by (cases "map_of ranges pn") simp_all
  then show "free_ids (sync_vlans ranges t) = {k. vlan_in_pool ranges k} - used_ids t" by auto
qed

end
