(* ===== verification/TypeDrivers.thy ===== *)
theory TypeDrivers
  imports SegTable PyVal
begin

text \<open>
  The type drivers of ML2 (\<open>neutron/plugins/ml2/drivers/type_*.py\<close>), the parsing of their
  configuration, and the type manager (\<open>neutron/plugins/ml2/managers.py\<close>) that dispatches to
  them.

  A segment is the dict of the driver API; its three keys are always present, with \<open>None\<close> as
  value where nothing was given, and \<open>sg_extra\<close> holds any other key.
\<close>

record segment =
  sg_network_type :: "string option"
  sg_physical_network :: "string option"
  sg_segmentation_id :: "int option"
  sg_extra :: pydict

record ml2_tables =
  vlan_t :: "(string \<times> int) table"
  gre_t :: "int table"
  vxlan_t :: "int table"
  flat_t :: "string list"
  gre_ends :: "string list"
  vxlan_ends :: "(string \<times> int) list"

record ml2_conf =
  network_vlan_ranges :: vlan_ranges
  gre_id_ranges :: "(int \<times> int) list"
  vxlan_vni_ranges :: "(int \<times> int) list"
  flat_networks :: "string list option"

type_synonym 'a ml2op = "(exc, ml2_tables, 'a) op"

text \<open>An operation on one of the tables, in the session that holds all of them.\<close>

definition on_vlan :: "(exc, (string \<times> int) table, 'a) op \<Rightarrow> 'a ml2op" where
  "on_vlan m = (\<lambda>s. case m (vlan_t s) of Inl e \<Rightarrow> Inl e | Inr (a, t) \<Rightarrow> Inr (a, s\<lparr>vlan_t := t\<rparr>))"

definition on_gre :: "(exc, int table, 'a) op \<Rightarrow> 'a ml2op" where
  "on_gre m = (\<lambda>s. case m (gre_t s) of Inl e \<Rightarrow> Inl e | Inr (a, t) \<Rightarrow> Inr (a, s\<lparr>gre_t := t\<rparr>))"

definition on_vxlan :: "(exc, int table, 'a) op \<Rightarrow> 'a ml2op" where
  "on_vxlan m = (\<lambda>s. case m (vxlan_t s) of Inl e \<Rightarrow> Inl e | Inr (a, t) \<Rightarrow> Inr (a, s\<lparr>vxlan_t := t\<rparr>))"

section \<open>Configuration\<close>

definition is_valid_vlan_tag :: "int \<Rightarrow> bool" where
  "is_valid_vlan_tag vlan \<longleftrightarrow> 1 \<le> vlan \<and> vlan \<le> 4094"

definition show_range :: "int \<times> int \<Rightarrow> string" where
  "show_range r = show_int (fst r) @ '':'' @ show_int (snd r)"

definition verify_vlan_range :: "int \<times> int \<Rightarrow> exc + unit" where
  "verify_vlan_range r =
     bindR (forR (\<lambda>tag. if \<not> is_valid_vlan_tag tag
                        then Inl (NetworkVlanRangeError (show_range r) (show_int tag @ '' is not a valid VLAN tag''))
                        else Inr ()) [fst r, snd r]) (\<lambda>_.
       if snd r < fst r
       then Inl (NetworkVlanRangeError (show_range r) ''End of VLAN range is less than start of VLAN range'')
       else Inr ())"

text \<open>Three fields must follow from the split; anything else is the \<open>ValueError\<close> that is translated.\<close>

definition parse_network_vlan_range :: "string \<Rightarrow> exc + string \<times> (int \<times> int) option" where
  "parse_network_vlan_range s =
     (let entry = py_strip s in
      if CHR '':'' \<in> set entry then
        (case py_split (CHR '':'') entry of
           [network, vlan_min, vlan_max] \<Rightarrow>
             (case (py_int vlan_min, py_int vlan_max) of
                (Inr lo, Inr hi) \<Rightarrow>
                  bindR (verify_vlan_range (lo, hi)) (\<lambda>_. Inr (network, Some (lo, hi)))
              | _ \<Rightarrow> Inl (NetworkVlanRangeError entry ''ValueError''))
         | _ \<Rightarrow> Inl (NetworkVlanRangeError entry ''ValueError''))
      else Inr (entry, None))"

text \<open>\<open>networks.setdefault(network, []).append(...)\<close>.\<close>

definition dict_extend :: "string \<Rightarrow> (int \<times> int) list \<Rightarrow> vlan_ranges \<Rightarrow> vlan_ranges" where
  "dict_extend k rs d =
     (if k \<in> fst ` set d then map (\<lambda>(k', v). if k' = k then (k', v @ rs) else (k', v)) d else d @ [(k, rs)])"

fun parse_network_vlan_ranges_from :: "vlan_ranges \<Rightarrow> string list \<Rightarrow> exc + vlan_ranges" where
  "parse_network_vlan_ranges_from networks [] = Inr networks"
| "parse_network_vlan_ranges_from networks (entry # rest) =
     bindR (parse_network_vlan_range entry) (\<lambda>(network, vlan_range).
       parse_network_vlan_ranges_from
         (dict_extend network (case vlan_range of None \<Rightarrow> [] | Some r \<Rightarrow> [r]) networks) rest)"

definition parse_network_vlan_ranges :: "string list \<Rightarrow> exc + vlan_ranges" where
  "parse_network_vlan_ranges entries = parse_network_vlan_ranges_from [] entries"

text \<open>The VLAN driver ends the process when its ranges cannot be parsed.\<close>

definition vlan_init :: "string list \<Rightarrow> exc + vlan_ranges" where
  "vlan_init entries = (case parse_network_vlan_ranges entries of Inl _ \<Rightarrow> Inl (SystemExit 1) | Inr r \<Rightarrow> Inr r)"

text \<open>The tunnel drivers log an entry they cannot parse and go on.\<close>

fun parse_tunnel_ranges :: "string list \<Rightarrow> (int \<times> int) list \<Rightarrow> (int \<times> int) list" where
  "parse_tunnel_ranges [] current_range = current_range"
| "parse_tunnel_ranges (entry # rest) current_range =
     parse_tunnel_ranges rest
       (case py_split (CHR '':'') (py_strip entry) of
          [tun_min, tun_max] \<Rightarrow>
            (case (py_int (py_strip tun_min), py_int (py_strip tun_max)) of
               (Inr lo, Inr hi) \<Rightarrow> current_range @ [(lo, hi)]
             | _ \<Rightarrow> current_range)
        | _ \<Rightarrow> current_range)"

definition parse_flat_networks :: "string list \<Rightarrow> string list option" where
  "parse_flat_networks entries = (if ''*'' \<in> set entries then None else Some entries)"

section \<open>Provider segments\<close>

definition not_given :: "string option \<Rightarrow> bool" where
  "not_given s \<longleftrightarrow> s = None \<or> s = Some []"

definition extra_given :: "segment \<Rightarrow> bool" where
  "extra_given s \<longleftrightarrow> (\<exists>(k, v) \<in> set (sg_extra s). py_true v)"

definition id_given :: "segment \<Rightarrow> bool" where
  "id_given s \<longleftrightarrow> (case sg_segmentation_id s of None \<Rightarrow> False | Some n \<Rightarrow> n \<noteq> 0)"

definition vlan_validate_provider_segment :: "ml2_conf \<Rightarrow> segment \<Rightarrow> exc + unit" where
  "vlan_validate_provider_segment c s =
     (if not_given (sg_physical_network s)
      then Inl (InvalidInput ''physical_network required for VLAN provider network'')
      else if the (sg_physical_network s) \<notin> fst ` set (network_vlan_ranges c)
      then Inl (InvalidInput ''physical_network unknown for VLAN provider network'')
      else (case sg_segmentation_id s of
              None \<Rightarrow> Inl (InvalidInput ''segmentation_id required for VLAN provider network'')
            | Some n \<Rightarrow>
                (if \<not> is_valid_vlan_tag n then Inl (InvalidInput ''segmentation_id out of range (%(min)s through %(max)s)'')
                 else if extra_given s then Inl (InvalidInput ''%s prohibited for VLAN provider network'')
                 else Inr ())))"

definition tunnel_validate_provider_segment :: "segment \<Rightarrow> exc + unit" where
  "tunnel_validate_provider_segment s =
     (if \<not> not_given (sg_physical_network s)
      then Inl (InvalidInput ''provider:physical_network specified for %s network'')
      else if \<not> id_given s then Inl (InvalidInput ''segmentation_id required for %s provider network'')
      else if extra_given s then Inl (InvalidInput ''%(key)s prohibited for %(tunnel)s provider network'')
      else Inr ())"

definition flat_validate_provider_segment :: "ml2_conf \<Rightarrow> segment \<Rightarrow> exc + unit" where
  "flat_validate_provider_segment c s =
     (if not_given (sg_physical_network s)
      then Inl (InvalidInput ''physical_network required for flat provider network'')
      else if (case flat_networks c of None \<Rightarrow> False
               | Some ns \<Rightarrow> ns \<noteq> [] \<and> the (sg_physical_network s) \<notin> set ns)
      then Inl (InvalidInput ''physical_network unknown for flat provider network'')
      else if id_given s \<or> extra_given s then Inl (InvalidInput ''%s prohibited for flat provider network'')
      else Inr ())"

definition local_validate_provider_segment :: "segment \<Rightarrow> exc + unit" where
  "local_validate_provider_segment s =
     (if \<not> not_given (sg_physical_network s) \<or> id_given s \<or> extra_given s
      then Inl (InvalidInput ''%s prohibited for local provider network'') else Inr ())"

section \<open>VLAN\<close>

text \<open>
  A missing key value selects no row; a row without it violates the table's primary key.
\<close>

definition vlan_key :: "segment \<Rightarrow> (string \<times> int) option" where
  "vlan_key s = (case (sg_physical_network s, sg_segmentation_id s) of (Some p, Some n) \<Rightarrow> Some (p, n) | _ \<Rightarrow> None)"

definition vlan_reserve_provider_segment :: "segment \<Rightarrow> unit ml2op" where
  "vlan_reserve_provider_segment s =
     (case vlan_key s of
        None \<Rightarrow> raiseE IntegrityError
      | Some k \<Rightarrow> on_vlan (reserve_specific (VlanIdInUse (snd k) (fst k)) k))"

definition vlan_allocate_tenant_segment :: "segment option ml2op" where
  "vlan_allocate_tenant_segment =
     bindE (on_vlan reserve_first) (\<lambda>k. returnE (map_option (\<lambda>(p, n).
       \<lparr>sg_network_type = Some ''vlan'', sg_physical_network = Some p, sg_segmentation_id = Some n, sg_extra = []\<rparr>) k))"

definition vlan_release_segment :: "ml2_conf \<Rightarrow> segment \<Rightarrow> unit ml2op" where
  "vlan_release_segment c s =
     (case vlan_key s of None \<Rightarrow> returnE ()
      | Some k \<Rightarrow> on_vlan (release_id (vlan_in_pool (network_vlan_ranges c)) k))"

definition sync_vlan_allocations :: "ml2_conf \<Rightarrow> unit ml2op" where
  "sync_vlan_allocations c = on_vlan (modifyE (sync_vlans (network_vlan_ranges c)))"

section \<open>GRE and VXLAN\<close>

definition tunnel_segment :: "string \<Rightarrow> int \<Rightarrow> segment" where
  "tunnel_segment ty n =
     \<lparr>sg_network_type = Some ty, sg_physical_network = None, sg_segmentation_id = Some n, sg_extra = []\<rparr>"

definition tunnel_reserve :: "segment \<Rightarrow> (exc, int table, unit) op" where
  "tunnel_reserve s =
     (case sg_segmentation_id s of None \<Rightarrow> raiseE IntegrityError
      | Some n \<Rightarrow> reserve_specific (TunnelIdInUse n) n)"

text \<open>
  The loop over the ranges in \<open>release_segment\<close>: the \<open>else\<close> belongs to the \<open>if\<close> in its body, so the
  row is deleted at the first range that does not contain the identifier, also when a later one
  does.
\<close>

fun release_ranges :: "(int \<times> int) list \<Rightarrow> int \<Rightarrow> int table \<Rightarrow> int table" where
  "release_ranges [] n t = t"
| "release_ranges (r # rs) n t =
     (if fst r \<le> n \<and> n \<le> snd r then t else release_ranges rs n (del_alloc n t))"

definition tunnel_release :: "(int \<times> int) list \<Rightarrow> segment \<Rightarrow> (exc, int table, unit) op" where
  "tunnel_release ranges s =
     (case sg_segmentation_id s of None \<Rightarrow> returnE ()
      | Some n \<Rightarrow>
          bindE (checkE (get_alloc n)) (\<lambda>row.
            case row of None \<Rightarrow> returnE ()
            | Some _ \<Rightarrow> modifyE (\<lambda>t. release_ranges ranges n (set_alloc n False t))))"

definition gre_reserve_provider_segment :: "segment \<Rightarrow> unit ml2op" where
  "gre_reserve_provider_segment s = on_gre (tunnel_reserve s)"

definition gre_allocate_tenant_segment :: "segment option ml2op" where
  "gre_allocate_tenant_segment =
     bindE (on_gre reserve_first) (\<lambda>k. returnE (map_option (tunnel_segment ''gre'') k))"

definition gre_release_segment :: "ml2_conf \<Rightarrow> segment \<Rightarrow> unit ml2op" where
  "gre_release_segment c s = on_gre (tunnel_release (gre_id_ranges c) s)"

definition sync_gre_allocations :: "ml2_conf \<Rightarrow> unit ml2op" where
  "sync_gre_allocations c = on_gre (modifyE (sync_tunnels 1000000 (gre_id_ranges c)))"

definition vxlan_reserve_provider_segment :: "segment \<Rightarrow> unit ml2op" where
  "vxlan_reserve_provider_segment s = on_vxlan (tunnel_reserve s)"

definition vxlan_allocate_tenant_segment :: "segment option ml2op" where
  "vxlan_allocate_tenant_segment =
     bindE (on_vxlan reserve_first) (\<lambda>k. returnE (map_option (tunnel_segment ''vxlan'') k))"

definition vxlan_release_segment :: "ml2_conf \<Rightarrow> segment \<Rightarrow> unit ml2op" where
  "vxlan_release_segment c s = on_vxlan (tunnel_release (vxlan_vni_ranges c) s)"

definition sync_vxlan_allocations :: "ml2_conf \<Rightarrow> unit ml2op" where
  "sync_vxlan_allocations c = on_vxlan (modifyE (sync_tunnels 16777215 (vxlan_vni_ranges c)))"

text \<open>Tunnel endpoints.\<close>

definition gre_add_endpoint :: "string \<Rightarrow> string ml2op" where
  "gre_add_endpoint ip = bindE (modifyE (\<lambda>s. if ip \<in> set (gre_ends s) then s else s\<lparr>gre_ends := gre_ends s @ [ip]\<rparr>))
     (\<lambda>_. returnE ip)"

definition gre_get_endpoints :: "ml2_tables \<Rightarrow> pyval" where
  "gre_get_endpoints s = PList (map (\<lambda>ip. PDict [(''ip_address'', PStr ip)]) (gre_ends s))"

definition vxlan_add_endpoint :: "string \<Rightarrow> int \<Rightarrow> string ml2op" where
  "vxlan_add_endpoint ip udp_port =
     bindE (checkE (\<lambda>s. one_row MultipleResultsFound (filter (\<lambda>e. fst e = ip) (vxlan_ends s)))) (\<lambda>row.
       case row of
         Some e \<Rightarrow> returnE (fst e)
       | None \<Rightarrow> bindE (modifyE (\<lambda>s. s\<lparr>vxlan_ends := vxlan_ends s @ [(ip, udp_port)]\<rparr>)) (\<lambda>_. returnE ip))"

definition vxlan_get_endpoints :: "ml2_tables \<Rightarrow> pyval" where
  "vxlan_get_endpoints s =
     PList (map (\<lambda>(ip, prt). PDict [(''ip_address'', PStr ip), (''udp_port'', PInt prt)]) (vxlan_ends s))"

section \<open>Flat\<close>

definition flat_reserve_provider_segment :: "segment \<Rightarrow> unit ml2op" where
  "flat_reserve_provider_segment s =
     (case sg_physical_network s of
        None \<Rightarrow> raiseE IntegrityError
      | Some p \<Rightarrow> (\<lambda>st. if p \<in> set (flat_t st) then Inl (FlatNetworkInUse p)
                         else Inr ((), st\<lparr>flat_t := flat_t st @ [p]\<rparr>)))"

definition flat_release_segment :: "segment \<Rightarrow> unit ml2op" where
  "flat_release_segment s =
     modifyE (\<lambda>st. st\<lparr>flat_t := filter (\<lambda>p. Some p \<noteq> sg_physical_network s) (flat_t st)\<rparr>)"

section \<open>The type manager\<close>

text \<open>A type driver as the manager sees it; the last two fields are for the tunnel types.\<close>

record type_driver =
  td_type :: string
  td_initialize :: "unit ml2op"
  td_validate :: "segment \<Rightarrow> exc + unit"
  td_reserve :: "segment \<Rightarrow> unit ml2op"
  td_allocate :: "segment option ml2op"
  td_release :: "segment \<Rightarrow> unit ml2op"
  td_add_endpoint :: "(string \<Rightarrow> string ml2op) option"
  td_get_endpoints :: "(ml2_tables \<Rightarrow> pyval) option"

definition vlan_driver :: "ml2_conf \<Rightarrow> type_driver" where
  "vlan_driver c = \<lparr>td_type = ''vlan'', td_initialize = sync_vlan_allocations c,
     td_validate = vlan_validate_provider_segment c, td_reserve = vlan_reserve_provider_segment,
     td_allocate = vlan_allocate_tenant_segment, td_release = vlan_release_segment c,
     td_add_endpoint = None, td_get_endpoints = None\<rparr>"

definition gre_driver :: "ml2_conf \<Rightarrow> type_driver" where
  "gre_driver c = \<lparr>td_type = ''gre'', td_initialize = sync_gre_allocations c,
     td_validate = tunnel_validate_provider_segment, td_reserve = gre_reserve_provider_segment,
     td_allocate = gre_allocate_tenant_segment, td_release = gre_release_segment c,
     td_add_endpoint = Some gre_add_endpoint, td_get_endpoints = Some gre_get_endpoints\<rparr>"

definition vxlan_driver :: "ml2_conf \<Rightarrow> type_driver" where
  "vxlan_driver c = \<lparr>td_type = ''vxlan'', td_initialize = sync_vxlan_allocations c,
     td_validate = tunnel_validate_provider_segment, td_reserve = vxlan_reserve_provider_segment,
     td_allocate = vxlan_allocate_tenant_segment, td_release = vxlan_release_segment c,
     td_add_endpoint = Some (\<lambda>ip. vxlan_add_endpoint ip 4789), td_get_endpoints = Some vxlan_get_endpoints\<rparr>"

definition flat_driver :: "ml2_conf \<Rightarrow> type_driver" where
  "flat_driver c = \<lparr>td_type = ''flat'', td_initialize = returnE (),
     td_validate = flat_validate_provider_segment c, td_reserve = flat_reserve_provider_segment,
     td_allocate = returnE None, td_release = flat_release_segment,
     td_add_endpoint = None, td_get_endpoints = None\<rparr>"

definition local_driver :: type_driver where
  "local_driver = \<lparr>td_type = ''local'', td_initialize = returnE (),
     td_validate = local_validate_provider_segment, td_reserve = (\<lambda>_. returnE ()),
     td_allocate = returnE (Some \<lparr>sg_network_type = Some ''local'', sg_physical_network = None,
        sg_segmentation_id = None, sg_extra = []\<rparr>),
     td_release = (\<lambda>_. returnE ()), td_add_endpoint = None, td_get_endpoints = None\<rparr>"

text \<open>\<open>_register_types\<close>: the first driver of a type wins.\<close>

fun register_types :: "(string \<times> type_driver) list \<Rightarrow> type_driver list \<Rightarrow> (string \<times> type_driver) list" where
  "register_types drivers [] = drivers"
| "register_types drivers (ext # exts) =
     register_types (if td_type ext \<in> fst ` set drivers then drivers else drivers @ [(td_type ext, ext)]) exts"

definition check_tenant_network_types :: "(string \<times> type_driver) list \<Rightarrow> string list \<Rightarrow> exc + string list" where
  "check_tenant_network_types drivers types =
     bindR (forR (\<lambda>ty. if ty \<in> fst ` set drivers then Inr () else Inl (SystemExit 1)) types) (\<lambda>_. Inr types)"

definition manager_initialize :: "(string \<times> type_driver) list \<Rightarrow> unit ml2op" where
  "manager_initialize drivers = forE (\<lambda>d. td_initialize (snd d)) drivers"

definition driver_for :: "(string \<times> type_driver) list \<Rightarrow> string option \<Rightarrow> type_driver option" where
  "driver_for drivers ty = Option.bind ty (map_of drivers)"

definition manager_validate :: "(string \<times> type_driver) list \<Rightarrow> segment \<Rightarrow> exc + unit" where
  "manager_validate drivers s =
     (case driver_for drivers (sg_network_type s) of
        Some d \<Rightarrow> td_validate d s
      | None \<Rightarrow> Inl (InvalidInput ''network_type value not supported''))"

definition manager_reserve :: "(string \<times> type_driver) list \<Rightarrow> segment \<Rightarrow> unit ml2op" where
  "manager_reserve drivers s =
     (case driver_for drivers (sg_network_type s) of
        Some d \<Rightarrow> td_reserve d s | None \<Rightarrow> raiseE (AttributeError ''obj''))"

fun manager_allocate :: "(string \<times> type_driver) list \<Rightarrow> string list \<Rightarrow> segment ml2op" where
  "manager_allocate drivers [] = raiseE NoNetworkAvailable"
| "manager_allocate drivers (ty # types) =
     (case driver_for drivers (Some ty) of
        None \<Rightarrow> raiseE (AttributeError ''obj'')
      | Some d \<Rightarrow> bindE (td_allocate d) (\<lambda>seg.
          case seg of Some s \<Rightarrow> returnE s | None \<Rightarrow> manager_allocate drivers types))"

definition manager_release :: "(string \<times> type_driver) list \<Rightarrow> segment \<Rightarrow> unit ml2op" where
  "manager_release drivers s =
     (case driver_for drivers (sg_network_type s) of
        Some d \<Rightarrow> td_release d s | None \<Rightarrow> raiseE (AttributeError ''obj''))"

text \<open>
  \<open>tunnel_sync\<close>: registers the endpoint of an agent; the result is the answer to the agent and the
  notification that is cast to the others.
\<close>

definition tunnel_sync ::
    "(string \<times> type_driver) list \<Rightarrow> string \<Rightarrow> string option \<Rightarrow> (pydict \<times> string \<times> string) ml2op" where
  "tunnel_sync drivers tunnel_ip tunnel_type =
     (if not_given tunnel_type then raiseE (InvalidInput ''Network_type value needed by the ML2 plugin'')
      else (case driver_for drivers tunnel_type of
              None \<Rightarrow> raiseE (InvalidInput ''network_type value not supported'')
            | Some d \<Rightarrow>
                (case (td_add_endpoint d, td_get_endpoints d) of
                   (Some add, Some get) \<Rightarrow>
                     bindE (add tunnel_ip) (\<lambda>ip. bindE (getsE get) (\<lambda>tunnels.
                       returnE ([(''tunnels'', tunnels)], ip, the tunnel_type)))
                 | _ \<Rightarrow> raiseE (AttributeError ''add_endpoint''))))"

end
