(* ===== verification/TypeDriverProps.thy ===== *)
theory TypeDriverProps
  imports TypeDrivers
begin

text \<open>
  The type drivers as allocators, and their properties: synchronisation, reservation and release
  against the sets of used and free identifiers, exhaustion, and the parsing of VLAN ranges.
\<close>

lemma on_vlan_apply:
  "on_vlan m s = (case m (vlan_t s) of Inl e \<Rightarrow> Inl e | Inr (a, t) \<Rightarrow> Inr (a, s\<lparr>vlan_t := t\<rparr>))"
  by (simp add: on_vlan_def)

lemma on_gre_apply:
  "on_gre m s = (case m (gre_t s) of Inl e \<Rightarrow> Inl e | Inr (a, t) \<Rightarrow> Inr (a, s\<lparr>gre_t := t\<rparr>))"
  by (simp add: on_gre_def)

lemma on_vxlan_apply:
  "on_vxlan m s = (case m (vxlan_t s) of Inl e \<Rightarrow> Inl e | Inr (a, t) \<Rightarrow> Inr (a, s\<lparr>vxlan_t := t\<rparr>))"
  by (simp add: on_vxlan_def)

lemmas on_table_simps = on_vlan_apply on_gre_apply on_vxlan_apply

section \<open>Interpretations\<close>

text \<open>
  The VLAN driver behind the manager: between synchronisations every free identifier belongs to
  the configured pool, so that a released one can be allocated again.
\<close>

definition vlan_ready :: "ml2_conf \<Rightarrow> ml2_tables \<Rightarrow> bool" where
  "vlan_ready c s \<longleftrightarrow> table_ok (vlan_t s) \<and> free_ids (vlan_t s) \<subseteq> {k. vlan_in_pool (network_vlan_ranges c) k}"

definition managed_vlans :: "ml2_tables \<Rightarrow> (string \<times> int) set" where
  "managed_vlans s = fst ` set (vlan_t s)"

definition seg_vlan :: "segment \<Rightarrow> string \<times> int" where
  "seg_vlan s = (the (sg_physical_network s), the (sg_segmentation_id s))"

definition builtin_drivers :: "ml2_conf \<Rightarrow> (string \<times> type_driver) list" where
  "builtin_drivers c = register_types [] [local_driver, flat_driver c, vlan_driver c, gre_driver c, vxlan_driver c]"

lemma builtin_driver_for [simp]:
  "driver_for (builtin_drivers c) (Some ''vlan'') = Some (vlan_driver c)"
  "driver_for (builtin_drivers c) (Some ''gre'') = Some (gre_driver c)"
  "driver_for (builtin_drivers c) (Some ''vxlan'') = Some (vxlan_driver c)"
  by (simp_all add: driver_for_def builtin_drivers_def local_driver_def flat_driver_def vlan_driver_def
      gre_driver_def vxlan_driver_def)

lemma free_vlan_row: "k \<in> free_ids t \<Longrightarrow> k \<in> fst ` set t"
  by (force simp: free_ids_def)

lemma keys_unchanged: "table_ok t \<Longrightarrow> k \<in> free_ids t \<Longrightarrow> used_ids t' = insert k (used_ids t) \<Longrightarrow>
    free_ids t' = free_ids t - {k} \<Longrightarrow> fst ` set t' = fst ` set t"
  by (intro set_eqI) (unfold in_keys, auto simp: used_ids_def free_ids_def set_eq_iff)

lemma vlan_allocate_spec:
  assumes ok: "table_ok (vlan_t s)"
  shows "if free_ids (vlan_t s) = {} then manager_allocate (builtin_drivers c) [''vlan''] s = Inl NoNetworkAvailable
    else \<exists>seg t'. manager_allocate (builtin_drivers c) [''vlan''] s = Inr (seg, s\<lparr>vlan_t := t'\<rparr>) \<and>
      vlan_key seg = Some (seg_vlan seg) \<and> sg_network_type seg = Some ''vlan'' \<and>
      seg_vlan seg \<in> free_ids (vlan_t s) \<and> table_ok t' \<and>
      used_ids t' = insert (seg_vlan seg) (used_ids (vlan_t s)) \<and> free_ids t' = free_ids (vlan_t s) - {seg_vlan seg}"
proof (cases "free_ids (vlan_t s) = {}")
  case True
  with reserve_first_spec [OF ok] have "reserve_first (vlan_t s) = Inr (None, vlan_t s)" by simp
  with True show ?thesis
    by (simp add: vlan_driver_def vlan_allocate_tenant_segment_def bindE_def on_table_simps)
next
  case False
  with reserve_first_spec [OF ok] obtain k t' where run: "reserve_first (vlan_t s) = Inr (Some k, t')"
    and k: "k \<in> free_ids (vlan_t s)" "table_ok t'" "used_ids t' = insert k (used_ids (vlan_t s))"
      "free_ids t' = free_ids (vlan_t s) - {k}" by auto
  let ?seg = "\<lparr>sg_network_type = Some ''vlan'', sg_physical_network = Some (fst k),
      sg_segmentation_id = Some (snd k), sg_extra = []\<rparr>"
  have "manager_allocate (builtin_drivers c) [''vlan''] s = Inr (?seg, s\<lparr>vlan_t := t'\<rparr>)"
    using run by (cases k) (simp add: vlan_driver_def vlan_allocate_tenant_segment_def bindE_def on_table_simps)
  moreover have "seg_vlan ?seg = k" "vlan_key ?seg = Some k" by (simp_all add: seg_vlan_def vlan_key_def)
  ultimately show ?thesis using k False by (auto intro!: exI [of _ ?seg] exI [of _ t'])
qed

lemma vlan_release_spec:
  assumes ok: "table_ok (vlan_t s)" and key: "vlan_key seg = Some k"
  shows "\<exists>t'. vlan_release_segment c seg s = Inr ((), s\<lparr>vlan_t := t'\<rparr>) \<and> table_ok t' \<and>
    used_ids t' = used_ids (vlan_t s) - {k} \<and>
    free_ids t' = (if k \<in> fst ` set (vlan_t s)
                   then (if vlan_in_pool (network_vlan_ranges c) k then insert k (free_ids (vlan_t s))
                         else free_ids (vlan_t s) - {k})
                   else free_ids (vlan_t s))"
proof -
  obtain t' where "release_id (vlan_in_pool (network_vlan_ranges c)) k (vlan_t s) = Inr ((), t')" "table_ok t'"
    "used_ids t' = used_ids (vlan_t s) - {k}"
    "free_ids t' = (if k \<in> fst ` set (vlan_t s)
                   then (if vlan_in_pool (network_vlan_ranges c) k then insert k (free_ids (vlan_t s))
                         else free_ids (vlan_t s) - {k})
                   else free_ids (vlan_t s))"
    using release_id_spec [OF ok] by blast
  then show ?thesis
    by (intro exI [of _ t']) (simp add: vlan_release_segment_def key on_table_simps)
qed

interpretation vlans: store "vlan_ready c" "\<lambda>s. free_ids (vlan_t s)" seg_vlan
    "manager_allocate (builtin_drivers c) [''vlan'']" managed_vlans "manager_release (builtin_drivers c)" for c
proof unfold_locales
  fix s a t
  assume ready: "vlan_ready c s"
  then have ok: "table_ok (vlan_t s)" and pool: "free_ids (vlan_t s) \<subseteq> {k. vlan_in_pool (network_vlan_ranges c) k}"
    by (simp_all add: vlan_ready_def)
  note A = vlan_allocate_spec [OF ok, of c]
  show "\<exists>a t. manager_allocate (builtin_drivers c) [''vlan''] s = Inr (a, t)" if "free_ids (vlan_t s) \<noteq> {}"
    using A that by auto
  show "\<exists>e. manager_allocate (builtin_drivers c) [''vlan''] s = Inl e" if "free_ids (vlan_t s) = {}"
    using A that by auto
  show "free_ids (vlan_t s) \<subseteq> managed_vlans s"
    using free_vlan_row by (auto simp: managed_vlans_def)
  assume run: "manager_allocate (builtin_drivers c) [''vlan''] s = Inr (a, t)"
  with A have "free_ids (vlan_t s) \<noteq> {}" by auto
  with A run obtain t' where t: "t = s\<lparr>vlan_t := t'\<rparr>" "vlan_key a = Some (seg_vlan a)"
    "sg_network_type a = Some ''vlan''" "seg_vlan a \<in> free_ids (vlan_t s)" "table_ok t'"
    "used_ids t' = insert (seg_vlan a) (used_ids (vlan_t s))" "free_ids t' = free_ids (vlan_t s) - {seg_vlan a}"
    by auto
  then show "seg_vlan a \<in> free_ids (vlan_t s) \<and> free_ids (vlan_t t) = free_ids (vlan_t s) - {seg_vlan a} \<and>
      vlan_ready c t" using pool by (auto simp: vlan_ready_def)
  show "managed_vlans t = managed_vlans s"
    using keys_unchanged [OF ok t(4,6,7)] t(1) by (simp add: managed_vlans_def)
  fix u assume u: "vlan_ready c u" "managed_vlans u = managed_vlans s" "seg_vlan a \<notin> free_ids (vlan_t u)"
  then have ok': "table_ok (vlan_t u)" by (simp add: vlan_ready_def)
  have in_u: "seg_vlan a \<in> fst ` set (vlan_t u)"
    using t(4) u(2) free_vlan_row by (auto simp: managed_vlans_def)
  have in_pool: "vlan_in_pool (network_vlan_ranges c) (seg_vlan a)" using t(4) pool by auto
  from vlan_release_spec [OF ok' t(2), of c] obtain w where
    w: "vlan_release_segment c a u = Inr ((), u\<lparr>vlan_t := w\<rparr>)" "table_ok w"
      "free_ids w = insert (seg_vlan a) (free_ids (vlan_t u))" using in_u in_pool by auto
  have "manager_release (builtin_drivers c) a u = Inr ((), u\<lparr>vlan_t := w\<rparr>)"
    using w(1) by (simp add: manager_release_def t(3) vlan_driver_def)
  with w u(1) in_pool show "\<exists>w. manager_release (builtin_drivers c) a u = Inr ((), w) \<and> vlan_ready c w \<and>
      free_ids (vlan_t w) = insert (seg_vlan a) (free_ids (vlan_t u))"
    by (auto simp: vlan_ready_def)
qed

section \<open>Properties\<close>

text \<open>
  C13: after \<open>_sync_vlan_allocations\<close> the free VLANs are exactly those of the configured ranges that
  are not in use, and the VLANs in use are what they were.
\<close>

theorem vlan_sync_exact:
  assumes "table_ok (vlan_t s)" and "distinct (map fst (network_vlan_ranges c))"
  shows "\<exists>t. sync_vlan_allocations c s = Inr ((), s\<lparr>vlan_t := t\<rparr>) \<and> table_ok t \<and>
     used_ids t = used_ids (vlan_t s) \<and>
     free_ids t = {k. vlan_in_pool (network_vlan_ranges c) k} - used_ids (vlan_t s)"
  using sync_vlans_spec [OF assms]
  by (intro exI [of _ "sync_vlans (network_vlan_ranges c) (vlan_t s)"])
     (simp add: sync_vlan_allocations_def on_table_simps)

definition demo_ml2 :: ml2_conf where
  "demo_ml2 = \<lparr>network_vlan_ranges = [(''a'', [(10, 12), (20, 20)]), (''b'', [])],
     gre_id_ranges = [(1, 2), (5, 6)], vxlan_vni_ranges = [], flat_networks = None\<rparr>"

definition demo_tables :: ml2_tables where
  "demo_tables = \<lparr>vlan_t = [((''a'', 12), True), ((''c'', 3), False), ((''a'', 30), True), ((''a'', 31), False)],
     gre_t = [(1, False), (5, True)], vxlan_t = [], flat_t = [], gre_ends = [], vxlan_ends = []\<rparr>"

theorem vlan_sync_exact_witness:
  "\<exists>t. sync_vlan_allocations demo_ml2 demo_tables = Inr ((), demo_tables\<lparr>vlan_t := t\<rparr>) \<and>
     used_ids t = {(''a'', 12), (''a'', 30)}"
proof -
  have "table_ok (vlan_t demo_tables)" "distinct (map fst (network_vlan_ranges demo_ml2))"
    by (simp_all add: demo_tables_def demo_ml2_def table_ok_def)
  from vlan_sync_exact [OF this] have "\<exists>t. sync_vlan_allocations demo_ml2 demo_tables =
      Inr ((), demo_tables\<lparr>vlan_t := t\<rparr>) \<and> used_ids t = used_ids (vlan_t demo_tables)" by blast
  moreover have "used_ids (vlan_t demo_tables) = {(''a'', 12), (''a'', 30)}"
    by (auto simp: used_ids_def demo_tables_def)
  ultimately show ?thesis by simp
qed

definition vlan_abs :: "ml2_tables \<Rightarrow> (string \<times> int) set \<times> (string \<times> int) set" where
  "vlan_abs s = (used_ids (vlan_t s), free_ids (vlan_t s))"

text \<open>
  C14: reserving and releasing a VLAN refine the operations on the sets of used and free VLANs:
  a VLAN in use is refused, any other becomes used; releasing never raises and makes the VLAN
  free exactly when it has a row and belongs to the pool.
\<close>

theorem vlan_refines_sets:
  assumes "table_ok (vlan_t s)" and "vlan_key seg = Some k"
  shows "(case vlan_reserve_provider_segment seg s of
            Inl e \<Rightarrow> k \<in> used_ids (vlan_t s) \<and> e = VlanIdInUse (snd k) (fst k)
          | Inr (_, s') \<Rightarrow> k \<notin> used_ids (vlan_t s) \<and> table_ok (vlan_t s') \<and>
              vlan_abs s' = (insert k (used_ids (vlan_t s)), free_ids (vlan_t s) - {k})) \<and>
         (\<exists>s'. vlan_release_segment c seg s = Inr ((), s') \<and> table_ok (vlan_t s') \<and>
            vlan_abs s' = (used_ids (vlan_t s) - {k},
              if k \<notin> fst ` set (vlan_t s) then free_ids (vlan_t s)
              else if vlan_in_pool (network_vlan_ranges c) k then insert k (free_ids (vlan_t s))
              else free_ids (vlan_t s) - {k}))"
proof
  show "case vlan_reserve_provider_segment seg s of
            Inl e \<Rightarrow> k \<in> used_ids (vlan_t s) \<and> e = VlanIdInUse (snd k) (fst k)
          | Inr (_, s') \<Rightarrow> k \<notin> used_ids (vlan_t s) \<and> table_ok (vlan_t s') \<and>
              vlan_abs s' = (insert k (used_ids (vlan_t s)), free_ids (vlan_t s) - {k})"
    using reserve_specific_spec [OF assms(1), of k "VlanIdInUse (snd k) (fst k)"]
    by (cases "k \<in> used_ids (vlan_t s)")
       (auto simp: vlan_reserve_provider_segment_def assms(2) on_table_simps vlan_abs_def)
  obtain t' where "vlan_release_segment c seg s = Inr ((), s\<lparr>vlan_t := t'\<rparr>)" "table_ok t'"
    "used_ids t' = used_ids (vlan_t s) - {k}"
    "free_ids t' = (if k \<in> fst ` set (vlan_t s)
                   then (if vlan_in_pool (network_vlan_ranges c) k then insert k (free_ids (vlan_t s))
                         else free_ids (vlan_t s) - {k})
                   else free_ids (vlan_t s))"
    using vlan_release_spec [OF assms, of c] by blast
  then show "\<exists>s'. vlan_release_segment c seg s = Inr ((), s') \<and> table_ok (vlan_t s') \<and>
            vlan_abs s' = (used_ids (vlan_t s) - {k},
              if k \<notin> fst ` set (vlan_t s) then free_ids (vlan_t s)
              else if vlan_in_pool (network_vlan_ranges c) k then insert k (free_ids (vlan_t s))
              else free_ids (vlan_t s) - {k})"
    by (intro exI [of _ "s\<lparr>vlan_t := t'\<rparr>"]) (simp add: vlan_abs_def)
qed

theorem vlan_refines_sets_witness:
  "vlan_reserve_provider_segment (tunnel_segment ''vlan'' 12\<lparr>sg_physical_network := Some ''a''\<rparr>) demo_tables =
     Inl (VlanIdInUse 12 ''a'')"
proof -
  let ?seg = "tunnel_segment ''vlan'' 12\<lparr>sg_physical_network := Some ''a''\<rparr>"
  have ok: "table_ok (vlan_t demo_tables)" by (simp add: demo_tables_def table_ok_def)
  have key: "vlan_key ?seg = Some (''a'', 12)" by (simp add: vlan_key_def tunnel_segment_def)
  have "(''a'', 12) \<in> used_ids (vlan_t demo_tables)" by (simp add: used_ids_def demo_tables_def)
  with vlan_refines_sets [OF ok key, of demo_ml2] show ?thesis
    by (auto split: sum.splits)
qed

lemma tunnel_allocate_spec:
  assumes "table_ok (gre_t s)" "table_ok (vxlan_t s)"
  shows "if free_ids (gre_t s) = {} then gre_allocate_tenant_segment s = Inr (None, s)
     else \<exists>n s'. gre_allocate_tenant_segment s = Inr (Some (tunnel_segment ''gre'' n), s') \<and> n \<in> free_ids (gre_t s)"
    and "if free_ids (vxlan_t s) = {} then vxlan_allocate_tenant_segment s = Inr (None, s)
     else \<exists>n s'. vxlan_allocate_tenant_segment s = Inr (Some (tunnel_segment ''vxlan'' n), s') \<and> n \<in> free_ids (vxlan_t s)"
  using reserve_first_spec [OF assms(1)] reserve_first_spec [OF assms(2)]
  by (auto simp: gre_allocate_tenant_segment_def vxlan_allocate_tenant_segment_def bindE_def on_table_simps
      split: if_splits)

lemma vlan_driver_allocate:
  assumes "table_ok (vlan_t s)"
  shows "if free_ids (vlan_t s) = {} then vlan_allocate_tenant_segment s = Inr (None, s)
     else \<exists>seg s'. vlan_allocate_tenant_segment s = Inr (Some seg, s') \<and> sg_network_type seg = Some ''vlan'' \<and>
       seg_vlan seg \<in> free_ids (vlan_t s)"
  using reserve_first_spec [OF assms]
  by (auto simp: vlan_allocate_tenant_segment_def bindE_def on_table_simps seg_vlan_def split: if_splits)

text \<open>
  With the tenant network types VLAN, GRE and VXLAN, a tenant segment is allocated from the
  first type that has a free identifier, and \<open>NoNetworkAvailable\<close> is raised exactly when none has.
\<close>

theorem allocation_order:
  assumes "table_ok (vlan_t s)" and "table_ok (gre_t s)" and "table_ok (vxlan_t s)"
  shows "(case manager_allocate (builtin_drivers c) [''vlan'', ''gre'', ''vxlan''] s of
            Inl e \<Rightarrow> e = NoNetworkAvailable \<and> free_ids (vlan_t s) = {} \<and> free_ids (gre_t s) = {} \<and> free_ids (vxlan_t s) = {}
          | Inr (seg, _) \<Rightarrow>
              (if free_ids (vlan_t s) \<noteq> {} then sg_network_type seg = Some ''vlan'' \<and> seg_vlan seg \<in> free_ids (vlan_t s)
               else if free_ids (gre_t s) \<noteq> {} then \<exists>n \<in> free_ids (gre_t s). seg = tunnel_segment ''gre'' n
               else \<exists>n \<in> free_ids (vxlan_t s). seg = tunnel_segment ''vxlan'' n))"
  using vlan_driver_allocate [OF assms(1)] tunnel_allocate_spec [OF assms(2,3)]
  by (auto simp: vlan_driver_def gre_driver_def vxlan_driver_def bindE_def split: if_splits)

theorem allocation_order_witness:
  "(case manager_allocate (builtin_drivers demo_ml2) [''vlan'', ''gre'', ''vxlan''] demo_tables of
      Inl e \<Rightarrow> False | Inr (seg, _) \<Rightarrow> sg_network_type seg = Some ''vlan'')"
proof -
  have "table_ok (vlan_t demo_tables)" "table_ok (gre_t demo_tables)" "table_ok (vxlan_t demo_tables)"
    by (simp_all add: demo_tables_def table_ok_def)
  moreover have "(''c'', 3) \<in> free_ids (vlan_t demo_tables)" by (simp add: free_ids_def demo_tables_def)
  then have "free_ids (vlan_t demo_tables) \<noteq> {}" by blast
  ultimately show ?thesis using allocation_order [of demo_tables demo_ml2]
    by (auto split: sum.splits)
qed

end
