(* ===== verification/MechManager.thy ===== *)
theory MechManager
  imports TypeDrivers
begin

text \<open>
  The mechanism manager of ML2 (\<open>MechanismManager\<close> in \<open>neutron/plugins/ml2/managers.py\<close>) and the
  binding of ports (\<open>neutron/plugins/ml2/plugin.py\<close>, \<open>db.py\<close>).

  Mechanism drivers are loaded by name and are a parameter of the model.  The effect of a
  notification on a driver and on what it controls is a function on the state \<open>'w\<close> of the world
  that tells whether the method raised; the driver may have changed that state before it raised.
\<close>

section \<open>Notifications\<close>

datatype resource_action = Create | Update | Delete

datatype commit_phase = Precommit | Postcommit

datatype notified_resource = NetworkRes | SubnetRes | PortRes

definition action_name :: "resource_action \<Rightarrow> string" where
  "action_name a = (case a of Create \<Rightarrow> ''create'' | Update \<Rightarrow> ''update'' | Delete \<Rightarrow> ''delete'')"

definition phase_name :: "commit_phase \<Rightarrow> string" where
  "phase_name p = (case p of Precommit \<Rightarrow> ''precommit'' | Postcommit \<Rightarrow> ''postcommit'')"

type_synonym ('m, 'w) mech_call = "string \<Rightarrow> 'm \<Rightarrow> 'w \<Rightarrow> bool \<times> 'w"

text \<open>
  The loop of \<open>_call_on_drivers\<close>: \<open>call\<close> returns \<open>False\<close> when the method raised.  The result tells
  whether some driver failed.
\<close>

fun call_drivers :: "('m \<Rightarrow> 'w \<Rightarrow> bool \<times> 'w) \<Rightarrow> bool \<Rightarrow> 'm list \<Rightarrow> 'w \<Rightarrow> bool \<times> 'w" where
  "call_drivers call continue_on_failure [] w = (False, w)"
| "call_drivers call continue_on_failure (m # ms) w =
     (let (ok, w') = call m w in
      if ok then call_drivers call continue_on_failure ms w'
      else if continue_on_failure
        then (let (_, w'') = call_drivers call continue_on_failure ms w' in (True, w''))
      else (True, w'))"

definition call_on_drivers ::
    "('m, 'w) mech_call \<Rightarrow> string \<Rightarrow> bool \<Rightarrow> 'm list \<Rightarrow> 'w \<Rightarrow> (exc + unit) \<times> 'w" where
  "call_on_drivers call method_name continue_on_failure ms w =
     (let (failed, w') = call_drivers (call method_name) continue_on_failure ms w
      in (if failed then Inl (MechanismDriverError method_name) else Inr (), w'))"

text \<open>The eighteen notifications; only those after a committed deletion go on after a failure.\<close>

definition continues :: "resource_action \<Rightarrow> commit_phase \<Rightarrow> bool" where
  "continues a p \<longleftrightarrow> a = Delete \<and> p = Postcommit"

definition notify_network ::
    "('m, 'w) mech_call \<Rightarrow> resource_action \<Rightarrow> commit_phase \<Rightarrow> 'm list \<Rightarrow> 'w \<Rightarrow> (exc + unit) \<times> 'w" where
  "notify_network call a p =
     call_on_drivers call (action_name a @ ''_network_'' @ phase_name p) (continues a p)"

definition notify_subnet ::
    "('m, 'w) mech_call \<Rightarrow> resource_action \<Rightarrow> commit_phase \<Rightarrow> 'm list \<Rightarrow> 'w \<Rightarrow> (exc + unit) \<times> 'w" where
  "notify_subnet call a p =
     call_on_drivers call (action_name a @ ''_subnet_'' @ phase_name p) (continues a p)"

definition notify_port ::
    "('m, 'w) mech_call \<Rightarrow> resource_action \<Rightarrow> commit_phase \<Rightarrow> 'm list \<Rightarrow> 'w \<Rightarrow> (exc + unit) \<times> 'w" where
  "notify_port call a p =
     call_on_drivers call (action_name a @ ''_port_'' @ phase_name p) (continues a p)"

section \<open>Binding\<close>

definition VIF_TYPE_UNBOUND :: string where "VIF_TYPE_UNBOUND = ''unbound''"

definition VIF_TYPE_BINDING_FAILED :: string where "VIF_TYPE_BINDING_FAILED = ''binding_failed''"

record port_binding =
  pb_host :: string
  pb_vif_type :: string
  pb_cap_port_filter :: bool
  pb_driver :: "string option"
  pb_segment :: "string option"

definition bound :: "port_binding \<Rightarrow> bool" where
  "bound b \<longleftrightarrow> pb_segment b \<noteq> None \<and> pb_segment b \<noteq> Some []"

text \<open>
  The three methods of a driver on the binding of the port; \<open>False\<close>, and \<open>None\<close> for the validation,
  stand for an exception.  The binding is an object the driver assigns to (\<open>set_binding\<close>), so that
  its assignments stay when it raises.
\<close>

record mech_driver =
  md_name :: string
  md_bind :: "port_binding \<Rightarrow> bool \<times> port_binding"
  md_validate :: "port_binding \<Rightarrow> bool option"
  md_unbind :: "port_binding \<Rightarrow> bool \<times> port_binding"

fun bind_port :: "mech_driver list \<Rightarrow> port_binding \<Rightarrow> port_binding" where
  "bind_port [] b = b\<lparr>pb_vif_type := VIF_TYPE_BINDING_FAILED\<rparr>"
| "bind_port (d # ds) b =
     (let (ok, b') = md_bind d b in
      if ok \<and> bound b' then b'\<lparr>pb_driver := Some (md_name d)\<rparr> else bind_port ds b')"

text \<open>\<open>mech_drivers\<close> is filled in the order of the drivers, a later driver replacing one of its name.\<close>

definition mech_driver_for :: "mech_driver list \<Rightarrow> port_binding \<Rightarrow> mech_driver option" where
  "mech_driver_for ds b = find (\<lambda>d. pb_driver b = Some (md_name d)) (rev ds)"

definition validate_port_binding :: "mech_driver list \<Rightarrow> port_binding \<Rightarrow> bool" where
  "validate_port_binding ds b =
     (case mech_driver_for ds b of
        None \<Rightarrow> False
      | Some d \<Rightarrow> (case md_validate d b of None \<Rightarrow> False | Some r \<Rightarrow> r))"

definition unbind_port :: "mech_driver list \<Rightarrow> port_binding \<Rightarrow> port_binding" where
  "unbind_port ds b =
     (let b' = (case mech_driver_for ds b of None \<Rightarrow> b | Some d \<Rightarrow> snd (md_unbind d b)) in
      b'\<lparr>pb_vif_type := VIF_TYPE_UNBOUND, pb_cap_port_filter := False, pb_driver := None, pb_segment := None\<rparr>)"

definition update_port_dict_binding :: "port_binding \<Rightarrow> pydict \<Rightarrow> pydict" where
  "update_port_dict_binding b prt =
     dict_set (dict_set (dict_set prt ''binding:host_id'' (PStr (pb_host b)))
       ''binding:vif_type'' (PStr (pb_vif_type b)))
       ''binding:capabilities'' (PDict [(''port_filter'', PBool (pb_cap_port_filter b))])"

text \<open>
  \<open>_process_port_binding\<close>: \<open>host\<close> is the requested host, \<open>None\<close> when the attribute is missing, null
  or not specified.  The result tells whether the binding changed.
\<close>

definition process_port_binding ::
    "mech_driver list \<Rightarrow> string option \<Rightarrow> port_binding \<Rightarrow> pydict \<Rightarrow> bool \<times> port_binding \<times> pydict" where
  "process_port_binding ds host b prt =
     (if pb_vif_type b \<noteq> VIF_TYPE_UNBOUND \<and> host = None \<and> bound b \<and> validate_port_binding ds b
      then (False, b, update_port_dict_binding b prt)
      else
        (let b1 = (if pb_vif_type b \<noteq> VIF_TYPE_UNBOUND then unbind_port ds b else b);
             p1 = (if pb_vif_type b \<noteq> VIF_TYPE_UNBOUND
                   then update_port_dict_binding b1 (update_port_dict_binding b prt)
                   else update_port_dict_binding b prt);
             b2 = (case host of None \<Rightarrow> b1 | Some h \<Rightarrow> b1\<lparr>pb_host := h\<rparr>);
             p2 = (case host of None \<Rightarrow> p1 | Some h \<Rightarrow> dict_set p1 ''binding:host_id'' (PStr h));
             b3 = (if pb_host b2 \<noteq> [] then bind_port ds b2 else b2);
             p3 = (if pb_host b2 \<noteq> [] then update_port_dict_binding b3 p2 else p2)
         in (True, b3, p3)))"

definition delete_port_binding :: "mech_driver list \<Rightarrow> port_binding \<Rightarrow> pydict \<Rightarrow> port_binding \<times> pydict" where
  "delete_port_binding ds b prt =
     (let b' = unbind_port ds b
      in (b', update_port_dict_binding b' (update_port_dict_binding b prt)))"

section \<open>Tables of segments and bindings\<close>

record network_segment =
  ns_id :: string
  ns_network_id :: string
  ns_segment :: segment

definition add_network_segment ::
    "string \<Rightarrow> string \<Rightarrow> segment \<Rightarrow> network_segment list \<Rightarrow> network_segment list" where
  "add_network_segment uuid network_id s t =
     t @ [\<lparr>ns_id = uuid, ns_network_id = network_id, ns_segment = s\<lparr>sg_extra := []\<rparr>\<rparr>]"

text \<open>The segments of a network, each with its id under \<open>id\<close>.\<close>

definition get_network_segments :: "string \<Rightarrow> network_segment list \<Rightarrow> segment list" where
  "get_network_segments network_id t =
     map (\<lambda>r. (ns_segment r)\<lparr>sg_extra := [(''id'', PStr (ns_id r))]\<rparr>)
       (filter (\<lambda>r. ns_network_id r = network_id) t)"

type_synonym binding_table = "(string \<times> port_binding) list"

definition ensure_port_binding :: "string \<Rightarrow> (exc, binding_table, port_binding) op" where
  "ensure_port_binding port_id =
     bindE (checkE (\<lambda>t. one_row MultipleResultsFound (filter (\<lambda>r. fst r = port_id) t))) (\<lambda>row.
       case row of
         Some r \<Rightarrow> returnE (snd r)
       | None \<Rightarrow>
           (let b = \<lparr>pb_host = [], pb_vif_type = VIF_TYPE_UNBOUND, pb_cap_port_filter = False,
                     pb_driver = None, pb_segment = None\<rparr>
            in bindE (modifyE (\<lambda>t. t @ [(port_id, b)])) (\<lambda>_. returnE b)))"

text \<open>The port id given by an agent is a prefix of the identifier.\<close>

definition get_port_binding_host :: "string \<Rightarrow> binding_table \<Rightarrow> exc + string option" where
  "get_port_binding_host port_id t =
     bindR (one_row MultipleResultsFound (filter (\<lambda>r. py_startswith (fst r) port_id) t)) (\<lambda>row.
       Inr (map_option (\<lambda>r. pb_host (snd r)) row))"

definition port_bound_to_host :: "string \<Rightarrow> string \<Rightarrow> binding_table \<Rightarrow> exc + bool" where
  "port_bound_to_host port_id host t =
     bindR (get_port_binding_host port_id t) (\<lambda>port_host. Inr (port_host = Some host))"

section \<open>Provider attributes\<close>

text \<open>
  An attribute of the request: \<open>None\<close> stands for a missing or null value and for the sentinel
  \<open>ATTR_NOT_SPECIFIED\<close>, which \<open>is_attr_set\<close> and \<open>_get_attribute\<close> treat alike.
\<close>

record provider_attrs =
  pr_network_type :: "string option"
  pr_physical_network :: "string option"
  pr_segmentation_id :: "int option"

definition process_provider_segment ::
    "(string \<times> type_driver) list \<Rightarrow> provider_attrs \<Rightarrow> exc + segment" where
  "process_provider_segment drivers a =
     (if pr_network_type a \<noteq> None then
        (let s = \<lparr>sg_network_type = pr_network_type a, sg_physical_network = pr_physical_network a,
                  sg_segmentation_id = pr_segmentation_id a, sg_extra = []\<rparr>
         in bindR (manager_validate drivers s) (\<lambda>_. Inr s))
      else Inl (InvalidInput ''network_type required''))"

definition process_provider_create ::
    "(string \<times> type_driver) list \<Rightarrow> provider_attrs \<Rightarrow> provider_attrs list option \<Rightarrow> exc + segment list option" where
  "process_provider_create drivers a segs =
     (if pr_network_type a \<noteq> None \<or> pr_physical_network a \<noteq> None \<or> pr_segmentation_id a \<noteq> None
      then if segs \<noteq> None then Inl SegmentsSetInConjunctionWithProviders
           else bindR (mapR (process_provider_segment drivers) [a]) (\<lambda>r. Inr (Some r))
      else (case segs of
              Some ss \<Rightarrow> bindR (mapR (process_provider_segment drivers) ss) (\<lambda>r. Inr (Some r))
            | None \<Rightarrow> Inr None))"

definition PInt_opt :: "int option \<Rightarrow> pyval" where
  "PInt_opt n = (case n of None \<Rightarrow> PNone | Some x \<Rightarrow> PInt x)"

definition provider_items :: "segment \<Rightarrow> pydict" where
  "provider_items s =
     [(''provider:network_type'', PStr_opt (sg_network_type s)),
      (''provider:physical_network'', PStr_opt (sg_physical_network s)),
      (''provider:segmentation_id'', PInt_opt (sg_segmentation_id s))]"

definition no_segment :: segment where
  "no_segment = \<lparr>sg_network_type = None, sg_physical_network = None, sg_segmentation_id = None, sg_extra = []\<rparr>"

definition extend_network_dict_provider :: "segment list \<Rightarrow> pydict \<Rightarrow> pydict" where
  "extend_network_dict_provider segs network =
     (case segs of
        [] \<Rightarrow> foldl (\<lambda>n (k, v). dict_set n k v) network (provider_items no_segment)
      | [s] \<Rightarrow> foldl (\<lambda>n (k, v). dict_set n k v) network (provider_items s)
      | _ \<Rightarrow> dict_set network ''segments'' (PList (map (\<lambda>s. PDict (provider_items s)) segs)))"

text \<open>
  The segments of \<open>create_network\<close>: the validated provider segments are reserved in order, otherwise
  a tenant segment is allocated.  The result are the segments to be stored.
\<close>

definition reserve_segments ::
    "(string \<times> type_driver) list \<Rightarrow> string list \<Rightarrow> segment list option \<Rightarrow> segment list ml2op" where
  "reserve_segments drivers types segs =
     (case segs of
        Some (s # ss) \<Rightarrow> bindE (forE (manager_reserve drivers) (s # ss)) (\<lambda>_. returnE (s # ss))
      | _ \<Rightarrow> bindE (manager_allocate drivers types) (\<lambda>s. returnE [s]))"

text \<open>\<open>delete_network\<close> releases them one after the other.\<close>

definition release_segments :: "(string \<times> type_driver) list \<Rightarrow> segment list \<Rightarrow> unit ml2op" where
  "release_segments drivers segs = forE (manager_release drivers) segs"

end
