(* ===== verification/Ml2Props.thy ===== *)
theory Ml2Props
  imports TypeDriverProps MechManager
begin

text \<open>
  Properties of the ML2 managers: repeated allocation of VLANs, the release of tunnel identifiers,
  the parsing of VLAN ranges, the notification of mechanism drivers and the binding of ports.
\<close>

section \<open>Allocation of many networks\<close>

definition allocate_vlans :: "ml2_conf \<Rightarrow> nat \<Rightarrow> segment list ml2op" where
  "allocate_vlans c n = mapE (\<lambda>_. manager_allocate (builtin_drivers c) [''vlan'']) [0..<n]"

text \<open>
  C15: with VLAN as the tenant network type exactly as many tenant networks can be allocated as
  VLANs are free, and they get different VLANs.
\<close>

theorem vlan_allocate_many:
  assumes "vlan_ready c s"
  shows "((\<exists>segs t. allocate_vlans c n s = Inr (segs, t)) \<longleftrightarrow> n \<le> card (free_ids (vlan_t s))) \<and>
     (\<forall>segs t. allocate_vlans c n s = Inr (segs, t) \<longrightarrow>
        length segs = n \<and> distinct (map seg_vlan segs) \<and> seg_vlan ` set segs \<subseteq> free_ids (vlan_t s) \<and>
        free_ids (vlan_t t) = free_ids (vlan_t s) - seg_vlan ` set segs)"
proof (intro conjI allI impI)
  show "(\<exists>segs t. allocate_vlans c n s = Inr (segs, t)) \<longleftrightarrow> n \<le> card (free_ids (vlan_t s))"
    using vlans.take_many_iff [OF assms finite_free_ids] by (simp only: vlans.take_many_def allocate_vlans_def)
  fix segs t assume "allocate_vlans c n s = Inr (segs, t)"
  then have run: "vlans.take_many c n s = Inr (segs, t)" by (simp only: vlans.take_many_def allocate_vlans_def)
  note M = vlans.take_many_distinct [OF assms run]
  show "length segs = n" by (rule M(2))
  show "distinct (map seg_vlan segs)" by (rule M(3))
  show "seg_vlan ` set segs \<subseteq> free_ids (vlan_t s)" by (rule M(4))
  show "free_ids (vlan_t t) = free_ids (vlan_t s) - seg_vlan ` set segs" by (rule M(5))
qed

definition demo_free :: ml2_tables where
  "demo_free = \<lparr>vlan_t = [((''a'', 12), False), ((''a'', 10), True), ((''a'', 20), False)],
     gre_t = [], vxlan_t = [], flat_t = [], gre_ends = [], vxlan_ends = []\<rparr>"

theorem vlan_allocate_many_witness:
  "(\<exists>segs t. allocate_vlans demo_ml2 2 demo_free = Inr (segs, t)) \<and>
   \<not> (\<exists>segs t. allocate_vlans demo_ml2 3 demo_free = Inr (segs, t))"
proof -
  have free: "free_ids (vlan_t demo_free) = {(''a'', 12), (''a'', 20)}"
    by (auto simp: free_ids_def demo_free_def)
  have "vlan_ready demo_ml2 demo_free"
    unfolding vlan_ready_def free
    by (simp add: demo_free_def table_ok_def vlan_in_pool_def in_ranges_def demo_ml2_def)
  note M = vlan_allocate_many [OF this]
  show ?thesis using M [of 2] M [of 3] by (simp add: free)
qed

section \<open>Release of tunnel identifiers\<close>

lemma release_ranges_first:
  "release_ranges ranges n t =
     (if ranges = [] \<or> in_ranges [hd ranges] n then t else del_alloc n t)"
proof (induction ranges arbitrary: t)
  case (Cons r rs)
  have "del_alloc n (del_alloc n t) = del_alloc n t" by (simp add: del_alloc_def)
  with Cons show ?case by (cases rs) (auto simp: in_ranges_def)
qed simp

text \<open>
  C16: releasing a GRE or VXLAN identifier in use keeps it in the table as free only when there are
  no ranges or the first configured range contains it; an identifier of a later range is lost.
\<close>

theorem tunnel_release_exact:
  assumes "table_ok t" and "sg_segmentation_id seg = Some n" and "n \<in> used_ids t"
  shows "\<exists>t'. tunnel_release ranges seg t = Inr ((), t') \<and> table_ok t' \<and> used_ids t' = used_ids t - {n} \<and>
     free_ids t' = (if ranges = [] \<or> in_ranges [hd ranges] n then insert n (free_ids t) else free_ids t)"
proof -
  have mem: "(n, True) \<in> set t" using assms(3) by (simp add: used_ids_def)
  then have key: "n \<in> fst ` set t" by force
  have notfree: "n \<notin> free_ids t" using used_free_disjoint [OF assms(1)] assms(3) by auto
  let ?t = "set_alloc n False t"
  have "tunnel_release ranges seg t = Inr ((), release_ranges ranges n ?t)"
    by (simp add: tunnel_release_def assms(2) get_alloc_eq [OF assms(1)] mem bindE_def checkE_def)
  moreover have "table_ok ?t" "used_ids ?t = used_ids t - {n}" "free_ids ?t = insert n (free_ids t)"
    using assms(1) used_set_alloc [OF key, of False] free_set_alloc [OF key, of False] by simp_all
  ultimately show ?thesis
    using notfree unfolding release_ranges_first
    by (cases "ranges = [] \<or> in_ranges [hd ranges] n") (simp_all add: del_alloc_ids)
qed

theorem tunnel_release_exact_witness:
  "\<exists>t'. tunnel_release (gre_id_ranges demo_ml2) (tunnel_segment ''gre'' 5) (gre_t demo_tables) = Inr ((), t') \<and>
     in_ranges (gre_id_ranges demo_ml2) 5 \<and> 5 \<notin> free_ids t'"
proof -
  have ok: "table_ok (gre_t demo_tables)" by (simp add: demo_tables_def table_ok_def)
  have seg: "sg_segmentation_id (tunnel_segment ''gre'' 5) = Some 5" by (simp add: tunnel_segment_def)
  have used: "5 \<in> used_ids (gre_t demo_tables)" by (simp add: demo_tables_def used_ids_def)
  have "5 \<notin> free_ids (gre_t demo_tables)" by (simp add: demo_tables_def free_ids_def)
  moreover have "\<not> (gre_id_ranges demo_ml2 = [] \<or> in_ranges [hd (gre_id_ranges demo_ml2)] 5)"
    "in_ranges (gre_id_ranges demo_ml2) 5" by (simp_all add: demo_ml2_def in_ranges_def)
  ultimately show ?thesis using tunnel_release_exact [OF ok seg used, of "gre_id_ranges demo_ml2"] by auto
qed

section \<open>Parsing of VLAN ranges\<close>

definition range_entry :: "string \<Rightarrow> int \<Rightarrow> int \<Rightarrow> string" where
  "range_entry network lo hi = py_join '':'' [network, show_int lo, show_int hi]"

definition plain_name :: "string \<Rightarrow> bool" where
  "plain_name s \<longleftrightarrow> (\<forall>c \<in> set s. \<not> py_space c \<and> c \<noteq> CHR '':'')"

lemma range_entry_parts:
  assumes "plain_name network"
  shows "py_strip (range_entry network lo hi) = range_entry network lo hi"
    "py_split (CHR '':'') (range_entry network lo hi) = [network, show_int lo, show_int hi]"
    "CHR '':'' \<in> set (range_entry network lo hi)"
proof -
  have sp: "\<not> py_space (CHR '':'')" by (simp add: py_space_def)
  have "\<forall>c \<in> set (range_entry network lo hi). \<not> py_space c"
  proof
    fix c assume "c \<in> set (range_entry network lo hi)"
    then consider "c \<in> set network" | "c = CHR '':''" | "c \<in> set (show_int lo)" | "c \<in> set (show_int hi)"
      by (auto simp: range_entry_def)
    then show "\<not> py_space c" using assms sp show_int_chars by cases (auto simp: plain_name_def)
  qed
  then show "py_strip (range_entry network lo hi) = range_entry network lo hi" by (rule strip_id)
  have "\<forall>w \<in> set [network, show_int lo, show_int hi]. CHR '':'' \<notin> set w"
    using assms show_int_chars by (auto simp: plain_name_def)
  then show "py_split (CHR '':'') (range_entry network lo hi) = [network, show_int lo, show_int hi]"
    unfolding range_entry_def by (intro split_join) simp_all
  show "CHR '':'' \<in> set (range_entry network lo hi)" by (simp add: range_entry_def)
qed

lemma verify_vlan_range_iff: "verify_vlan_range (lo, hi) = Inr () \<longleftrightarrow> 1 \<le> lo \<and> lo \<le> hi \<and> hi \<le> 4094"
  by (auto simp: verify_vlan_range_def is_valid_vlan_tag_def op_simps split: if_splits)

lemma bindR_unit_const: "bindR r (\<lambda>_. Inr x) = Inr y \<longleftrightarrow> r = Inr () \<and> y = x"
  by (cases r) auto

text \<open>
  C17: printing a physical network with a VLAN range and parsing the entry gives the network and
  the range back, exactly when the range is ordered and inside 1..4094; anything else is refused.
\<close>

theorem vlan_range_roundtrip:
  assumes "plain_name network"
  shows "(parse_network_vlan_range (range_entry network lo hi) = Inr (network, Some (lo, hi)) \<longleftrightarrow>
            1 \<le> lo \<and> lo \<le> hi \<and> hi \<le> 4094) \<and>
         (\<not> (1 \<le> lo \<and> lo \<le> hi \<and> hi \<le> 4094) \<longrightarrow>
            (\<exists>r e. parse_network_vlan_range (range_entry network lo hi) = Inl (NetworkVlanRangeError r e)))"
proof -
  note E = range_entry_parts [OF assms, of lo hi]
  have run: "parse_network_vlan_range (range_entry network lo hi) =
      bindR (verify_vlan_range (lo, hi)) (\<lambda>_. Inr (network, Some (lo, hi)))"
    by (simp add: parse_network_vlan_range_def E Let_def py_int_show)
  show ?thesis
  proof (intro conjI impI)
    show "parse_network_vlan_range (range_entry network lo hi) = Inr (network, Some (lo, hi)) \<longleftrightarrow>
        1 \<le> lo \<and> lo \<le> hi \<and> hi \<le> 4094"
      unfolding run bindR_unit_const verify_vlan_range_iff by simp
    assume "\<not> (1 \<le> lo \<and> lo \<le> hi \<and> hi \<le> 4094)"
    then show "\<exists>r e. parse_network_vlan_range (range_entry network lo hi) = Inl (NetworkVlanRangeError r e)"
      unfolding run by (simp add: verify_vlan_range_def is_valid_vlan_tag_def)
  qed
qed

theorem vlan_range_roundtrip_witness:
  "parse_network_vlan_range (range_entry ''physnet1'' 100 199) = Inr (''physnet1'', Some (100, 199))"
proof -
  have "plain_name ''physnet1''" by (simp add: plain_name_def py_space_def)
  from vlan_range_roundtrip [OF this, of 100 199] show ?thesis by simp
qed

section \<open>Notification of mechanism drivers\<close>

definition world_after :: "('m \<Rightarrow> 'w \<Rightarrow> bool \<times> 'w) \<Rightarrow> 'w \<Rightarrow> 'm list \<Rightarrow> 'w" where
  "world_after call w ms = foldl (\<lambda>w m. snd (call m w)) w ms"

definition raises_at :: "('m \<Rightarrow> 'w \<Rightarrow> bool \<times> 'w) \<Rightarrow> 'm list \<Rightarrow> 'w \<Rightarrow> nat \<Rightarrow> bool" where
  "raises_at call ms w i \<longleftrightarrow> \<not> fst (call (ms ! i) (world_after call w (take i ms)))"

lemma world_after_simps [simp]:
  "world_after call w [] = w"
  "world_after call w (m # ms) = world_after call (snd (call m w)) ms"
  by (simp_all add: world_after_def)

lemma raises_at_simps [simp]:
  "raises_at call (m # ms) w 0 \<longleftrightarrow> \<not> fst (call m w)"
  "raises_at call (m # ms) w (Suc i) \<longleftrightarrow> raises_at call ms (snd (call m w)) i"
  by (simp_all add: raises_at_def)

lemma all_less_Suc: "(\<forall>i < Suc n. P i) \<longleftrightarrow> P 0 \<and> (\<forall>i < n. P (Suc i))"
  using less_Suc_eq_0_disj by auto

lemma ex_less_Suc: "(\<exists>i < Suc n. P i) \<longleftrightarrow> P 0 \<or> (\<exists>i < n. P (Suc i))"
  using less_Suc_eq_0_disj by auto

lemma call_drivers_go_on:
  "call_drivers call True ms w = ((\<exists>i < length ms. raises_at call ms w i), world_after call w ms)"
proof (induction ms arbitrary: w)
  case (Cons m ms)
  obtain r w' where m: "call m w = (r, w')" by (cases "call m w")
  show ?case by (cases r) (simp_all add: m Cons ex_less_Suc)
qed simp

lemma call_drivers_stop:
  "(\<forall>i < length ms. \<not> raises_at call ms w i) \<and> call_drivers call False ms w = (False, world_after call w ms) \<or>
   (\<exists>k < length ms. raises_at call ms w k \<and> (\<forall>i < k. \<not> raises_at call ms w i) \<and>
      call_drivers call False ms w = (True, world_after call w (take (Suc k) ms)))"
proof (induction ms arbitrary: w)
  case (Cons m ms)
  obtain r w' where m: "call m w = (r, w')" by (cases "call m w")
  show ?case
  proof (cases r)
    case True
    with Cons [of w'] show ?thesis by (simp add: m all_less_Suc ex_less_Suc)
  next
    case False
    then show ?thesis by (simp add: m ex_less_Suc)
  qed
qed simp

text \<open>The methods of the mechanism manager and of the drivers, one per resource, action and phase.\<close>

fun method_name :: "notified_resource \<Rightarrow> resource_action \<Rightarrow> commit_phase \<Rightarrow> string" where
  "method_name NetworkRes Create Precommit = ''create_network_precommit''"
| "method_name NetworkRes Create Postcommit = ''create_network_postcommit''"
| "method_name NetworkRes Update Precommit = ''update_network_precommit''"
| "method_name NetworkRes Update Postcommit = ''update_network_postcommit''"
| "method_name NetworkRes Delete Precommit = ''delete_network_precommit''"
| "method_name NetworkRes Delete Postcommit = ''delete_network_postcommit''"
| "method_name SubnetRes Create Precommit = ''create_subnet_precommit''"
| "method_name SubnetRes Create Postcommit = ''create_subnet_postcommit''"
| "method_name SubnetRes Update Precommit = ''update_subnet_precommit''"
| "method_name SubnetRes Update Postcommit = ''update_subnet_postcommit''"
| "method_name SubnetRes Delete Precommit = ''delete_subnet_precommit''"
| "method_name SubnetRes Delete Postcommit = ''delete_subnet_postcommit''"
| "method_name PortRes Create Precommit = ''create_port_precommit''"
| "method_name PortRes Create Postcommit = ''create_port_postcommit''"
| "method_name PortRes Update Precommit = ''update_port_precommit''"
| "method_name PortRes Update Postcommit = ''update_port_postcommit''"
| "method_name PortRes Delete Precommit = ''delete_port_precommit''"
| "method_name PortRes Delete Postcommit = ''delete_port_postcommit''"

fun notify ::
    "notified_resource \<Rightarrow> ('m, 'w) mech_call \<Rightarrow> resource_action \<Rightarrow> commit_phase \<Rightarrow> 'm list \<Rightarrow> 'w
       \<Rightarrow> (exc + unit) \<times> 'w" where
  "notify NetworkRes = notify_network"
| "notify SubnetRes = notify_subnet"
| "notify PortRes = notify_port"

lemma notify_method:
  "notify res call a p = call_on_drivers call (method_name res a p)
     (method_name res a p \<in> {''delete_network_postcommit'', ''delete_subnet_postcommit'', ''delete_port_postcommit''})"
  by (cases res; cases a; cases p)
     (simp_all add: notify_network_def notify_subnet_def notify_port_def continues_def action_name_def phase_name_def)

lemma call_on_drivers_outcome:
  "call_on_drivers call name True ms w =
     (if \<exists>i < length ms. raises_at (call name) ms w i then Inl (MechanismDriverError name) else Inr (),
      world_after (call name) w ms)"
  "(\<forall>i < length ms. \<not> raises_at (call name) ms w i) \<and>
     call_on_drivers call name False ms w = (Inr (), world_after (call name) w ms) \<or>
   (\<exists>k < length ms. raises_at (call name) ms w k \<and> (\<forall>i < k. \<not> raises_at (call name) ms w i) \<and>
     call_on_drivers call name False ms w =
       (Inl (MechanismDriverError name), world_after (call name) w (take (Suc k) ms)))"
  subgoal by (simp add: call_on_drivers_def call_drivers_go_on)
  subgoal using call_drivers_stop [of ms "call name" w] unfolding call_on_drivers_def by (elim disjE exE conjE) auto
  done

text \<open>
  C18: each of the eighteen notifications calls its own method of the drivers, in order.  The three after a
  committed deletion call every driver and raise at the end when some driver raised; the fifteen others,
  those inside the transaction of a deletion included, stop and raise at the first driver that raises and
  leave the later drivers uncalled.
\<close>

theorem notify_calls:
  "(let name = method_name res a p; f = call name in
    if name \<in> {''delete_network_postcommit'', ''delete_subnet_postcommit'', ''delete_port_postcommit''}
    then notify res call a p ms w =
       (if \<exists>i < length ms. raises_at f ms w i then Inl (MechanismDriverError name) else Inr (), world_after f w ms)
    else (\<forall>i < length ms. \<not> raises_at f ms w i) \<and> notify res call a p ms w = (Inr (), world_after f w ms) \<or>
       (\<exists>k < length ms. raises_at f ms w k \<and> (\<forall>i < k. \<not> raises_at f ms w i) \<and>
          notify res call a p ms w = (Inl (MechanismDriverError name), world_after f w (take (Suc k) ms))))"
  using call_on_drivers_outcome(2) [of ms call "method_name res a p" w]
  unfolding Let_def notify_method by (simp add: call_on_drivers_outcome(1))

definition demo_call :: "(nat, nat list) mech_call" where
  "demo_call name m w = (m \<noteq> 2, w @ [m])"

theorem notify_calls_witness:
  "notify_port demo_call Delete Postcommit [1, 2, 3] [] =
     (Inl (MechanismDriverError ''delete_port_postcommit''), [1, 2, 3])"
proof -
  let ?f = "demo_call ''delete_port_postcommit''"
  have "raises_at ?f [1, 2, 3] [] 1" by (simp add: raises_at_def demo_call_def)
  then have ex: "\<exists>i < length [1, 2, 3::nat]. raises_at ?f [1, 2, 3] [] i" by (intro exI [of _ 1]) simp
  have "world_after ?f [] [1, 2, 3] = [1, 2, 3]" by (simp add: demo_call_def)
  with notify_calls [of PortRes Delete Postcommit demo_call "[1, 2, 3]" "[]"] ex show ?thesis
    by (simp add: Let_def del: raises_at_simps)
qed

section \<open>Binding of ports\<close>

definition binding_after :: "mech_driver list \<Rightarrow> port_binding \<Rightarrow> port_binding" where
  "binding_after ds b = foldl (\<lambda>b d. snd (md_bind d b)) b ds"

definition binds_at :: "mech_driver list \<Rightarrow> port_binding \<Rightarrow> nat \<Rightarrow> bool" where
  "binds_at ds b i \<longleftrightarrow> (let r = md_bind (ds ! i) (binding_after (take i ds) b) in fst r \<and> bound (snd r))"

lemma binding_after_simps [simp]:
  "binding_after [] b = b"
  "binding_after (d # ds) b = binding_after ds (snd (md_bind d b))"
  by (simp_all add: binding_after_def)

lemma binds_at_simps [simp]:
  "binds_at (d # ds) b 0 \<longleftrightarrow> fst (md_bind d b) \<and> bound (snd (md_bind d b))"
  "binds_at (d # ds) b (Suc i) \<longleftrightarrow> binds_at ds (snd (md_bind d b)) i"
  by (simp_all add: binds_at_def Let_def)

text \<open>
  C19: a port is bound by the first driver that returns with a segment in the binding, and the
  binding names that driver; when there is none the binding fails, whatever the drivers raised.
\<close>

theorem bind_port_first:
  "(\<exists>i < length ds. binds_at ds b i \<and> (\<forall>j < i. \<not> binds_at ds b j) \<and>
      bind_port ds b = (binding_after (take (Suc i) ds) b)\<lparr>pb_driver := Some (md_name (ds ! i))\<rparr>) \<or>
   ((\<forall>i < length ds. \<not> binds_at ds b i) \<and>
      bind_port ds b = (binding_after ds b)\<lparr>pb_vif_type := VIF_TYPE_BINDING_FAILED\<rparr>)"
proof (induction ds arbitrary: b)
  case (Cons d ds)
  obtain r b' where d: "md_bind d b = (r, b')" by (cases "md_bind d b")
  show ?case
  proof (cases "r \<and> bound b'")
    case True
    then show ?thesis by (simp add: d ex_less_Suc)
  next
    case False
    from Cons [of b'] False show ?thesis by (auto simp: d all_less_Suc ex_less_Suc)
  qed
qed simp

definition failing_driver :: mech_driver where
  "failing_driver = \<lparr>md_name = ''l2population'', md_bind = (\<lambda>b. (False, b)), md_validate = (\<lambda>b. None),
     md_unbind = (\<lambda>b. (False, b))\<rparr>"

definition ovs_like_driver :: mech_driver where
  "ovs_like_driver = \<lparr>md_name = ''openvswitch'',
     md_bind = (\<lambda>b. (True, b\<lparr>pb_segment := Some ''seg1'', pb_vif_type := ''ovs'', pb_cap_port_filter := True\<rparr>)),
     md_validate = (\<lambda>b. Some True), md_unbind = (\<lambda>b. (True, b))\<rparr>"

definition host_binding :: port_binding where
  "host_binding = \<lparr>pb_host = ''compute1'', pb_vif_type = VIF_TYPE_UNBOUND, pb_cap_port_filter = False,
     pb_driver = None, pb_segment = None\<rparr>"

theorem bind_port_first_witness:
  "pb_driver (bind_port [failing_driver, ovs_like_driver] host_binding) = Some ''openvswitch''"
proof -
  let ?ds = "[failing_driver, ovs_like_driver]"
  have no: "\<not> binds_at ?ds host_binding 0" by (simp add: failing_driver_def)
  have yes: "binds_at ?ds host_binding 1"
    by (simp add: binds_at_def Let_def failing_driver_def ovs_like_driver_def bound_def)
  from bind_port_first [of ?ds host_binding] show ?thesis
  proof (elim disjE exE conjE)
    fix i assume i: "i < length ?ds" "binds_at ?ds host_binding i"
      "bind_port ?ds host_binding = (binding_after (take (Suc i) ?ds) host_binding)\<lparr>pb_driver := Some (md_name (?ds ! i))\<rparr>"
    with no have "i = 1" by (cases i) simp_all
    with i(3) show ?thesis by (simp add: ovs_like_driver_def)
  next
    assume "\<forall>i < length ?ds. \<not> binds_at ?ds host_binding i"
    with yes show ?thesis by (metis One_nat_def length_Cons lessI list.size(3))
  qed
qed

end
