(* ===== verification/PluginDb.thy ===== *)
theory PluginDb
  imports SegTable Models
begin

text \<open>
  The allocation tables of the monolithic plugins: Open vSwitch
  (\<open>neutron/plugins/openvswitch/ovs_db_v2.py\<close>), Linux bridge
  (\<open>neutron/plugins/linuxbridge/db/l2network_db_v2.py\<close>) and Hyper-V
  (\<open>neutron/plugins/hyperv/db.py\<close>), with their network bindings and the tunnel endpoints of the
  Open vSwitch plugin.
\<close>

definition FLAT_VLAN_ID :: int where "FLAT_VLAN_ID = -1"

definition in_use_error :: "string \<times> int \<Rightarrow> exc" where
  "in_use_error k = (if snd k = FLAT_VLAN_ID then FlatNetworkInUse (fst k) else VlanIdInUse (snd k) (fst k))"

text \<open>Taking the first free identifier, or raising.\<close>

definition reserve_or_raise :: "exc \<Rightarrow> (exc, 'k table, 'k) op" where
  "reserve_or_raise e =
     bindE reserve_first (\<lambda>k. case k of None \<Rightarrow> raiseE e | Some x \<Rightarrow> returnE x)"

section \<open>Open vSwitch\<close>

type_synonym vlan_table = "(string \<times> int) table"

definition ovs_sync_vlan_allocations :: "vlan_ranges \<Rightarrow> (exc, vlan_table, unit) op" where
  "ovs_sync_vlan_allocations network_vlan_ranges = modifyE (sync_vlans network_vlan_ranges)"

definition ovs_reserve_vlan :: "(exc, vlan_table, string \<times> int) op" where
  "ovs_reserve_vlan = reserve_or_raise NoNetworkAvailable"

definition ovs_reserve_specific_vlan :: "string \<Rightarrow> int \<Rightarrow> (exc, vlan_table, unit) op" where
  "ovs_reserve_specific_vlan physical_network vlan_id =
     reserve_specific (in_use_error (physical_network, vlan_id)) (physical_network, vlan_id)"

definition ovs_release_vlan :: "vlan_ranges \<Rightarrow> string \<Rightarrow> int \<Rightarrow> (exc, vlan_table, unit) op" where
  "ovs_release_vlan network_vlan_ranges physical_network vlan_id =
     release_id (vlan_in_pool network_vlan_ranges) (physical_network, vlan_id)"

definition ovs_sync_tunnel_allocations :: "(int \<times> int) list \<Rightarrow> (exc, int table, unit) op" where
  "ovs_sync_tunnel_allocations tunnel_id_ranges = modifyE (sync_tunnels 1000000 tunnel_id_ranges)"

definition ovs_reserve_tunnel :: "(exc, int table, int) op" where
  "ovs_reserve_tunnel = reserve_or_raise NoNetworkAvailable"

definition ovs_reserve_specific_tunnel :: "int \<Rightarrow> (exc, int table, unit) op" where
  "ovs_reserve_specific_tunnel tunnel_id = reserve_specific (TunnelIdInUse tunnel_id) tunnel_id"

definition ovs_release_tunnel :: "(int \<times> int) list \<Rightarrow> int \<Rightarrow> (exc, int table, unit) op" where
  "ovs_release_tunnel tunnel_id_ranges tunnel_id = release_id (in_ranges tunnel_id_ranges) tunnel_id"

definition ovs_get_tunnel_allocation :: "int \<Rightarrow> int table \<Rightarrow> exc + (int \<times> bool) option" where
  "ovs_get_tunnel_allocation tunnel_id t = get_alloc tunnel_id t"

definition ovs_get_vlan_allocation ::
    "string \<Rightarrow> int \<Rightarrow> vlan_table \<Rightarrow> exc + ((string \<times> int) \<times> bool) option" where
  "ovs_get_vlan_allocation physical_network vlan_id t = get_alloc (physical_network, vlan_id) t"

text \<open>Network bindings; the network is the primary key.\<close>

record net_binding =
  nb_network :: string
  nb_type :: string
  nb_physical_network :: "string option"
  nb_segmentation_id :: "int option"

definition ovs_add_network_binding ::
    "string \<Rightarrow> string \<Rightarrow> string option \<Rightarrow> int option \<Rightarrow> (exc, net_binding list, unit) op" where
  "ovs_add_network_binding network_id network_type physical_network segmentation_id = (\<lambda>t.
     if network_id \<in> nb_network ` set t then Inl IntegrityError
     else Inr ((), t @ [\<lparr>nb_network = network_id, nb_type = network_type,
       nb_physical_network = physical_network, nb_segmentation_id = segmentation_id\<rparr>]))"

definition ovs_get_network_binding :: "string \<Rightarrow> net_binding list \<Rightarrow> exc + net_binding option" where
  "ovs_get_network_binding network_id t =
     one_row MultipleResultsFound (filter (\<lambda>b. nb_network b = network_id) t)"

definition ovs_get_port :: "string \<Rightarrow> db \<Rightarrow> exc + port_row option" where
  "ovs_get_port port_id d = one_row MultipleResultsFound (filter (\<lambda>p. pt_id p = port_id) (ports d))"

definition ovs_set_port_status :: "string \<Rightarrow> string \<Rightarrow> unit dbop" where
  "ovs_set_port_status port_id status =
     bindE (checkE (ovs_get_port port_id)) (\<lambda>row.
       case row of
         None \<Rightarrow> raiseE (PortNotFound port_id)
       | Some p \<Rightarrow> modifyE (\<lambda>d. d\<lparr>ports := replace_row p (p\<lparr>pt_status := status\<rparr>) (ports d)\<rparr>))"

subsection \<open>Tunnel endpoints\<close>

text \<open>
  The table of endpoints: the address is the primary key and the id is unique.  \<open>race i\<close> are the rows
  other transactions commit between the reads of the attempt \<open>i\<close> and its commit; a new row that
  clashes with them is a \<open>DBDuplicateEntry\<close>, after which the next attempt starts.
\<close>

type_synonym endpoints = "(string \<times> int) list"

definition generate_tunnel_id :: "endpoints \<Rightarrow> int" where
  "generate_tunnel_id t = (if t = [] then 0 else Max (snd ` set t)) + 1"

definition endpoint_clash :: "string \<times> int \<Rightarrow> endpoints \<Rightarrow> bool" where
  "endpoint_clash e t \<longleftrightarrow> fst e \<in> fst ` set t \<or> snd e \<in> snd ` set t"

definition endpoint_attempt ::
    "string \<Rightarrow> endpoints \<Rightarrow> endpoints \<Rightarrow> (string \<times> int) option \<times> endpoints" where
  "endpoint_attempt ip committed t =
     (case first_row (filter (\<lambda>e. fst e = ip) t) of
        Some e \<Rightarrow> (Some e, t @ committed)
      | None \<Rightarrow>
          (let e = (ip, generate_tunnel_id t) in
           if endpoint_clash e committed then (None, t @ committed) else (Some e, t @ committed @ [e])))"

fun add_tunnel_endpoint_from ::
    "nat \<Rightarrow> string \<Rightarrow> (nat \<Rightarrow> endpoints) \<Rightarrow> nat \<Rightarrow> endpoints \<Rightarrow> (exc + string \<times> int) \<times> endpoints" where
  "add_tunnel_endpoint_from 0 ip race i t = (Inl (NeutronError ''Unable to generate a new tunnel id''), t)"
| "add_tunnel_endpoint_from (Suc n) ip race i t =
     (case endpoint_attempt ip (race i) t of
        (Some e, t') \<Rightarrow> (Inr e, t')
      | (None, t') \<Rightarrow> add_tunnel_endpoint_from n ip race (Suc i) t')"

definition add_tunnel_endpoint ::
    "string \<Rightarrow> nat \<Rightarrow> (nat \<Rightarrow> endpoints) \<Rightarrow> endpoints \<Rightarrow> (exc + string \<times> int) \<times> endpoints" where
  "add_tunnel_endpoint ip max_retries race t = add_tunnel_endpoint_from max_retries ip race 0 t"

section \<open>Linux bridge\<close>

definition lb_sync_network_states :: "vlan_ranges \<Rightarrow> (exc, vlan_table, unit) op" where
  "lb_sync_network_states network_vlan_ranges = modifyE (sync_vlans network_vlan_ranges)"

definition lb_get_network_state ::
    "string \<Rightarrow> int \<Rightarrow> vlan_table \<Rightarrow> exc + ((string \<times> int) \<times> bool) option" where
  "lb_get_network_state physical_network vlan_id t = get_alloc (physical_network, vlan_id) t"

definition lb_reserve_network :: "(exc, vlan_table, string \<times> int) op" where
  "lb_reserve_network = reserve_or_raise NoNetworkAvailable"

definition lb_reserve_specific_network :: "string \<Rightarrow> int \<Rightarrow> (exc, vlan_table, unit) op" where
  "lb_reserve_specific_network physical_network vlan_id =
     reserve_specific (in_use_error (physical_network, vlan_id)) (physical_network, vlan_id)"

definition lb_release_network :: "vlan_ranges \<Rightarrow> string \<Rightarrow> int \<Rightarrow> (exc, vlan_table, unit) op" where
  "lb_release_network network_vlan_ranges physical_network vlan_id =
     release_id (vlan_in_pool network_vlan_ranges) (physical_network, vlan_id)"

section \<open>Hyper-V\<close>

text \<open>
  Only VLANs of the table can be reserved, and a released one stays in the table.
\<close>

definition hv_reserve_vlan :: "(exc, vlan_table, string \<times> int) op" where
  "hv_reserve_vlan = reserve_or_raise NoNetworkAvailable"

definition hv_reserve_flat_net :: "(exc, vlan_table, string) op" where
  "hv_reserve_flat_net =
     bindE (getsE (\<lambda>t. first_row (filter (\<lambda>r. \<not> snd r \<and> snd (fst r) = FLAT_VLAN_ID) t))) (\<lambda>row.
       case row of
         None \<Rightarrow> raiseE NoNetworkAvailable
       | Some (k, _) \<Rightarrow> bindE (modifyE (set_alloc k True)) (\<lambda>_. returnE (fst k)))"

definition hv_reserve_specific_vlan :: "string \<Rightarrow> int \<Rightarrow> (exc, vlan_table, unit) op" where
  "hv_reserve_specific_vlan physical_network vlan_id =
     bindE (checkE (get_alloc (physical_network, vlan_id))) (\<lambda>row.
       case row of
         None \<Rightarrow> raiseE NoNetworkAvailable
       | Some (_, True) \<Rightarrow> raiseE (in_use_error (physical_network, vlan_id))
       | Some (k, False) \<Rightarrow> modifyE (set_alloc k True))"

definition hv_reserve_specific_flat_net :: "string \<Rightarrow> (exc, vlan_table, unit) op" where
  "hv_reserve_specific_flat_net physical_network = hv_reserve_specific_vlan physical_network FLAT_VLAN_ID"

definition hv_release_vlan :: "string \<Rightarrow> int \<Rightarrow> (exc, vlan_table, unit) op" where
  "hv_release_vlan physical_network vlan_id = release_id (\<lambda>_. True) (physical_network, vlan_id)"

definition hv_sync_vlan_allocations :: "vlan_ranges \<Rightarrow> (exc, vlan_table, unit) op" where
  "hv_sync_vlan_allocations network_vlan_ranges = modifyE (sync_vlans network_vlan_ranges)"

end
