(* ===== verification/PluginDbProps.thy ===== *)
theory PluginDbProps
  imports PluginDb
begin

text \<open>
  Properties of the allocation tables of the monolithic plugins: the exactness of the VLAN pool
  under any sequence of operations, the Hyper-V release, and the tunnel endpoints under
  concurrent transactions.
\<close>

section \<open>Exact pools\<close>

text \<open>Every identifier of the pool is in use or free, and no other one is free.\<close>

definition pool_exact :: "('k \<Rightarrow> bool) \<Rightarrow> 'k table \<Rightarrow> bool" where
  "pool_exact inside t \<longleftrightarrow> table_ok t \<and> free_ids t = {k. inside k} - used_ids t"

lemma pool_exact_reserve_specific: "keeps (pool_exact inside) (reserve_specific e k)"
proof (rule keepsI)
  fix t a t' assume P: "pool_exact inside t" and run: "reserve_specific e k t = Inr (a, t')"
  then have ok: "table_ok t" by (simp add: pool_exact_def)
  from reserve_specific_spec [OF ok, of k e] run have "k \<notin> used_ids t" "table_ok t'"
    "used_ids t' = insert k (used_ids t)" "free_ids t' = free_ids t - {k}"
    by (auto split: if_splits)
  with P show "pool_exact inside t'" by (auto simp: pool_exact_def)
qed

lemma reserve_or_raise_spec:
  assumes ok: "table_ok t"
  shows "if free_ids t = {} then reserve_or_raise e t = Inl e
    else \<exists>k t'. reserve_or_raise e t = Inr (k, t') \<and> k \<in> free_ids t \<and> table_ok t' \<and>
      used_ids t' = insert k (used_ids t) \<and> free_ids t' = free_ids t - {k}"
  using reserve_first_spec [OF ok] by (auto simp: reserve_or_raise_def split: if_splits)

lemma pool_exact_reserve: "keeps (pool_exact inside) (reserve_or_raise e)"
proof (rule keepsI)
  fix t k t' assume P: "pool_exact inside t" and run: "reserve_or_raise e t = Inr (k, t')"
  then have ok: "table_ok t" by (simp add: pool_exact_def)
  from reserve_or_raise_spec [OF ok, of e] run have "table_ok t'"
    "used_ids t' = insert k (used_ids t)" "free_ids t' = free_ids t - {k}"
    by (auto split: if_splits)
  with P show "pool_exact inside t'" by (auto simp: pool_exact_def)
qed

lemma pool_exact_release: "keeps (pool_exact inside) (release_id inside k)"
proof (rule keepsI)
  fix t a t' assume P: "pool_exact inside t" and run: "release_id inside k t = Inr (a, t')"
  then have ok: "table_ok t" by (simp add: pool_exact_def)
  from release_id_spec [OF ok, of inside k] run have T: "table_ok t'" "used_ids t' = used_ids t - {k}"
    "free_ids t' = (if k \<in> fst ` set t then (if inside k then insert k (free_ids t) else free_ids t - {k})
                   else free_ids t)" by auto
  show "pool_exact inside t'"
  proof (cases "k \<in> fst ` set t")
    case True
    with P T show ?thesis by (auto simp: pool_exact_def)
  next
    case False
    then have "k \<notin> used_ids t" "k \<notin> free_ids t" unfolding in_keys used_ids_def free_ids_def by auto
    with False P T show ?thesis by (auto simp: pool_exact_def)
  qed
qed

text \<open>What can happen to the table while the server runs with a fixed configuration.\<close>

inductive ovs_vlan_reach :: "vlan_ranges \<Rightarrow> vlan_table \<Rightarrow> bool" for ranges :: vlan_ranges where
  start: "table_ok t \<Longrightarrow> ovs_sync_vlan_allocations ranges t = Inr ((), t') \<Longrightarrow> ovs_vlan_reach ranges t'"
| restart: "ovs_vlan_reach ranges t \<Longrightarrow> ovs_sync_vlan_allocations ranges t = Inr ((), t') \<Longrightarrow> ovs_vlan_reach ranges t'"
| reserve: "ovs_vlan_reach ranges t \<Longrightarrow> ovs_reserve_vlan t = Inr (k, t') \<Longrightarrow> ovs_vlan_reach ranges t'"
| specific: "ovs_vlan_reach ranges t \<Longrightarrow> ovs_reserve_specific_vlan p v t = Inr ((), t') \<Longrightarrow> ovs_vlan_reach ranges t'"
| release: "ovs_vlan_reach ranges t \<Longrightarrow> ovs_release_vlan ranges p v t = Inr ((), t') \<Longrightarrow> ovs_vlan_reach ranges t'"

lemma sync_pool_exact:
  "table_ok t \<Longrightarrow> distinct (map fst ranges) \<Longrightarrow> ovs_sync_vlan_allocations ranges t = Inr ((), t') \<Longrightarrow>
     pool_exact (vlan_in_pool ranges) t'"
  using sync_vlans_spec [of t ranges] by (auto simp: ovs_sync_vlan_allocations_def pool_exact_def)

lemma ovs_reach_exact:
  assumes "ovs_vlan_reach ranges t" and "distinct (map fst ranges)"
  shows "pool_exact (vlan_in_pool ranges) t"
  using assms(1)
proof induction
  case (start t t')
  then show ?case using sync_pool_exact assms(2) by blast
next
  case (restart t t')
  then show ?case using sync_pool_exact assms(2) by (auto simp: pool_exact_def)
next
  case (reserve t k t')
  show ?case by (rule keepsD [OF pool_exact_reserve reserve.hyps(2) [unfolded ovs_reserve_vlan_def] reserve.IH])
next
  case (specific t p v t')
  show ?case
    by (rule keepsD [OF pool_exact_reserve_specific specific.hyps(2) [unfolded ovs_reserve_specific_vlan_def] specific.IH])
next
  case (release t p v t')
  show ?case
    by (rule keepsD [OF pool_exact_release release.hyps(2) [unfolded ovs_release_vlan_def] release.IH])
qed

text \<open>
  C20: in every state the Open vSwitch plugin reaches with a fixed configuration, the free VLANs are
  exactly those of the configured ranges that are not in use, so \<open>reserve_vlan\<close> raises exactly
  when all of them are.
\<close>

theorem ovs_vlan_pool_exact:
  assumes "ovs_vlan_reach ranges t" and "distinct (map fst ranges)"
  shows "free_ids t = {k. vlan_in_pool ranges k} - used_ids t \<and>
     ((\<exists>e. ovs_reserve_vlan t = Inl e) \<longleftrightarrow> {k. vlan_in_pool ranges k} \<subseteq> used_ids t)"
proof -
  note E = ovs_reach_exact [OF assms]
  then have ok: "table_ok t" and free: "free_ids t = {k. vlan_in_pool ranges k} - used_ids t"
    by (simp_all add: pool_exact_def)
  have "(\<exists>e. ovs_reserve_vlan t = Inl e) \<longleftrightarrow> free_ids t = {}"
    using reserve_or_raise_spec [OF ok, of NoNetworkAvailable] unfolding ovs_reserve_vlan_def
    by (auto split: if_splits)
  then show ?thesis unfolding free by auto
qed

definition demo_ranges :: vlan_ranges where
  "demo_ranges = [(''physnet1'', [(100, 102)])]"

definition demo_vlans :: vlan_table where
  "demo_vlans = [((''physnet1'', 100), True), ((''physnet1'', 101), False), ((''physnet1'', 102), False)]"

theorem ovs_vlan_pool_exact_witness:
  "{k. vlan_in_pool demo_ranges k} - used_ids demo_vlans = {(''physnet1'', 101), (''physnet1'', 102)}"
proof -
  have "table_ok []" by (simp add: table_ok_def)
  moreover have "ovs_sync_vlan_allocations demo_ranges [] =
      Inr ((), [((''physnet1'', 100), False), ((''physnet1'', 101), False), ((''physnet1'', 102), False)])"
    by code_simp
  ultimately have "ovs_vlan_reach demo_ranges
      [((''physnet1'', 100), False), ((''physnet1'', 101), False), ((''physnet1'', 102), False)]"
    by (rule ovs_vlan_reach.start)
  moreover have "ovs_reserve_vlan [((''physnet1'', 100), False), ((''physnet1'', 101), False), ((''physnet1'', 102), False)] =
      Inr ((''physnet1'', 100), demo_vlans)" by code_simp
  ultimately have reach: "ovs_vlan_reach demo_ranges demo_vlans" by (rule ovs_vlan_reach.reserve)
  have "distinct (map fst demo_ranges)" by (simp add: demo_ranges_def)
  from ovs_vlan_pool_exact [OF reach this] have
    "{k. vlan_in_pool demo_ranges k} - used_ids demo_vlans = free_ids demo_vlans" by simp
  also have "free_ids demo_vlans = {(''physnet1'', 101), (''physnet1'', 102)}"
    by (auto simp: free_ids_def demo_vlans_def)
  finally show ?thesis .
qed

section \<open>Hyper-V\<close>

lemma hv_reserve_result:
  assumes "table_ok t"
  shows "hv_reserve_specific_vlan p v t =
     (if (p, v) \<in> free_ids t then Inr ((), set_alloc (p, v) True t)
      else if (p, v) \<in> used_ids t then Inl (in_use_error (p, v)) else Inl NoNetworkAvailable)"
proof -
  have "get_alloc (p, v) t = Inr (if (p, v) \<in> used_ids t then Some ((p, v), True)
      else if (p, v) \<in> free_ids t then Some ((p, v), False) else None)"
    using get_alloc_eq [OF assms, of "(p, v)"] by (simp add: used_ids_def free_ids_def)
  moreover have "\<not> ((p, v) \<in> used_ids t \<and> (p, v) \<in> free_ids t)" using used_free_disjoint [OF assms] by blast
  ultimately show ?thesis by (auto simp: hv_reserve_specific_vlan_def bindE_def checkE_def)
qed

lemma hv_release_result: "table_ok t \<Longrightarrow> hv_release_vlan p v t = Inr ((), set_alloc (p, v) False t)"
proof (cases "(p, v) \<in> fst ` set t")
  case True
  assume "table_ok t"
  with True show ?thesis
    using get_alloc_eq [of t "(p, v)"] in_keys [of "(p, v)" t]
    by (auto simp: hv_release_vlan_def release_id_def bindE_def checkE_def)
next
  case False
  then have "set_alloc (p, v) False t = t" by (force simp: set_alloc_def intro!: map_idI)
  moreover assume "table_ok t"
  ultimately show ?thesis
    using False get_alloc_eq [of t "(p, v)"] in_keys [of "(p, v)" t]
    by (auto simp: hv_release_vlan_def release_id_def bindE_def checkE_def)
qed

text \<open>
  C21: the Hyper-V plugin reserves a given VLAN exactly when it is free in its table; the VLAN is then in
  use, so that reserving it again raises, and no other row changes.  It raises \<open>FlatNetworkInUse\<close> or
  \<open>VlanIdInUse\<close> when the VLAN is in use and \<open>NoNetworkAvailable\<close> when the table does not have it.  A
  release makes any VLAN of the table free, whether the configured ranges contain it or not, and changes no
  other row; a reservation after it succeeds again.
\<close>

theorem hyperv_reserve_release:
  assumes "table_ok t"
  shows "(if (p, v) \<in> free_ids t
      then \<exists>t'. hv_reserve_specific_vlan p v t = Inr ((), t') \<and> map fst t' = map fst t \<and>
             used_ids t' = insert (p, v) (used_ids t) \<and> free_ids t' = free_ids t - {(p, v)} \<and>
             hv_reserve_specific_vlan p v t' = Inl (if v = - 1 then FlatNetworkInUse p else VlanIdInUse v p)
      else hv_reserve_specific_vlan p v t =
             Inl (if (p, v) \<notin> used_ids t then NoNetworkAvailable
                  else if v = - 1 then FlatNetworkInUse p else VlanIdInUse v p)) \<and>
     (\<exists>t'. hv_release_vlan p v t = Inr ((), t') \<and> map fst t' = map fst t \<and> used_ids t' = used_ids t - {(p, v)} \<and>
        free_ids t' = (if (p, v) \<in> fst ` set t then insert (p, v) (free_ids t) else free_ids t))"
proof (intro conjI)
  have err: "in_use_error (p, v) = (if v = - 1 then FlatNetworkInUse p else VlanIdInUse v p)"
    by (simp add: in_use_error_def FLAT_VLAN_ID_def)
  let ?t = "set_alloc (p, v) True t"
  have ok: "table_ok ?t" using assms by simp
  show "if (p, v) \<in> free_ids t
      then \<exists>t'. hv_reserve_specific_vlan p v t = Inr ((), t') \<and> map fst t' = map fst t \<and>
             used_ids t' = insert (p, v) (used_ids t) \<and> free_ids t' = free_ids t - {(p, v)} \<and>
             hv_reserve_specific_vlan p v t' = Inl (if v = - 1 then FlatNetworkInUse p else VlanIdInUse v p)
      else hv_reserve_specific_vlan p v t =
             Inl (if (p, v) \<notin> used_ids t then NoNetworkAvailable
                  else if v = - 1 then FlatNetworkInUse p else VlanIdInUse v p)"
  proof (cases "(p, v) \<in> free_ids t")
    case True
    then have key: "(p, v) \<in> fst ` set t" by (force simp: free_ids_def)
    have "used_ids ?t = insert (p, v) (used_ids t)" "free_ids ?t = free_ids t - {(p, v)}"
      using used_set_alloc [OF key, of True] free_set_alloc [OF key, of True] by simp_all
    moreover from this have "hv_reserve_specific_vlan p v ?t = Inl (in_use_error (p, v))"
      unfolding hv_reserve_result [OF ok] by simp
    moreover have "hv_reserve_specific_vlan p v t = Inr ((), ?t)" using True by (simp add: hv_reserve_result [OF assms])
    ultimately show ?thesis using True by (simp add: err)
  next
    case False
    then show ?thesis by (simp add: hv_reserve_result [OF assms] err)
  qed
  show "\<exists>t'. hv_release_vlan p v t = Inr ((), t') \<and> map fst t' = map fst t \<and> used_ids t' = used_ids t - {(p, v)} \<and>
        free_ids t' = (if (p, v) \<in> fst ` set t then insert (p, v) (free_ids t) else free_ids t)"
    using release_id_spec [OF assms, of "\<lambda>_. True" "(p, v)"] hv_release_result [OF assms, of p v]
    unfolding hv_release_vlan_def by auto
qed

theorem hyperv_reserve_release_witness:
  "(\<exists>t'. hv_release_vlan ''physnet1'' 7 [((''physnet1'', 7), True)] = Inr ((), t') \<and>
     (''physnet1'', 7) \<in> free_ids t' \<and> \<not> vlan_in_pool demo_ranges (''physnet1'', 7)) \<and>
   hv_reserve_specific_vlan ''physnet1'' 7 [((''physnet1'', 7), True)] = Inl (VlanIdInUse 7 ''physnet1'')"
proof -
  have "table_ok [((''physnet1'', 7 :: int), True)]" by (simp add: table_ok_def)
  note C21 = hyperv_reserve_release [OF this, of "''physnet1''" 7]
  have "(''physnet1'', 7 :: int) \<notin> free_ids [((''physnet1'', 7), True)]"
    "(''physnet1'', 7 :: int) \<in> used_ids [((''physnet1'', 7), True)]" by (simp_all add: free_ids_def used_ids_def)
  with C21 have "hv_reserve_specific_vlan ''physnet1'' 7 [((''physnet1'', 7), True)] = Inl (VlanIdInUse 7 ''physnet1'')"
    by simp
  moreover from C21 have
    "\<exists>t'. hv_release_vlan ''physnet1'' 7 [((''physnet1'', 7), True)] = Inr ((), t') \<and> (''physnet1'', 7) \<in> free_ids t'"
    by auto
  moreover have "\<not> vlan_in_pool demo_ranges (''physnet1'', 7)"
    by (simp add: vlan_in_pool_def demo_ranges_def in_ranges_def)
  ultimately show ?thesis by blast
qed

section \<open>Tunnel endpoints\<close>

definition endpoints_ok :: "endpoints \<Rightarrow> bool" where
  "endpoints_ok t \<longleftrightarrow> distinct (map fst t) \<and> distinct (map snd t)"

text \<open>The rows other transactions commit keep the keys of the table unique.\<close>

definition races_ok :: "(nat \<Rightarrow> endpoints) \<Rightarrow> nat \<Rightarrow> endpoints \<Rightarrow> bool" where
  "races_ok race n t \<longleftrightarrow> (\<forall>i \<le> n. endpoints_ok (t @ concat (map race [0..<i])))"

lemma endpoint_found:
  "endpoints_ok t \<Longrightarrow> first_row (filter (\<lambda>e. fst e = ip) t) = Some e \<Longrightarrow> e \<in> set t \<and> fst e = ip"
  by (drule first_row_SomeD) simp

lemma generate_tunnel_id_new: "generate_tunnel_id t \<notin> snd ` set t"
proof
  assume in_t: "generate_tunnel_id t \<in> snd ` set t"
  then have "t \<noteq> []" by auto
  then have "generate_tunnel_id t = Max (snd ` set t) + 1" by (simp add: generate_tunnel_id_def)
  moreover have "generate_tunnel_id t \<le> Max (snd ` set t)" using in_t by (intro Max_ge) simp_all
  ultimately show False by simp
qed

lemma endpoint_attempt_ok:
  assumes ok: "endpoints_ok (t @ c)" and run: "endpoint_attempt ip c t = (r, t')"
  shows "endpoints_ok t' \<and> (case r of None \<Rightarrow> t' = t @ c \<and> c \<noteq> [] | Some e \<Rightarrow> e \<in> set t' \<and> fst e = ip)"
proof (cases "first_row (filter (\<lambda>e. fst e = ip) t)")
  case (Some e)
  then have e: "e \<in> set t" "fst e = ip" by (auto dest: first_row_SomeD)
  have "r = Some e" "t' = t @ c" using run by (simp_all add: endpoint_attempt_def Some)
  with e ok show ?thesis by simp
next
  case None
  then have no_ip: "ip \<notin> fst ` set t" by (auto simp: filter_empty_conv)
  let ?e = "(ip, generate_tunnel_id t)"
  show ?thesis
  proof (cases "endpoint_clash ?e c")
    case True
    with None run ok show ?thesis by (auto simp: endpoint_attempt_def endpoint_clash_def)
  next
    case False
    then have t': "t' = t @ c @ [?e]" "r = Some ?e" using None run by (simp_all add: endpoint_attempt_def Let_def)
    have "ip \<notin> fst ` set c" "generate_tunnel_id t \<notin> snd ` set c"
      using False by (simp_all add: endpoint_clash_def)
    then have "endpoints_ok t'" using ok no_ip generate_tunnel_id_new [of t] by (auto simp: endpoints_ok_def t')
    then show ?thesis using t' by simp
  qed
qed

lemma add_tunnel_endpoint_from_ok:
  assumes "\<forall>j \<le> n. endpoints_ok (t @ concat (map race [i..<i + j]))"
    and "\<exists>j < n. race (i + j) = []"
  shows "\<exists>e t'. add_tunnel_endpoint_from n ip race i t = (Inr e, t') \<and> fst e = ip \<and> e \<in> set t' \<and> endpoints_ok t'"
  using assms
proof (induction n arbitrary: i t)
  case 0
  then show ?case by simp
next
  case (Suc n)
  obtain r t1 where run: "endpoint_attempt ip (race i) t = (r, t1)" by (cases "endpoint_attempt ip (race i) t")
  have "endpoints_ok (t @ race i)" using Suc.prems(1) [rule_format, of 1] by simp
  note A = endpoint_attempt_ok [OF this run]
  show ?case
  proof (cases r)
    case (Some e)
    with A run show ?thesis by auto
  next
    case None
    with A have t1: "t1 = t @ race i" and some: "race i \<noteq> []" by auto
    have "\<forall>j \<le> n. endpoints_ok (t1 @ concat (map race [Suc i..<Suc i + j]))"
    proof (intro allI impI)
      fix j assume "j \<le> n"
      then have "endpoints_ok (t @ concat (map race [i..<i + Suc j]))" by (intro Suc.prems(1) [rule_format]) simp
      moreover have "[i..<i + Suc j] = i # [Suc i..<Suc i + j]"
        using upt_conv_Cons [of i "i + Suc j"] by (simp del: upt_Suc)
      ultimately show "endpoints_ok (t1 @ concat (map race [Suc i..<Suc i + j]))"
        unfolding t1 by (simp del: upt_Suc)
    qed
    moreover obtain j where j: "j < Suc n" "race (i + j) = []" using Suc.prems(2) by blast
    have "j \<noteq> 0" using j(2) some by (cases j) simp_all
    with j have "\<exists>j < n. race (Suc i + j) = []" by (intro exI [of _ "j - 1"]) auto
    ultimately show ?thesis using Suc.IH [of t1 "Suc i"] by (simp add: run None)
  qed
qed

text \<open>
  C22: if in one of the attempts no other transaction commits a new endpoint, \<open>add_tunnel_endpoint\<close>
  returns an endpoint of the given address that is stored, with addresses and ids still unique.
\<close>

theorem add_tunnel_endpoint_returns:
  assumes "races_ok race max_retries t" and "i < max_retries" and "race i = []"
  shows "\<exists>e t'. add_tunnel_endpoint ip max_retries race t = (Inr e, t') \<and> fst e = ip \<and> e \<in> set t' \<and>
     endpoints_ok t'"
  using add_tunnel_endpoint_from_ok [of max_retries t race 0 ip] assms
  by (auto simp: races_ok_def add_tunnel_endpoint_def)

definition demo_race :: "nat \<Rightarrow> endpoints" where
  "demo_race i = (if i = 0 then [(''10.0.0.2'', 1)] else [])"

theorem add_tunnel_endpoint_returns_witness:
  "\<exists>e t'. add_tunnel_endpoint ''10.0.0.1'' 10 demo_race [] = (Inr e, t') \<and> fst e = ''10.0.0.1'' \<and>
     e \<in> set t' \<and> endpoints_ok t'"
proof -
  have "concat (map demo_race [0..<j]) = (if j = 0 then [] else [(''10.0.0.2'', 1)])" for j
    by (induction j) (simp_all add: demo_race_def)
  then have "endpoints_ok ([] @ concat (map demo_race [0..<j]))" for j by (simp add: endpoints_ok_def)
  then have "races_ok demo_race 10 []" by (simp add: races_ok_def)
  moreover have "demo_race 1 = []" by (simp add: demo_race_def)
  ultimately show ?thesis using add_tunnel_endpoint_returns [of demo_race 10 "[]" 1] by simp
qed

end
