(* ===== verification/Quota.thy ===== *)
theory Quota
  imports NeutronExc "HOL-Library.AList" "HOL-Library.List_Lexorder" "HOL-Library.Char_ord"
begin

text \<open>
  Quotas: the engine and the configuration driver (\<open>neutron/quota.py\<close>), the database driver
  (\<open>neutron/db/quota_db.py\<close>), and their use by the API when resources are created
  (\<open>Controller.create\<close> in \<open>neutron/api/v2/base.py\<close>).

  A dict from names to limits is an association list without duplicate keys in iteration order.
\<close>

type_synonym limits = "(string \<times> int) list"

section \<open>Resources\<close>

record quota_resource =
  qr_name :: string
  qr_flag :: string

text \<open>The options of the section \<open>QUOTAS\<close> with \<open>default_quota\<close>.\<close>

record quota_conf =
  quota_options :: limits
  default_quota :: int

definition resource_default :: "quota_conf \<Rightarrow> quota_resource \<Rightarrow> int" where
  "resource_default cfg r = (case map_of (quota_options cfg) (qr_flag r) of None \<Rightarrow> default_quota cfg | Some n \<Rightarrow> n)"

definition register_resource :: "quota_resource \<Rightarrow> quota_resource list \<Rightarrow> quota_resource list" where
  "register_resource r rs = (if qr_name r \<in> qr_name ` set rs then rs else rs @ [r])"

definition register_resource_by_name :: "string \<Rightarrow> quota_resource list \<Rightarrow> quota_resource list" where
  "register_resource_by_name n = register_resource \<lparr>qr_name = n, qr_flag = ''quota_'' @ n\<rparr>"

definition register_resources :: "quota_resource list \<Rightarrow> quota_resource list \<Rightarrow> quota_resource list" where
  "register_resources new rs = foldl (\<lambda>rs r. register_resource r rs) rs new"

definition register_resources_from_config :: "string list \<Rightarrow> quota_resource list" where
  "register_resources_from_config items =
     register_resources (map (\<lambda>n. \<lparr>qr_name = n, qr_flag = ''quota_'' @ n\<rparr>) items) []"

definition resource_defaults :: "quota_conf \<Rightarrow> quota_resource list \<Rightarrow> limits" where
  "resource_defaults cfg rs = map (\<lambda>r. (qr_name r, resource_default cfg r)) rs"

section \<open>The database driver\<close>

record quota_row =
  q_tenant :: string
  q_resource :: string
  q_limit :: int

definition get_tenant_quotas :: "limits \<Rightarrow> string \<Rightarrow> quota_row list \<Rightarrow> limits" where
  "get_tenant_quotas defaults tenant_id t =
     foldl (\<lambda>d q. AList.update (q_resource q) (q_limit q) d) defaults (filter (\<lambda>q. q_tenant q = tenant_id) t)"

definition delete_tenant_quota :: "string \<Rightarrow> quota_row list \<Rightarrow> quota_row list" where
  "delete_tenant_quota tenant_id t = filter (\<lambda>q. q_tenant q \<noteq> tenant_id) t"

text \<open>One dict per tenant, in the order of their first rows.\<close>

definition get_all_quotas :: "limits \<Rightarrow> quota_row list \<Rightarrow> (string \<times> limits) list" where
  "get_all_quotas defaults t =
     foldl (\<lambda>all q.
       let d = (case map_of all (q_tenant q) of None \<Rightarrow> defaults | Some d \<Rightarrow> d)
       in AList.update (q_tenant q) (AList.update (q_resource q) (q_limit q) d) all) [] t"

fun update_quota_limit :: "string \<Rightarrow> string \<Rightarrow> int \<Rightarrow> quota_row list \<Rightarrow> quota_row list" where
  "update_quota_limit tenant_id resource limit [] =
     [\<lparr>q_tenant = tenant_id, q_resource = resource, q_limit = limit\<rparr>]"
| "update_quota_limit tenant_id resource limit (q # t) =
     (if q_tenant q = tenant_id \<and> q_resource q = resource then q\<lparr>q_limit := limit\<rparr> # t
      else q # update_quota_limit tenant_id resource limit t)"

definition get_quotas :: "limits \<Rightarrow> string \<Rightarrow> string list \<Rightarrow> quota_row list \<Rightarrow> exc + limits" where
  "get_quotas defaults tenant_id keys t =
     (let sub_resources = filter (\<lambda>(k, v). k \<in> set keys) defaults in
      if length keys \<noteq> length sub_resources
      then Inl (QuotaResourceUnknown (sort (remdups (filter (\<lambda>k. k \<notin> fst ` set sub_resources) keys))))
      else Inr (get_tenant_quotas sub_resources tenant_id t))"

text \<open>\<open>limit_check\<close>; \<open>quotas[key]\<close> is defined for every key once \<open>_get_quotas\<close> has returned.\<close>

definition check_values :: "limits \<Rightarrow> limits \<Rightarrow> exc + unit" where
  "check_values quotas vals =
     (let overs = map fst (filter (\<lambda>(key, val). let q = the (map_of quotas key) in 0 \<le> q \<and> q < val) vals) in
      if overs \<noteq> [] then Inl (OverQuota (sort overs)) else Inr ())"

definition check_unders :: "limits \<Rightarrow> exc + unit" where
  "check_unders vals =
     (let unders = map fst (filter (\<lambda>(key, val). val < 0) vals) in
      if unders \<noteq> [] then Inl (InvalidQuotaValue (sort unders)) else Inr ())"

definition limit_check :: "limits \<Rightarrow> string \<Rightarrow> limits \<Rightarrow> quota_row list \<Rightarrow> exc + unit" where
  "limit_check defaults tenant_id vals t =
     bindR (check_unders vals) (\<lambda>_.
     bindR (get_quotas defaults tenant_id (map fst vals) t) (\<lambda>quotas. check_values quotas vals))"

section \<open>The configuration driver\<close>

definition conf_get_quotas :: "limits \<Rightarrow> string list \<Rightarrow> exc + limits" where
  "conf_get_quotas defaults keys =
     (let sub_resources = filter (\<lambda>(k, v). k \<in> set keys) defaults in
      if length keys \<noteq> length sub_resources
      then Inl (QuotaResourceUnknown (sort (remdups (filter (\<lambda>k. k \<notin> fst ` set sub_resources) keys))))
      else Inr sub_resources)"

definition conf_limit_check :: "limits \<Rightarrow> limits \<Rightarrow> exc + unit" where
  "conf_limit_check defaults vals =
     bindR (check_unders vals) (\<lambda>_.
     bindR (conf_get_quotas defaults (map fst vals)) (\<lambda>quotas. check_values quotas vals))"

definition conf_get_tenant_quotas :: "limits \<Rightarrow> limits" where
  "conf_get_tenant_quotas defaults = defaults"

definition conf_update_quota_limit :: "string \<Rightarrow> string \<Rightarrow> int \<Rightarrow> exc + unit" where
  "conf_update_quota_limit tenant_id resource limit = Inl (HTTPForbidden ''Access to this resource was denied.'')"

definition conf_delete_tenant_quota :: "string \<Rightarrow> exc + unit" where
  "conf_delete_tenant_quota tenant_id = Inl (HTTPForbidden ''Access to this resource was denied.'')"

section \<open>The engine and the API\<close>

text \<open>
  \<open>_count_resource\<close>: \<open>counter\<close> is the count method of the plugin, \<open>None\<close> when it is missing or not
  implemented, and \<open>listing\<close> its method that returns all resources.
\<close>

definition count_resource :: "(string \<Rightarrow> nat) option \<Rightarrow> (string \<Rightarrow> 'r list) \<Rightarrow> string \<Rightarrow> nat" where
  "count_resource counter listing tenant_id =
     (case counter of Some c \<Rightarrow> c tenant_id | None \<Rightarrow> length (listing tenant_id))"

definition quota_count :: "quota_resource list \<Rightarrow> string \<Rightarrow> (string \<Rightarrow> nat) \<Rightarrow> string \<Rightarrow> exc + nat" where
  "quota_count rs resource counted tenant_id =
     (if resource \<notin> qr_name ` set rs then Inl (QuotaResourceUnknown [resource]) else Inr (counted tenant_id))"

text \<open>
  The loop over the items of a create request, which are given by their tenants: in a bulk request
  the items of a tenant before an item are added to its delta.  Nothing has been created yet, so
  that the count of a tenant does not change.
\<close>

fun check_items ::
    "(string \<Rightarrow> limits \<Rightarrow> exc + unit) \<Rightarrow> quota_resource list \<Rightarrow> string \<Rightarrow> (string \<Rightarrow> nat) \<Rightarrow> bool
       \<Rightarrow> (string \<times> int) list \<Rightarrow> string list \<Rightarrow> exc + unit" where
  "check_items check rs resource counted bulk deltas [] = Inr ()"
| "check_items check rs resource counted bulk deltas (tenant_id # items) =
     (case quota_count rs resource counted tenant_id of
        Inl e \<Rightarrow> check_items check rs resource counted bulk deltas items
      | Inr n \<Rightarrow>
          (let delta = (if bulk then (case map_of deltas tenant_id of None \<Rightarrow> 0 | Some d \<Rightarrow> d) + 1 else 1);
               deltas' = (if bulk then AList.update tenant_id delta deltas else deltas)
           in bindR (check tenant_id [(resource, int n + delta)]) (\<lambda>_.
                check_items check rs resource counted bulk deltas' items)))"

definition create_quota_check ::
    "quota_conf \<Rightarrow> quota_resource list \<Rightarrow> string \<Rightarrow> (string \<Rightarrow> nat) \<Rightarrow> bool \<Rightarrow> string list \<Rightarrow> quota_row list
       \<Rightarrow> exc + unit" where
  "create_quota_check cfg rs resource counted bulk tenants t =
     check_items (\<lambda>tenant_id vals. limit_check (resource_defaults cfg rs) tenant_id vals t)
       rs resource counted bulk [] tenants"

end
