(* ===== verification/QuotaProps.thy ===== *)
theory QuotaProps
  imports Quota
begin

text \<open>
  Properties of quotas: the limits that apply to a tenant, the exact outcome of \<open>limit_check\<close>, and
  the quota check of a bulk creation.
\<close>

text \<open>The limit that applies: the override of the tenant, else the default.\<close>

definition override :: "string \<Rightarrow> string \<Rightarrow> quota_row list \<Rightarrow> quota_row option" where
  "override tenant_id resource t = find (\<lambda>q. q_tenant q = tenant_id \<and> q_resource q = resource) (rev t)"

definition tenant_limit :: "limits \<Rightarrow> string \<Rightarrow> quota_row list \<Rightarrow> string \<Rightarrow> int" where
  "tenant_limit defaults tenant_id t k =
     (case override tenant_id k t of Some q \<Rightarrow> q_limit q | None \<Rightarrow> the (map_of defaults k))"

lemma map_of_tenant_quotas:
  "map_of (get_tenant_quotas defaults tenant_id t) k =
     (case override tenant_id k t of Some q \<Rightarrow> Some (q_limit q) | None \<Rightarrow> map_of defaults k)"
  by (induction t rule: rev_induct) (auto simp: get_tenant_quotas_def override_def update_conv')

lemma map_of_filter_keys:
  "map_of (filter (\<lambda>(k, v). k \<in> K) d) k = (if k \<in> K then map_of d k else None)"
  by (induction d) auto

lemma filter_keys_length:
  assumes "distinct (map fst d)" "distinct keys"
  shows "length keys = length (filter (\<lambda>(k, v). k \<in> set keys) d) \<longleftrightarrow> set keys \<subseteq> fst ` set d"
proof -
  let ?f = "filter (\<lambda>(k, v). k \<in> set keys) d"
  have "length ?f = card (fst ` set ?f)"
    using assms(1) distinct_map_filter by (metis distinct_card image_set length_map)
  also have "fst ` set ?f = set keys \<inter> fst ` set d" by force
  finally have f: "length ?f = card (set keys \<inter> fst ` set d)" .
  have k: "length keys = card (set keys)" using assms(2) by (simp add: distinct_card)
  show ?thesis
    unfolding f k by (metis List.finite_set card_subset_eq inf.absorb_iff1 inf_le1)
qed

lemma get_quotas_ok:
  assumes "distinct (map fst defaults)" "distinct keys" "set keys \<subseteq> fst ` set defaults"
  shows "\<exists>quotas. get_quotas defaults tenant_id keys t = Inr quotas \<and>
    (\<forall>k \<in> set keys. the (map_of quotas k) = tenant_limit defaults tenant_id t k)"
proof -
  have "length keys = length (filter (\<lambda>(k, v). k \<in> set keys) defaults)"
    using filter_keys_length [OF assms(1,2)] assms(3) by simp
  then show ?thesis
    by (auto simp: get_quotas_def Let_def map_of_tenant_quotas tenant_limit_def map_of_filter_keys split: option.splits)
qed

lemma get_quotas_unknown:
  assumes "distinct (map fst defaults)" "distinct keys" "\<not> set keys \<subseteq> fst ` set defaults"
  shows "get_quotas defaults tenant_id keys t =
    Inl (QuotaResourceUnknown (sort (filter (\<lambda>k. k \<notin> fst ` set defaults) keys)))"
proof -
  have "length keys \<noteq> length (filter (\<lambda>(k, v). k \<in> set keys) defaults)"
    using filter_keys_length [OF assms(1,2)] assms(3) by simp
  moreover have "filter (\<lambda>k. k \<notin> fst ` set (filter (\<lambda>(k, v). k \<in> set keys) defaults)) keys =
      filter (\<lambda>k. k \<notin> fst ` set defaults) keys" by (rule filter_cong) force+
  ultimately show ?thesis
    using assms(2) by (simp add: get_quotas_def Let_def distinct_remdups_id)
qed

definition over_limit :: "limits \<Rightarrow> string \<Rightarrow> quota_row list \<Rightarrow> string \<times> int \<Rightarrow> bool" where
  "over_limit defaults tenant_id t kv \<longleftrightarrow>
     0 \<le> tenant_limit defaults tenant_id t (fst kv) \<and> tenant_limit defaults tenant_id t (fst kv) < snd kv"

lemma limit_check_outcome:
  assumes "distinct (map fst defaults)" and "distinct (map fst vals)"
  shows "limit_check defaults tenant_id vals t =
     (if \<exists>kv \<in> set vals. snd kv < 0
      then Inl (InvalidQuotaValue (sort (map fst (filter (\<lambda>kv. snd kv < 0) vals))))
      else if \<exists>kv \<in> set vals. fst kv \<notin> fst ` set defaults
      then Inl (QuotaResourceUnknown (sort (filter (\<lambda>k. k \<notin> fst ` set defaults) (map fst vals))))
      else if \<exists>kv \<in> set vals. over_limit defaults tenant_id t kv
      then Inl (OverQuota (sort (map fst (filter (over_limit defaults tenant_id t) vals))))
      else Inr ())"
proof -
  have unders: "filter (\<lambda>(key, val). val < 0) vals = filter (\<lambda>kv. snd kv < 0) vals"
    by (rule filter_cong) auto
  have empty: "filter P vals = [] \<longleftrightarrow> \<not> (\<exists>kv \<in> set vals. P kv)" for P by (auto simp: filter_empty_conv)
  have under: "check_unders vals = (if \<exists>kv \<in> set vals. snd kv < 0
      then Inl (InvalidQuotaValue (sort (map fst (filter (\<lambda>kv. snd kv < 0) vals)))) else Inr ())"
    unfolding check_unders_def Let_def unders by (simp add: empty)
  show ?thesis
  proof (cases "\<exists>kv \<in> set vals. fst kv \<notin> fst ` set defaults")
    case True
    then have "\<not> set (map fst vals) \<subseteq> fst ` set defaults" by auto
    from get_quotas_unknown [OF assms this] True show ?thesis by (simp add: limit_check_def under)
  next
    case False
    then have "set (map fst vals) \<subseteq> fst ` set defaults" by auto
    from get_quotas_ok [OF assms this, of tenant_id t] obtain quotas
      where q: "get_quotas defaults tenant_id (map fst vals) t = Inr quotas"
      and lim: "\<forall>k \<in> set (map fst vals). the (map_of quotas k) = tenant_limit defaults tenant_id t k" by blast
    have overs: "filter (\<lambda>(key, val). 0 \<le> the (map_of quotas key) \<and> the (map_of quotas key) < val) vals =
        filter (over_limit defaults tenant_id t) vals"
      by (rule filter_cong [OF refl]) (use lim in \<open>auto simp: over_limit_def\<close>)
    have "check_values quotas vals = (if \<exists>kv \<in> set vals. over_limit defaults tenant_id t kv
        then Inl (OverQuota (sort (map fst (filter (over_limit defaults tenant_id t) vals)))) else Inr ())"
      unfolding check_values_def Let_def overs by (simp add: empty)
    with False show ?thesis by (simp add: limit_check_def q under)
  qed
qed

text \<open>
  C23: a limit check passes exactly when no value is negative, every resource is a known one, and no value
  exceeds the limit of the tenant, where a negative limit means unlimited; otherwise it names the offending
  resources in order: the negative values first, then the unknown resources, then the exceeded limits.
\<close>

theorem limit_check_exact:
  assumes "distinct (map fst defaults)" and "distinct (map fst vals)"
  shows "limit_check defaults tenant_id vals t =
     (if \<exists>kv \<in> set vals. snd kv < 0
      then Inl (InvalidQuotaValue (sort (map fst (filter (\<lambda>kv. snd kv < 0) vals))))
      else if \<exists>kv \<in> set vals. fst kv \<notin> fst ` set defaults
      then Inl (QuotaResourceUnknown (sort (filter (\<lambda>k. k \<notin> fst ` set defaults) (map fst vals))))
      else if \<exists>kv \<in> set vals. over_limit defaults tenant_id t kv
      then Inl (OverQuota (sort (map fst (filter (over_limit defaults tenant_id t) vals))))
      else Inr ())"
  using assms by (rule limit_check_outcome)

definition demo_defaults :: limits where
  "demo_defaults = [(''network'', 10), (''subnet'', 10), (''port'', 50)]"

definition demo_quota_rows :: "quota_row list" where
  "demo_quota_rows = [\<lparr>q_tenant = ''t1'', q_resource = ''port'', q_limit = 2\<rparr>,
     \<lparr>q_tenant = ''t2'', q_resource = ''network'', q_limit = -1\<rparr>]"

theorem limit_check_exact_witness:
  "limit_check demo_defaults ''t1'' [(''port'', 3), (''network'', 10)] demo_quota_rows = Inl (OverQuota [''port'']) \<and>
   limit_check demo_defaults ''t1'' [(''router'', 1), (''port'', 3)] demo_quota_rows =
     Inl (QuotaResourceUnknown [''router''])"
proof -
  have d: "distinct (map fst demo_defaults)" by (simp add: demo_defaults_def)
  have v: "distinct (map fst [(''port'', 3 :: int), (''network'', 10)])"
    "distinct (map fst [(''router'', 1 :: int), (''port'', 3)])" by simp_all
  from limit_check_exact [OF d v(1), of "''t1''" demo_quota_rows] limit_check_exact [OF d v(2), of "''t1''" demo_quota_rows]
  show ?thesis
    by (simp add: over_limit_def tenant_limit_def override_def demo_quota_rows_def demo_defaults_def)
qed

section \<open>Creation\<close>

definition within :: "int \<Rightarrow> int \<Rightarrow> bool" where
  "within limit n \<longleftrightarrow> limit < 0 \<or> n \<le> limit"

lemma single_limit_check:
  assumes "distinct (map fst defaults)" "resource \<in> fst ` set defaults" "0 \<le> n"
  shows "limit_check defaults tenant_id [(resource, n)] t = Inr () \<longleftrightarrow>
    within (tenant_limit defaults tenant_id t resource) n"
proof -
  have "distinct (map fst [(resource, n)])" by simp
  from limit_check_outcome [OF assms(1) this, of tenant_id t] assms(2,3) show ?thesis
    by (auto simp: within_def over_limit_def)
qed

lemma check_items_bulk:
  assumes check: "\<And>tn n. 0 \<le> n \<Longrightarrow> check tn [(resource, n)] = Inr () \<longleftrightarrow> within (lim tn) n"
    and known: "resource \<in> qr_name ` set rs"
    and pos: "\<forall>(tn, d) \<in> set deltas. 0 \<le> d"
  shows "check_items check rs resource counted True deltas items = Inr () \<longleftrightarrow>
    (\<forall>tn \<in> set items. within (lim tn)
       (int (counted tn) + (case map_of deltas tn of None \<Rightarrow> 0 | Some d \<Rightarrow> d) + int (count_list items tn)))"
  using pos
proof (induction items arbitrary: deltas)
  case Nil
  then show ?case by simp
next
  case (Cons tn items)
  let ?d = "\<lambda>ds tn. (case map_of ds tn of None \<Rightarrow> 0 | Some d \<Rightarrow> d) :: int"
  let ?delta = "?d deltas tn + 1"
  let ?ds = "AList.update tn ?delta deltas"
  have dpos: "0 \<le> ?d deltas x" for x using Cons.prems by (auto split: option.splits dest: map_of_SomeD)
  have "\<forall>(x, d) \<in> set ?ds. 0 \<le> d"
  proof (clarify)
    fix x d assume "(x, d) \<in> set ?ds"
    then have "d = ?delta \<or> (x, d) \<in> set deltas" by (induction deltas) (auto split: if_splits)
    then show "0 \<le> d" using dpos [of tn] Cons.prems by auto
  qed
  note IH = Cons.IH [OF this]
  have d': "?d ?ds x = (if x = tn then ?delta else ?d deltas x)" for x by (simp add: update_conv')
  have first: "check tn [(resource, int (counted tn) + ?delta)] = Inr () \<longleftrightarrow> within (lim tn) (int (counted tn) + ?delta)"
    using check dpos [of tn] by simp
  have step: "check_items check rs resource counted True deltas (tn # items) = Inr () \<longleftrightarrow>
      within (lim tn) (int (counted tn) + ?delta) \<and> check_items check rs resource counted True ?ds items = Inr ()"
    using known first by (auto simp: quota_count_def Let_def op_simps)
  show ?case
  proof
    assume all: "check_items check rs resource counted True deltas (tn # items) = Inr ()"
    show "\<forall>x \<in> set (tn # items). within (lim x) (int (counted x) + ?d deltas x + int (count_list (tn # items) x))"
    proof
      fix x assume "x \<in> set (tn # items)"
      show "within (lim x) (int (counted x) + ?d deltas x + int (count_list (tn # items) x))"
      proof (cases "x \<in> set items")
        case True
        with all have "within (lim x) (int (counted x) + ?d ?ds x + int (count_list items x))"
          unfolding step IH by blast
        then show ?thesis unfolding d' by (auto simp: within_def split: if_splits)
      next
        case False
        with \<open>x \<in> set (tn # items)\<close> have "x = tn" "count_list items x = 0" by (simp_all add: count_list_0_iff)
        with all show ?thesis unfolding step by (simp add: algebra_simps)
      qed
    qed
  next
    assume all: "\<forall>x \<in> set (tn # items). within (lim x) (int (counted x) + ?d deltas x + int (count_list (tn # items) x))"
    then have "within (lim tn) (int (counted tn) + ?delta + int (count_list items tn))" by (simp add: algebra_simps)
    then have "within (lim tn) (int (counted tn) + ?delta)" by (auto simp: within_def)
    moreover have "\<forall>x \<in> set items. within (lim x) (int (counted x) + ?d ?ds x + int (count_list items x))"
      using all unfolding d' by (auto simp: algebra_simps)
    ultimately show "check_items check rs resource counted True deltas (tn # items) = Inr ()" unfolding step IH by blast
  qed
qed

lemma resource_defaults_names: "fst ` set (resource_defaults cfg rs) = qr_name ` set rs"
  by (force simp: resource_defaults_def)

text \<open>
  C24: a bulk creation passes the quota check exactly when for every tenant the resources it has,
  with all those of the request, stay within its limit.
\<close>

theorem bulk_quota_exact:
  assumes "distinct (map qr_name rs)" and "resource \<in> qr_name ` set rs"
  shows "create_quota_check cfg rs resource counted True tenants t = Inr () \<longleftrightarrow>
     (\<forall>tn \<in> set tenants. within (tenant_limit (resource_defaults cfg rs) tn t resource)
        (int (counted tn) + int (count_list tenants tn)))"
proof -
  have dist: "distinct (map fst (resource_defaults cfg rs))" using assms(1) by (simp add: resource_defaults_def comp_def)
  have known: "resource \<in> fst ` set (resource_defaults cfg rs)" using assms(2) by (simp only: resource_defaults_names)
  show ?thesis
    unfolding create_quota_check_def
    using check_items_bulk [where check = "\<lambda>tenant_id vals. limit_check (resource_defaults cfg rs) tenant_id vals t"
        and lim = "\<lambda>tn. tenant_limit (resource_defaults cfg rs) tn t resource" and deltas = "[]",
        OF single_limit_check [OF dist known] assms(2)] by simp
qed

definition demo_quota_conf :: quota_conf where
  "demo_quota_conf = \<lparr>quota_options = [(''quota_network'', 10), (''quota_subnet'', 10), (''quota_port'', 50)],
     default_quota = -1\<rparr>"

theorem bulk_quota_exact_witness:
  "create_quota_check demo_quota_conf (register_resources_from_config [''network'', ''subnet'', ''port'']) ''port''
     (\<lambda>_. 1) True [''t1'', ''t2''] demo_quota_rows = Inr () \<and>
   create_quota_check demo_quota_conf (register_resources_from_config [''network'', ''subnet'', ''port'']) ''port''
     (\<lambda>_. 1) True [''t1'', ''t2'', ''t1''] demo_quota_rows \<noteq> Inr ()"
proof -
  let ?rs = "register_resources_from_config [''network'', ''subnet'', ''port'']"
  have names: "map qr_name ?rs = [''network'', ''subnet'', ''port'']" by code_simp
  have d: "distinct (map qr_name ?rs)" unfolding names by simp
  have "''port'' \<in> set (map qr_name ?rs)" unfolding names by simp
  then have k: "''port'' \<in> qr_name ` set ?rs" by simp
  have "tenant_limit (resource_defaults demo_quota_conf ?rs) ''t1'' demo_quota_rows ''port'' = 2"
    "tenant_limit (resource_defaults demo_quota_conf ?rs) ''t2'' demo_quota_rows ''port'' = 50" by code_simp+
  with bulk_quota_exact [OF d k, of demo_quota_conf "\<lambda>_. 1" _ demo_quota_rows] show ?thesis
    by (simp add: within_def)
qed

section \<open>Updates\<close>

definition rows_unique :: "quota_row list \<Rightarrow> bool" where
  "rows_unique t \<longleftrightarrow> distinct (map (\<lambda>q. (q_tenant q, q_resource q)) t)"

lemma update_keys:
  "set (map (\<lambda>q. (q_tenant q, q_resource q)) (update_quota_limit tn r n t)) =
     insert (tn, r) (set (map (\<lambda>q. (q_tenant q, q_resource q)) t))"
  by (induction t) auto

lemma update_unique: "rows_unique t \<Longrightarrow> rows_unique (update_quota_limit tn r n t)"
proof (induction t)
  case (Cons q t)
  then show ?case using update_keys [of tn r n t] by (auto simp: rows_unique_def)
qed (simp add: rows_unique_def)

lemma override_mem:
  assumes "rows_unique t"
  shows "override tn r t = Some q \<longleftrightarrow> q \<in> set t \<and> q_tenant q = tn \<and> q_resource q = r"
proof
  assume "override tn r t = Some q"
  from find_SomeD [OF this [unfolded override_def]] show "q \<in> set t \<and> q_tenant q = tn \<and> q_resource q = r" by simp
next
  assume q: "q \<in> set t \<and> q_tenant q = tn \<and> q_resource q = r"
  then have "override tn r t \<noteq> None" by (auto simp: override_def find_None_iff)
  then obtain q' where q': "override tn r t = Some q'" by blast
  from find_SomeD [OF this [unfolded override_def]]
  have m: "q' \<in> set t" "q_tenant q' = tn" "q_resource q' = r" by simp_all
  have inj: "inj_on (\<lambda>q. (q_tenant q, q_resource q)) (set t)"
    using assms by (simp add: rows_unique_def distinct_map)
  have "q' = q" by (rule inj_onD [OF inj]) (use m q in simp_all)
  with q' show "override tn r t = Some q" by simp
qed

lemma update_mem:
  "rows_unique t \<Longrightarrow> q \<in> set (update_quota_limit tn r n t) \<longleftrightarrow>
     q = \<lparr>q_tenant = tn, q_resource = r, q_limit = n\<rparr> \<or> q \<in> set t \<and> \<not> (q_tenant q = tn \<and> q_resource q = r)"
proof (induction t)
  case (Cons p t)
  then have "p \<notin> set t" "rows_unique t" by (auto simp: rows_unique_def)
  moreover have "\<not> (q_tenant q = q_tenant p \<and> q_resource q = q_resource p)" if "q \<in> set t" for q
    using Cons.prems that by (auto simp: rows_unique_def image_iff)
  ultimately show ?case using Cons.IH by (cases p) auto
qed auto

lemma option_eqI: "(\<And>q. a = Some q \<longleftrightarrow> b = Some q) \<Longrightarrow> a = b"
  by (cases a; cases b) auto

text \<open>
  After an update the tenant has the new limit for the resource and every other limit is what it
  was; deleting the quota of the tenant restores the defaults and leaves the other tenants alone.
\<close>

theorem quota_update_delete:
  assumes "rows_unique t"
  shows "tenant_limit defaults tn' (update_quota_limit tn r n t) r' =
       (if tn' = tn \<and> r' = r then n else tenant_limit defaults tn' t r') \<and>
     tenant_limit defaults tn' (delete_tenant_quota tn (update_quota_limit tn r n t)) r' =
       (if tn' = tn then the (map_of defaults r') else tenant_limit defaults tn' t r') \<and>
     rows_unique (update_quota_limit tn r n t)"
proof (intro conjI)
  let ?u = "update_quota_limit tn r n t"
  note u = update_unique [OF assms, of tn r n]
  then show "rows_unique ?u" .
  have ov: "override tn' r' ?u = (if tn' = tn \<and> r' = r then Some \<lparr>q_tenant = tn, q_resource = r, q_limit = n\<rparr>
      else override tn' r' t)" (is "_ = ?o")
  proof (rule option_eqI)
    fix q
    show "override tn' r' ?u = Some q \<longleftrightarrow> ?o = Some q"
    proof (cases "tn' = tn \<and> r' = r")
      case True
      then show ?thesis unfolding override_mem [OF u] update_mem [OF assms] by auto
    next
      case False
      then show ?thesis unfolding override_mem [OF u] update_mem [OF assms] by (auto simp: override_mem [OF assms])
    qed
  qed
  show "tenant_limit defaults tn' ?u r' = (if tn' = tn \<and> r' = r then n else tenant_limit defaults tn' t r')"
    by (simp add: tenant_limit_def ov)
  have del: "override tn' r' (delete_tenant_quota tn s) = (if tn' = tn then None else override tn' r' s)" for s
    by (induction s rule: rev_induct) (auto simp: override_def delete_tenant_quota_def)
  show "tenant_limit defaults tn' (delete_tenant_quota tn ?u) r' =
       (if tn' = tn then the (map_of defaults r') else tenant_limit defaults tn' t r')"
    by (simp add: tenant_limit_def del ov)
qed

theorem quota_update_delete_witness:
  "tenant_limit demo_defaults ''t1'' (update_quota_limit ''t1'' ''port'' 7 demo_quota_rows) ''port'' = 7"
proof -
  have "rows_unique demo_quota_rows" by (simp add: rows_unique_def demo_quota_rows_def)
  from quota_update_delete [OF this, of demo_defaults "''t1''" "''t1''" "''port''" 7 "''port''"] show ?thesis by simp
qed

end
