(* ===== verification/Attributes.thy ===== *)
theory Attributes
  imports PyVal PyText Netaddr
begin

text \<open>
  The validators and converters of API attributes (\<open>neutron/api/v2/attributes.py\<close>).

  A validator returns \<open>None\<close> when the value is valid and otherwise a message; the model keeps the
  untranslated template of the message.  Some validators let a Python exception through, which
  is the left summand.  Parsing of MAC addresses (\<open>netaddr.EUI\<close>) and \<open>re.match\<close> are parameters,
  like netaddr's reading of addresses and networks.
\<close>

record parsers =
  ps_netaddr :: netaddr
  ps_eui :: "string \<Rightarrow> bool"
  ps_re_match :: "string \<Rightarrow> string \<Rightarrow> bool"

type_synonym verdict = "exc + string option"

definition valid :: verdict where "valid = Inr None"

definition refuse :: "string \<Rightarrow> verdict" where "refuse msg = Inr (Some msg)"

section \<open>Python values\<close>

text \<open>Equality of values: booleans are integers, and dicts are compared without their order.\<close>

fun as_number :: "pyval \<Rightarrow> int option" where
  "as_number (PBool b) = Some (if b then 1 else 0)"
| "as_number (PInt n) = Some n"
| "as_number _ = None"

lemma size_dict_mem [termination_simp]: "(k, v) \<in> set d \<Longrightarrow> size v < Suc (size_list (\<lambda>p. Suc (size (snd p))) d)"
  by (induction d) auto

fun py_eq :: "pyval \<Rightarrow> pyval \<Rightarrow> bool" where
  "py_eq (PList xs) (PList ys) \<longleftrightarrow> list_all2 py_eq xs ys"
| "py_eq (PDict d) (PDict e) \<longleftrightarrow>
     length d = length e \<and>
     list_all (\<lambda>kv. case map_of e (fst kv) of None \<Rightarrow> False | Some w \<Rightarrow> py_eq (snd kv) w) d"
| "py_eq x y \<longleftrightarrow> (case (as_number x, as_number y) of (Some m, Some n) \<Rightarrow> m = n | (None, None) \<Rightarrow> x = y | _ \<Rightarrow> False)"

definition py_in :: "pyval \<Rightarrow> pyval list \<Rightarrow> bool" where
  "py_in x xs \<longleftrightarrow> (\<exists>y \<in> set xs. py_eq y x)"

fun py_dups :: "pyval list \<Rightarrow> bool" where
  "py_dups [] = False"
| "py_dups (x # xs) = (py_in x xs \<or> py_dups xs)"

definition is_str :: "pyval \<Rightarrow> bool" where
  "is_str v = (case v of PStr _ \<Rightarrow> True | _ \<Rightarrow> False)"

definition hashable :: "pyval \<Rightarrow> bool" where
  "hashable v = (case v of PList _ \<Rightarrow> False | PDict _ \<Rightarrow> False | _ \<Rightarrow> True)"

text \<open>\<open>int(data)\<close>; \<open>None\<close> stands for the \<open>ValueError\<close> or \<open>TypeError\<close> every caller handles.\<close>

definition to_int :: "pyval \<Rightarrow> int option" where
  "to_int v = (case v of
      PInt n \<Rightarrow> Some n
    | PBool b \<Rightarrow> Some (if b then 1 else 0)
    | PStr s \<Rightarrow> (case py_int s of Inl _ \<Rightarrow> None | Inr n \<Rightarrow> Some n)
    | _ \<Rightarrow> None)"

definition lower_char :: "char \<Rightarrow> char" where
  "lower_char c =
     (case map_of (zip ''ABCDEFGHIJKLMNOPQRSTUVWXYZ'' ''abcdefghijklmnopqrstuvwxyz'') c of
        None \<Rightarrow> c | Some l \<Rightarrow> l)"

definition py_lower :: "string \<Rightarrow> string" where
  "py_lower s = map lower_char s"

text \<open>\<open>len(s.split())\<close>: the number of words between white space.\<close>

fun word_count_from :: "bool \<Rightarrow> string \<Rightarrow> nat" where
  "word_count_from inside [] = 0"
| "word_count_from inside (c # cs) =
     (if py_space c then word_count_from False cs
      else (if inside then 0 else 1) + word_count_from True cs)"

definition word_count :: "string \<Rightarrow> nat" where
  "word_count s = word_count_from False s"

section \<open>Converters\<close>

definition convert_to_boolean :: "pyval \<Rightarrow> exc + pyval" where
  "convert_to_boolean data =
     (case data of
        PStr s \<Rightarrow>
          (let v = py_lower s in
           if v = ''true'' \<or> v = ''1'' then Inr (PBool True)
           else if v = ''false'' \<or> v = ''0'' then Inr (PBool False)
           else Inl (InvalidInput ''cannot be converted to boolean''))
      | PBool b \<Rightarrow> Inr (PBool b)
      | PInt n \<Rightarrow>
          (if n = 0 then Inr (PBool False) else if n = 1 then Inr (PBool True)
           else Inl (InvalidInput ''cannot be converted to boolean''))
      | _ \<Rightarrow> Inl (InvalidInput ''cannot be converted to boolean''))"

definition convert_to_int :: "pyval \<Rightarrow> exc + pyval" where
  "convert_to_int data =
     (case to_int data of None \<Rightarrow> Inl (InvalidInput ''is not a integer'') | Some n \<Rightarrow> Inr (PInt n))"

definition split_once :: "char \<Rightarrow> string \<Rightarrow> string list" where
  "split_once c s =
     (if c \<in> set s then [takeWhile (\<lambda>x. x \<noteq> c) s, tl (dropWhile (\<lambda>x. x \<noteq> c) s)] else [s])"

definition convert_kvp_str_to_list :: "string \<Rightarrow> exc + string \<times> string" where
  "convert_kvp_str_to_list data =
     (case map py_strip (split_once (CHR ''='') data) of
        [key, val] \<Rightarrow> if key \<noteq> [] then Inr (key, val) else Inl (InvalidInput ''is not of the form <key>=[value]'')
      | _ \<Rightarrow> Inl (InvalidInput ''is not of the form <key>=[value]''))"

text \<open>The values of a key form a set, listed here in the order of their first occurrence.\<close>

fun kvp_add :: "string \<Rightarrow> string \<Rightarrow> (string \<times> string list) list \<Rightarrow> (string \<times> string list) list" where
  "kvp_add k v [] = [(k, [v])]"
| "kvp_add k v ((k', vs) # m) =
     (if k' = k then (k', if v \<in> set vs then vs else vs @ [v]) # m else (k', vs) # kvp_add k v m)"

fun kvp_map :: "(string \<times> string list) list \<Rightarrow> string list \<Rightarrow> exc + (string \<times> string list) list" where
  "kvp_map m [] = Inr m"
| "kvp_map m (s # ss) = bindR (convert_kvp_str_to_list s) (\<lambda>(k, v). kvp_map (kvp_add k v m) ss)"

definition convert_kvp_list_to_dict :: "string list \<Rightarrow> exc + (string \<times> string list) list" where
  "convert_kvp_list_to_dict kvp_list = (if kvp_list = [''True''] then Inr [] else kvp_map [] kvp_list)"

definition convert_none_to_empty_list :: "pyval \<Rightarrow> pyval" where
  "convert_none_to_empty_list v = (case v of PNone \<Rightarrow> PList [] | _ \<Rightarrow> v)"

definition convert_none_to_empty_dict :: "pyval \<Rightarrow> pyval" where
  "convert_none_to_empty_dict v = (case v of PNone \<Rightarrow> PDict [] | _ \<Rightarrow> v)"

text \<open>Lists and dicts are iterable, texts are not.\<close>

definition convert_to_list :: "pyval \<Rightarrow> pyval" where
  "convert_to_list data =
     (case data of
        PNone \<Rightarrow> PList []
      | PList xs \<Rightarrow> PList xs
      | PDict d \<Rightarrow> PList (map (\<lambda>kv. PStr (fst kv)) d)
      | v \<Rightarrow> PList [v])"

section \<open>Validators\<close>

definition is_attr_set :: "pyval \<Rightarrow> bool" where
  "is_attr_set v \<longleftrightarrow> v \<noteq> PNone \<and> v \<noteq> PAttrNotSpecified"

definition verify_dict_keys :: "string list \<Rightarrow> pyval \<Rightarrow> bool \<Rightarrow> string option" where
  "verify_dict_keys expected_keys target_dict strict =
     (case target_dict of
        PDict d \<Rightarrow>
          (if (if strict then set expected_keys = fst ` set d else set expected_keys \<subseteq> fst ` set d)
           then None else Some ''Validation of dictionary's keys failed.'')
      | _ \<Rightarrow> Some ''Invalid input. must be a dictionary with keys'')"

definition validate_values :: "pyval \<Rightarrow> pyval list \<Rightarrow> verdict" where
  "validate_values data valid_values = (if py_in data valid_values then valid else refuse ''is not in'')"

definition validate_string :: "pyval \<Rightarrow> int option \<Rightarrow> verdict" where
  "validate_string data max_len =
     (case data of
        PStr s \<Rightarrow>
          (case max_len of
             None \<Rightarrow> valid
           | Some n \<Rightarrow> if n < int (length s) then refuse ''exceeds maximum length of'' else valid)
      | _ \<Rightarrow> refuse ''is not a valid string'')"

text \<open>The length bound is not passed on.\<close>

definition validate_string_or_none :: "pyval \<Rightarrow> int option \<Rightarrow> verdict" where
  "validate_string_or_none data max_len = (if data \<noteq> PNone then validate_string data None else valid)"

definition validate_boolean :: "pyval \<Rightarrow> verdict" where
  "validate_boolean data =
     (case convert_to_boolean data of Inl _ \<Rightarrow> refuse ''is not a valid boolean value'' | Inr _ \<Rightarrow> valid)"

definition validate_range :: "pyval \<Rightarrow> int option \<Rightarrow> int option \<Rightarrow> verdict" where
  "validate_range data min_value max_value =
     (case to_int data of
        None \<Rightarrow> refuse ''is not an integer''
      | Some n \<Rightarrow>
          (if (case min_value of None \<Rightarrow> False | Some lo \<Rightarrow> n < lo) then refuse ''is too small''
           else if (case max_value of None \<Rightarrow> False | Some hi \<Rightarrow> hi < n) then refuse ''is too large''
           else valid))"

definition validate_no_whitespace :: "string \<Rightarrow> exc + string" where
  "validate_no_whitespace data =
     (if 1 < word_count data then Inl (InvalidInput ''contains whitespace'') else Inr data)"

definition validate_mac_address :: "parsers \<Rightarrow> pyval \<Rightarrow> verdict" where
  "validate_mac_address p data =
     (case data of
        PStr s \<Rightarrow>
          (case validate_no_whitespace s of
             Inl _ \<Rightarrow> refuse ''is not a valid MAC address''
           | Inr s' \<Rightarrow> if ps_eui p s' then valid else refuse ''is not a valid MAC address'')
      | _ \<Rightarrow> refuse ''is not a valid MAC address'')"

definition validate_ip_address :: "parsers \<Rightarrow> pyval \<Rightarrow> verdict" where
  "validate_ip_address p data =
     (case data of
        PStr s \<Rightarrow>
          (case validate_no_whitespace s of
             Inl _ \<Rightarrow> refuse ''is not a valid IP address''
           | Inr s' \<Rightarrow> if na_ip (ps_netaddr p) s' \<noteq> None then valid else refuse ''is not a valid IP address'')
      | _ \<Rightarrow> refuse ''is not a valid IP address'')"

definition validate_ip_address_or_none :: "parsers \<Rightarrow> pyval \<Rightarrow> verdict" where
  "validate_ip_address_or_none p data = (if data = PNone then valid else validate_ip_address p data)"

definition validate_subnet_value :: "parsers \<Rightarrow> pyval \<Rightarrow> verdict" where
  "validate_subnet_value p data =
     (case data of
        PStr s \<Rightarrow>
          (case validate_no_whitespace s of
             Inl _ \<Rightarrow> refuse ''is not a valid IP subnet''
           | Inr s' \<Rightarrow>
               (case na_net (ps_netaddr p) s' of
                  None \<Rightarrow> refuse ''is not a valid IP subnet''
                | Some net \<Rightarrow>
                    (if CHR ''/'' \<notin> set s \<or> net_first net \<noteq> net_ip net
                     then refuse ''isn't a recognized IP subnet cidr'' else valid)))
      | _ \<Rightarrow> refuse ''is not a valid IP subnet'')"

text \<open>Two checks in sequence: the second runs when the first finds the value valid.\<close>

definition and_then :: "verdict \<Rightarrow> verdict \<Rightarrow> verdict" where
  "and_then r r' = (case r of Inl e \<Rightarrow> Inl e | Inr (Some msg) \<Rightarrow> Inr (Some msg) | Inr None \<Rightarrow> r')"

definition verdict_of :: "string option \<Rightarrow> verdict" where
  "verdict_of msg = Inr msg"

text \<open>A value of a key that \<open>_verify_dict_keys\<close> has found.\<close>

definition item_of :: "pyval \<Rightarrow> string \<Rightarrow> pyval" where
  "item_of v k = (case v of PDict d \<Rightarrow> (case dict_get d k of None \<Rightarrow> PNone | Some x \<Rightarrow> x) | _ \<Rightarrow> PNone)"

fun validate_pool_list :: "parsers \<Rightarrow> pyval list \<Rightarrow> verdict" where
  "validate_pool_list p [] = valid"
| "validate_pool_list p (x # xs) =
     and_then (verdict_of (verify_dict_keys [''start'', ''end''] x True))
     (and_then (validate_ip_address p (item_of x ''start''))
     (and_then (validate_ip_address p (item_of x ''end''))
       (validate_pool_list p xs)))"

definition validate_ip_pools :: "parsers \<Rightarrow> pyval \<Rightarrow> verdict" where
  "validate_ip_pools p data =
     (case data of PList xs \<Rightarrow> validate_pool_list p xs | _ \<Rightarrow> refuse ''Invalid data format for IP pool'')"

definition hex_low :: "char \<Rightarrow> bool" where
  "hex_low c \<longleftrightarrow> c \<in> set ''0123456789abcdef''"

text \<open>\<open>is_uuid_like\<close>: the canonical form \<open>str(uuid.UUID(val))\<close>.\<close>

definition is_uuid_like :: "pyval \<Rightarrow> bool" where
  "is_uuid_like v =
     (case v of
        PStr s \<Rightarrow>
          (let ws = py_split (CHR ''-'') s in
           map length ws = [8, 4, 4, 4, 12] \<and> (\<forall>w \<in> set ws. \<forall>c \<in> set w. hex_low c))
      | _ \<Rightarrow> False)"

definition validate_uuid :: "pyval \<Rightarrow> verdict" where
  "validate_uuid data = (if is_uuid_like data then valid else refuse ''is not a valid UUID'')"

definition validate_uuid_or_none :: "pyval \<Rightarrow> verdict" where
  "validate_uuid_or_none data = (if data \<noteq> PNone then validate_uuid data else valid)"

fun validate_each :: "('a \<Rightarrow> verdict) \<Rightarrow> 'a list \<Rightarrow> verdict" where
  "validate_each f [] = valid"
| "validate_each f (x # xs) = and_then (f x) (validate_each f xs)"

definition validate_uuid_list :: "pyval \<Rightarrow> verdict" where
  "validate_uuid_list data =
     (case data of
        PList xs \<Rightarrow>
          and_then (validate_each validate_uuid xs)
            (if py_dups xs then refuse ''Duplicate items in the list'' else valid)
      | _ \<Rightarrow> refuse ''is not a list'')"

definition validate_subnet_list :: "parsers \<Rightarrow> pyval \<Rightarrow> verdict" where
  "validate_subnet_list p data =
     (case data of
        PList xs \<Rightarrow>
          (if \<not> list_all hashable xs then Inl TypeError
           else if py_dups xs
             then (if list_all is_str xs then refuse ''Duplicate items in the list'' else Inl TypeError)
           else validate_each (validate_subnet_value p) xs)
      | _ \<Rightarrow> refuse ''is not a list'')"

fun validate_fixed_ip_list :: "parsers \<Rightarrow> pyval list \<Rightarrow> pyval list \<Rightarrow> verdict" where
  "validate_fixed_ip_list p ips [] = valid"
| "validate_fixed_ip_list p ips (x # xs) =
     (case x of
        PDict d \<Rightarrow>
          and_then
            (case dict_get d ''ip_address'' of
               None \<Rightarrow> valid
             | Some a \<Rightarrow> if py_in a ips then refuse ''Duplicate IP address'' else validate_ip_address p a)
          (and_then (case dict_get d ''subnet_id'' of None \<Rightarrow> valid | Some i \<Rightarrow> validate_uuid i)
            (validate_fixed_ip_list p
              (case dict_get d ''ip_address'' of None \<Rightarrow> ips | Some a \<Rightarrow> ips @ [a]) xs))
      | _ \<Rightarrow> refuse ''Invalid data format for fixed IP'')"

definition validate_fixed_ips :: "parsers \<Rightarrow> pyval \<Rightarrow> verdict" where
  "validate_fixed_ips p data =
     (case data of PList xs \<Rightarrow> validate_fixed_ip_list p [] xs | _ \<Rightarrow> refuse ''Invalid data format for fixed IP'')"

definition validate_regex :: "parsers \<Rightarrow> pyval \<Rightarrow> string option \<Rightarrow> verdict" where
  "validate_regex p data pattern =
     (case (data, pattern) of
        (PStr s, Some re) \<Rightarrow> if ps_re_match p re s then valid else refuse ''is not a valid input''
      | _ \<Rightarrow> refuse ''is not a valid input'')"

definition HOSTNAME_PATTERN :: string where
  "HOSTNAME_PATTERN =
     ''(?=^.{1,254}$)(^(?:(?!'' @ [CHR 0x5C] @ ''d+'' @ [CHR 0x5C] @ ''.|-)[a-zA-Z0-9_'' @ [CHR 0x5C] @
     ''-]{1,63}(?<!-)'' @ [CHR 0x5C] @ ''.?)+(?:[a-zA-Z]{2,})$)''"

fun validate_nameserver_list :: "parsers \<Rightarrow> pyval list \<Rightarrow> pyval list \<Rightarrow> verdict" where
  "validate_nameserver_list p ips [] = valid"
| "validate_nameserver_list p ips (ip # rest) =
     (if validate_ip_address p ip \<noteq> valid \<and> validate_regex p ip (Some HOSTNAME_PATTERN) \<noteq> valid
      then refuse ''is not a valid nameserver''
      else if py_in ip ips then refuse ''Duplicate nameserver''
      else validate_nameserver_list p (ips @ [ip]) rest)"

definition validate_nameservers :: "parsers \<Rightarrow> pyval \<Rightarrow> verdict" where
  "validate_nameservers p data =
     (case data of
        PList xs \<Rightarrow> validate_nameserver_list p [] xs
      | PDict d \<Rightarrow> validate_nameserver_list p [] (map (\<lambda>kv. PStr (fst kv)) d)
      | _ \<Rightarrow> refuse ''Invalid data format for nameserver'')"

fun validate_hostroute_list :: "parsers \<Rightarrow> pyval list \<Rightarrow> pyval list \<Rightarrow> verdict" where
  "validate_hostroute_list p hostroutes [] = valid"
| "validate_hostroute_list p hostroutes (x # xs) =
     and_then (verdict_of (verify_dict_keys [''destination'', ''nexthop''] x True))
     (and_then (validate_subnet_value p (item_of x ''destination''))
     (and_then (validate_ip_address p (item_of x ''nexthop''))
     (and_then (if py_in x hostroutes then refuse ''Duplicate hostroute'' else valid)
       (validate_hostroute_list p (hostroutes @ [x]) xs))))"

definition validate_hostroutes :: "parsers \<Rightarrow> pyval \<Rightarrow> verdict" where
  "validate_hostroutes p data =
     (case data of PList xs \<Rightarrow> validate_hostroute_list p [] xs | _ \<Rightarrow> refuse ''Invalid data format for hostroute'')"

definition validate_non_negative :: "pyval \<Rightarrow> verdict" where
  "validate_non_negative data =
     (case to_int data of
        None \<Rightarrow> refuse ''is not an integer''
      | Some n \<Rightarrow> if n < 0 then refuse ''should be non-negative'' else valid)"

section \<open>Rules and dictionaries of attributes\<close>

text \<open>
  The parameter of a rule of the table \<open>validators\<close>, and the specification of a key of a dict: whether it is
  required, its conversion function and its rule.
\<close>

datatype converter = ToBoolean | ToInt | ToList | NoneToEmptyList | NoneToEmptyDict

datatype vparam =
    NoParam
  | MaxLen int
  | InValues "pyval list"
  | Bounds "int option" "int option"
  | Pattern string
  | Specs "(string \<times> vspec) list"
and vspec = VSpec (spec_required: bool) (spec_convert: "converter option") (spec_rule: "(string \<times> vparam) option")

definition convert_value :: "converter \<Rightarrow> pyval \<Rightarrow> exc + pyval" where
  "convert_value f v =
     (case f of
        ToBoolean \<Rightarrow> convert_to_boolean v
      | ToInt \<Rightarrow> convert_to_int v
      | ToList \<Rightarrow> Inr (convert_to_list v)
      | NoneToEmptyList \<Rightarrow> Inr (convert_none_to_empty_list v)
      | NoneToEmptyDict \<Rightarrow> Inr (convert_none_to_empty_dict v))"

definition max_len_of :: "vparam \<Rightarrow> int option" where
  "max_len_of q = (case q of MaxLen n \<Rightarrow> Some n | _ \<Rightarrow> None)"

text \<open>The rules that do not look into dictionaries; an unknown rule is a \<open>KeyError\<close> of the table.\<close>

definition validate_leaf :: "parsers \<Rightarrow> string \<Rightarrow> vparam \<Rightarrow> pyval \<Rightarrow> verdict" where
  "validate_leaf p rule q data =
     (if rule = ''type:fixed_ips'' then validate_fixed_ips p data
      else if rule = ''type:hostroutes'' then validate_hostroutes p data
      else if rule = ''type:ip_address'' then validate_ip_address p data
      else if rule = ''type:ip_address_or_none'' then validate_ip_address_or_none p data
      else if rule = ''type:ip_pools'' then validate_ip_pools p data
      else if rule = ''type:mac_address'' then validate_mac_address p data
      else if rule = ''type:nameservers'' then validate_nameservers p data
      else if rule = ''type:non_negative'' then validate_non_negative data
      else if rule = ''type:range''
        then (case q of Bounds lo hi \<Rightarrow> validate_range data lo hi | _ \<Rightarrow> Inl TypeError)
      else if rule = ''type:regex''
        then validate_regex p data (case q of Pattern re \<Rightarrow> Some re | _ \<Rightarrow> None)
      else if rule = ''type:string'' then validate_string data (max_len_of q)
      else if rule = ''type:string_or_none'' then validate_string_or_none data (max_len_of q)
      else if rule = ''type:subnet'' then validate_subnet_value p data
      else if rule = ''type:subnet_list'' then validate_subnet_list p data
      else if rule = ''type:uuid'' then validate_uuid data
      else if rule = ''type:uuid_or_none'' then validate_uuid_or_none data
      else if rule = ''type:uuid_list'' then validate_uuid_list data
      else if rule = ''type:values''
        then (case q of InValues vs \<Rightarrow> validate_values data vs | _ \<Rightarrow> Inl TypeError)
      else if rule = ''type:boolean'' then validate_boolean data
      else Inl (KeyError rule))"

definition dict_rules :: "string list" where
  "dict_rules = [''type:dict'', ''type:dict_or_none'', ''type:dict_or_empty'', ''type:dict_or_nodata'']"

text \<open>Whether a rule for dictionaries looks at the value at all.\<close>

definition dict_rule_skips :: "string \<Rightarrow> pyval \<Rightarrow> bool" where
  "dict_rule_skips rule data \<longleftrightarrow>
     (rule = ''type:dict_or_none'' \<and> data = PNone) \<or>
     (rule = ''type:dict_or_empty'' \<and> data = PDict []) \<or>
     (rule = ''type:dict_or_nodata'' \<and> \<not> py_true data)"

definition required_keys :: "(string \<times> vspec) list \<Rightarrow> string list" where
  "required_keys specs = map fst (filter (\<lambda>ks. spec_required (snd ks)) specs)"

text \<open>
  Validation returns the value too, since the conversions of a dictionary are assigned to its keys.
\<close>

fun validate :: "parsers \<Rightarrow> string \<Rightarrow> vparam \<Rightarrow> pyval \<Rightarrow> exc + string option \<times> pyval"
and validate_items :: "parsers \<Rightarrow> (string \<times> vspec) list \<Rightarrow> pydict \<Rightarrow> exc + string option \<times> pydict"
and validate_item :: "parsers \<Rightarrow> string \<Rightarrow> vspec \<Rightarrow> pydict \<Rightarrow> exc + string option \<times> pydict"
where
  "validate p rule q data =
     (if rule \<in> set dict_rules then
        (if dict_rule_skips rule data then Inr (None, data)
         else (case data of
                 PDict d \<Rightarrow>
                   (case q of
                      Specs specs \<Rightarrow>
                        (if required_keys specs \<noteq> [] \<and> verify_dict_keys (required_keys specs) data False \<noteq> None
                         then Inr (verify_dict_keys (required_keys specs) data False, data)
                         else bindR (validate_items p specs d) (\<lambda>(msg, d'). Inr (msg, PDict d')))
                    | _ \<Rightarrow> Inr (None, data))
               | _ \<Rightarrow> Inr (Some ''is not a dictionary'', data)))
      else bindR (validate_leaf p rule q data) (\<lambda>msg. Inr (msg, data)))"
| "validate_items p [] d = Inr (None, d)"
| "validate_items p ((key, spec) # specs) d =
     (if dict_has d key
      then bindR (validate_item p key spec d) (\<lambda>(msg, d').
             case msg of Some m \<Rightarrow> Inr (Some m, d') | None \<Rightarrow> validate_items p specs d')
      else validate_items p specs d)"
| "validate_item p key (VSpec required conv rule) d =
     bindR (case conv of
              None \<Rightarrow> Inr d
            | Some f \<Rightarrow> bindR (convert_value f (item_of (PDict d) key)) (\<lambda>v. Inr (dict_set d key v))) (\<lambda>d'.
       case rule of
         None \<Rightarrow> Inr (None, d')
       | Some (r, q) \<Rightarrow>
           (case validate p r q (item_of (PDict d') key) of
              Inl (KeyError k) \<Rightarrow> Inr (Some ''Validator does not exist.'', d')
            | Inl e \<Rightarrow> Inl e
            | Inr (msg, v) \<Rightarrow> Inr (msg, dict_set d' key v)))"

end
