(* ===== verification/ApiBody.thy ===== *)
theory ApiBody
  imports Attributes
begin

text \<open>
  The API controller (\<open>neutron/api/v2/base.py\<close>): preparation of request bodies against the table of
  attributes (\<open>RESOURCE_ATTRIBUTE_MAP\<close> of \<open>neutron/api/v2/attributes.py\<close>), the fields of a response, and
  the emulation of bulk creation.
\<close>

section \<open>Attribute tables\<close>

record attr_info =
  ai_allow_post :: bool
  ai_allow_put :: bool
  ai_default :: "pyval option"
  ai_convert_to :: "converter option"
  ai_validate :: "(string \<times> vparam) list"
  ai_visible :: bool
  ai_required_by_policy :: bool
  ai_enforce_policy :: bool
  ai_primary_key :: bool

type_synonym attr_table = "(string \<times> attr_info) list"

text \<open>Attributes with their usual flags; the entries below list only what differs.\<close>

definition plain_attr :: "bool \<Rightarrow> bool \<Rightarrow> attr_info" where
  "plain_attr allow_post allow_put =
     \<lparr>ai_allow_post = allow_post, ai_allow_put = allow_put, ai_default = None, ai_convert_to = None,
      ai_validate = [], ai_visible = True, ai_required_by_policy = False, ai_enforce_policy = False,
      ai_primary_key = False\<rparr>"

definition id_attr :: attr_info where
  "id_attr = (plain_attr False False)\<lparr>ai_validate := [(''type:uuid'', NoParam)], ai_primary_key := True\<rparr>"

definition name_attr :: attr_info where
  "name_attr = (plain_attr True True)\<lparr>ai_validate := [(''type:string'', NoParam)], ai_default := Some (PStr [])\<rparr>"

definition tenant_attr :: attr_info where
  "tenant_attr = (plain_attr True False)\<lparr>ai_validate := [(''type:string'', NoParam)], ai_required_by_policy := True\<rparr>"

definition boolean_attr :: "bool \<Rightarrow> attr_info" where
  "boolean_attr b = (plain_attr True True)\<lparr>ai_default := Some (PBool b), ai_convert_to := Some ToBoolean\<rparr>"

definition network_id_attr :: attr_info where
  "network_id_attr = (plain_attr True False)\<lparr>ai_validate := [(''type:uuid'', NoParam)], ai_required_by_policy := True\<rparr>"

definition generated_attr :: "bool \<Rightarrow> string \<Rightarrow> attr_info" where
  "generated_attr allow_put rule =
     (plain_attr True allow_put)\<lparr>ai_default := Some PAttrNotSpecified, ai_validate := [(rule, NoParam)]\<rparr>"

definition network_attrs :: attr_table where
  "network_attrs =
     [(''id'', id_attr),
      (''name'', name_attr),
      (''subnets'', (plain_attr False False)\<lparr>ai_default := Some (PList [])\<rparr>),
      (''admin_state_up'', boolean_attr True),
      (''status'', plain_attr False False),
      (''tenant_id'', tenant_attr),
      (''shared'', (boolean_attr False)\<lparr>ai_required_by_policy := True, ai_enforce_policy := True\<rparr>)]"

definition port_attrs :: attr_table where
  "port_attrs =
     [(''id'', id_attr),
      (''name'', name_attr),
      (''network_id'', network_id_attr),
      (''admin_state_up'', boolean_attr True),
      (''mac_address'', (generated_attr False ''type:mac_address'')\<lparr>ai_enforce_policy := True\<rparr>),
      (''fixed_ips'', (generated_attr True ''type:fixed_ips'')\<lparr>ai_enforce_policy := True\<rparr>),
      (''device_id'', name_attr),
      (''device_owner'', name_attr),
      (''tenant_id'', tenant_attr),
      (''status'', plain_attr False False)]"

definition subnet_attrs :: attr_table where
  "subnet_attrs =
     [(''id'', id_attr),
      (''name'', name_attr),
      (''ip_version'', (plain_attr True False)\<lparr>ai_convert_to := Some ToInt,
         ai_validate := [(''type:values'', InValues [PInt 4, PInt 6])]\<rparr>),
      (''network_id'', network_id_attr),
      (''cidr'', (plain_attr True False)\<lparr>ai_validate := [(''type:subnet'', NoParam)]\<rparr>),
      (''gateway_ip'', generated_attr True ''type:ip_address_or_none''),
      (''allocation_pools'', generated_attr False ''type:ip_pools''),
      (''dns_nameservers'', (generated_attr True ''type:nameservers'')\<lparr>ai_convert_to := Some NoneToEmptyList\<rparr>),
      (''host_routes'', (generated_attr True ''type:hostroutes'')\<lparr>ai_convert_to := Some NoneToEmptyList\<rparr>),
      (''tenant_id'', tenant_attr),
      (''enable_dhcp'', boolean_attr True),
      (''shared'', (boolean_attr False)\<lparr>ai_allow_post := False, ai_allow_put := False, ai_visible := False,
         ai_required_by_policy := True, ai_enforce_policy := True\<rparr>)]"

section \<open>Request bodies\<close>

text \<open>The caller: whether it is an administrator, and its tenant, if it has one.\<close>

record caller =
  cl_is_admin :: bool
  cl_tenant :: "string option"

definition populate_tenant_id :: "caller \<Rightarrow> pydict \<Rightarrow> bool \<Rightarrow> exc + pydict" where
  "populate_tenant_id c res_dict is_create =
     (if (case dict_get res_dict ''tenant_id'' of
            None \<Rightarrow> False
          | Some v \<Rightarrow> v \<noteq> PStr_opt (cl_tenant c) \<and> \<not> cl_is_admin c)
      then Inl (HTTPBadRequest ''Specifying 'tenant_id' other than authenticated tenant in request requires admin privileges'')
      else if is_create \<and> \<not> dict_has res_dict ''tenant_id'' then
        (if cl_tenant c \<noteq> None \<and> cl_tenant c \<noteq> Some []
         then Inr (dict_set res_dict ''tenant_id'' (PStr_opt (cl_tenant c)))
         else Inl (HTTPBadRequest ''Running without keystone AuthN requires  that tenant_id is specified''))
      else Inr res_dict)"

definition verify_attributes :: "pydict \<Rightarrow> attr_table \<Rightarrow> exc + unit" where
  "verify_attributes res_dict attrs =
     (if \<not> fst ` set res_dict \<subseteq> fst ` set attrs then Inl (HTTPBadRequest ''Unrecognized attribute(s)'') else Inr ())"

fun fill_defaults :: "attr_table \<Rightarrow> pydict \<Rightarrow> exc + pydict" where
  "fill_defaults [] res_dict = Inr res_dict"
| "fill_defaults ((attr, info) # attrs) res_dict =
     (if ai_allow_post info then
        (case (dict_get res_dict attr, ai_default info) of
           (None, None) \<Rightarrow> Inl (HTTPBadRequest ''Failed to parse request. Required attribute not specified'')
         | (Some _, _) \<Rightarrow> fill_defaults attrs res_dict
         | (None, Some v) \<Rightarrow> fill_defaults attrs (dict_set res_dict attr v))
      else if dict_has res_dict attr then Inl (HTTPBadRequest ''Attribute not allowed in POST'')
      else fill_defaults attrs res_dict)"

definition check_put :: "attr_table \<Rightarrow> pydict \<Rightarrow> exc + unit" where
  "check_put attrs res_dict =
     forR (\<lambda>(attr, info). if dict_has res_dict attr \<and> \<not> ai_allow_put info
                          then Inl (HTTPBadRequest ''Cannot update read-only attribute'') else Inr ()) attrs"

fun apply_rules :: "parsers \<Rightarrow> (string \<times> vparam) list \<Rightarrow> pyval \<Rightarrow> exc + pyval" where
  "apply_rules p [] v = Inr v"
| "apply_rules p ((rule, q) # rules) v =
     bindR (validate p rule q v) (\<lambda>(msg, v').
       if msg \<noteq> None \<and> msg \<noteq> Some [] then Inl (HTTPBadRequest ''Invalid input'') else apply_rules p rules v')"

definition convert_attr :: "parsers \<Rightarrow> attr_info \<Rightarrow> pyval \<Rightarrow> exc + pyval" where
  "convert_attr p info v =
     bindR (case ai_convert_to info of None \<Rightarrow> Inr v | Some f \<Rightarrow> convert_value f v)
       (apply_rules p (ai_validate info))"

fun convert_attrs :: "parsers \<Rightarrow> attr_table \<Rightarrow> pydict \<Rightarrow> exc + pydict" where
  "convert_attrs p [] res_dict = Inr res_dict"
| "convert_attrs p ((attr, info) # attrs) res_dict =
     (case dict_get res_dict attr of
        None \<Rightarrow> convert_attrs p attrs res_dict
      | Some v \<Rightarrow>
          (if v = PAttrNotSpecified then convert_attrs p attrs res_dict
           else bindR (convert_attr p info v) (\<lambda>v'. convert_attrs p attrs (dict_set res_dict attr v'))))"

text \<open>The part of \<open>prepare_request_body\<close> for a single resource.\<close>

definition prepare_resource :: "parsers \<Rightarrow> caller \<Rightarrow> attr_table \<Rightarrow> bool \<Rightarrow> pydict \<Rightarrow> exc + pydict" where
  "prepare_resource p c attrs is_create res_dict =
     bindR (populate_tenant_id c res_dict is_create) (\<lambda>res1.
     bindR (verify_attributes res1 attrs) (\<lambda>_.
     bindR (if is_create then fill_defaults attrs res1
            else bindR (check_put attrs res1) (\<lambda>_. Inr res1)) (\<lambda>res2.
       convert_attrs p attrs res2)))"

text \<open>
  A body with the key of the resource; the value of that key is what is prepared, other keys of the body
  are kept.  A value that is neither null nor a dict has no attributes to look at.
\<close>

definition prepare_single ::
    "parsers \<Rightarrow> caller \<Rightarrow> string \<Rightarrow> attr_table \<Rightarrow> bool \<Rightarrow> pydict \<Rightarrow> exc + pydict" where
  "prepare_single p c resource attrs is_create body =
     (case dict_get body resource of
        None \<Rightarrow> Inl (HTTPBadRequest ''Unable to find resource in request body'')
      | Some PNone \<Rightarrow> Inl (HTTPBadRequest ''Unable to find resource in request body'')
      | Some (PDict res_dict) \<Rightarrow>
          bindR (prepare_resource p c attrs is_create res_dict) (\<lambda>d. Inr (dict_set body resource (PDict d)))
      | Some _ \<Rightarrow> Inl (AttributeError ''keys''))"

lemma mapR_cong [fundef_cong]:
  "xs = ys \<Longrightarrow> (\<And>x. x \<in> set ys \<Longrightarrow> f x = g x) \<Longrightarrow> mapR f xs = mapR g ys"
  by (induction ys arbitrary: xs) auto

lemma size_item [termination_simp]: "x \<in> set xs \<Longrightarrow> size x < Suc (size_list size xs)"
  by (induction xs) auto

text \<open>An item of a bulk request may leave out the key of the resource, and may itself be a bulk request.\<close>

function prepare_request_body ::
    "parsers \<Rightarrow> caller \<Rightarrow> string \<Rightarrow> attr_table \<Rightarrow> bool \<Rightarrow> bool \<Rightarrow> pydict \<Rightarrow> exc + pydict" where
  "prepare_request_body p c resource attrs is_create allow_bulk body =
     (if body = [] then Inl (HTTPBadRequest ''Resource body required'')
      else (case dict_get body (resource @ ''s'') of
        None \<Rightarrow> prepare_single p c resource attrs is_create body
      | Some coll \<Rightarrow>
          (if \<not> allow_bulk then Inl (HTTPBadRequest ''Bulk operation not supported'')
           else if coll \<in> {PList [], PDict [], PStr []} then Inl (HTTPBadRequest ''Resources required'')
           else (case coll of
                   PList items \<Rightarrow>
                     bindR (mapR (\<lambda>item.
                        case item of
                          PDict d \<Rightarrow>
                            (if dict_has d resource
                             then bindR (prepare_request_body p c resource attrs is_create allow_bulk d)
                                    (\<lambda>b. Inr (PDict b))
                             else bindR (prepare_single p c resource attrs is_create [(resource, item)])
                                    (\<lambda>b. Inr (PDict b)))
                        | PNone \<Rightarrow> Inl TypeError
                        | PBool _ \<Rightarrow> Inl TypeError
                        | PInt _ \<Rightarrow> Inl TypeError
                        | _ \<Rightarrow> Inl (AttributeError ''keys'')) items)
                       (\<lambda>bulk_body. Inr [(resource @ ''s'', PList bulk_body)])
                 | _ \<Rightarrow> Inl TypeError))))"
  by pat_completeness auto

lemma size_nested:
  "dict_get body k = Some (PList items) \<Longrightarrow> PDict d \<in> set items \<Longrightarrow> size (PDict d) < size (PDict body)"
proof -
  assume "dict_get body k = Some (PList items)" "PDict d \<in> set items"
  then have "(k, PList items) \<in> set body" "size (PDict d) < size (PList items)"
    using size_item [of "PDict d" items] by (auto simp: dict_get_def dest: map_of_SomeD)
  moreover from this have "size (PList items) < size (PDict body)"
    using size_dict_mem [of k "PList items" body] by (simp add: size_prod_simp)
  ultimately show ?thesis by simp
qed

termination prepare_request_body
  by (relation "measure (\<lambda>(p, c, resource, attrs, is_create, allow_bulk, body). size (PDict body))")
     (use size_nested in auto)

section \<open>Responses\<close>

text \<open>
  \<open>_is_visible\<close>: \<open>check_policy\<close> is \<open>policy.check_if_exists\<close> for the action that shows an attribute,
  \<open>None\<close> when the policy has no such rule; \<open>attrs\<close> is the table of the collection, which for an
  extension that is not registered is missing.
\<close>

definition is_visible ::
    "(string \<Rightarrow> pydict \<Rightarrow> bool option) \<Rightarrow> attr_table option \<Rightarrow> attr_table \<Rightarrow> string \<Rightarrow> pydict \<Rightarrow> bool" where
  "is_visible check_policy registered attrs attr_name data \<longleftrightarrow>
     (case map_of attrs attr_name of
        None \<Rightarrow> False
      | Some info \<Rightarrow>
          ai_visible info \<and>
          (case registered of
             None \<Rightarrow> True
           | Some tbl \<Rightarrow>
               (case map_of tbl attr_name of
                  None \<Rightarrow> True
                | Some info' \<Rightarrow>
                    (if ai_enforce_policy info'
                     then (case check_policy attr_name data of None \<Rightarrow> True | Some ok \<Rightarrow> ok)
                     else True))))"

definition view ::
    "(string \<Rightarrow> pydict \<Rightarrow> bool option) \<Rightarrow> attr_table option \<Rightarrow> attr_table \<Rightarrow> string list \<Rightarrow> pydict \<Rightarrow> pydict" where
  "view check_policy registered attrs fields_to_strip data =
     filter (\<lambda>(k, _). is_visible check_policy registered attrs k data \<and> k \<notin> set fields_to_strip) data"

definition policy_attrs :: "attr_table \<Rightarrow> string list" where
  "policy_attrs attrs = map fst (filter (\<lambda>ni. ai_required_by_policy (snd ni)) attrs)"

text \<open>\<open>_do_field_list\<close>: the extended list of fields, and those to be removed from the response.\<close>

definition do_field_list :: "attr_table \<Rightarrow> string list \<Rightarrow> string list \<times> string list option" where
  "do_field_list attrs original_fields =
     (if original_fields = [] then ([], None)
      else (original_fields @ policy_attrs attrs,
            Some (filter (\<lambda>a. a \<notin> set original_fields) (policy_attrs attrs))))"

definition primary_key :: "attr_table \<Rightarrow> string" where
  "primary_key attrs = (case find (\<lambda>ni. ai_primary_key (snd ni)) attrs of None \<Rightarrow> ''id'' | Some ni \<Rightarrow> fst ni)"

text \<open>\<open>network\<close> is what the plugin's \<open>get_network\<close> returns: whether it is shared, and its owner.\<close>

definition validate_network_tenant_ownership ::
    "caller \<Rightarrow> string \<Rightarrow> (string \<Rightarrow> exc + bool \<times> string) \<Rightarrow> string \<Rightarrow> string \<Rightarrow> exc + unit" where
  "validate_network_tenant_ownership c resource get_network network_id tenant_id =
     (if cl_is_admin c \<or> resource \<notin> {''port'', ''subnet''} then Inr ()
      else bindR (get_network network_id) (\<lambda>(shared, owner).
        if shared then Inr ()
        else if owner \<noteq> tenant_id then Inl (HTTPForbidden ''Tenant not allowed to create resource on this network'')
        else Inr ()))"

section \<open>Emulated bulk creation\<close>

text \<open>
  The plugin's operations each commit their own transaction: \<open>creator\<close> and \<open>deleter\<close> act on the state also
  when they raise.
\<close>

fun undo_all :: "(string \<Rightarrow> 's \<Rightarrow> (exc + unit) \<times> 's) \<Rightarrow> string list \<Rightarrow> 's \<Rightarrow> 's" where
  "undo_all deleter [] s = s"
| "undo_all deleter (i # is) s = undo_all deleter is (snd (deleter i s))"

fun emulate_bulk_from ::
    "('b \<Rightarrow> 's \<Rightarrow> (exc + string \<times> pydict) \<times> 's) \<Rightarrow> (string \<Rightarrow> 's \<Rightarrow> (exc + unit) \<times> 's)
       \<Rightarrow> (string \<times> pydict) list \<Rightarrow> 'b list \<Rightarrow> 's \<Rightarrow> (exc + pydict list) \<times> 's" where
  "emulate_bulk_from creator deleter objs [] s = (Inr (map snd objs), s)"
| "emulate_bulk_from creator deleter objs (item # items) s =
     (case creator item s of
        (Inr obj, s') \<Rightarrow> emulate_bulk_from creator deleter (objs @ [obj]) items s'
      | (Inl e, s') \<Rightarrow> (Inl e, undo_all deleter (map fst objs) s'))"

definition emulate_bulk_create ::
    "('b \<Rightarrow> 's \<Rightarrow> (exc + string \<times> pydict) \<times> 's) \<Rightarrow> (string \<Rightarrow> 's \<Rightarrow> (exc + unit) \<times> 's)
       \<Rightarrow> 'b list \<Rightarrow> 's \<Rightarrow> (exc + pydict list) \<times> 's" where
  "emulate_bulk_create creator deleter items s = emulate_bulk_from creator deleter [] items s"

end
