(* ===== verification/ApiProps.thy ===== *)
theory ApiProps
  imports ApiBody
begin

text \<open>
  Properties of request bodies: what an accepted creation request contains, for every table of
  attributes and for subnets in particular.
\<close>

section \<open>The passes over the table\<close>

lemma fill_defaults_Inr:
  assumes "fill_defaults attrs d = Inr r" and "distinct (map fst attrs)"
  shows "dict_get r k = (case dict_get d k of Some v \<Rightarrow> Some v
      | None \<Rightarrow> (case map_of attrs k of Some info \<Rightarrow> if ai_allow_post info then ai_default info else None | None \<Rightarrow> None))"
    and "map_of attrs k = Some info \<Longrightarrow> if ai_allow_post info then dict_get r k \<noteq> None else dict_get d k = None"
proof -
  have "dict_get r k = (case dict_get d k of Some v \<Rightarrow> Some v
      | None \<Rightarrow> (case map_of attrs k of Some info \<Rightarrow> if ai_allow_post info then ai_default info else None | None \<Rightarrow> None)) \<and>
    (\<forall>info. map_of attrs k = Some info \<longrightarrow> (if ai_allow_post info then dict_get r k \<noteq> None else dict_get d k = None))"
    using assms
  proof (induction attrs arbitrary: d)
    case Nil
    then show ?case by (simp split: option.splits)
  next
    case (Cons ai attrs)
    obtain a i where ai: "ai = (a, i)" by (cases ai)
    have notin: "map_of attrs a = None" using Cons.prems(2) by (simp add: ai map_of_eq_None_iff)
    have dist: "distinct (map fst attrs)" using Cons.prems(2) by simp
    show ?case
    proof (cases "ai_allow_post i")
      case True
      show ?thesis
      proof (cases "dict_get d a")
        case None
        with True Cons.prems(1) obtain v where v: "ai_default i = Some v" "fill_defaults attrs (dict_set d a v) = Inr r"
          by (auto simp: ai split: option.splits)
        from Cons.IH [OF v(2) dist] None True v(1) notin show ?thesis
          by (cases "k = a") (auto simp: ai dict_get_set split: option.splits)
      next
        case (Some v)
        with True Cons.prems(1) have "fill_defaults attrs d = Inr r" by (simp add: ai)
        from Cons.IH [OF this dist] Some True notin show ?thesis
          by (cases "k = a") (auto simp: ai split: option.splits)
      qed
    next
      case False
      with Cons.prems(1) have run: "\<not> dict_has d a" "fill_defaults attrs d = Inr r"
        by (auto simp: ai split: if_splits)
      then have "dict_get d a = None" by (simp add: dict_has_iff)
      with Cons.IH [OF run(2) dist] False notin show ?thesis
        by (cases "k = a") (auto simp: ai split: option.splits)
    qed
  qed
  then show "dict_get r k = (case dict_get d k of Some v \<Rightarrow> Some v
      | None \<Rightarrow> (case map_of attrs k of Some info \<Rightarrow> if ai_allow_post info then ai_default info else None | None \<Rightarrow> None))"
    and "map_of attrs k = Some info \<Longrightarrow> if ai_allow_post info then dict_get r k \<noteq> None else dict_get d k = None"
    by blast+
qed

text \<open>The value of an attribute before and after conversion.\<close>

definition converted :: "parsers \<Rightarrow> attr_info option \<Rightarrow> pyval option \<Rightarrow> pyval option \<Rightarrow> bool" where
  "converted p info v r \<longleftrightarrow>
     (case v of
        None \<Rightarrow> r = None
      | Some x \<Rightarrow>
          (case info of
             None \<Rightarrow> r = Some x
           | Some i \<Rightarrow> if x = PAttrNotSpecified then r = Some x else (\<exists>y. r = Some y \<and> convert_attr p i x = Inr y)))"

lemma convert_attrs_Inr:
  assumes "convert_attrs p attrs d = Inr r" and "distinct (map fst attrs)"
  shows "converted p (map_of attrs k) (dict_get d k) (dict_get r k)"
  using assms
proof (induction attrs arbitrary: d)
  case Nil
  then show ?case by (simp add: converted_def split: option.splits)
next
  case (Cons ai attrs)
  obtain a i where ai: "ai = (a, i)" by (cases ai)
  have notin: "map_of attrs a = None" using Cons.prems(2) by (simp add: ai map_of_eq_None_iff)
  have dist: "distinct (map fst attrs)" using Cons.prems(2) by simp
  show ?case
  proof (cases "dict_get d a = None \<or> dict_get d a = Some PAttrNotSpecified")
    case True
    then have "convert_attrs p attrs d = Inr r" using Cons.prems(1) by (auto simp: ai)
    from Cons.IH [OF this dist] True notin show ?thesis
      by (cases "k = a") (auto simp: ai converted_def)
  next
    case False
    then obtain v where v: "dict_get d a = Some v" "v \<noteq> PAttrNotSpecified" by auto
    with Cons.prems(1) obtain v' where v': "convert_attr p i v = Inr v'" "convert_attrs p attrs (dict_set d a v') = Inr r"
      by (auto simp: ai op_simps)
    from Cons.IH [OF v'(2) dist] v v'(1) notin show ?thesis
      by (cases "k = a") (auto simp: ai converted_def dict_get_set)
  qed
qed

lemma populate_tenant:
  assumes "populate_tenant_id c d is_create = Inr r"
  shows "\<And>k. k \<noteq> ''tenant_id'' \<Longrightarrow> dict_get r k = dict_get d k"
    and "is_create \<Longrightarrow> \<not> cl_is_admin c \<Longrightarrow> dict_get r ''tenant_id'' = Some (PStr_opt (cl_tenant c))"
  using assms unfolding populate_tenant_id_def
  by (auto simp: dict_get_set dict_has_iff split: if_splits option.splits)

lemma prepare_resource_Inr:
  assumes "prepare_resource p c attrs True d = Inr r" and "distinct (map fst attrs)"
  obtains d1 d2 where "populate_tenant_id c d True = Inr d1" "fst ` set d1 \<subseteq> fst ` set attrs"
    "fill_defaults attrs d1 = Inr d2" "convert_attrs p attrs d2 = Inr r"
proof -
  from assms(1) obtain d1 where d1: "populate_tenant_id c d True = Inr d1"
    and v: "verify_attributes d1 attrs = Inr ()"
    and rest: "bindR (fill_defaults attrs d1) (\<lambda>res2. convert_attrs p attrs res2) = Inr r"
    unfolding prepare_resource_def by (auto simp: op_simps)
  from v have "fst ` set d1 \<subseteq> fst ` set attrs" by (simp add: verify_attributes_def split: if_splits)
  moreover from rest obtain d2 where "fill_defaults attrs d1 = Inr d2" "convert_attrs p attrs d2 = Inr r"
    by (auto simp: op_simps)
  ultimately show thesis using d1 that by blast
qed

text \<open>What an accepted value of an attribute is.\<close>

definition accepted_value :: "parsers \<Rightarrow> attr_info \<Rightarrow> pyval option \<Rightarrow> bool" where
  "accepted_value p info r \<longleftrightarrow>
     r = Some PAttrNotSpecified \<and> ai_default info = Some PAttrNotSpecified \<or>
     (\<exists>x y. r = Some y \<and> convert_attr p info x = Inr y)"

text \<open>A decoded request does not contain the sentinel object.\<close>

definition decoded :: "pydict \<Rightarrow> bool" where
  "decoded d \<longleftrightarrow> PAttrNotSpecified \<notin> snd ` set d"

lemma populate_decoded:
  assumes "populate_tenant_id c d is_create = Inr r" and "decoded d"
  shows "dict_get r k \<noteq> Some PAttrNotSpecified"
proof -
  have "dict_get d k \<noteq> Some PAttrNotSpecified"
    using assms(2) unfolding decoded_def dict_get_def by (force dest: map_of_SomeD)
  moreover have "PStr_opt t \<noteq> PAttrNotSpecified" for t by (simp add: PStr_opt_def split: option.splits)
  ultimately show ?thesis
    using assms(1) unfolding populate_tenant_id_def by (auto simp: dict_get_set split: if_splits)
qed

lemma prepare_resource_attr:
  assumes "prepare_resource p c attrs True d = Inr r" and "distinct (map fst attrs)" and "decoded d"
  shows "map_of attrs k = Some info \<Longrightarrow>
      if ai_allow_post info then accepted_value p info (dict_get r k) else dict_get r k = None"
    and "map_of attrs k = None \<Longrightarrow> dict_get r k = None"
proof -
  from prepare_resource_Inr [OF assms(1,2)] obtain d1 d2 where pop: "populate_tenant_id c d True = Inr d1"
    and sub: "fst ` set d1 \<subseteq> fst ` set attrs" and fill: "fill_defaults attrs d1 = Inr d2"
    and conv: "convert_attrs p attrs d2 = Inr r" .
  note C = convert_attrs_Inr [OF conv assms(2), of k]
  note F = fill_defaults_Inr [OF fill assms(2), of k]
  { assume info: "map_of attrs k = Some info"
    show "if ai_allow_post info then accepted_value p info (dict_get r k) else dict_get r k = None"
    proof (cases "ai_allow_post info")
      case True
      with F(2) [OF info] obtain x where x: "dict_get d2 k = Some x" by auto
      show ?thesis
      proof (cases "x = PAttrNotSpecified")
        case NS: True
        with F(1) info True x populate_decoded [OF pop assms(3), of k] have "ai_default info = Some PAttrNotSpecified"
          by (cases "dict_get d1 k") simp_all
        with C info True x NS show ?thesis by (simp add: converted_def accepted_value_def)
      next
        case False
        with C info x True show ?thesis by (auto simp: converted_def accepted_value_def)
      qed
    next
      case False
      with F(2) [OF info] F(1) info have "dict_get d2 k = None" by simp
      with C False show ?thesis by (simp add: converted_def)
    qed }
  assume none: "map_of attrs k = None"
  then have "k \<notin> fst ` set d1" using sub by (auto simp: map_of_eq_None_iff)
  then have "dict_get d1 k = None" by (simp add: dict_get_def map_of_eq_None_iff)
  with F(1) none have "dict_get d2 k = None" by simp
  with C show "dict_get r k = None" by (simp add: converted_def)
qed

lemma tenant_attr_converts: "convert_attr p tenant_attr v = Inr v' \<Longrightarrow> v' = v"
  by (auto simp: convert_attr_def tenant_attr_def plain_attr_def op_simps dict_rules_def split: if_splits)

text \<open>
  The value an attribute starts from: what was posted, for the tenant else the caller's, else the default of
  the table.  It is converted, and then every validator of the entry, in order, returns no message; a
  validator of dicts may replace values inside the dict it checks.
\<close>

definition posted_value :: "caller \<Rightarrow> pydict \<Rightarrow> string \<Rightarrow> attr_info \<Rightarrow> pyval option" where
  "posted_value c d k info =
     (case dict_get d k of
        Some v \<Rightarrow> Some v
      | None \<Rightarrow> if k = ''tenant_id'' then Some (PStr_opt (cl_tenant c)) else ai_default info)"

fun passes_validators :: "parsers \<Rightarrow> (string \<times> vparam) list \<Rightarrow> pyval \<Rightarrow> pyval \<Rightarrow> bool" where
  "passes_validators p [] x y \<longleftrightarrow> y = x"
| "passes_validators p ((rule, q) # rules) x y \<longleftrightarrow>
     (\<exists>msg z. validate p rule q x = Inr (msg, z) \<and> msg \<in> {None, Some []} \<and> passes_validators p rules z y)"

definition stored_value :: "parsers \<Rightarrow> attr_info \<Rightarrow> pyval \<Rightarrow> pyval \<Rightarrow> bool" where
  "stored_value p info x y \<longleftrightarrow>
     (\<exists>z. (case ai_convert_to info of None \<Rightarrow> z = x | Some f \<Rightarrow> convert_value f x = Inr z) \<and>
        passes_validators p (ai_validate info) z y)"

lemma apply_rules_passes: "apply_rules p rules x = Inr y \<Longrightarrow> passes_validators p rules x y"
  by (induction p rules x rule: apply_rules.induct) (auto simp: op_simps split: if_splits)

lemma convert_attr_stored: "convert_attr p info x = Inr y \<Longrightarrow> stored_value p info x y"
  by (auto simp: convert_attr_def stored_value_def op_simps split: option.splits dest: apply_rules_passes)

lemma populate_posted:
  assumes "populate_tenant_id c d True = Inr r"
  shows "(case dict_get r k of Some v \<Rightarrow> Some v | None \<Rightarrow> ai_default info) = posted_value c d k info"
    and "k \<noteq> ''tenant_id'' \<Longrightarrow> dict_get r k = dict_get d k"
  using assms unfolding populate_tenant_id_def posted_value_def
  by (auto simp: dict_get_set dict_has_iff split: if_splits option.splits)

lemma prepare_resource_values:
  assumes "prepare_resource p c attrs True d = Inr r" and "distinct (map fst attrs)" and "decoded d"
    and "map_of attrs ''tenant_id'' = Some tenant_attr"
  shows "case map_of attrs k of
      None \<Rightarrow> dict_get d k = None \<and> dict_get r k = None
    | Some info \<Rightarrow>
        if ai_allow_post info
        then \<exists>x y. posted_value c d k info = Some x \<and> dict_get r k = Some y \<and>
               (if x = PAttrNotSpecified then y = x else stored_value p info x y)
        else dict_get d k = None \<and> dict_get r k = None"
proof -
  from prepare_resource_Inr [OF assms(1,2)] obtain d1 d2 where pop: "populate_tenant_id c d True = Inr d1"
    and sub: "fst ` set d1 \<subseteq> fst ` set attrs" and fill: "fill_defaults attrs d1 = Inr d2"
    and conv: "convert_attrs p attrs d2 = Inr r" .
  note C = convert_attrs_Inr [OF conv assms(2), of k]
  note F = fill_defaults_Inr [OF fill assms(2), of k]
  note P = prepare_resource_attr [OF assms(1-3), of k]
  show ?thesis
  proof (cases "map_of attrs k")
    case None
    then have k: "k \<noteq> ''tenant_id''" using assms(4) by auto
    from None sub have "k \<notin> fst ` set d1" by (auto simp: map_of_eq_None_iff)
    then have "dict_get d1 k = None" by (simp add: dict_get_def map_of_eq_None_iff)
    with k P(2) None show ?thesis by (simp add: populate_posted(2) [OF pop])
  next
    case (Some info)
    show ?thesis
    proof (cases "ai_allow_post info")
      case True
      with F(2) [OF Some] obtain x where x: "dict_get d2 k = Some x" by auto
      with F(1) Some True populate_posted(1) [OF pop, where k = k and info = info] have "posted_value c d k info = Some x"
        by (cases "dict_get d1 k") simp_all
      moreover from C Some x obtain y where "dict_get r k = Some y"
        "if x = PAttrNotSpecified then y = x else convert_attr p info x = Inr y"
        by (auto simp: converted_def split: if_splits)
      ultimately show ?thesis using Some True convert_attr_stored by (auto split: if_splits)
    next
      case False
      then have "k \<noteq> ''tenant_id''" using Some assms(4) by (auto simp: tenant_attr_def plain_attr_def)
      with F(2) [OF Some] False have "dict_get d k = None" by (simp add: populate_posted(2) [OF pop])
      with P(1) [OF Some] False Some show ?thesis by simp
    qed
  qed
qed

text \<open>
  C25: an accepted creation request posted only attributes that may be posted, and has exactly those
  afterwards.  Each starts from the posted value or else from its default (the tenant from the caller's); the
  sentinel for an unspecified value is left to the plugin, any other value is what the conversion of its table
  entry makes of it, and passed all validators of the entry.  The tenant of a request that is not an
  administrator's is the caller's.
\<close>

theorem accepted_post:
  assumes "prepare_resource p c attrs True d = Inr r" and "distinct (map fst attrs)"
    and "decoded d" and "map_of attrs ''tenant_id'' = Some tenant_attr"
  shows "(\<forall>k. case map_of attrs k of
            None \<Rightarrow> dict_get d k = None \<and> dict_get r k = None
          | Some info \<Rightarrow>
              if ai_allow_post info
              then \<exists>x y. posted_value c d k info = Some x \<and> dict_get r k = Some y \<and>
                     (if x = PAttrNotSpecified then y = x else stored_value p info x y)
              else dict_get d k = None \<and> dict_get r k = None) \<and>
     (cl_is_admin c \<or> dict_get r ''tenant_id'' = Some (PStr_opt (cl_tenant c)))"
proof (intro conjI allI)
  show "case map_of attrs k of
            None \<Rightarrow> dict_get d k = None \<and> dict_get r k = None
          | Some info \<Rightarrow>
              if ai_allow_post info
              then \<exists>x y. posted_value c d k info = Some x \<and> dict_get r k = Some y \<and>
                     (if x = PAttrNotSpecified then y = x else stored_value p info x y)
              else dict_get d k = None \<and> dict_get r k = None" for k
    by (rule prepare_resource_values [OF assms])
  show "cl_is_admin c \<or> dict_get r ''tenant_id'' = Some (PStr_opt (cl_tenant c))"
  proof (cases "cl_is_admin c")
    case False
    from prepare_resource_Inr [OF assms(1,2)] obtain d1 d2 where
      pop: "populate_tenant_id c d True = Inr d1" and fill: "fill_defaults attrs d1 = Inr d2"
      and conv: "convert_attrs p attrs d2 = Inr r" .
    from populate_tenant(2) [OF pop] False have "dict_get d1 ''tenant_id'' = Some (PStr_opt (cl_tenant c))" by simp
    then have t: "dict_get d2 ''tenant_id'' = Some (PStr_opt (cl_tenant c))"
      using fill_defaults_Inr(1) [OF fill assms(2), of "''tenant_id''"] by simp
    have "PStr_opt (cl_tenant c) \<noteq> PAttrNotSpecified" by (simp add: PStr_opt_def split: option.splits)
    with convert_attrs_Inr [OF conv assms(2), of "''tenant_id''"] obtain y where
      "dict_get r ''tenant_id'' = Some y" "convert_attr p tenant_attr (PStr_opt (cl_tenant c)) = Inr y"
      by (auto simp: t assms(4) converted_def)
    then show ?thesis using tenant_attr_converts by auto
  qed simp
qed

definition demo_parsers :: parsers where
  "demo_parsers = \<lparr>ps_netaddr = demo_netaddr, ps_eui = (\<lambda>s. length s = 17), ps_re_match = (\<lambda>re s. s \<noteq> [])\<rparr>"

definition demo_caller :: caller where
  "demo_caller = \<lparr>cl_is_admin = False, cl_tenant = Some ''t1''\<rparr>"

definition demo_post :: pydict where
  "demo_post = [(''name'', PStr ''net''), (''shared'', PStr ''True'')]"

theorem accepted_post_witness:
  "\<exists>r. prepare_resource demo_parsers demo_caller network_attrs True demo_post = Inr r \<and>
     dict_get r ''tenant_id'' = Some (PStr ''t1'') \<and> dict_get r ''status'' = None \<and>
     dict_get r ''shared'' = Some (PBool True)"
proof -
  have run: "prepare_resource demo_parsers demo_caller network_attrs True demo_post =
      Inr [(''name'', PStr ''net''), (''shared'', PBool True), (''tenant_id'', PStr ''t1''), (''admin_state_up'', PBool True)]"
    by code_simp
  have "distinct (map fst network_attrs)" "decoded demo_post" "map_of network_attrs ''tenant_id'' = Some tenant_attr"
    by (simp_all add: network_attrs_def decoded_def demo_post_def)
  note A = accepted_post [OF run this]
  have "map_of network_attrs ''status'' = Some (plain_attr False False)"
    "map_of network_attrs ''shared'' = Some ((boolean_attr False)\<lparr>ai_required_by_policy := True, ai_enforce_policy := True\<rparr>)"
    by (simp_all add: network_attrs_def)
  with A [THEN conjunct1, rule_format, of "''status''"] A [THEN conjunct1, rule_format, of "''shared''"]
    A [THEN conjunct2] run show ?thesis
    by (simp add: demo_caller_def PStr_opt_def plain_attr_def boolean_attr_def posted_value_def dict_get_def)
qed

section \<open>Subnets\<close>

lemma refuse_valid [simp]: "refuse msg \<noteq> valid" "refuse msg = Inr (Some msg)" "valid = Inr None"
  by (simp_all add: refuse_def valid_def)

lemma convert_attr_leaf:
  assumes "ai_convert_to info = None" "ai_validate info = [(rule, q)]" "rule \<notin> set dict_rules"
    and "convert_attr p info x = Inr y"
  shows "y = x \<and> (validate_leaf p rule q x = valid \<or> validate_leaf p rule q x = refuse [])"
  using assms by (auto simp: convert_attr_def op_simps split: if_splits)

lemma not_dict_rules:
  "''type:uuid'' \<notin> set dict_rules" "''type:subnet'' \<notin> set dict_rules" "''type:values'' \<notin> set dict_rules"
  "''type:ip_address_or_none'' \<notin> set dict_rules" "''type:string'' \<notin> set dict_rules"
  by (simp_all add: dict_rules_def)

lemma accepted_leaf:
  assumes "accepted_value p info r" "ai_convert_to info = None" "ai_validate info = [(rule, q)]" "rule \<notin> set dict_rules"
    and "\<And>y. validate_leaf p rule q y = valid \<or> validate_leaf p rule q y = refuse [] \<Longrightarrow> Q y"
  shows "r = Some PAttrNotSpecified \<and> ai_default info = Some PAttrNotSpecified \<or> (\<exists>y. r = Some y \<and> Q y)"
  using assms(1,5) convert_attr_leaf [OF assms(2-4)] unfolding accepted_value_def by blast

lemma accepted_boolean:
  assumes "accepted_value p info r" "ai_convert_to info = Some ToBoolean" "ai_validate info = []"
    "ai_default info \<noteq> Some PAttrNotSpecified"
  shows "\<exists>b. r = Some (PBool b)"
proof -
  have "\<exists>b. y = PBool b" if "convert_to_boolean x = Inr y" for x y
    using that by (auto simp: convert_to_boolean_def Let_def split: pyval.splits if_splits)
  with assms show ?thesis
    by (auto simp: accepted_value_def convert_attr_def convert_value_def op_simps)
qed

definition subnet_text :: "parsers \<Rightarrow> pyval \<Rightarrow> bool" where
  "subnet_text p v \<longleftrightarrow> (\<exists>s net. v = PStr s \<and> na_net (ps_netaddr p) s = Some net \<and> CHR ''/'' \<in> set s \<and>
     net_first net = net_ip net)"

lemma leaf_subnet:
  "validate_leaf p ''type:subnet'' q v = valid \<or> validate_leaf p ''type:subnet'' q v = refuse [] \<Longrightarrow> subnet_text p v"
  by (auto simp: validate_leaf_def validate_subnet_value_def validate_no_whitespace_def subnet_text_def
      split: pyval.splits if_splits option.splits)

lemma leaf_uuid:
  "validate_leaf p ''type:uuid'' q v = valid \<or> validate_leaf p ''type:uuid'' q v = refuse [] \<Longrightarrow> is_uuid_like v"
  by (auto simp: validate_leaf_def validate_uuid_def split: if_splits)

lemma leaf_gateway:
  "validate_leaf p ''type:ip_address_or_none'' q v = valid \<or> validate_leaf p ''type:ip_address_or_none'' q v = refuse [] \<Longrightarrow>
     v = PNone \<or> (\<exists>s. v = PStr s \<and> na_ip (ps_netaddr p) s \<noteq> None)"
  by (auto simp: validate_leaf_def validate_ip_address_or_none_def validate_ip_address_def validate_no_whitespace_def
      split: pyval.splits if_splits)

lemma accepted_ip_version:
  assumes "accepted_value p info r" "ai_convert_to info = Some ToInt" "ai_default info = None"
    "ai_validate info = [(''type:values'', InValues [PInt 4, PInt 6])]"
  shows "r = Some (PInt 4) \<or> r = Some (PInt 6)"
proof -
  from assms obtain x n where "to_int x = Some n" "r = Some (PInt n)"
    "validate_leaf p ''type:values'' (InValues [PInt 4, PInt 6]) (PInt n) = valid \<or>
     validate_leaf p ''type:values'' (InValues [PInt 4, PInt 6]) (PInt n) = refuse []"
    by (auto simp: accepted_value_def convert_attr_def convert_value_def convert_to_int_def op_simps not_dict_rules
        split: option.splits if_splits)
  then show ?thesis
    by (auto simp: validate_leaf_def validate_values_def py_in_def split: if_splits)
qed

text \<open>
  C26: the values of an accepted request for a subnet have the types the plugin expects: the version is
  4 or 6, the CIDR is the text of a network with its first address, the gateway is left out, null or an
  address, the network id has the form of a UUID, and whether to enable DHCP is a boolean.
\<close>

theorem accepted_subnet_types:
  assumes "prepare_resource p c subnet_attrs True d = Inr r" and "decoded d"
  shows "dict_get r ''ip_version'' \<in> {Some (PInt 4), Some (PInt 6)} \<and>
     (\<exists>v. dict_get r ''cidr'' = Some v \<and> subnet_text p v) \<and>
     (dict_get r ''gateway_ip'' \<in> {Some PAttrNotSpecified, Some PNone} \<or>
        (\<exists>s. dict_get r ''gateway_ip'' = Some (PStr s) \<and> na_ip (ps_netaddr p) s \<noteq> None)) \<and>
     (\<exists>v. dict_get r ''network_id'' = Some v \<and> is_uuid_like v) \<and>
     (\<exists>b. dict_get r ''enable_dhcp'' = Some (PBool b)) \<and>
     dict_get r ''shared'' = None \<and> dict_get r ''id'' = None"
proof -
  have dist: "distinct (map fst subnet_attrs)" by (simp add: subnet_attrs_def)
  note P = prepare_resource_attr(1) [OF assms(1) dist assms(2)]
  have A: "accepted_value p ((plain_attr True False)\<lparr>ai_validate := [(''type:subnet'', NoParam)]\<rparr>) (dict_get r ''cidr'')"
    "accepted_value p (generated_attr True ''type:ip_address_or_none'') (dict_get r ''gateway_ip'')"
    "accepted_value p network_id_attr (dict_get r ''network_id'')"
    "accepted_value p (boolean_attr True) (dict_get r ''enable_dhcp'')"
    "accepted_value p ((plain_attr True False)\<lparr>ai_convert_to := Some ToInt,
         ai_validate := [(''type:values'', InValues [PInt 4, PInt 6])]\<rparr>) (dict_get r ''ip_version'')"
    using P [of "''cidr''"] P [of "''gateway_ip''"] P [of "''network_id''"] P [of "''enable_dhcp''"] P [of "''ip_version''"]
    by (simp_all add: subnet_attrs_def generated_attr_def network_id_attr_def boolean_attr_def plain_attr_def)
  have no: "dict_get r ''shared'' = None" "dict_get r ''id'' = None"
    using P [of "''shared''"] P [of "''id''"] by (simp_all add: subnet_attrs_def id_attr_def plain_attr_def)
  have "\<exists>v. dict_get r ''cidr'' = Some v \<and> subnet_text p v"
    using accepted_leaf [OF A(1) _ _ not_dict_rules(2), of _ "subnet_text p", OF _ _ leaf_subnet] by (simp add: plain_attr_def)
  moreover have "dict_get r ''gateway_ip'' \<in> {Some PAttrNotSpecified, Some PNone} \<or>
        (\<exists>s. dict_get r ''gateway_ip'' = Some (PStr s) \<and> na_ip (ps_netaddr p) s \<noteq> None)"
    using accepted_leaf [OF A(2) _ _ not_dict_rules(4), of NoParam
        "\<lambda>v. v = PNone \<or> (\<exists>s. v = PStr s \<and> na_ip (ps_netaddr p) s \<noteq> None)", OF _ _ leaf_gateway [of _ NoParam]]
    by (auto simp: generated_attr_def plain_attr_def)
  moreover have "\<exists>v. dict_get r ''network_id'' = Some v \<and> is_uuid_like v"
    using accepted_leaf [OF A(3) _ _ not_dict_rules(1), of _ is_uuid_like, OF _ _ leaf_uuid]
    by (simp add: network_id_attr_def plain_attr_def)
  moreover have "\<exists>b. dict_get r ''enable_dhcp'' = Some (PBool b)"
    using accepted_boolean [OF A(4)] by (simp add: boolean_attr_def plain_attr_def)
  moreover have "dict_get r ''ip_version'' \<in> {Some (PInt 4), Some (PInt 6)}"
    using accepted_ip_version [OF A(5)] by (simp add: plain_attr_def)
  ultimately show ?thesis using no by blast
qed

definition demo_uuid_text :: string where
  "demo_uuid_text = ''d32019d3-bc6e-4319-9c1d-6722fc136a22''"

definition demo_subnet_post :: pydict where
  "demo_subnet_post = [(''network_id'', PStr demo_uuid_text), (''ip_version'', PStr ''4''), (''cidr'', PStr ''net8/29''),
     (''enable_dhcp'', PInt 0)]"

definition slash_parsers :: parsers where
  "slash_parsers = demo_parsers\<lparr>ps_netaddr := demo_netaddr\<lparr>na_net := (\<lambda>s. na_net demo_netaddr ''net8'')\<rparr>\<rparr>"

theorem accepted_subnet_types_witness:
  "\<exists>r. prepare_resource slash_parsers demo_caller subnet_attrs True demo_subnet_post = Inr r \<and>
     dict_get r ''ip_version'' \<in> {Some (PInt 4), Some (PInt 6)} \<and> (\<exists>b. dict_get r ''enable_dhcp'' = Some (PBool b))"
proof -
  have "\<not> isl (prepare_resource slash_parsers demo_caller subnet_attrs True demo_subnet_post)" by code_simp
  then obtain r where r: "prepare_resource slash_parsers demo_caller subnet_attrs True demo_subnet_post = Inr r"
    by (cases "prepare_resource slash_parsers demo_caller subnet_attrs True demo_subnet_post") simp_all
  moreover have "decoded demo_subnet_post" by (simp add: decoded_def demo_subnet_post_def)
  ultimately show ?thesis using accepted_subnet_types [OF r] by blast
qed

end
