(* ===== verification/ApiBulk.thy ===== *)
theory ApiBulk
  imports ApiBody SubnetOps
begin

text \<open>
  Emulated bulk creation over the operations of a plugin.  The locale \<open>undoable\<close> states what the API
  relies on: an operation that fails leaves the state alone, one that succeeds adds an object, and the
  deletion of an added object takes it out again.  It is interpreted on the networks of the core plugin.
\<close>

locale undoable =
  fixes good :: "'s \<Rightarrow> 'o list \<Rightarrow> bool"
    and ext :: "'s \<Rightarrow> 'o list \<Rightarrow> 's"
    and oid :: "'o \<Rightarrow> string"
    and creator :: "'b \<Rightarrow> 's \<Rightarrow> (exc + string \<times> pydict) \<times> 's"
    and deleter :: "string \<Rightarrow> 's \<Rightarrow> (exc + unit) \<times> 's"
  assumes ext_nil: "ext s [] = s"
    and create_step: "good s os \<Longrightarrow> creator item (ext s os) = (Inr (i, d), t) \<Longrightarrow>
      \<exists>o'. oid o' = i \<and> t = ext s (os @ [o']) \<and> good s (os @ [o'])"
    and create_fail: "good s os \<Longrightarrow> creator item (ext s os) = (Inl e, t) \<Longrightarrow> t = ext s os"
    and delete_step: "good s (o' # os) \<Longrightarrow> snd (deleter (oid o') (ext s (o' # os))) = ext s os \<and> good s os"
begin

lemma undo: "good s os \<Longrightarrow> undo_all deleter (map oid os) (ext s os) = s"
  by (induction os) (simp_all add: ext_nil delete_step)

lemma bulk_from:
  assumes "good s os" and "map fst objs = map oid os"
  shows "case emulate_bulk_from creator deleter objs items (ext s os) of
      (Inl e, t) \<Rightarrow> t = s
    | (Inr ds, t) \<Rightarrow> \<exists>os'. t = ext s (os @ os') \<and> length os' = length items \<and> length ds = length objs + length items"
  using assms
proof (induction items arbitrary: os objs)
  case Nil
  then show ?case by simp
next
  case (Cons item items)
  show ?case
  proof (cases "creator item (ext s os)")
    case (Pair r t)
    show ?thesis
    proof (cases r)
      case (Inl e)
      with Pair have "creator item (ext s os) = (Inl e, t)" by simp
      with create_fail [OF Cons.prems(1)] have "t = ext s os" by blast
      then show ?thesis using Pair Inl undo [OF Cons.prems(1)] by (simp add: Cons.prems(2))
    next
      case (Inr obj)
      obtain i d where obj: "obj = (i, d)" by (cases obj)
      with Pair Inr have "creator item (ext s os) = (Inr (i, d), t)" by simp
      from create_step [OF Cons.prems(1) this] obtain o' where o': "oid o' = i" "t = ext s (os @ [o'])" "good s (os @ [o'])"
        by blast
      have "map fst (objs @ [obj]) = map oid (os @ [o'])" using Cons.prems(2) o'(1) by (simp add: obj)
      from Cons.IH [OF o'(3) this] show ?thesis
        using Pair Inr o'(2) by (fastforce split: sum.splits prod.splits)
    qed
  qed
qed

lemma bulk_atomic:
  assumes "good s []"
  shows "case emulate_bulk_create creator deleter items s of
      (Inl e, t) \<Rightarrow> t = s
    | (Inr ds, t) \<Rightarrow> \<exists>os. t = ext s os \<and> length os = length items \<and> length ds = length items"
  using bulk_from [OF assms, of "[]" items]
  by (simp only: ext_nil emulate_bulk_create_def list.map append_Nil list.size add_0 simp_thms)

end

section \<open>Networks\<close>

text \<open>
  The plugin's operations as the API calls them, each in a transaction of its own: when it raises, the
  database is what it was.
\<close>

definition transaction :: "'a dbop \<Rightarrow> db \<Rightarrow> (exc + 'a) \<times> db" where
  "transaction m d = (case m d of Inl e \<Rightarrow> (Inl e, d) | Inr (a, d') \<Rightarrow> (Inr a, d'))"

text \<open>An item of the request carries the UUID that is generated for it.\<close>

definition api_create_network :: "ctxt \<Rightarrow> string \<times> network_create \<Rightarrow> db \<Rightarrow> (exc + string \<times> pydict) \<times> db" where
  "api_create_network ctx item =
     transaction (bindE (create_network ctx (\<lambda>_. fst item) (snd item)) (\<lambda>net.
       returnE (id_or_uuid (nc_id (snd item)) (fst item), net)))"

definition api_delete_network :: "netaddr \<Rightarrow> ctxt \<Rightarrow> string \<Rightarrow> db \<Rightarrow> (exc + unit) \<times> db" where
  "api_delete_network na ctx i = transaction (delete_network na ctx i)"

definition with_networks :: "db \<Rightarrow> network_row list \<Rightarrow> db" where
  "with_networks d ns = d\<lparr>networks := networks d @ ns\<rparr>"

text \<open>The foreign keys on networks, and the primary key.\<close>

definition network_refs :: "db \<Rightarrow> bool" where
  "network_refs d \<longleftrightarrow> distinct (map n_id (networks d)) \<and>
     pt_network ` set (ports d) \<subseteq> n_id ` set (networks d) \<and>
     s_network ` set (subnets d) \<subseteq> n_id ` set (networks d) \<and>
     a_network ` set (ip_allocs d) \<subseteq> n_id ` set (networks d)"

definition added_networks :: "ctxt \<Rightarrow> db \<Rightarrow> network_row list \<Rightarrow> bool" where
  "added_networks ctx d ns \<longleftrightarrow> network_refs d \<and> distinct (map n_id ns) \<and>
     n_id ` set ns \<inter> n_id ` set (networks d) = {} \<and>
     (\<forall>n \<in> set ns. ctx_is_admin ctx \<or> n_tenant n = ctx_tenant ctx)"

lemma create_network_result:
  "create_network ctx uuid n d =
     (case get_tenant_id_for_create ctx (nc_tenant n) of
        Inl e \<Rightarrow> Inl e
      | Inr tenant \<Rightarrow>
          (let row = \<lparr>n_id = id_or_uuid (nc_id n) (uuid 0), n_tenant = tenant, n_name = nc_name n,
                    n_status = (case nc_status n of None \<Rightarrow> ''ACTIVE'' | Some st \<Rightarrow> st),
                    n_admin_state_up = nc_admin_state_up n, n_shared = nc_shared n\<rparr>
           in if n_id row \<in> n_id ` set (networks d) then Inl IntegrityError
              else Inr (make_network_dict [] (with_networks d [row]) row None, with_networks d [row])))"
  by (simp add: create_network_def liftE_def bindE_def thenE_def add_network_def getsE_def with_networks_def Let_def
      split: sum.splits)

lemma tenant_for_create:
  "get_tenant_id_for_create ctx t = Inr tenant \<Longrightarrow> ctx_is_admin ctx \<or> tenant = ctx_tenant ctx"
  by (auto simp: get_tenant_id_for_create_def split: option.splits if_splits)

lemma filter_none: "(\<And>x. x \<in> set xs \<Longrightarrow> \<not> P x) \<Longrightarrow> filter (\<lambda>x. \<not> P x) xs = xs"
  by (induction xs) auto

lemma query_networks_mine:
  "ctx_is_admin ctx \<or> n_tenant n = ctx_tenant ctx \<Longrightarrow> n \<in> set (networks d) \<Longrightarrow> distinct (map n_id (networks d)) \<Longrightarrow>
     filter (\<lambda>r. n_id r = n_id n) (query_networks ctx d) = [n]"
proof -
  assume mine: "ctx_is_admin ctx \<or> n_tenant n = ctx_tenant ctx" and mem: "n \<in> set (networks d)"
    and dist: "distinct (map n_id (networks d))"
  have one: "filter (\<lambda>r. n_id r = n_id n \<and> Q r) xs = [n]"
    if "n \<in> set xs" "distinct (map n_id xs)" "Q n" for Q xs
    using that
  proof (induction xs)
    case (Cons x xs)
    show ?case
    proof (cases "x = n")
      case True
      with Cons.prems have "filter (\<lambda>r. n_id r = n_id n \<and> Q r) xs = []" by (auto simp: filter_empty_conv image_iff)
      with True Cons.prems(3) show ?thesis by simp
    next
      case False
      with Cons show ?thesis by auto
    qed
  qed simp
  show ?thesis
  proof (cases "ctx_is_admin ctx")
    case True
    with one [OF mem dist, of "\<lambda>_. True"] show ?thesis by (simp add: query_networks_def model_query_def)
  next
    case False
    with mine one [OF mem dist, of "\<lambda>r. n_tenant r = ctx_tenant ctx \<or> n_shared r"] show ?thesis
      by (simp add: query_networks_def model_query_def conj_commute)
  qed
qed

lemma drop_no_subnets:
  "(\<And>sid. \<not> gone sid) \<Longrightarrow> drop_subnets gone d = d"
  by (simp add: drop_subnets_def)

lemma query_ports_subset: "set (query_ports ctx d) \<subseteq> set (ports d)"
  unfolding query_ports_def by (rule model_query_subset)

text \<open>Deleting a network that has just been added.\<close>

lemma delete_added_network:
  assumes "added_networks ctx d (n # ns)"
  shows "delete_network na ctx (n_id n) (with_networks d (n # ns)) = Inr ((), with_networks d ns)"
proof -
  let ?d = "with_networks d (n # ns)"
  have new: "n_id n \<notin> n_id ` set (networks d)" "n_id n \<notin> n_id ` set ns" and refs: "network_refs d"
    and mine: "ctx_is_admin ctx \<or> n_tenant n = ctx_tenant ctx"
    and dist: "distinct (map n_id ns)" "n_id ` set ns \<inter> n_id ` set (networks d) = {}"
    using assms by (auto simp: added_networks_def)
  have "distinct (map n_id (networks ?d))"
    using refs new dist by (auto simp: with_networks_def network_refs_def)
  then have "filter (\<lambda>r. n_id r = n_id n) (query_networks ctx ?d) = [n]"
    by (intro query_networks_mine mine) (simp_all add: with_networks_def)
  then have get: "get_network_row ctx (n_id n) ?d = Inr n" by (simp add: get_network_row_def get_by_id_def)
  have no_port: "pt_network p \<noteq> n_id n" if "p \<in> set (ports d)" for p
    using that refs new(1) unfolding network_refs_def by (metis imageI subsetD)
  have "ports ?d = ports d" by (simp add: with_networks_def)
  then have no_port': "p \<in> set (query_ports ctx ?d) \<Longrightarrow> pt_network p \<noteq> n_id n" for p
    using query_ports_subset [of ctx ?d] no_port by auto
  then have no_ports: "filter (\<lambda>p. pt_network p = n_id n) (query_ports ctx ?d) = []"
    by (auto simp: filter_empty_conv)
  have no_subnet: "s_network s \<noteq> n_id n" if "s \<in> set (subnets d)" for s
    using that refs new(1) unfolding network_refs_def by (metis imageI subsetD)
  have drop: "drop_subnets (\<lambda>sid. \<exists>s \<in> set (subnets ?d). s_id s = sid \<and> s_network s = n_id n) ?d = ?d"
    by (rule drop_no_subnets) (use no_subnet in \<open>auto simp: with_networks_def\<close>)
  have "filter (\<lambda>m. \<not> n_id m = n_id n) (networks d) = networks d"
    by (rule filter_none) (use new(1) in \<open>auto simp: image_iff\<close>)
  moreover have "filter (\<lambda>m. \<not> n_id m = n_id n) ns = ns" by (rule filter_none) (use new(2) in \<open>auto simp: image_iff\<close>)
  moreover have "filter (\<lambda>a. \<not> a_network a = n_id n) (ip_allocs d) = ip_allocs d"
    by (rule filter_none) (use refs new(1) in \<open>unfold network_refs_def, metis imageI subsetD\<close>)
  ultimately have row: "delete_network_row (n_id n) ?d = Inr ((), with_networks d ns)"
    using no_port by (simp add: delete_network_row_def with_networks_def)
  show ?thesis
    using no_port' by (auto simp add: delete_network_def bindE_def checkE_def get getsE_def no_ports returnE_def modifyE_def drop row)
qed

interpretation api_networks: undoable "added_networks ctx" with_networks n_id
    "api_create_network ctx" "api_delete_network na ctx" for ctx na
proof
  show "with_networks s [] = s" for s by (simp add: with_networks_def)
  have w: "with_networks (with_networks s xs) ys = with_networks s (xs @ ys)" for s xs ys
    by (simp add: with_networks_def)
  show "\<exists>o'. n_id o' = i \<and> t = with_networks s (os @ [o']) \<and> added_networks ctx s (os @ [o'])"
    if good: "added_networks ctx s os" and run: "api_create_network ctx item (with_networks s os) = (Inr (i, d), t)"
    for s os item i d t
  proof -
    let ?row = "\<lambda>tenant. \<lparr>n_id = id_or_uuid (nc_id (snd item)) (fst item), n_tenant = tenant, n_name = nc_name (snd item),
                    n_status = (case nc_status (snd item) of None \<Rightarrow> ''ACTIVE'' | Some st \<Rightarrow> st),
                    n_admin_state_up = nc_admin_state_up (snd item), n_shared = nc_shared (snd item)\<rparr>"
    from run obtain tenant where tenant: "get_tenant_id_for_create ctx (nc_tenant (snd item)) = Inr tenant"
      and new: "n_id (?row tenant) \<notin> n_id ` set (networks (with_networks s os))"
      and t: "i = n_id (?row tenant)" "t = with_networks (with_networks s os) [?row tenant]"
      by (auto simp: api_create_network_def transaction_def bindE_def create_network_result Let_def
          split: sum.splits if_splits)
    have "added_networks ctx s (os @ [?row tenant])"
      using good new tenant_for_create [OF tenant] by (auto simp: added_networks_def with_networks_def)
    with t show ?thesis by (intro exI [of _ "?row tenant"]) (simp add: w)
  qed
  show "t = with_networks s os"
    if "api_create_network ctx item (with_networks s os) = (Inl e, t)" for s os item e t
    using that by (auto simp: api_create_network_def transaction_def split: sum.splits)
  show "snd (api_delete_network na ctx (n_id o') (with_networks s (o' # os))) = with_networks s os \<and>
      added_networks ctx s os" if "added_networks ctx s (o' # os)" for s o' os
    using that delete_added_network [OF that, of na]
    by (auto simp: api_delete_network_def transaction_def added_networks_def)
qed

text \<open>
  C27: an emulated bulk creation of networks is all or nothing: when one item fails, the networks created
  before it are deleted again and the database is what it was; otherwise one network is added per item.
\<close>

theorem bulk_networks_atomic:
  assumes "network_refs d"
  shows "case emulate_bulk_create (api_create_network ctx) (api_delete_network na ctx) items d of
      (Inl e, d') \<Rightarrow> d' = d
    | (Inr nets, d') \<Rightarrow> \<exists>ns. d' = d\<lparr>networks := networks d @ ns\<rparr> \<and> length ns = length items \<and> length nets = length items"
proof -
  have "added_networks ctx d []" using assms by (simp add: added_networks_def)
  from api_networks.bulk_atomic [OF this, where na = na and items = items] show ?thesis
    unfolding with_networks_def .
qed

definition two_networks :: "(string \<times> network_create) list" where
  "two_networks =
     [(''u1'', \<lparr>nc_tenant = None, nc_id = None, nc_name = ''a'', nc_admin_state_up = True, nc_shared = False, nc_status = None\<rparr>),
      (''u2'', \<lparr>nc_tenant = Some ''other'', nc_id = None, nc_name = ''b'', nc_admin_state_up = True, nc_shared = False,
         nc_status = None\<rparr>)]"

theorem bulk_networks_atomic_witness:
  "\<exists>e. emulate_bulk_create (api_create_network \<lparr>ctx_is_admin = False, ctx_tenant = ''t''\<rparr>)
     (api_delete_network demo_netaddr \<lparr>ctx_is_admin = False, ctx_tenant = ''t''\<rparr>) two_networks empty_db = (Inl e, empty_db)"
proof -
  let ?c = "\<lparr>ctx_is_admin = False, ctx_tenant = ''t''\<rparr>"
  let ?r = "emulate_bulk_create (api_create_network ?c) (api_delete_network demo_netaddr ?c) two_networks empty_db"
  have "network_refs empty_db" by (simp add: network_refs_def empty_db_def)
  note A = bulk_networks_atomic [OF this, where ctx = ?c and na = demo_netaddr and items = two_networks]
  have "isl (fst ?r)" by code_simp
  then obtain e d' where r: "?r = (Inl e, d')" by (cases ?r; cases "fst ?r") auto
  with A show ?thesis by simp
qed

end
