(* ===== verification/Iptables.thy ===== *)
theory Iptables
  imports PyText
begin

text \<open>
  The iptables manager of the agents (\<open>neutron/agent/linux/iptables_manager.py\<close>): tables of rules in memory
  and their merging into the output of \<open>iptables-save\<close>.

  The sets of chain names are lists without duplicates, in the order of insertion; Python does not
  define the order in which it iterates over a set.  The commands of the host are not modelled: what
  \<open>iptables-save\<close> printed is an argument, what is passed to \<open>iptables-restore\<close> a result.
\<close>

section \<open>Lists and texts\<close>

text \<open>\<open>sub in s\<close>.\<close>

fun contains :: "string \<Rightarrow> string \<Rightarrow> bool" where
  "contains sub [] = (sub = [])"
| "contains sub (c # cs) = (prefix sub (c # cs) \<or> contains sub cs)"

text \<open>\<open>s.split(sep, 1)\<close> for a text \<open>sep\<close>.\<close>

fun split_at_text :: "string \<Rightarrow> string \<Rightarrow> (string \<times> string) option" where
  "split_at_text sep [] = (if sep = [] then Some ([], []) else None)"
| "split_at_text sep (c # cs) =
     (if prefix sep (c # cs) then Some ([], drop (length sep) (c # cs))
      else map_option (\<lambda>(a, b). (c # a, b)) (split_at_text sep cs))"

text \<open>Bounds of a slice: a negative index counts from the end, and both are cut to the list.\<close>

definition slice_index :: "'a list \<Rightarrow> int \<Rightarrow> nat" where
  "slice_index xs i = (if i < 0 then nat (i + int (length xs)) else min (nat i) (length xs))"

definition slice :: "'a list \<Rightarrow> int \<Rightarrow> int \<Rightarrow> 'a list" where
  "slice xs i j = drop (slice_index xs i) (take (slice_index xs j) xs)"

text \<open>\<open>xs[i:j] = ys\<close>; a slice whose end is before its start is empty at its start.\<close>

definition set_slice :: "'a list \<Rightarrow> int \<Rightarrow> int \<Rightarrow> 'a list \<Rightarrow> 'a list" where
  "set_slice xs i j ys =
     (let a = slice_index xs i; b = max a (slice_index xs j) in take a xs @ ys @ drop b xs)"

fun index_of :: "'a \<Rightarrow> 'a list \<Rightarrow> nat option" where
  "index_of x [] = None"
| "index_of x (y # ys) = (if x = y then Some 0 else map_option Suc (index_of x ys))"

definition set_add :: "'a \<Rightarrow> 'a list \<Rightarrow> 'a list" where
  "set_add x xs = (if x \<in> set xs then xs else xs @ [x])"

section \<open>Rules\<close>

definition get_chain_name :: "string \<Rightarrow> bool \<Rightarrow> string" where
  "get_chain_name chain_name wrap = take (if wrap then 11 else 28) chain_name"

record ip_rule =
  ir_chain :: string
  ir_rule :: string
  ir_wrap :: bool
  ir_top :: bool
  ir_wrap_name :: string
  ir_tag :: "string option"

definition new_rule :: "string \<Rightarrow> string \<Rightarrow> bool \<Rightarrow> bool \<Rightarrow> string \<Rightarrow> string option \<Rightarrow> ip_rule" where
  "new_rule chain rule wrap is_top binary_name tag =
     \<lparr>ir_chain = get_chain_name chain wrap, ir_rule = rule, ir_wrap = wrap, ir_top = is_top,
      ir_wrap_name = take 16 binary_name, ir_tag = tag\<rparr>"

text \<open>\<open>__eq__\<close> does not look at the tag.\<close>

definition same_rule :: "ip_rule \<Rightarrow> ip_rule \<Rightarrow> bool" where
  "same_rule r q \<longleftrightarrow> ir_chain r = ir_chain q \<and> ir_rule r = ir_rule q \<and> ir_top r = ir_top q \<and> ir_wrap r = ir_wrap q"

definition rule_text :: "ip_rule \<Rightarrow> string" where
  "rule_text r =
     ''-A '' @ (if ir_wrap r then ir_wrap_name r @ ''-'' @ ir_chain r else ir_chain r) @ '' '' @ ir_rule r"

text \<open>\<open>list.remove(rule)\<close>: the first equal rule; \<open>None\<close> is a \<open>ValueError\<close>.\<close>

fun remove_first :: "ip_rule \<Rightarrow> ip_rule list \<Rightarrow> ip_rule list option" where
  "remove_first r [] = None"
| "remove_first r (q # qs) = (if same_rule q r then Some qs else map_option (Cons q) (remove_first r qs))"

section \<open>Tables\<close>

record ip_table =
  it_rules :: "ip_rule list"
  it_remove_rules :: "ip_rule list"
  it_chains :: "string list"
  it_unwrapped :: "string list"
  it_remove_chains :: "string list"
  it_wrap_name :: string

definition new_table :: "string \<Rightarrow> ip_table" where
  "new_table binary_name =
     \<lparr>it_rules = [], it_remove_rules = [], it_chains = [], it_unwrapped = [], it_remove_chains = [],
      it_wrap_name = take 16 binary_name\<rparr>"

definition add_chain :: "string \<Rightarrow> bool \<Rightarrow> ip_table \<Rightarrow> ip_table" where
  "add_chain name wrap t =
     (let n = get_chain_name name wrap in
      if wrap then t\<lparr>it_chains := set_add n (it_chains t)\<rparr> else t\<lparr>it_unwrapped := set_add n (it_unwrapped t)\<rparr>)"

definition select_chain_set :: "bool \<Rightarrow> ip_table \<Rightarrow> string list" where
  "select_chain_set wrap t = (if wrap then it_chains t else it_unwrapped t)"

definition remove_chain :: "string \<Rightarrow> bool \<Rightarrow> ip_table \<Rightarrow> ip_table" where
  "remove_chain chain wrap t =
     (let name = get_chain_name chain wrap in
      if name \<notin> set (select_chain_set wrap t) then t
      else
        (let kept = filter (\<lambda>r. ir_chain r \<noteq> name) (it_rules t);
             jump_snippet = (if wrap then ''-j '' @ it_wrap_name t @ ''-'' @ name else ''-j '' @ name);
             rest = filter (\<lambda>r. \<not> contains jump_snippet (ir_rule r)) kept
         in if wrap
            then t\<lparr>it_chains := removeAll name (it_chains t), it_rules := rest\<rparr>
            else t\<lparr>it_unwrapped := removeAll name (it_unwrapped t),
                   it_remove_chains := set_add name (it_remove_chains t),
                   it_remove_rules := it_remove_rules t @ filter (\<lambda>r. ir_chain r = name) (it_rules t) @
                      filter (\<lambda>r. contains jump_snippet (ir_rule r)) kept,
                   it_rules := rest\<rparr>))"

definition ensure_remove_chain :: "string \<Rightarrow> bool \<Rightarrow> ip_table \<Rightarrow> ip_table" where
  "ensure_remove_chain chain wrap t =
     (let name = get_chain_name chain wrap in
      if name \<notin> set (select_chain_set wrap t) then t else remove_chain name wrap t)"

definition wrap_target_chain :: "string \<Rightarrow> string \<Rightarrow> string" where
  "wrap_target_chain wrap_name s = (if py_startswith s ''$'' then wrap_name @ ''-'' @ tl s else s)"

definition wrap_targets :: "string \<Rightarrow> string \<Rightarrow> string" where
  "wrap_targets wrap_name rule =
     (if CHR ''$'' \<in> set rule
      then py_join '' '' (map (wrap_target_chain wrap_name) (py_split (CHR '' '') rule)) else rule)"

definition add_rule :: "string \<Rightarrow> string \<Rightarrow> bool \<Rightarrow> bool \<Rightarrow> string option \<Rightarrow> ip_table \<Rightarrow> exc + ip_table" where
  "add_rule chain rule wrap is_top tag t =
     (let name = get_chain_name chain wrap in
      if wrap \<and> name \<notin> set (it_chains t) then Inl (LookupError name)
      else Inr (t\<lparr>it_rules := it_rules t @
              [new_rule name (wrap_targets (it_wrap_name t) rule) wrap is_top (it_wrap_name t) tag]\<rparr>))"

definition remove_rule :: "string \<Rightarrow> string \<Rightarrow> bool \<Rightarrow> bool \<Rightarrow> ip_table \<Rightarrow> ip_table" where
  "remove_rule chain rule wrap is_top t =
     (let r = new_rule (get_chain_name chain wrap) rule wrap is_top (it_wrap_name t) None in
      case remove_first r (it_rules t) of
        None \<Rightarrow> t
      | Some rs \<Rightarrow>
          (if wrap then t\<lparr>it_rules := rs\<rparr>
           else t\<lparr>it_rules := rs, it_remove_rules := it_remove_rules t @ [r]\<rparr>))"

text \<open>The loops that remove each of the selected rules; all of them are still there when their turn comes.\<close>

fun remove_each :: "ip_rule list \<Rightarrow> ip_rule list \<Rightarrow> ip_rule list" where
  "remove_each [] rs = rs"
| "remove_each (q # qs) rs = remove_each qs (case remove_first q rs of None \<Rightarrow> rs | Some rs' \<Rightarrow> rs')"

definition empty_chain :: "string \<Rightarrow> bool \<Rightarrow> ip_table \<Rightarrow> ip_table" where
  "empty_chain chain wrap t =
     (let name = get_chain_name chain wrap in
      t\<lparr>it_rules := remove_each (filter (\<lambda>r. ir_chain r = name \<and> ir_wrap r = wrap) (it_rules t)) (it_rules t)\<rparr>)"

definition clear_rules_by_tag :: "string option \<Rightarrow> ip_table \<Rightarrow> ip_table" where
  "clear_rules_by_tag tag t =
     (if tag = None \<or> tag = Some [] then t
      else t\<lparr>it_rules := remove_each (filter (\<lambda>r. ir_tag r = tag) (it_rules t)) (it_rules t)\<rparr>)"

section \<open>Merging\<close>

definition find_table :: "string list \<Rightarrow> string \<Rightarrow> exc + int \<times> int" where
  "find_table lines table_name =
     (if length lines < 3 then Inr (0, 0)
      else (case index_of (''*'' @ table_name) lines of
              None \<Rightarrow> Inr (0, 0)
            | Some i \<Rightarrow>
                (let start = int i - 1 in
                 case index_of ''COMMIT'' (drop (slice_index lines start) lines) of
                   None \<Rightarrow> Inl ValueError
                 | Some j \<Rightarrow> Inr (start, int j + start + 2))))"

text \<open>The loop over the lines with their indices.\<close>

fun rules_index_from :: "bool \<Rightarrow> int \<Rightarrow> string list \<Rightarrow> bool \<times> int" where
  "rules_index_from seen_chains i [] = (seen_chains, i - 1)"
| "rules_index_from seen_chains i (l # ls) =
     (if \<not> seen_chains then rules_index_from (py_startswith l '':'') (i + 1) ls
      else if \<not> py_startswith l '':'' then (True, i)
      else rules_index_from True (i + 1) ls)"

definition find_rules_index :: "string list \<Rightarrow> int" where
  "find_rules_index lines =
     (let (seen_chains, i) = rules_index_from False 0 lines in if seen_chains then i else 2)"

text \<open>Looking for a line that contains \<open>text\<close>, first among our old lines, then among the others.\<close>

definition match_line :: "string list \<Rightarrow> string list \<Rightarrow> string \<Rightarrow> string option \<times> bool \<times> string list" where
  "match_line old_filter new_filter str =
     (let orig_filter = filter (\<lambda>s. contains str (py_strip s)) old_filter;
          dup_filter = filter (\<lambda>s. contains str (py_strip s)) new_filter;
          new' = filter (\<lambda>s. \<not> contains str (py_strip s)) new_filter
      in if orig_filter \<noteq> [] then (Some (py_strip (last orig_filter)), False, new')
         else if dup_filter \<noteq> [] then (Some (py_strip (last dup_filter)), True, new')
         else (None, False, new'))"

fun merge_chains :: "string list \<Rightarrow> string list \<Rightarrow> string list \<Rightarrow> string list \<times> string list" where
  "merge_chains old_filter new_filter [] = ([], new_filter)"
| "merge_chains old_filter new_filter (chain # chs) =
     (let chain_str = py_strip chain;
          (found, _, new') = match_line old_filter new_filter chain_str;
          (ours, new'') = merge_chains old_filter new' chs
      in ((case found of Some l \<Rightarrow> l | None \<Rightarrow> chain_str @ '' - [0:0]'') # ours, new''))"

text \<open>The rules at the top and the others, the remaining lines, and how often \<open>rules_index\<close> is decremented.\<close>

fun merge_rules ::
    "string list \<Rightarrow> string list \<Rightarrow> ip_rule list \<Rightarrow> string list \<times> string list \<times> string list \<times> int" where
  "merge_rules old_filter new_filter [] = ([], [], new_filter, 0)"
| "merge_rules old_filter new_filter (r # rs) =
     (let rule_str = py_strip (rule_text r);
          (found, dup, new') = match_line old_filter new_filter rule_str;
          line = (case found of Some l \<Rightarrow> l | None \<Rightarrow> ''[0:0] '' @ rule_str);
          (ours, low, new'', n) = merge_rules old_filter new' rs;
          n' = (if dup then n + 1 else n)
      in if ir_top r then (line # ours, low, new'', n') else (ours, line # low, new'', n'))"

definition strip_packets_bytes :: "string \<Rightarrow> exc + string" where
  "strip_packets_bytes line =
     (if py_startswith line '':'' then
        (let l = py_split (CHR '':'') line ! 1 in
         Inr (py_strip (case split_at_text '' - ['' l of None \<Rightarrow> l | Some (a, _) \<Rightarrow> a)))
      else if py_startswith line ''['' then
        (case split_at_text ''] '' line of None \<Rightarrow> Inl IndexError | Some (_, b) \<Rightarrow> Inr (py_strip b))
      else Inr (py_strip line))"

text \<open>The three filters in one pass: the lines seen so far, and what is left of the lists of removals.\<close>

record weed_state =
  seen_chains :: "string list"
  seen_rules :: "string list"
  rm_chains :: "string list"
  rm_rules :: "ip_rule list"

text \<open>Each case is one kind of line; the first filter that rejects a line ends its treatment.\<close>

definition weed_line :: "string \<Rightarrow> weed_state \<Rightarrow> exc + bool \<times> weed_state" where
  "weed_line line w =
     (if py_startswith line '':'' then
        bindR (strip_packets_bytes line) (\<lambda>l.
          if l \<in> set (seen_chains w) then Inr (False, w)
          else
            (let w1 = w\<lparr>seen_chains := seen_chains w @ [l]\<rparr> in
             if l \<in> set (rm_chains w1) then Inr (False, w1\<lparr>rm_chains := removeAll l (rm_chains w1)\<rparr>)
             else Inr (True, w1)))
      else if py_startswith line ''['' then
        bindR (strip_packets_bytes line) (\<lambda>l.
          if l \<in> set (seen_rules w) then Inr (False, w)
          else
            (let w1 = w\<lparr>seen_rules := seen_rules w @ [l]\<rparr> in
             case find (\<lambda>r. strip_packets_bytes (rule_text r) = Inr l) (rm_rules w1) of
               None \<Rightarrow> Inr (True, w1)
             | Some r \<Rightarrow>
                 Inr (False, w1\<lparr>rm_rules := (case remove_first r (rm_rules w1) of None \<Rightarrow> rm_rules w1 | Some q \<Rightarrow> q)\<rparr>)))
      else Inr (True, w))"

fun weed_lines :: "string list \<Rightarrow> weed_state \<Rightarrow> exc + string list \<times> weed_state" where
  "weed_lines [] w = Inr ([], w)"
| "weed_lines (l # ls) w =
     bindR (weed_line l w) (\<lambda>(keep, w1).
     bindR (weed_lines ls w1) (\<lambda>(kept, w2). Inr (if keep then l # kept else kept, w2)))"

text \<open>\<open>for rule in remove_rules: remove_rules.remove(rule)\<close>: the loop goes by the index into the list it shortens.\<close>

lemma remove_first_length: "remove_first r rs = Some qs \<Longrightarrow> length rs = Suc (length qs)"
  by (induction rs arbitrary: qs) (auto split: if_splits)

function flush_from :: "nat \<Rightarrow> ip_rule list \<Rightarrow> ip_rule list" where
  "flush_from i rs =
     (if i < length rs then flush_from (Suc i) (case remove_first (rs ! i) rs of None \<Rightarrow> rs | Some qs \<Rightarrow> qs) else rs)"
  by pat_completeness auto

termination flush_from
  by (relation "measure (\<lambda>(i, rs). length rs - i)") (auto split: option.splits dest!: remove_first_length)

declare flush_from.simps [simp del]

definition modify_rules :: "string \<Rightarrow> string list \<Rightarrow> ip_table \<Rightarrow> string \<Rightarrow> exc + string list \<times> ip_table" where
  "modify_rules wrap_name current_lines t table_name =
     (let lines = (if current_lines = []
            then [''# Generated by iptables_manager'', ''*'' @ table_name, ''COMMIT'', ''# Completed by iptables_manager'']
            else current_lines);
          old_filter = map py_strip (filter (contains wrap_name) lines);
          new0 = map py_strip (filter (\<lambda>l. \<not> contains wrap_name l) lines);
          all_chains = map (\<lambda>n. '':'' @ n) (it_unwrapped t) @ map (\<lambda>n. '':'' @ wrap_name @ ''-'' @ n) (it_chains t);
          (our_chains, new1) = merge_chains old_filter new0 all_chains;
          (our_rules, bot_rules, new2, n) = merge_rules old_filter new1 (it_rules t);
          rules_index = find_rules_index new0 - n;
          new3 = set_slice new2 rules_index rules_index (our_rules @ bot_rules);
          new4 = set_slice new3 rules_index rules_index our_chains
      in bindR (weed_lines (rev new4)
             \<lparr>seen_chains = [], seen_rules = [], rm_chains = it_remove_chains t, rm_rules = it_remove_rules t\<rparr>)
           (\<lambda>(kept, w). Inr (rev kept, t\<lparr>it_remove_chains := [], it_remove_rules := flush_from 0 (rm_rules w)\<rparr>)))"

section \<open>The manager\<close>

record iptables_manager =
  im_ipv4 :: "(string \<times> ip_table) list"
  im_ipv6 :: "(string \<times> ip_table) list"
  im_use_ipv6 :: bool
  im_deferred :: bool
  im_wrap_name :: string

text \<open>The chains and rules of a new manager; unwrapped rules are always accepted.\<close>

definition add_unwrapped :: "string \<Rightarrow> string \<Rightarrow> bool \<Rightarrow> ip_table \<Rightarrow> ip_table" where
  "add_unwrapped chain rule is_top t =
     (case add_rule chain rule False is_top None t of Inl _ \<Rightarrow> t | Inr t' \<Rightarrow> t')"

definition initial_filter :: "string \<Rightarrow> ip_table" where
  "initial_filter wrap_name =
     foldl (\<lambda>t chain. add_unwrapped chain (''-j $'' @ chain) False (add_chain chain True t))
       (add_unwrapped ''neutron-filter-top'' ''-j $local'' False (add_chain ''local'' True
         (add_unwrapped ''OUTPUT'' ''-j neutron-filter-top'' True
           (add_unwrapped ''FORWARD'' ''-j neutron-filter-top'' True
             (add_chain ''neutron-filter-top'' False (new_table wrap_name))))))
       [''INPUT'', ''OUTPUT'', ''FORWARD'']"

definition initial_nat :: "string \<Rightarrow> exc + ip_table" where
  "initial_nat wrap_name =
     (let builtin = foldl (\<lambda>t chain. add_unwrapped chain (''-j $'' @ chain) False (add_chain chain True t))
            (new_table wrap_name) [''PREROUTING'', ''OUTPUT'', ''POSTROUTING''];
          bottom = add_unwrapped ''POSTROUTING'' ''-j neutron-postrouting-bottom'' False
            (add_chain ''neutron-postrouting-bottom'' False builtin)
      in add_rule ''snat'' ''-j $float-snat'' True False None
           (add_chain ''float-snat'' True
             (add_unwrapped ''neutron-postrouting-bottom'' ''-j $snat'' False (add_chain ''snat'' True bottom))))"

definition new_manager :: "string \<Rightarrow> bool \<Rightarrow> bool \<Rightarrow> exc + iptables_manager" where
  "new_manager binary_name state_less use_ipv6 =
     (let wrap_name = take 16 binary_name;
          m = \<lparr>im_ipv4 = [(''filter'', initial_filter wrap_name)], im_ipv6 = [(''filter'', initial_filter wrap_name)],
               im_use_ipv6 = use_ipv6, im_deferred = False, im_wrap_name = wrap_name\<rparr>
      in if state_less then Inr m
         else bindR (initial_nat wrap_name) (\<lambda>nat. Inr (m\<lparr>im_ipv4 := im_ipv4 m @ [(''nat'', nat)]\<rparr>)))"

fun apply_tables ::
    "string \<Rightarrow> string list \<Rightarrow> (string \<times> ip_table) list \<Rightarrow> exc + string list \<times> (string \<times> ip_table) list" where
  "apply_tables wrap_name all_lines [] = Inr (all_lines, [])"
| "apply_tables wrap_name all_lines ((table_name, table) # tables) =
     bindR (find_table all_lines table_name) (\<lambda>(start, end).
     bindR (modify_rules wrap_name (slice all_lines start end) table table_name) (\<lambda>(new_lines, table').
     bindR (apply_tables wrap_name (set_slice all_lines start end new_lines) tables) (\<lambda>(lines, tables').
       Inr (lines, (table_name, table') # tables'))))"

text \<open>
  \<open>_apply\<close>: \<open>saved\<close> is the output of the two save commands; the result are the texts to be restored.
\<close>

definition apply_now ::
    "string list \<times> string list \<Rightarrow> iptables_manager \<Rightarrow> exc + (string list \<times> string list option) \<times> iptables_manager" where
  "apply_now saved m =
     bindR (apply_tables (im_wrap_name m) (fst saved) (im_ipv4 m)) (\<lambda>(lines4, tables4).
       if im_use_ipv6 m
       then bindR (apply_tables (im_wrap_name m) (snd saved) (im_ipv6 m)) (\<lambda>(lines6, tables6).
              Inr ((lines4, Some lines6), m\<lparr>im_ipv4 := tables4, im_ipv6 := tables6\<rparr>))
       else Inr ((lines4, None), m\<lparr>im_ipv4 := tables4\<rparr>))"

definition apply_manager ::
    "string list \<times> string list \<Rightarrow> iptables_manager
       \<Rightarrow> exc + (string list \<times> string list option) option \<times> iptables_manager" where
  "apply_manager saved m =
     (if im_deferred m then Inr (None, m)
      else bindR (apply_now saved m) (\<lambda>(restored, m'). Inr (Some restored, m')))"

definition defer_apply_on :: "iptables_manager \<Rightarrow> iptables_manager" where
  "defer_apply_on m = m\<lparr>im_deferred := True\<rparr>"

definition defer_apply_off ::
    "string list \<times> string list \<Rightarrow> iptables_manager
       \<Rightarrow> exc + (string list \<times> string list option) \<times> iptables_manager" where
  "defer_apply_off saved m = apply_now saved (m\<lparr>im_deferred := False\<rparr>)"

section \<open>Traffic counters\<close>

definition counter_tables :: "string \<Rightarrow> bool \<Rightarrow> iptables_manager \<Rightarrow> (string \<times> string) list" where
  "counter_tables chain wrap m =
     (let name = get_chain_name chain wrap in
      map (\<lambda>kt. (''iptables'', fst kt)) (filter (\<lambda>kt. name \<in> set (select_chain_set wrap (snd kt))) (im_ipv4 m)) @
      map (\<lambda>kt. (''ip6tables'', fst kt)) (filter (\<lambda>kt. name \<in> set (select_chain_set wrap (snd kt))) (im_ipv6 m)))"

text \<open>\<open>line.split()\<close>.\<close>

fun words_from :: "string \<Rightarrow> string \<Rightarrow> string list" where
  "words_from w [] = (if w = [] then [] else [w])"
| "words_from w (c # cs) =
     (if py_space c then (if w = [] then words_from [] cs else w # words_from [] cs) else words_from (w @ [c]) cs)"

definition is_digits :: "string \<Rightarrow> bool" where
  "is_digits s \<longleftrightarrow> s \<noteq> [] \<and> (\<forall>c \<in> set s. digit_val c \<noteq> None)"

fun count_lines :: "string list \<Rightarrow> int \<times> int \<Rightarrow> int \<times> int" where
  "count_lines [] acc = acc"
| "count_lines (l # ls) acc =
     (if l = [] then acc
      else (case words_from [] l of
              a # b # _ \<Rightarrow>
                (if is_digits a \<and> is_digits b
                 then count_lines ls (fst acc + the (py_nat a), snd acc + the (py_nat b)) else acc)
            | _ \<Rightarrow> acc))"

text \<open>\<open>listing\<close> is the output of the list command for a command and a table.\<close>

definition get_traffic_counters ::
    "(string \<times> string \<Rightarrow> string list) \<Rightarrow> string \<Rightarrow> bool \<Rightarrow> iptables_manager \<Rightarrow> (int \<times> int) option" where
  "get_traffic_counters listing chain wrap m =
     (let cmd_tables = counter_tables chain wrap m in
      if cmd_tables = [] then None
      else Some (foldl (\<lambda>acc ct. count_lines (drop 2 (listing ct)) acc) (0, 0) cmd_tables))"

end
