(* ===== verification/Firewall.thy ===== *)
theory Firewall
  imports Iptables Netaddr "HOL-Library.AList"
begin

text \<open>
  The firewall driver of the agents (\<open>neutron/agent/linux/iptables_firewall.py\<close>): the security group
  rules of the ports of a host as rules of the iptables manager.

  The dict of filtered ports is a list of pairs in the order of insertion.  The hybrid driver for Open
  vSwitch differs in two names, which the field \<open>fd_hybrid\<close> selects.
\<close>

section \<open>Ports and their rules\<close>

datatype direction = Ingress | Egress | Spoof

definition SG_CHAIN :: string where
  "SG_CHAIN = ''sg-chain''"

fun CHAIN_NAME_PREFIX :: "direction \<Rightarrow> string" where
  "CHAIN_NAME_PREFIX Ingress = ''i''"
| "CHAIN_NAME_PREFIX Egress = ''o''"
| "CHAIN_NAME_PREFIX Spoof = ''s''"

definition IPTABLES_DIRECTION :: "direction \<Rightarrow> string" where
  "IPTABLES_DIRECTION d = (if d = Ingress then ''physdev-out'' else ''physdev-in'')"

text \<open>A security group rule as the server sends it; a missing key is \<open>None\<close>.\<close>

record sg_rule =
  sg_direction :: direction
  sg_ethertype :: "string option"
  sg_protocol :: "string option"
  sg_source_prefix :: "string option"
  sg_dest_prefix :: "string option"
  sg_source_min :: "int option"
  sg_source_max :: "int option"
  sg_port_min :: "int option"
  sg_port_max :: "int option"

record fw_port =
  fp_device :: string
  fp_mac :: string
  fp_fixed_ips :: "string list"
  fp_allowed_pairs :: "(string \<times> string) list"  \<comment> \<open>empty where the port has no such list\<close>
  fp_rules :: "sg_rule list"

definition port_chain_name :: "bool \<Rightarrow> fw_port \<Rightarrow> direction \<Rightarrow> string" where
  "port_chain_name hybrid port d =
     get_chain_name (CHAIN_NAME_PREFIX d @ (if hybrid then fp_device port else drop 3 (fp_device port))) True"

definition get_device_name :: "bool \<Rightarrow> fw_port \<Rightarrow> string" where
  "get_device_name hybrid port = (if hybrid then take 14 (''tap'' @ fp_device port) else fp_device port)"

section \<open>Texts of rules\<close>

definition select_sgr_by_direction :: "fw_port \<Rightarrow> direction \<Rightarrow> sg_rule list" where
  "select_sgr_by_direction port d = filter (\<lambda>r. sg_direction r = d) (fp_rules port)"

text \<open>Rules for IPv6 with the protocol \<open>icmp\<close> are changed to \<open>icmpv6\<close>.\<close>

definition split_sgr_by_ethertype :: "sg_rule list \<Rightarrow> sg_rule list \<times> sg_rule list" where
  "split_sgr_by_ethertype rules =
     (filter (\<lambda>r. sg_ethertype r = Some ''IPv4'') rules,
      map (\<lambda>r. if sg_protocol r = Some ''icmp'' then r\<lparr>sg_protocol := Some ''icmpv6''\<rparr> else r)
        (filter (\<lambda>r. sg_ethertype r = Some ''IPv6'') rules))"

definition protocol_arg :: "string option \<Rightarrow> string list" where
  "protocol_arg protocol =
     (case protocol of
        None \<Rightarrow> []
      | Some p \<Rightarrow>
          (if p = [] then []
           else [''-p'', p] @ (if p \<in> {''udp'', ''tcp''} then [''-m'', p] else [])))"

definition int_text :: "int option \<Rightarrow> string" where
  "int_text n = (case n of None \<Rightarrow> ''None'' | Some k \<Rightarrow> show_int k)"

definition port_arg :: "string \<Rightarrow> string option \<Rightarrow> int option \<Rightarrow> int option \<Rightarrow> string list" where
  "port_arg dir protocol port_range_min port_range_max =
     (if \<not> (protocol \<in> {Some ''udp'', Some ''tcp''} \<and> port_range_min \<noteq> None \<and> port_range_min \<noteq> Some 0) then []
      else if port_range_min = port_range_max then [''--'' @ dir, int_text port_range_min]
      else [''-m'', ''multiport'', ''--'' @ dir @ ''s'', int_text port_range_min @ '':'' @ int_text port_range_max])"

definition ip_prefix_arg :: "string \<Rightarrow> string option \<Rightarrow> string list" where
  "ip_prefix_arg dir ip_prefix = (case ip_prefix of None \<Rightarrow> [] | Some p \<Rightarrow> if p = [] then [] else [''-'' @ dir, p])"

definition sgr_args :: "sg_rule \<Rightarrow> string list" where
  "sgr_args r =
     ip_prefix_arg ''s'' (sg_source_prefix r) @ ip_prefix_arg ''d'' (sg_dest_prefix r) @ protocol_arg (sg_protocol r) @
     port_arg ''sport'' (sg_protocol r) (sg_source_min r) (sg_source_max r) @
     port_arg ''dport'' (sg_protocol r) (sg_port_min r) (sg_port_max r) @ [''-j RETURN'']"

definition drop_invalid_packets :: "string list" where
  "drop_invalid_packets = [''-m state --state INVALID -j DROP'']"

definition allow_established :: "string list" where
  "allow_established = [''-m state --state RELATED,ESTABLISHED -j RETURN'']"

definition convert_sgr_to_iptables_rules :: "sg_rule list \<Rightarrow> string list" where
  "convert_sgr_to_iptables_rules rules =
     drop_invalid_packets @ allow_established @ map (\<lambda>r. py_join '' '' (sgr_args r)) rules @ [''-j $sg-fallback'']"

definition drop_dhcp_rule :: "string list" where
  "drop_dhcp_rule = [''-p udp -m udp --sport 67 --dport 68 -j DROP'']"

definition accept_inbound_icmpv6 :: "string list" where
  "accept_inbound_icmpv6 =
     map (\<lambda>n. ''-p icmpv6 --icmpv6-type '' @ show_int n @ '' -j RETURN'') [130, 131, 132, 134, 135, 136]"

section \<open>Tables\<close>

text \<open>The filter tables for IPv4 and IPv6.\<close>

type_synonym filters = "ip_table \<times> ip_table"

fun add_rules :: "string \<Rightarrow> string list \<Rightarrow> ip_table \<Rightarrow> exc + ip_table" where
  "add_rules chain [] t = Inr t"
| "add_rules chain (r # rs) t = bindR (add_rule chain r True False None t) (add_rules chain rs)"

definition add_rule_to_chain_v4v6 :: "string \<Rightarrow> string list \<Rightarrow> string list \<Rightarrow> filters \<Rightarrow> exc + filters" where
  "add_rule_to_chain_v4v6 chain ipv4_rules ipv6_rules ts =
     bindR (add_rules chain ipv4_rules (fst ts)) (\<lambda>t4.
     bindR (add_rules chain ipv6_rules (snd ts)) (\<lambda>t6. Inr (t4, t6)))"

definition add_chain_by_name_v4v6 :: "string \<Rightarrow> filters \<Rightarrow> filters" where
  "add_chain_by_name_v4v6 chain ts = (add_chain chain True (fst ts), add_chain chain True (snd ts))"

definition remove_chain_by_name_v4v6 :: "string \<Rightarrow> filters \<Rightarrow> filters" where
  "remove_chain_by_name_v4v6 chain ts = (ensure_remove_chain chain True (fst ts), ensure_remove_chain chain True (snd ts))"

definition jump_rule :: "bool \<Rightarrow> fw_port \<Rightarrow> direction \<Rightarrow> string \<Rightarrow> string" where
  "jump_rule hybrid port d chain =
     ''-m physdev --'' @ IPTABLES_DIRECTION d @ '' '' @ get_device_name hybrid port @ '' --physdev-is-bridged -j $'' @ chain"

definition add_port_chain :: "bool \<Rightarrow> fw_port \<Rightarrow> direction \<Rightarrow> filters \<Rightarrow> exc + filters" where
  "add_port_chain hybrid port d ts =
     (let chain_name = port_chain_name hybrid port d;
          to_sg = jump_rule hybrid port d SG_CHAIN;
          to_chain = jump_rule hybrid port d chain_name
      in bindR (add_rule_to_chain_v4v6 ''FORWARD'' [to_sg] [to_sg] (add_chain_by_name_v4v6 chain_name ts)) (\<lambda>ts1.
         bindR (add_rule_to_chain_v4v6 SG_CHAIN [to_chain] [to_chain] ts1) (\<lambda>ts2.
         if d = Egress then add_rule_to_chain_v4v6 ''INPUT'' [to_chain] [to_chain] ts2 else Inr ts2)))"

text \<open>One entry of the spoofing filter; \<open>None\<close> stands for a port without fixed addresses.\<close>

definition spoof_entry :: "string \<times> string option \<Rightarrow> string" where
  "spoof_entry p =
     (case snd p of
        None \<Rightarrow> ''-m mac --mac-source '' @ fst p @ '' -j RETURN''
      | Some ip \<Rightarrow> ''-m mac --mac-source '' @ fst p @ '' -s '' @ ip @ '' -j RETURN'')"

definition setup_spoof_filter_chain ::
    "bool \<Rightarrow> fw_port \<Rightarrow> (string \<times> string option) list \<Rightarrow> ip_table \<times> string list \<Rightarrow> exc + ip_table \<times> string list" where
  "setup_spoof_filter_chain hybrid port pairs tr =
     (if pairs = [] then Inr tr
      else
        (let chain_name = port_chain_name hybrid port Spoof in
         bindR (add_rules chain_name (map spoof_entry pairs @ [''-j DROP'']) (add_chain chain_name True (fst tr)))
           (\<lambda>t. Inr (t, snd tr @ [''-j $'' @ chain_name]))))"

fun build_mac_ip_lists ::
    "netaddr \<Rightarrow> (string \<times> string) list \<Rightarrow> exc + (string \<times> string option) list \<times> (string \<times> string option) list" where
  "build_mac_ip_lists na [] = Inr ([], [])"
| "build_mac_ip_lists na ((mac, ip) # pairs) =
     bindR (py_net na ip) (\<lambda>n.
     bindR (build_mac_ip_lists na pairs) (\<lambda>(v4, v6).
       if net_ver n = 4 then Inr ((mac, Some ip) # v4, v6) else Inr (v4, (mac, Some ip) # v6)))"

definition spoofing_rule :: "bool \<Rightarrow> netaddr \<Rightarrow> fw_port \<Rightarrow> filters \<Rightarrow> exc + (string list \<times> string list) \<times> filters" where
  "spoofing_rule hybrid na port ts =
     bindR (build_mac_ip_lists na (fp_allowed_pairs port @ map (Pair (fp_mac port)) (fp_fixed_ips port))) (\<lambda>(v4, v6).
     (let any_ip = (if fp_fixed_ips port = [] then [(fp_mac port, None)] else []) in
      bindR (setup_spoof_filter_chain hybrid port (v4 @ any_ip)
          (fst ts, [''-p udp -m udp --sport 68 --dport 67 -j RETURN''])) (\<lambda>(t4, ipv4_rules).
      bindR (setup_spoof_filter_chain hybrid port (v6 @ any_ip) (snd ts, [''-p icmpv6 -j RETURN''])) (\<lambda>(t6, ipv6_rules).
        Inr ((ipv4_rules, ipv6_rules), (t4, t6))))))"

definition add_rule_by_security_group :: "bool \<Rightarrow> netaddr \<Rightarrow> fw_port \<Rightarrow> direction \<Rightarrow> filters \<Rightarrow> exc + filters" where
  "add_rule_by_security_group hybrid na port d ts =
     (let chain_name = port_chain_name hybrid port d;
          (ipv4_sg_rules, ipv6_sg_rules) = split_sgr_by_ethertype (select_sgr_by_direction port d)
      in bindR (if d = Egress then spoofing_rule hybrid na port ts else Inr (([], []), ts)) (\<lambda>((spoof4, spoof6), ts1).
           add_rule_to_chain_v4v6 chain_name
             (spoof4 @ (if d = Egress then drop_dhcp_rule else []) @ convert_sgr_to_iptables_rules ipv4_sg_rules)
             (spoof6 @ (if d = Ingress then accept_inbound_icmpv6 else []) @ convert_sgr_to_iptables_rules ipv6_sg_rules)
             ts1))"

definition setup_chain :: "bool \<Rightarrow> netaddr \<Rightarrow> fw_port \<Rightarrow> direction \<Rightarrow> filters \<Rightarrow> exc + filters" where
  "setup_chain hybrid na port d ts =
     bindR (add_port_chain hybrid port d ts) (add_rule_by_security_group hybrid na port d)"

definition setup_port :: "bool \<Rightarrow> netaddr \<Rightarrow> fw_port \<Rightarrow> filters \<Rightarrow> exc + filters" where
  "setup_port hybrid na port ts =
     bindR (setup_chain hybrid na port Ingress ts) (\<lambda>ts1.
     bindR (setup_chain hybrid na port Egress ts1) (\<lambda>ts2.
       add_rule_to_chain_v4v6 SG_CHAIN [''-j ACCEPT''] [''-j ACCEPT''] ts2))"

fun setup_ports :: "bool \<Rightarrow> netaddr \<Rightarrow> fw_port list \<Rightarrow> filters \<Rightarrow> exc + filters" where
  "setup_ports hybrid na [] ts = Inr ts"
| "setup_ports hybrid na (p # ps) ts = bindR (setup_port hybrid na p ts) (setup_ports hybrid na ps)"

definition setup_chains_apply :: "bool \<Rightarrow> netaddr \<Rightarrow> fw_port list \<Rightarrow> filters \<Rightarrow> exc + filters" where
  "setup_chains_apply hybrid na ports ts = setup_ports hybrid na ports (add_chain_by_name_v4v6 SG_CHAIN ts)"

definition remove_port_chain :: "bool \<Rightarrow> fw_port \<Rightarrow> direction \<Rightarrow> filters \<Rightarrow> filters" where
  "remove_port_chain hybrid port d ts = remove_chain_by_name_v4v6 (port_chain_name hybrid port d) ts"

fun remove_chains_apply :: "bool \<Rightarrow> fw_port list \<Rightarrow> filters \<Rightarrow> filters" where
  "remove_chains_apply hybrid [] ts = remove_chain_by_name_v4v6 SG_CHAIN ts"
| "remove_chains_apply hybrid (p # ps) ts =
     remove_chains_apply hybrid ps
       (remove_port_chain hybrid p Spoof (remove_port_chain hybrid p Egress (remove_port_chain hybrid p Ingress ts)))"

section \<open>The driver\<close>

record fw_driver =
  fd_iptables :: iptables_manager
  fd_filtered :: "(string \<times> fw_port) list"
  fd_defer :: bool
  fd_pre_defer :: "(string \<times> fw_port) list option"
  fd_hybrid :: bool

definition get_filters :: "iptables_manager \<Rightarrow> exc + filters" where
  "get_filters m =
     (case (map_of (im_ipv4 m) ''filter'', map_of (im_ipv6 m) ''filter'') of
        (Some t4, Some t6) \<Rightarrow> Inr (t4, t6) | _ \<Rightarrow> Inl (KeyError ''filter''))"

definition set_filters :: "filters \<Rightarrow> iptables_manager \<Rightarrow> iptables_manager" where
  "set_filters ts m =
     m\<lparr>im_ipv4 := AList.update ''filter'' (fst ts) (im_ipv4 m), im_ipv6 := AList.update ''filter'' (snd ts) (im_ipv6 m)\<rparr>"

definition on_filters :: "(filters \<Rightarrow> exc + filters) \<Rightarrow> fw_driver \<Rightarrow> exc + fw_driver" where
  "on_filters f fw =
     bindR (get_filters (fd_iptables fw)) (\<lambda>ts.
     bindR (f ts) (\<lambda>ts'. Inr (fw\<lparr>fd_iptables := set_filters ts' (fd_iptables fw)\<rparr>)))"

definition add_fallback_chain_v4v6 :: "filters \<Rightarrow> exc + filters" where
  "add_fallback_chain_v4v6 ts =
     add_rule_to_chain_v4v6 ''sg-fallback'' [''-j DROP''] [''-j DROP''] (add_chain_by_name_v4v6 ''sg-fallback'' ts)"

definition new_fw_driver :: "string \<Rightarrow> bool \<Rightarrow> exc + fw_driver" where
  "new_fw_driver binary_name hybrid =
     bindR (new_manager binary_name False True) (\<lambda>m.
       on_filters add_fallback_chain_v4v6
         \<lparr>fd_iptables = m, fd_filtered = [], fd_defer = False, fd_pre_defer = None, fd_hybrid = hybrid\<rparr>)"

definition setup_chains :: "netaddr \<Rightarrow> fw_driver \<Rightarrow> exc + fw_driver" where
  "setup_chains na fw =
     (if fd_defer fw then Inr fw
      else on_filters (setup_chains_apply (fd_hybrid fw) na (map snd (fd_filtered fw))) fw)"

definition remove_chains :: "fw_driver \<Rightarrow> exc + fw_driver" where
  "remove_chains fw =
     (if fd_defer fw then Inr fw
      else on_filters (\<lambda>ts. Inr (remove_chains_apply (fd_hybrid fw) (map snd (fd_filtered fw)) ts)) fw)"

text \<open>The result of the operations: what was restored, if anything was applied.\<close>

type_synonym saved = "string list \<times> string list"
type_synonym restored = "(string list \<times> string list option) option"

definition apply_driver :: "saved \<Rightarrow> fw_driver \<Rightarrow> exc + restored \<times> fw_driver" where
  "apply_driver sv fw =
     bindR (apply_manager sv (fd_iptables fw)) (\<lambda>(res, m). Inr (res, fw\<lparr>fd_iptables := m\<rparr>))"

definition rebuild :: "netaddr \<Rightarrow> saved \<Rightarrow> (string \<times> fw_port) list \<Rightarrow> fw_driver \<Rightarrow> exc + restored \<times> fw_driver" where
  "rebuild na sv ports fw =
     bindR (remove_chains fw) (\<lambda>fw1.
     bindR (setup_chains na (fw1\<lparr>fd_filtered := ports\<rparr>)) (apply_driver sv))"

definition prepare_port_filter :: "netaddr \<Rightarrow> saved \<Rightarrow> fw_port \<Rightarrow> fw_driver \<Rightarrow> exc + restored \<times> fw_driver" where
  "prepare_port_filter na sv port fw =
     rebuild na sv (AList.update (fp_device port) port (fd_filtered fw)) fw"

definition update_port_filter :: "netaddr \<Rightarrow> saved \<Rightarrow> fw_port \<Rightarrow> fw_driver \<Rightarrow> exc + restored \<times> fw_driver" where
  "update_port_filter na sv port fw =
     (if fp_device port \<notin> fst ` set (fd_filtered fw) then Inr (None, fw)
      else rebuild na sv (AList.update (fp_device port) port (fd_filtered fw)) fw)"

definition remove_port_filter :: "netaddr \<Rightarrow> saved \<Rightarrow> fw_port \<Rightarrow> fw_driver \<Rightarrow> exc + restored \<times> fw_driver" where
  "remove_port_filter na sv port fw =
     (if map_of (fd_filtered fw) (fp_device port) = None then Inr (None, fw)
      else rebuild na sv (AList.delete (fp_device port) (fd_filtered fw)) fw)"

definition filter_defer_apply_on :: "fw_driver \<Rightarrow> fw_driver" where
  "filter_defer_apply_on fw =
     (if fd_defer fw then fw
      else fw\<lparr>fd_iptables := defer_apply_on (fd_iptables fw), fd_pre_defer := Some (fd_filtered fw), fd_defer := True\<rparr>)"

text \<open>While the application is deferred the ports of that time are known.\<close>

definition filter_defer_apply_off :: "netaddr \<Rightarrow> saved \<Rightarrow> fw_driver \<Rightarrow> exc + restored \<times> fw_driver" where
  "filter_defer_apply_off na sv fw =
     (if \<not> fd_defer fw then Inr (None, fw)
      else (case fd_pre_defer fw of
              None \<Rightarrow> Inl (AttributeError ''values'')
            | Some before \<Rightarrow>
                bindR (on_filters (\<lambda>ts. Inr (remove_chains_apply (fd_hybrid fw) (map snd before) ts))
                   (fw\<lparr>fd_defer := False\<rparr>)) (\<lambda>fw1.
                bindR (on_filters (setup_chains_apply (fd_hybrid fw) na (map snd (fd_filtered fw1)))
                   (fw1\<lparr>fd_pre_defer := None\<rparr>)) (\<lambda>fw2.
                bindR (defer_apply_off sv (fd_iptables fw2)) (\<lambda>(res, m). Inr (Some res, fw2\<lparr>fd_iptables := m\<rparr>))))))"

end
