(* ===== verification/IptablesProps.thy ===== *)
theory IptablesProps
  imports Iptables
begin

text \<open>
  What the merging of the rules in memory into the saved lines of the host guarantees: when a line
  of the table can be missing, none of them twice, the removed ones gone, and the lines of the other
  tables untouched.
\<close>

section \<open>Texts\<close>

lemma contains_iff: "contains sub s \<longleftrightarrow> sublist sub s"
  by (induction s) (auto simp: sublist_Cons_right)

lemma strip_no_space_ends: "py_strip (py_strip s) = py_strip s"
proof -
  have head: "dropWhile py_space (rev (dropWhile py_space (rev t))) = rev (dropWhile py_space (rev t))"
    if "t = [] \<or> \<not> py_space (hd t)" for t
  proof -
    obtain zs where "rev t = zs @ dropWhile py_space (rev t)" using takeWhile_dropWhile_id by metis
    then have t: "t = rev (dropWhile py_space (rev t)) @ rev zs" by (metis rev_append rev_rev_ident)
    let ?u = "rev (dropWhile py_space (rev t))"
    have "?u = [] \<or> \<not> py_space (hd ?u)"
    proof (cases "?u = []")
      case False
      with t have "hd ?u = hd t" by (metis hd_append2)
      with that False t show ?thesis by (metis append_is_Nil_conv)
    qed simp
    then show ?thesis by (simp add: dropWhile_eq_self_iff)
  qed
  have "dropWhile py_space s = [] \<or> \<not> py_space (hd (dropWhile py_space s))"
    using hd_dropWhile [of py_space s] by blast
  from head [OF this] show ?thesis unfolding py_strip_def by simp
qed

lemma same_rule_refl [simp]: "same_rule r r"
  by (simp add: same_rule_def)

lemma remove_first_some: "r \<in> set rs \<Longrightarrow> remove_first r rs \<noteq> None"
  by (induction rs) auto

lemma remove_first_subset: "remove_first r rs = Some qs \<Longrightarrow> set qs \<subseteq> set rs"
  by (induction rs arbitrary: qs) (auto split: if_splits)

lemma remove_first_mem:
  "remove_first r rs = Some qs \<Longrightarrow> q \<in> set rs \<Longrightarrow> q \<in> set qs \<or> same_rule q r"
  by (induction rs arbitrary: qs) (auto split: if_splits)

section \<open>The loop that flushes the list of removals\<close>

lemma flush_step:
  "i < length rs \<Longrightarrow> \<exists>qs. remove_first (rs ! i) rs = Some qs \<and> flush_from i rs = flush_from (Suc i) qs"
  using remove_first_some [OF nth_mem, of i rs]
  by (subst flush_from.simps) (auto split: option.splits)

lemma flush_done: "length rs \<le> i \<Longrightarrow> flush_from i rs = rs"
  by (simp add: flush_from.simps)

lemma flush_length: "i \<le> length rs \<Longrightarrow> length (flush_from i rs) = i + (length rs - i) div 2"
proof (induction "length rs - i" arbitrary: i rs rule: less_induct)
  case less
  show ?case
  proof (cases "i < length rs")
    case False
    with less.prems show ?thesis by (simp add: flush_done)
  next
    case True
    from flush_step [OF this] obtain qs where
      qs: "remove_first (rs ! i) rs = Some qs" "flush_from i rs = flush_from (Suc i) qs" by auto
    from remove_first_length [OF qs(1)] have len: "length rs = Suc (length qs)" .
    show ?thesis
    proof (cases "Suc i \<le> length qs")
      case True
      with less.hyps [of qs "Suc i"] len have "length (flush_from (Suc i) qs) = Suc i + (length qs - Suc i) div 2" by simp
      moreover have "length rs - i = Suc (Suc (length qs - Suc i))" using True len by simp
      ultimately show ?thesis using qs by simp
    next
      case False
      with \<open>i < length rs\<close> len have "length qs = i" by simp
      with qs len show ?thesis by (simp add: flush_done)
    qed
  qed
qed

section \<open>Names of lines\<close>

definition line_is :: "char \<Rightarrow> string \<Rightarrow> string \<Rightarrow> bool" where
  "line_is c n l \<longleftrightarrow> py_startswith l [c] \<and> strip_packets_bytes l = Inr n"

abbreviation chain_line :: "string \<Rightarrow> string \<Rightarrow> bool" where
  "chain_line \<equiv> line_is CHR '':''"

abbreviation rule_line :: "string \<Rightarrow> string \<Rightarrow> bool" where
  "rule_line \<equiv> line_is CHR ''[''"

lemma line_kinds: "py_startswith l [c] \<Longrightarrow> py_startswith l [d] \<longleftrightarrow> c = d"
  by (cases l) (auto simp: py_startswith_def)

lemma line_is_unique: "line_is c n l \<Longrightarrow> line_is c m l \<Longrightarrow> n = m"
  by (simp add: line_is_def)

definition removal_text :: "string \<Rightarrow> ip_rule list \<Rightarrow> bool" where
  "removal_text n rs \<longleftrightarrow> (\<exists>r \<in> set rs. strip_packets_bytes (rule_text r) = Inr n)"

lemma find_removal: "find (\<lambda>r. strip_packets_bytes (rule_text r) = Inr l) rs = None \<longleftrightarrow> \<not> removal_text l rs"
  by (auto simp: removal_text_def find_None_iff)

text \<open>What one line does to the state of the filters.\<close>

lemma weed_chain:
  assumes "weed_line l w = Inr (keep, w1)" and "chain_line n l"
  shows "keep \<longleftrightarrow> n \<notin> set (seen_chains w) \<and> n \<notin> set (rm_chains w)"
    and "set (seen_chains w1) = insert n (set (seen_chains w))"
    and "set (rm_chains w1) \<subseteq> set (rm_chains w)" "set (rm_chains w) \<subseteq> insert n (set (rm_chains w1))"
    and "seen_rules w1 = seen_rules w" "rm_rules w1 = rm_rules w"
  using assms by (auto simp: weed_line_def line_is_def Let_def split: if_splits)

lemma weed_rule:
  assumes "weed_line l w = Inr (keep, w1)" and "rule_line n l"
  shows "keep \<longleftrightarrow> n \<notin> set (seen_rules w) \<and> \<not> removal_text n (rm_rules w)"
    and "set (seen_rules w1) = insert n (set (seen_rules w))"
    and "set (rm_rules w1) \<subseteq> set (rm_rules w)"
    and "seen_chains w1 = seen_chains w" "rm_chains w1 = rm_chains w"
proof -
  from assms(2) have l: "\<not> py_startswith l '':''" "py_startswith l ''[''" "strip_packets_bytes l = Inr n"
    using line_kinds [of l "CHR ''[''" "CHR '':''"] by (auto simp: line_is_def)
  note a = assms(1) [unfolded weed_line_def, simplified l Let_def, simplified]
  show "keep \<longleftrightarrow> n \<notin> set (seen_rules w) \<and> \<not> removal_text n (rm_rules w)"
    and "set (seen_rules w1) = insert n (set (seen_rules w))"
    and "seen_chains w1 = seen_chains w" "rm_chains w1 = rm_chains w"
    using a find_removal [of n "rm_rules w"] by (auto split: if_splits option.splits)
  show "set (rm_rules w1) \<subseteq> set (rm_rules w)"
    using a by (auto split: if_splits option.splits dest!: remove_first_subset)
qed

lemma weed_other:
  assumes "weed_line l w = Inr (keep, w1)" and "\<not> py_startswith l '':''" and "\<not> py_startswith l ''[''"
  shows "keep" "w1 = w"
  using assms by (auto simp: weed_line_def)

lemma weed_cases:
  assumes "weed_line l w = Inr (keep, w1)"
  obtains (chain) n where "chain_line n l" | (rule) n where "rule_line n l"
    | (other) "\<not> py_startswith l '':''" "\<not> py_startswith l ''[''"
proof -
  show ?thesis
  proof (cases "py_startswith l '':'' \<or> py_startswith l ''[''")
    case True
    with assms obtain n where "strip_packets_bytes l = Inr n"
      by (cases "strip_packets_bytes l") (auto simp: weed_line_def split: if_splits)
    with True show ?thesis using that by (auto simp: line_is_def)
  qed (use that in auto)
qed

lemma not_both: "chain_line n l \<Longrightarrow> rule_line m l \<Longrightarrow> False"
  using line_kinds [of l "CHR '':''" "CHR ''[''"] by (simp add: line_is_def)


section \<open>All lines\<close>

lemma weed_consE:
  assumes "weed_lines (l # ls) w = Inr (kept, w')"
  obtains keep w1 kept1 where "weed_line l w = Inr (keep, w1)" "weed_lines ls w1 = Inr (kept1, w')"
    "kept = (if keep then l # kept1 else kept1)"
  using assms by (auto simp: op_simps)

text \<open>A chain that no removal names is kept, by the first line that has its name.\<close>

lemma weed_keeps_chain:
  assumes "weed_lines ls w = Inr (kept, w')" and "l \<in> set ls" "chain_line n l"
    and "n \<notin> set (seen_chains w)" "n \<notin> set (rm_chains w)"
  shows "\<exists>k \<in> set kept. chain_line n k"
  using assms
proof (induction ls arbitrary: w kept)
  case (Cons x xs)
  from Cons.prems(1) obtain keep w1 kept1 where x: "weed_line x w = Inr (keep, w1)"
    and xs: "weed_lines xs w1 = Inr (kept1, w')" and kept: "kept = (if keep then x # kept1 else kept1)"
    by (rule weed_consE)
  show ?case
  proof (cases "chain_line n x")
    case True
    with weed_chain(1) [OF x True] Cons.prems(4,5) kept show ?thesis by auto
  next
    case False
    with Cons.prems have "l \<in> set xs" by auto
    moreover have "n \<notin> set (seen_chains w1)" "n \<notin> set (rm_chains w1)"
    proof -
      from x have "n \<notin> set (seen_chains w1) \<and> n \<notin> set (rm_chains w1)"
      proof (cases rule: weed_cases)
        case (chain m)
        with weed_chain(2,3) [OF x chain] False Cons.prems(4,5) show ?thesis by auto
      next
        case (rule m)
        with weed_rule(4,5) [OF x rule] Cons.prems(4,5) show ?thesis by simp
      next
        case other
        with weed_other(2) [OF x other] Cons.prems(4,5) show ?thesis by simp
      qed
      then show "n \<notin> set (seen_chains w1)" "n \<notin> set (rm_chains w1)" by auto
    qed
    ultimately show ?thesis using Cons.IH [OF xs] Cons.prems(3) kept by auto
  qed
qed simp

lemma weed_keeps_rule:
  assumes "weed_lines ls w = Inr (kept, w')" and "l \<in> set ls" "rule_line n l"
    and "n \<notin> set (seen_rules w)" "\<not> removal_text n (rm_rules w)"
  shows "\<exists>k \<in> set kept. rule_line n k"
  using assms
proof (induction ls arbitrary: w kept)
  case (Cons x xs)
  from Cons.prems(1) obtain keep w1 kept1 where x: "weed_line x w = Inr (keep, w1)"
    and xs: "weed_lines xs w1 = Inr (kept1, w')" and kept: "kept = (if keep then x # kept1 else kept1)"
    by (rule weed_consE)
  show ?case
  proof (cases "rule_line n x")
    case True
    with weed_rule(1) [OF x True] Cons.prems(4,5) kept show ?thesis by auto
  next
    case False
    with Cons.prems have "l \<in> set xs" by auto
    moreover have "n \<notin> set (seen_rules w1) \<and> \<not> removal_text n (rm_rules w1)"
    using x proof (cases rule: weed_cases)
      case (chain m)
      with weed_chain(5,6) [OF x chain] Cons.prems(4,5) show ?thesis by simp
    next
      case (rule m)
      with weed_rule(2,3) [OF x rule] False Cons.prems(4,5) show ?thesis by (auto simp: removal_text_def)
    next
      case other
      with weed_other(2) [OF x other] Cons.prems(4,5) show ?thesis by simp
    qed
    ultimately show ?thesis using Cons.IH [OF xs] Cons.prems(3) kept by auto
  qed
qed simp

text \<open>What is kept has names that were not seen before and that no removal names.\<close>

lemma weed_fresh_chain:
  assumes "weed_lines ls w = Inr (kept, w')" and "k \<in> set kept" "chain_line n k"
  shows "n \<notin> set (seen_chains w) \<and> n \<notin> set (rm_chains w)"
  using assms
proof (induction ls arbitrary: w kept)
  case (Cons x xs)
  from Cons.prems(1) obtain keep w1 kept1 where x: "weed_line x w = Inr (keep, w1)"
    and xs: "weed_lines xs w1 = Inr (kept1, w')" and kept: "kept = (if keep then x # kept1 else kept1)"
    by (rule weed_consE)
  show ?case
  proof (cases "k \<in> set kept1")
    case False
    with kept Cons.prems(2) have "k = x" keep by (auto split: if_splits)
    with weed_chain(1) [OF x] Cons.prems(3) show ?thesis by auto
  next
    case True
    from Cons.IH [OF xs this Cons.prems(3)] have n: "n \<notin> set (seen_chains w1) \<and> n \<notin> set (rm_chains w1)" .
    from x show ?thesis
    proof (cases rule: weed_cases)
      case (chain m)
      with weed_chain(2,4) [OF x chain] n show ?thesis by auto
    next
      case (rule m)
      with weed_rule(4,5) [OF x rule] n show ?thesis by simp
    next
      case other
      with weed_other(2) [OF x other] n show ?thesis by simp
    qed
  qed
qed simp

lemma weed_fresh_rule:
  assumes "weed_lines ls w = Inr (kept, w')" and "k \<in> set kept" "rule_line n k"
  shows "n \<notin> set (seen_rules w)"
  using assms
proof (induction ls arbitrary: w kept)
  case (Cons x xs)
  from Cons.prems(1) obtain keep w1 kept1 where x: "weed_line x w = Inr (keep, w1)"
    and xs: "weed_lines xs w1 = Inr (kept1, w')" and kept: "kept = (if keep then x # kept1 else kept1)"
    by (rule weed_consE)
  show ?case
  proof (cases "k \<in> set kept1")
    case False
    with kept Cons.prems(2) have "k = x" keep by (auto split: if_splits)
    with weed_rule(1) [OF x] Cons.prems(3) show ?thesis by auto
  next
    case True
    from Cons.IH [OF xs this Cons.prems(3)] have n: "n \<notin> set (seen_rules w1)" .
    from x show ?thesis
    proof (cases rule: weed_cases)
      case (chain m)
      with weed_chain(5) [OF x chain] n show ?thesis by simp
    next
      case (rule m)
      with weed_rule(2) [OF x rule] n show ?thesis by auto
    next
      case other
      with weed_other(2) [OF x other] n show ?thesis by simp
    qed
  qed
qed simp

text \<open>No two kept lines have one name, and what is kept keeps its order.\<close>

definition names :: "char \<Rightarrow> string list \<Rightarrow> string list" where
  "names c ls = map (\<lambda>l. case strip_packets_bytes l of Inr n \<Rightarrow> n | Inl _ \<Rightarrow> []) (filter (\<lambda>l. py_startswith l [c]) ls)"

lemma weed_all_named:
  assumes "weed_lines ls w = Inr (kept, w')" and "k \<in> set ls" and "py_startswith k [c]" "c \<in> {CHR '':'', CHR ''[''}"
  shows "\<exists>n. line_is c n k"
  using assms
proof (induction ls arbitrary: w kept)
  case (Cons x xs)
  from Cons.prems(1) obtain keep w1 kept1 where x: "weed_line x w = Inr (keep, w1)"
    and xs: "weed_lines xs w1 = Inr (kept1, w')" by (rule weed_consE)
  show ?case
  proof (cases "k = x")
    case True
    from x show ?thesis
    proof (cases rule: weed_cases)
      case (chain n)
      with line_kinds [of x c "CHR '':''"] Cons.prems(3) True show ?thesis by (auto simp: line_is_def)
    next
      case (rule n)
      with line_kinds [of x c "CHR ''[''"] Cons.prems(3) True show ?thesis by (auto simp: line_is_def)
    next
      case other
      with Cons.prems(3,4) True show ?thesis by auto
    qed
  next
    case False
    with Cons.IH [OF xs _ Cons.prems(3,4)] Cons.prems(2) show ?thesis by simp
  qed
qed simp

lemma weed_subseq: "weed_lines ls w = Inr (kept, w') \<Longrightarrow> subseq kept ls"
  by (induction ls arbitrary: w kept) (auto simp: op_simps split: if_splits)

lemma weed_distinct:
  assumes "weed_lines ls w = Inr (kept, w')" "c \<in> {CHR '':'', CHR ''[''}"
  shows "distinct (names c kept)"
  using assms
proof (induction ls arbitrary: w kept)
  case (Cons x xs)
  note all = weed_all_named [OF Cons.prems(1) _ _ Cons.prems(2)]
  from Cons.prems(1) obtain keep w1 kept1 where x: "weed_line x w = Inr (keep, w1)"
    and xs: "weed_lines xs w1 = Inr (kept1, w')" and kept: "kept = (if keep then x # kept1 else kept1)"
    by (rule weed_consE)
  have d: "distinct (names c kept1)" by (rule Cons.IH [OF xs Cons.prems(2)])
  show ?case
  proof (cases "keep \<and> py_startswith x [c]")
    case False
    with kept d show ?thesis by (auto simp: names_def)
  next
    case True
    then obtain n where n: "line_is c n x" using all by force
    have "n \<notin> set (names c kept1)"
    proof
      assume "n \<in> set (names c kept1)"
      then obtain k where k: "k \<in> set kept1" "py_startswith k [c]"
        "(case strip_packets_bytes k of Inr n \<Rightarrow> n | Inl _ \<Rightarrow> []) = n" by (auto simp: names_def)
      from weed_all_named [OF xs _ k(2) Cons.prems(2)] k(1) weed_subseq [OF xs] obtain m where m: "line_is c m k"
        using list_emb_set by (metis (full_types))
      with k have "line_is c n k" by (simp add: line_is_def)
      with Cons.prems(2) k(1) n weed_fresh_chain [OF xs k(1), of n] weed_chain(2) [OF x, of n] weed_fresh_rule [OF xs k(1), of n]
        weed_rule(2) [OF x, of n] show False by auto
    qed
    with True n d kept show ?thesis by (auto simp: names_def line_is_def)
  qed
qed (simp add: names_def)


section \<open>The lines of the table\<close>

lemma match_line_found:
  assumes "match_line old new str = (Some l, dup, new')"
  shows "\<exists>k \<in> set old \<union> set new. l = py_strip k \<and> contains str (py_strip k)"
proof -
  let ?f = "filter (\<lambda>s. contains str (py_strip s))"
  from assms have "?f old \<noteq> [] \<and> l = py_strip (last (?f old)) \<or> ?f new \<noteq> [] \<and> l = py_strip (last (?f new))"
    by (auto simp: match_line_def Let_def split: if_splits)
  then show ?thesis using last_in_set [of "?f old"] last_in_set [of "?f new"] by auto
qed

lemma match_line_new: "match_line old new str = (found, dup, new') \<Longrightarrow> set new' \<subseteq> set new"
  by (auto simp: match_line_def Let_def split: if_splits)

text \<open>The line chosen for a chain or a rule is the default one or a line that was there and contains its text.\<close>

definition chosen :: "string list \<Rightarrow> string \<Rightarrow> string \<Rightarrow> string \<Rightarrow> bool" where
  "chosen ls str dflt l \<longleftrightarrow> l = dflt \<or> (\<exists>k \<in> set ls. l = py_strip k \<and> contains str (py_strip k))"

lemma match_chosen:
  assumes "match_line old new str = (found, dup, new')"
  shows "chosen (old @ new) str dflt (case found of None \<Rightarrow> dflt | Some l \<Rightarrow> l)"
proof (cases found)
  case (Some l)
  with match_line_found [of old new str l dup new'] assms show ?thesis by (auto simp: chosen_def)
qed (simp add: chosen_def)

lemma chosen_mono: "chosen ls str dflt l \<Longrightarrow> set ls \<subseteq> set ls' \<Longrightarrow> chosen ls' str dflt l"
  by (auto simp: chosen_def)

lemma merge_chains_chosen:
  assumes "merge_chains old new chs = (ours, new')" and "c \<in> set chs"
  shows "\<exists>l \<in> set ours. chosen (old @ new) (py_strip c) (py_strip c @ '' - [0:0]'') l"
  using assms
proof (induction chs arbitrary: new ours new')
  case (Cons x xs)
  obtain found dup new1 where m: "match_line old new (py_strip x) = (found, dup, new1)" by (cases "match_line old new (py_strip x)")
  obtain ours1 new2 where r: "merge_chains old new1 xs = (ours1, new2)" by force
  from Cons.prems(1) m r have ours: "ours = (case found of Some l \<Rightarrow> l | None \<Rightarrow> py_strip x @ '' - [0:0]'') # ours1"
    by (simp add: Let_def split: option.splits)
  show ?case
  proof (cases "c = x")
    case True
    with ours match_chosen [OF m] show ?thesis by auto
  next
    case False
    with Cons.IH [OF r] Cons.prems(2) obtain l where "l \<in> set ours1" and "chosen (old @ new1) (py_strip c) (py_strip c @ '' - [0:0]'') l" by auto
    with ours chosen_mono [of "old @ new1" _ _ l "old @ new"] match_line_new [OF m] show ?thesis by auto
  qed
qed simp

lemma merge_rules_chosen:
  assumes "merge_rules old new rs = (ours, low, new', n)" and "r \<in> set rs"
  shows "\<exists>l \<in> set (ours @ low). chosen (old @ new) (py_strip (rule_text r)) (''[0:0] '' @ py_strip (rule_text r)) l"
  using assms
proof (induction rs arbitrary: new ours low new' n)
  case (Cons x xs)
  let ?s = "py_strip (rule_text x)"
  obtain found dup new1 where m: "match_line old new ?s = (found, dup, new1)" by (cases "match_line old new ?s")
  obtain ours1 low1 new2 n1 where r: "merge_rules old new1 xs = (ours1, low1, new2, n1)"
    by (cases "merge_rules old new1 xs") auto
  from Cons.prems(1) m r have ours: "set (ours @ low) =
      insert (case found of Some l \<Rightarrow> l | None \<Rightarrow> ''[0:0] '' @ ?s) (set (ours1 @ low1))"
    by (auto simp: Let_def split: option.splits if_splits)
  show ?case
  proof (cases "r = x")
    case True
    with ours match_chosen [OF m, of "''[0:0] '' @ ?s"] show ?thesis by (metis insertI1)
  next
    case False
    with Cons.IH [OF r] Cons.prems(2) obtain l where "l \<in> set (ours1 @ low1)" and "chosen (old @ new1) (py_strip (rule_text r)) (''[0:0] '' @ py_strip (rule_text r)) l" by auto
    moreover have "set (old @ new1) \<subseteq> set (old @ new)" using match_line_new [OF m] by auto
    ultimately show ?thesis using ours chosen_mono by (metis insertI2)
  qed
qed simp

lemma merge_chains_new: "merge_chains old new chs = (ours, new') \<Longrightarrow> set new' \<subseteq> set new"
proof (induction chs arbitrary: new ours new')
  case (Cons x xs)
  obtain found dup new1 where m: "match_line old new (py_strip x) = (found, dup, new1)" by (cases "match_line old new (py_strip x)")
  obtain ours1 new2 where r: "merge_chains old new1 xs = (ours1, new2)" by force
  with Cons.prems m have "new' = new2" by (simp add: Let_def)
  with Cons.IH [OF r] match_line_new [OF m] show ?case by simp
qed simp

definition insert_at :: "nat \<Rightarrow> 'a list \<Rightarrow> 'a list \<Rightarrow> 'a list" where
  "insert_at n ys xs = take n xs @ ys @ drop n xs"

lemma set_slice_insert: "set_slice xs i i ys = insert_at (slice_index xs i) ys xs"
  by (simp add: set_slice_def insert_at_def Let_def)

lemma merge_chains_all_chosen:
  assumes "merge_chains old new chs = (ours, new')"
  shows "\<forall>l \<in> set ours. \<exists>c \<in> set chs. chosen (old @ new) (py_strip c) (py_strip c @ '' - [0:0]'') l"
  using assms
proof (induction chs arbitrary: new ours new')
  case (Cons x xs)
  obtain found dup new1 where m: "match_line old new (py_strip x) = (found, dup, new1)" by (cases "match_line old new (py_strip x)")
  obtain ours1 new2 where r: "merge_chains old new1 xs = (ours1, new2)" by force
  from Cons.prems(1) m r have ours: "ours = (case found of Some l \<Rightarrow> l | None \<Rightarrow> py_strip x @ '' - [0:0]'') # ours1"
    by (simp add: Let_def split: option.splits)
  have "set (old @ new1) \<subseteq> set (old @ new)" using match_line_new [OF m] by auto
  then have "\<forall>l \<in> set ours1. \<exists>c \<in> set xs. chosen (old @ new) (py_strip c) (py_strip c @ '' - [0:0]'') l"
    using Cons.IH [OF r] chosen_mono by meson
  with ours match_chosen [OF m] show ?case by auto
qed simp

lemma set_slice_set: "set (set_slice xs i i ys) = set xs \<union> set ys"
proof -
  have "set (take n xs) \<union> set (drop n xs) = set xs" for n by (metis append_take_drop_id set_append)
  then show ?thesis by (auto simp: set_slice_def Let_def)
qed


section \<open>The merged table\<close>

text \<open>
  The words of a chain or rule are found in a line only where the line is that chain or that rule: the
  search goes by \<open>in\<close>, which is true of any part of a line.
\<close>

definition exact_lines :: "char \<Rightarrow> string \<Rightarrow> string \<Rightarrow> string list \<Rightarrow> bool" where
  "exact_lines c str n ls \<longleftrightarrow> (\<forall>k \<in> set ls. contains str (py_strip k) \<longrightarrow> line_is c n (py_strip k))"

definition table_chain_names :: "string \<Rightarrow> ip_table \<Rightarrow> string list" where
  "table_chain_names wrap_name t = it_unwrapped t @ map (\<lambda>n. wrap_name @ ''-'' @ n) (it_chains t)"

definition plain_name :: "string \<Rightarrow> bool" where
  "plain_name n \<longleftrightarrow> (\<forall>c \<in> set n. \<not> py_space c \<and> c \<noteq> CHR '':'')"

lemma split_at_dash: "CHR '' '' \<notin> set n \<Longrightarrow> split_at_text '' - ['' (n @ '' - ['' @ r) = Some (n, r)"
  by (induction n) auto

lemma default_chain_line:
  assumes "plain_name n" shows "chain_line n ('':'' @ n @ '' - [0:0]'')"
proof -
  have "CHR '' '' \<notin> set n" "CHR '':'' \<notin> set n" using assms by (auto simp: plain_name_def py_space_def)
  then have "py_split CHR '':'' ('':'' @ n @ '' - [0:0]'') ! 1 = n @ '' - ['' @ ''0''"
    using split_word_sep [of "CHR '':''" "n @ '' - [0''" "''0]''"] by (simp add: append_assoc)
  moreover have "py_strip n = n" using assms by (simp add: strip_id plain_name_def)
  ultimately show ?thesis using split_at_dash [of n "''0''"] \<open>CHR '' '' \<notin> set n\<close>
    by (simp add: line_is_def py_startswith_def strip_packets_bytes_def Let_def)
qed

lemma default_rule_line: "rule_line (py_strip s) (''[0:0] '' @ py_strip s)"
  by (simp add: line_is_def py_startswith_def strip_packets_bytes_def strip_no_space_ends)

lemma chosen_line:
  assumes "chosen ls str dflt l" "exact_lines c str n ls" "line_is c n dflt"
  shows "line_is c n l"
  using assms by (auto simp: chosen_def exact_lines_def)


text \<open>What \<open>_modify_rules\<close> hands to its filters.\<close>

lemma modify_rules_parts:
  assumes "modify_rules wrap_name ls t name = Inr (out, t')" and "ls \<noteq> []"
  obtains ours_c new1 ours low new2 n all kept w where
    "merge_chains (map py_strip (filter (contains wrap_name) ls)) (map py_strip (filter (\<lambda>l. \<not> contains wrap_name l) ls))
        (map ((@) '':'') (table_chain_names wrap_name t)) = (ours_c, new1)"
    "merge_rules (map py_strip (filter (contains wrap_name) ls)) new1 (it_rules t) = (ours, low, new2, n)"
    "set all = set new2 \<union> set (ours @ low) \<union> set ours_c"
    "\<exists>a b. all = insert_at b ours_c (insert_at a (ours @ low) new2)"
    "weed_lines (rev all) \<lparr>seen_chains = [], seen_rules = [], rm_chains = it_remove_chains t, rm_rules = it_remove_rules t\<rparr>
        = Inr (kept, w)"
    "out = rev kept"
    "t' = t\<lparr>it_remove_chains := [], it_remove_rules := flush_from 0 (rm_rules w)\<rparr>"
proof -
  have texts: "map (\<lambda>n. '':'' @ n) (it_unwrapped t) @ map (\<lambda>n. '':'' @ wrap_name @ ''-'' @ n) (it_chains t)
      = map ((@) '':'') (table_chain_names wrap_name t)"
    by (simp add: table_chain_names_def comp_def)
  obtain ours_c new1 where c: "merge_chains (map py_strip (filter (contains wrap_name) ls))
      (map py_strip (filter (\<lambda>l. \<not> contains wrap_name l) ls)) (map ((@) '':'') (table_chain_names wrap_name t)) = (ours_c, new1)"
    by force
  obtain ours low new2 n where r: "merge_rules (map py_strip (filter (contains wrap_name) ls)) new1 (it_rules t) = (ours, low, new2, n)"
    by (metis prod_cases4)
  let ?k = "find_rules_index (map py_strip (filter (\<lambda>l. \<not> contains wrap_name l) ls)) - n"
  let ?all = "set_slice (set_slice new2 ?k ?k (ours @ low)) ?k ?k ours_c"
  let ?w0 = "\<lparr>seen_chains = [], seen_rules = [], rm_chains = it_remove_chains t, rm_rules = it_remove_rules t\<rparr>"
  from assms obtain kept w where w: "weed_lines (rev ?all) ?w0 = Inr (kept, w)" "out = rev kept"
    "t' = t\<lparr>it_remove_chains := [], it_remove_rules := flush_from 0 (rm_rules w)\<rparr>"
    unfolding modify_rules_def Let_def if_not_P [OF assms(2)] texts c r prod.case bindR_Inr_iff by auto
  have "\<exists>a b. ?all = insert_at b ours_c (insert_at a (ours @ low) new2)" unfolding set_slice_insert by blast
  from that [OF c r _ this w] show ?thesis by (simp add: set_slice_set)
qed


text \<open>
  C28: merging into the saved lines of a table loses a chain of the table only when the chain is in the list
  of removals, its name has a space or a colon, or some saved line contains the text of the chain without
  being the line of this chain (the code searches for texts inside lines; \<open>prefix_chain_lost\<close> below is such a
  loss, of a chain whose name is the beginning of another's).  It loses a rule only when the rule is in the
  list of removals or some saved line contains its text without being this rule.  Otherwise the chain or
  rule has a line in the result.
\<close>

theorem merge_complete:
  assumes "modify_rules wrap_name ls t name = Inr (out, t')" and "ls \<noteq> []"
  shows "(\<forall>n \<in> set (table_chain_names wrap_name t).
      (\<exists>l \<in> set out. chain_line n l) \<or> n \<in> set (it_remove_chains t) \<or> \<not> plain_name n \<or>
      (\<exists>k \<in> set ls. contains ('':'' @ n) (py_strip k) \<and> \<not> chain_line n (py_strip k))) \<and>
    (\<forall>r \<in> set (it_rules t). let text = py_strip (rule_text r) in
      (\<exists>l \<in> set out. rule_line text l) \<or> removal_text text (it_remove_rules t) \<or>
      (\<exists>k \<in> set ls. contains text (py_strip k) \<and> \<not> rule_line text (py_strip k)))"
proof -
  let ?old = "map py_strip (filter (contains wrap_name) ls)"
  let ?new = "map py_strip (filter (\<lambda>l. \<not> contains wrap_name l) ls)"
  from modify_rules_parts [OF assms] obtain ours_c new1 ours low new2 n all kept w where
    c: "merge_chains ?old ?new (map ((@) '':'') (table_chain_names wrap_name t)) = (ours_c, new1)"
    and r: "merge_rules ?old new1 (it_rules t) = (ours, low, new2, n)"
    and all: "set all = set new2 \<union> set (ours @ low) \<union> set ours_c"
    and w: "weed_lines (rev all) \<lparr>seen_chains = [], seen_rules = [], rm_chains = it_remove_chains t,
         rm_rules = it_remove_rules t\<rparr> = Inr (kept, w)"
    and out: "out = rev kept" by metis
  have exact: "exact_lines ch str m ls \<Longrightarrow> set ks \<subseteq> set ?old \<union> set ?new \<Longrightarrow> exact_lines ch str m ks" for ch str m ks
    by (fastforce simp: exact_lines_def strip_no_space_ends)
  have sub: "set new1 \<subseteq> set ?new" by (rule merge_chains_new [OF c])
  have chain: "\<exists>l \<in> set out. chain_line m l" if m: "m \<in> set (table_chain_names wrap_name t)" "m \<notin> set (it_remove_chains t)"
    and pl: "plain_name m" and ex: "exact_lines CHR '':'' ('':'' @ m) m ls" for m
  proof -
    have st: "py_strip ('':'' @ m) = '':'' @ m" using pl by (intro strip_id) (auto simp: plain_name_def py_space_def)
    from m have "'':'' @ m \<in> set (map ((@) '':'') (table_chain_names wrap_name t))" by auto
    from merge_chains_chosen [OF c this] obtain l where l: "l \<in> set ours_c"
      "chosen (?old @ ?new) ('':'' @ m) (('':'' @ m) @ '' - [0:0]'') l" unfolding st by blast
    have "chain_line m l"
      using chosen_line [OF l(2) exact [OF ex]] default_chain_line [OF pl] by simp
    with weed_keeps_chain [OF w, of l m] l(1) all m out show ?thesis by auto
  qed
  have rule: "\<exists>l \<in> set out. rule_line (py_strip (rule_text q)) l"
    if q: "q \<in> set (it_rules t)" "\<not> removal_text (py_strip (rule_text q)) (it_remove_rules t)"
    and ex: "exact_lines CHR ''['' (py_strip (rule_text q)) (py_strip (rule_text q)) ls" for q
  proof -
    let ?s = "py_strip (rule_text q)"
    from merge_rules_chosen [OF r q(1)] obtain l where l: "l \<in> set (ours @ low)"
      "chosen (?old @ new1) ?s (''[0:0] '' @ ?s) l" by blast
    have "set (?old @ new1) \<subseteq> set ?old \<union> set ?new" using sub by auto
    from chosen_line [OF l(2) exact [OF ex this] default_rule_line] have "rule_line ?s l" .
    with weed_keeps_rule [OF w, of l ?s] l(1) all q out show ?thesis by auto
  qed
  show ?thesis using chain rule unfolding exact_lines_def Let_def by blast
qed

text \<open>
  C29: of the merged lines no two are the same chain or the same rule (whatever their counters), and
  none is a chain of the list of removals.
\<close>

theorem merge_clean:
  assumes "modify_rules wrap_name ls t name = Inr (out, t')" and "ls \<noteq> []"
  shows "distinct (names CHR '':'' out) \<and> distinct (names CHR ''['' out) \<and>
    (\<forall>n \<in> set (it_remove_chains t). \<forall>l \<in> set out. \<not> chain_line n l) \<and> it_remove_chains t' = []"
proof -
  from modify_rules_parts [OF assms] obtain all kept w where
    w: "weed_lines (rev all) \<lparr>seen_chains = [], seen_rules = [], rm_chains = it_remove_chains t,
         rm_rules = it_remove_rules t\<rparr> = Inr (kept, w)"
    and out: "out = rev kept"
    and t': "t' = t\<lparr>it_remove_chains := [], it_remove_rules := flush_from 0 (rm_rules w)\<rparr>" by metis
  have "names c (rev kept) = rev (names c kept)" for c by (simp add: names_def rev_map rev_filter)
  with weed_distinct [OF w] weed_fresh_chain [OF w] out t' show ?thesis by auto
qed


section \<open>The order of the rules\<close>

lemma strip_sublist: "sublist (py_strip s) s"
proof -
  have "sublist (dropWhile py_space t) t" for t by (simp add: suffix_dropWhile suffix_imp_sublist)
  then have "sublist (rev (dropWhile py_space (rev t))) t" for t by (metis rev_rev_ident sublist_rev)
  with \<open>\<And>t. sublist (dropWhile py_space t) t\<close> show ?thesis
    unfolding py_strip_def by (meson sublist_order.order.trans)
qed

lemma split_at_text_eq: "split_at_text sep s = Some (a, b) \<Longrightarrow> s = a @ sep @ b"
  by (induction s arbitrary: a b) (auto split: if_splits simp: prefix_def)

lemma rule_line_contains: "rule_line n l \<Longrightarrow> contains n l"
proof -
  assume l: "rule_line n l"
  with line_kinds [of l "CHR ''[''" "CHR '':''"] obtain a b where "split_at_text ''] '' l = Some (a, b)" and n: "n = py_strip b"
    by (auto simp: line_is_def strip_packets_bytes_def split: option.splits)
  from split_at_text_eq [OF this(1)] have "suffix b l" by (simp add: suffix_def)
  with strip_sublist [of b] show ?thesis unfolding contains_iff n
    by (meson suffix_imp_sublist sublist_order.order.trans)
qed

lemma merge_rules_new:
  "merge_rules old new rs = (ours, low, new', n) \<Longrightarrow>
     set new' \<subseteq> set new \<and> (\<forall>r \<in> set rs. \<forall>k \<in> set new'. \<not> contains (py_strip (rule_text r)) (py_strip k))"
proof (induction rs arbitrary: new ours low new' n)
  case (Cons x xs)
  let ?s = "py_strip (rule_text x)"
  obtain found dup new1 where m: "match_line old new ?s = (found, dup, new1)" by (cases "match_line old new ?s")
  obtain ours1 low1 new2 n1 where r: "merge_rules old new1 xs = (ours1, low1, new2, n1)" by (cases "merge_rules old new1 xs") auto
  from Cons.prems m r have "new' = new2" by (auto simp: Let_def split: if_splits)
  moreover have "set new1 \<subseteq> set new \<and> (\<forall>k \<in> set new1. \<not> contains ?s (py_strip k))"
    using m by (auto simp: match_line_def Let_def split: if_splits)
  ultimately show ?case using Cons.IH [OF r] by auto
qed simp

lemma merge_rules_last:
  assumes "merge_rules old new (rs @ [r]) = (ours, low, new', n)" "\<not> ir_top r"
  shows "\<exists>low0 l. low = low0 @ [l] \<and> chosen (old @ new) (py_strip (rule_text r)) (''[0:0] '' @ py_strip (rule_text r)) l"
  using assms
proof (induction rs arbitrary: new ours low new' n)
  case Nil
  let ?s = "py_strip (rule_text r)"
  obtain found dup new1 where m: "match_line old new ?s = (found, dup, new1)" by (cases "match_line old new ?s")
  with Nil have "low = [case found of None \<Rightarrow> ''[0:0] '' @ ?s | Some l \<Rightarrow> l]" by (auto simp: Let_def split: option.splits)
  with match_chosen [OF m] show ?case by blast
next
  case (Cons x xs)
  let ?s = "py_strip (rule_text x)"
  obtain found dup new1 where m: "match_line old new ?s = (found, dup, new1)" by (cases "match_line old new ?s")
  obtain ours1 low1 new2 n1 where r: "merge_rules old new1 (xs @ [r]) = (ours1, low1, new2, n1)"
    by (cases "merge_rules old new1 (xs @ [r])") auto
  from Cons.IH [OF r Cons.prems(2)] obtain low0 l where l: "low1 = low0 @ [l]"
    "chosen (old @ new1) (py_strip (rule_text r)) (''[0:0] '' @ py_strip (rule_text r)) l" by blast
  from Cons.prems(1) m r l(1) have "\<exists>low0'. low = low0' @ [l]" by (auto simp: Let_def split: if_splits)
  moreover have "set (old @ new1) \<subseteq> set (old @ new)" using match_line_new [OF m] by auto
  ultimately show ?case using chosen_mono [OF l(2)] by blast
qed

lemma insert_at_split:
  "\<exists>p s. insert_at n ys (xs @ x # zs) = p @ x # s \<and> set xs \<subseteq> set p \<and> set s \<subseteq> set zs \<union> set ys"
proof (cases "n \<le> length xs")
  case True
  then have "insert_at n ys (xs @ x # zs) = (take n xs @ ys @ drop n xs) @ x # zs" by (simp add: insert_at_def)
  moreover have "set xs \<subseteq> set (take n xs @ ys @ drop n xs)"
    using append_take_drop_id [of n xs] set_append [of "take n xs" "drop n xs"] by auto
  ultimately show ?thesis by blast
next
  case False
  then obtain m where m: "n - length xs = Suc m" by (metis diff_is_0_eq not0_implies_Suc)
  with False have "insert_at n ys (xs @ x # zs) = xs @ x # (take m zs @ ys @ drop m zs)" by (simp add: insert_at_def)
  moreover have "set (take m zs @ ys @ drop m zs) \<subseteq> set zs \<union> set ys" using set_take_subset set_drop_subset by fastforce
  ultimately show ?thesis by blast
qed

lemma weed_lines_append:
  "weed_lines (xs @ ys) w = Inr (kept, w') \<Longrightarrow>
     \<exists>k1 w1 k2. weed_lines xs w = Inr (k1, w1) \<and> weed_lines ys w1 = Inr (k2, w') \<and> kept = k1 @ k2"
proof (induction xs arbitrary: w kept)
  case (Cons x xs)
  from Cons.prems obtain keep w1 kept1 where x: "weed_line x w = Inr (keep, w1)" "weed_lines (xs @ ys) w1 = Inr (kept1, w')"
    "kept = (if keep then x # kept1 else kept1)" by (auto simp: op_simps)
  with Cons.IH [OF x(2)] show ?case by (auto simp: op_simps)
qed simp

lemma weed_seen_rules:
  assumes "weed_lines ls w = Inr (kept, w')"
  shows "set (rm_rules w') \<subseteq> set (rm_rules w) \<and>
    (n \<in> set (seen_rules w') \<longrightarrow> n \<in> set (seen_rules w) \<or> (\<exists>l \<in> set ls. rule_line n l))"
  using assms
proof (induction ls arbitrary: w kept)
  case (Cons x xs)
  from Cons.prems obtain keep w1 kept1 where x: "weed_line x w = Inr (keep, w1)"
    and xs: "weed_lines xs w1 = Inr (kept1, w')" by (rule weed_consE)
  from x show ?case
  proof (cases rule: weed_cases)
    case (chain m)
    with weed_chain(5,6) [OF x chain] Cons.IH [OF xs] show ?thesis by auto
  next
    case (rule m)
    with weed_rule(2,3) [OF x rule] Cons.IH [OF xs] show ?thesis by auto
  next
    case other
    with weed_other(2) [OF x other] Cons.IH [OF xs] show ?thesis by auto
  qed
qed simp

lemma weed_subset: "weed_lines ls w = Inr (kept, w') \<Longrightarrow> set kept \<subseteq> set ls"
proof -
  assume "weed_lines ls w = Inr (kept, w')"
  from weed_subseq [OF this] show ?thesis by (induction rule: list_emb.induct) auto
qed

text \<open>
  The last rule in memory comes after all the others in the merged lines: of equal rules the last one
  counts.
\<close>

lemma merge_last:
  assumes "modify_rules wrap_name ls t name = Inr (out, t')" and "ls \<noteq> []"
    and "it_rules t = rs @ [r]" "\<not> ir_top r" "it_remove_rules t = []"
    and "\<forall>n \<in> set (table_chain_names wrap_name t). plain_name n \<and> exact_lines CHR '':'' ('':'' @ n) n ls"
    and "\<forall>r \<in> set (it_rules t). exact_lines CHR ''['' (py_strip (rule_text r)) (py_strip (rule_text r)) ls"
  shows "\<exists>xs l ys. out = xs @ l # ys \<and> rule_line (py_strip (rule_text r)) l \<and>
    (\<forall>q \<in> set rs. py_strip (rule_text q) \<noteq> py_strip (rule_text r) \<longrightarrow> (\<exists>k \<in> set xs. rule_line (py_strip (rule_text q)) k)) \<and>
    (\<forall>q \<in> set (it_rules t). \<forall>k \<in> set ys. \<not> rule_line (py_strip (rule_text q)) k)"
proof -
  let ?old = "map py_strip (filter (contains wrap_name) ls)"
  let ?new = "map py_strip (filter (\<lambda>l. \<not> contains wrap_name l) ls)"
  let ?s = "\<lambda>q. py_strip (rule_text q)"
  from modify_rules_parts [OF assms(1,2)] obtain ours_c new1 ours low new2 n all kept w where
    c: "merge_chains ?old ?new (map ((@) '':'') (table_chain_names wrap_name t)) = (ours_c, new1)"
    and r: "merge_rules ?old new1 (it_rules t) = (ours, low, new2, n)"
    and all: "\<exists>a b. all = insert_at b ours_c (insert_at a (ours @ low) new2)"
    and w: "weed_lines (rev all) \<lparr>seen_chains = [], seen_rules = [], rm_chains = it_remove_chains t,
         rm_rules = it_remove_rules t\<rparr> = Inr (kept, w)"
    and out: "out = rev kept" by metis
  have exact: "exact_lines ch str m ls \<Longrightarrow> set ks \<subseteq> set ?old \<union> set ?new \<Longrightarrow> exact_lines ch str m ks" for ch str m ks
    by (fastforce simp: exact_lines_def strip_no_space_ends)
  have sub: "set new1 \<subseteq> set ?new" by (rule merge_chains_new [OF c])
  have named: "rule_line (?s q) l" if "q \<in> set (it_rules t)" "chosen (?old @ new1) (?s q) (''[0:0] '' @ ?s q) l" for q l
  proof -
    have "set (?old @ new1) \<subseteq> set ?old \<union> set ?new" using sub by auto
    from chosen_line [OF that(2) exact [OF assms(7) [rule_format, OF that(1)] this] default_rule_line] show ?thesis .
  qed
  from merge_rules_last [OF r [unfolded assms(3)] assms(4)] obtain low0 l where
    low: "low = low0 @ [l]" and "chosen (?old @ new1) (?s r) (''[0:0] '' @ ?s r) l" by blast
  with named assms(3) have l: "rule_line (?s r) l" by simp
  from all low obtain a b where "all = insert_at b ours_c ((take a new2 @ ours @ low0) @ l # drop a new2)"
    by (auto simp: insert_at_def)
  with insert_at_split [of b ours_c "take a new2 @ ours @ low0" l "drop a new2"] obtain p s where
    ps: "all = p @ l # s" "set (ours @ low0) \<subseteq> set p" "set s \<subseteq> set new2 \<union> set ours_c"
    using set_drop_subset [of a new2] by fastforce
  have no_own: "\<not> rule_line (?s q) k" if "q \<in> set (it_rules t)" "k \<in> set s" for q k
  proof
    assume k: "rule_line (?s q) k"
    show False
    proof (cases "k \<in> set new2")
      case True
      with merge_rules_new [OF r] sub have "k \<in> set ?new" by blast
      then have "py_strip k = k" using strip_no_space_ends by auto
      moreover from merge_rules_new [OF r] that(1) True have "\<not> contains (?s q) (py_strip k)" by blast
      ultimately show False using rule_line_contains [OF k] by simp
    next
      case False
      with ps(3) that(2) have "k \<in> set ours_c" by auto
      with merge_chains_all_chosen [OF c] obtain m where
        m: "m \<in> set (table_chain_names wrap_name t)" "chosen (?old @ ?new) (py_strip ('':'' @ m)) (py_strip ('':'' @ m) @ '' - [0:0]'') k"
        by auto
      with assms(6) have pl: "plain_name m" and ex: "exact_lines CHR '':'' ('':'' @ m) m ls" by auto
      have st: "py_strip ('':'' @ m) = '':'' @ m" using pl by (intro strip_id) (auto simp: plain_name_def py_space_def)
      have "chain_line m k" using chosen_line [OF m(2) [unfolded st] exact [OF ex]] default_chain_line [OF pl] by simp
      with k not_both show False by blast
    qed
  qed
  from w ps(1) have "weed_lines (rev s @ l # rev p) \<lparr>seen_chains = [], seen_rules = [],
      rm_chains = it_remove_chains t, rm_rules = []\<rparr> = Inr (kept, w)" (is "weed_lines _ ?w0 = _") using assms(5) by simp
  from weed_lines_append [OF this] obtain k1 w1 k2 where
    k1: "weed_lines (rev s) ?w0 = Inr (k1, w1)" "weed_lines (l # rev p) w1 = Inr (k2, w)" "kept = k1 @ k2" by blast
  have w1: "rm_rules w1 = []" "?s q \<notin> set (seen_rules w1)" if "q \<in> set (it_rules t)" for q
    using weed_seen_rules [OF k1(1), of "?s q"] no_own [OF that] by auto
  from k1(2) obtain keep w2 k3 where x: "weed_line l w1 = Inr (keep, w2)" "weed_lines (rev p) w2 = Inr (k3, w)"
    "k2 = (if keep then l # k3 else k3)" by (rule weed_consE)
  have rt: "r \<in> set (it_rules t)" using assms(3) by simp
  have keep using weed_rule(1) [OF x(1) l] w1 [OF rt] by (simp add: removal_text_def)
  with x(3) k1(3) out have "out = rev k3 @ l # rev k1" by simp
  moreover have "\<exists>k \<in> set (rev k3). rule_line (?s q) k" if q: "q \<in> set rs" "?s q \<noteq> ?s r" for q
  proof -
    have qt: "q \<in> set (it_rules t)" using assms(3) q by simp
    from merge_rules_chosen [OF r qt] named [OF qt] obtain k where k: "k \<in> set (ours @ low)" "rule_line (?s q) k" by blast
    have "k \<noteq> l" using line_is_unique [OF k(2)] l q(2) by blast
    with k(1) low ps(2) have "k \<in> set (rev p)" by auto
    moreover have "?s q \<notin> set (seen_rules w2)" "rm_rules w2 = []"
      using weed_rule(2,3) [OF x(1) l] w1 [OF qt] q(2) by auto
    moreover from this(2) have "\<not> removal_text (?s q) (rm_rules w2)" by (simp add: removal_text_def)
    ultimately have "\<exists>k \<in> set k3. rule_line (?s q) k" using weed_keeps_rule [OF x(2) _ k(2)] by blast
    then show ?thesis by simp
  qed
  moreover have "\<forall>q \<in> set (it_rules t). \<forall>k \<in> set (rev k1). \<not> rule_line (?s q) k"
  proof -
    have "set k1 \<subseteq> set s" using weed_subset [OF k1(1)] by simp
    with no_own show ?thesis by (metis set_rev subsetD)
  qed
  ultimately have "out = rev k3 @ l # rev k1 \<and> rule_line (?s r) l \<and>
      (\<forall>q \<in> set rs. ?s q \<noteq> ?s r \<longrightarrow> (\<exists>k \<in> set (rev k3). rule_line (?s q) k)) \<and>
      (\<forall>q \<in> set (it_rules t). \<forall>k \<in> set (rev k1). \<not> rule_line (?s q) k)" using l by blast
  then show ?thesis by (iprover intro: exI)
qed

section \<open>The other tables\<close>

lemma index_of_append: "x \<notin> set xs \<Longrightarrow> index_of x (xs @ x # ys) = Some (length xs)"
  by (induction xs) auto

lemma find_block:
  assumes "''*'' @ name \<notin> set (pre @ [c])" and "''COMMIT'' \<notin> set (c # body)"
  shows "find_table (pre @ (c # (''*'' @ name) # body @ [''COMMIT'', e]) @ post) name =
    Inr (int (length pre), int (length (pre @ c # (''*'' @ name) # body @ [''COMMIT'', e])))"
proof -
  let ?ls = "pre @ (c # (''*'' @ name) # body @ [''COMMIT'', e]) @ post"
  have start: "index_of (''*'' @ name) ?ls = Some (Suc (length pre))"
    using index_of_append [OF assms(1), of "body @ [''COMMIT'', e] @ post"] by simp
  have len: "\<not> length ?ls < 3" by simp
  have sl: "drop (slice_index ?ls (int (Suc (length pre)) - 1)) ?ls = (c # (''*'' @ name) # body) @ ''COMMIT'' # e # post"
    by (simp add: slice_index_def)
  have com: "index_of ''COMMIT'' ((c # (''*'' @ name) # body) @ ''COMMIT'' # e # post) = Some (Suc (Suc (length body)))"
    using assms(2) index_of_append [of "''COMMIT''" "c # (''*'' @ name) # body" "e # post"] by simp
  show ?thesis unfolding find_table_def Let_def if_not_P [OF len] start option.case sl com by simp
qed

text \<open>
  C30: applying one table replaces the lines from the one before its head to the one after its
  \<open>COMMIT\<close> by the merged lines; the lines before and after, those of the other tables, stay as they are.
\<close>

theorem apply_other_tables:
  assumes "''*'' @ name \<notin> set (pre @ [c])" and "''COMMIT'' \<notin> set (c # body)"
    and "block = c # (''*'' @ name) # body @ [''COMMIT'', e]"
  shows "apply_tables wrap_name (pre @ block @ post) [(name, t)] =
    bindR (modify_rules wrap_name block t name) (\<lambda>(new_lines, t'). Inr (pre @ new_lines @ post, [(name, t')]))"
proof -
  from find_block [OF assms(1,2), of e post] have f: "find_table (pre @ block @ post) name =
      Inr (int (length pre), int (length (pre @ block)))" by (simp add: assms(3))
  have s: "slice (pre @ block @ post) (int (length pre)) (int (length (pre @ block))) = block"
    by (simp add: slice_def slice_index_def)
  have "set_slice (pre @ block @ post) (int (length pre)) (int (length (pre @ block))) ns = pre @ ns @ post" for ns
    by (simp add: set_slice_def slice_index_def max_def Let_def)
  then show ?thesis unfolding apply_tables.simps f bindR_simps prod.case s
    by (cases "modify_rules wrap_name block t name") auto
qed

section \<open>The list of removals after the merge\<close>

text \<open>
  C31: the loop meant to empty the list of removals ends after every second rule, so half of the rules
  that were not found (rounded down) stay in the list; all of them go only when there is at most one.
\<close>

theorem flush_leaves_half:
  "length (flush_from 0 rs) = length rs div 2 \<and> (flush_from 0 rs = [] \<longleftrightarrow> length rs \<le> 1)"
proof -
  from flush_length [of 0 rs] have "length (flush_from 0 rs) = length rs div 2" by simp
  moreover from this have "flush_from 0 rs = [] \<longleftrightarrow> length rs div 2 = 0" by (metis length_0_conv)
  moreover have "length rs div 2 = 0 \<longleftrightarrow> length rs \<le> 1" by (auto simp: div_eq_0_iff)
  ultimately show ?thesis by simp
qed

section \<open>Examples\<close>

definition demo_lines :: "string list" where
  "demo_lines = [''# Generated by iptables-save'', ''*filter'', '':INPUT ACCEPT [0:0]'', '':agent-i1 - [7:9]'',
     ''[3:4] -A agent-i1 -j DROP'', ''[5:6] -A INPUT -j agent-i1'', ''COMMIT'', ''# Completed'']"

definition demo_table :: ip_table where
  "demo_table =
     (case add_rule ''i1'' ''-j DROP'' True False None (add_chain ''i1'' True (new_table ''agent'')) of
        Inr t \<Rightarrow> (case add_rule ''i1'' ''-j RETURN'' True True None t of Inr t' \<Rightarrow> t' | Inl _ \<Rightarrow> t)
      | Inl _ \<Rightarrow> new_table ''agent'')"

lemma demo_merge:
  "modify_rules ''agent'' demo_lines demo_table ''filter'' =
     Inr ([''# Generated by iptables-save'', ''*filter'', '':INPUT ACCEPT [0:0]'', '':agent-i1 - [7:9]'',
       ''[0:0] -A agent-i1 -j RETURN'', ''[3:4] -A agent-i1 -j DROP'', ''COMMIT'', ''# Completed''], demo_table)"
  by code_simp

text \<open>
  A chain whose name is the beginning of the name of a saved one is taken for it and gets lost: the table
  has the chain \<open>i1\<close>, the merged lines do not.
\<close>

lemma prefix_chain_lost:
  "case modify_rules ''agent'' [''# Generated'', ''*filter'', '':agent-i12 - [7:9]'', ''COMMIT'', ''# Completed'']
      (add_chain ''i12'' True (add_chain ''i1'' True (new_table ''agent''))) ''filter'' of
     Inr (out, _) \<Rightarrow> names CHR '':'' out = [''agent-i12''] | Inl _ \<Rightarrow> False"
  by code_simp


section \<open>Witnesses\<close>

lemma demo_table_chains: "table_chain_names ''agent'' demo_table = [''agent-i1'']"
  by code_simp

lemma demo_table_rules:
  "it_rules demo_table = [new_rule ''i1'' ''-j DROP'' True False ''agent'' None, new_rule ''i1'' ''-j RETURN'' True True ''agent'' None]"
  by code_simp

theorem merge_complete_witness:
  "\<exists>out t'. modify_rules ''agent'' demo_lines demo_table ''filter'' = Inr (out, t') \<and> (\<exists>l \<in> set out. chain_line ''agent-i1'' l)"
proof -
  have ne: "demo_lines \<noteq> []" by code_simp
  have "plain_name ''agent-i1'' \<and> exact_lines CHR '':'' ('':'' @ ''agent-i1'') ''agent-i1'' demo_lines" by code_simp
  then have "\<not> (\<not> plain_name ''agent-i1'' \<or> (\<exists>k \<in> set demo_lines. contains ('':'' @ ''agent-i1'') (py_strip k) \<and>
      \<not> chain_line ''agent-i1'' (py_strip k)))" unfolding exact_lines_def by blast
  moreover have "it_remove_chains demo_table = []" by code_simp
  then have "''agent-i1'' \<notin> set (it_remove_chains demo_table)" by simp
  moreover have "''agent-i1'' \<in> set (table_chain_names ''agent'' demo_table)" unfolding demo_table_chains by simp
  note merge_complete [OF demo_merge ne, THEN conjunct1, THEN bspec, OF this]
  ultimately show ?thesis using demo_merge by blast
qed

theorem merge_clean_witness:
  "\<exists>out t'. modify_rules ''agent'' demo_lines demo_table ''filter'' = Inr (out, t') \<and> distinct (names CHR '':'' out)"
proof -
  have ne: "demo_lines \<noteq> []" by code_simp
  from merge_clean [OF demo_merge ne] demo_merge show ?thesis by blast
qed

theorem apply_other_tables_witness:
  "apply_tables ''agent'' ([''# other''] @ [''# c'', ''*filter'', '':INPUT ACCEPT [0:0]'', ''COMMIT'', ''# e''] @ [''*nat'']) [(''filter'', demo_table)] =
    bindR (modify_rules ''agent'' [''# c'', ''*filter'', '':INPUT ACCEPT [0:0]'', ''COMMIT'', ''# e''] demo_table ''filter'')
      (\<lambda>(new_lines, t'). Inr ([''# other''] @ new_lines @ [''*nat''], [(''filter'', t')]))"
  by (rule apply_other_tables [where body = "['':INPUT ACCEPT [0:0]'']" and e = "''# e''" and c = "''# c''"]) simp_all

end
