(* ===== verification/FirewallInv.thy ===== *)
theory FirewallInv
  imports Firewall IptablesProps
begin

text \<open>
  The filter tables as a base (the chains and rules of a new driver) with a layer on top: the chains and
  rules of the ports.  Every rule of the layer is in one of its chains or jumps to one, so removing the
  chains of the layer gives the base again.
\<close>

definition jump_to :: "string \<Rightarrow> string \<Rightarrow> string" where
  "jump_to wrap_name n = ''-j '' @ wrap_name @ ''-'' @ n"

definition covered :: "string \<Rightarrow> string list \<Rightarrow> ip_rule \<Rightarrow> bool" where
  "covered wrap_name cs r \<longleftrightarrow> ir_chain r \<in> set cs \<or> (\<exists>n \<in> set cs. contains (jump_to wrap_name n) (ir_rule r))"

text \<open>A name that can be used for a chain on top of a base: removing this chain leaves the base alone.\<close>

definition harmless :: "ip_table \<Rightarrow> string \<Rightarrow> bool" where
  "harmless base n \<longleftrightarrow>
     n \<notin> set (it_chains base) \<and> CHR '' '' \<notin> set n \<and> get_chain_name n True = n \<and>
     (\<forall>r \<in> set (it_rules base). ir_chain r \<noteq> n \<and> \<not> contains (jump_to (it_wrap_name base) n) (ir_rule r))"

definition layer :: "ip_table \<Rightarrow> string list \<Rightarrow> ip_rule list \<Rightarrow> ip_table" where
  "layer base cs rs = base\<lparr>it_chains := it_chains base @ cs, it_rules := it_rules base @ rs\<rparr>"

definition over :: "ip_table \<Rightarrow> string set \<Rightarrow> ip_table \<Rightarrow> bool" where
  "over base N t \<longleftrightarrow>
     (\<exists>cs rs. t = layer base cs rs \<and> set cs \<subseteq> N \<and> set cs \<inter> set (it_chains base) = {} \<and>
        (\<forall>r \<in> set rs. covered (it_wrap_name base) cs r))"

lemma layer_simps [simp]:
  "it_chains (layer base cs rs) = it_chains base @ cs"
  "it_rules (layer base cs rs) = it_rules base @ rs"
  "it_wrap_name (layer base cs rs) = it_wrap_name base"
  "it_remove_chains (layer base cs rs) = it_remove_chains base"
  "it_remove_rules (layer base cs rs) = it_remove_rules base"
  "it_unwrapped (layer base cs rs) = it_unwrapped base"
  by (simp_all add: layer_def)

lemma over_refl: "over base N base"
  unfolding over_def by (rule exI [of _ "[]"], rule exI [of _ "[]"]) (simp add: layer_def)

lemma over_empty: "over base {} t \<Longrightarrow> t = base"
  by (auto simp: over_def covered_def layer_def)

lemma over_wrap_name: "over base N t \<Longrightarrow> it_wrap_name t = it_wrap_name base"
  by (auto simp: over_def)

lemma over_removals: "over base N t \<Longrightarrow> it_remove_chains t = it_remove_chains base \<and> it_remove_rules t = it_remove_rules base"
  by (auto simp: over_def)

lemma covered_mono: "covered w cs r \<Longrightarrow> set cs \<subseteq> set cs' \<Longrightarrow> covered w cs' r"
  by (auto simp: covered_def)

section \<open>Building the layer\<close>

lemma over_add_chain:
  assumes "over base N t" "n \<in> N" "harmless base n"
  shows "over base N (add_chain n True t)"
proof -
  from assms obtain cs rs where t: "t = layer base cs rs" "set cs \<subseteq> N" "set cs \<inter> set (it_chains base) = {}"
    "\<forall>r \<in> set rs. covered (it_wrap_name base) cs r" by (auto simp: over_def)
  have n: "get_chain_name n True = n" "n \<notin> set (it_chains base)" using assms(3) by (auto simp: harmless_def)
  show ?thesis
  proof (cases "n \<in> set cs")
    case True
    with t n have "add_chain n True t = t" by (simp add: add_chain_def set_add_def Let_def layer_def)
    with assms(1) show ?thesis by simp
  next
    case False
    with t n have "add_chain n True t = layer base (cs @ [n]) rs"
      by (simp add: add_chain_def set_add_def Let_def layer_def)
    moreover have "\<forall>r \<in> set rs. covered (it_wrap_name base) (cs @ [n]) r" using t(4) by (auto intro: covered_mono)
    ultimately show ?thesis unfolding over_def using t assms(2) n
      by (intro exI [of _ "cs @ [n]"] exI [of _ rs]) auto
  qed
qed

lemma add_chain_mem: "it_chains (add_chain n True t) = set_add (get_chain_name n True) (it_chains t)"
  by (simp add: add_chain_def Let_def)

lemma add_rule_Inr:
  "add_rule c s True False None t = Inr t' \<longleftrightarrow>
     get_chain_name c True \<in> set (it_chains t) \<and>
     t' = t\<lparr>it_rules := it_rules t @ [new_rule (get_chain_name c True) (wrap_targets (it_wrap_name t) s) True False (it_wrap_name t) None]\<rparr>"
  by (auto simp: add_rule_def Let_def)

lemma get_chain_name_twice [simp]: "get_chain_name (get_chain_name n w) w = get_chain_name n w"
  by (simp add: get_chain_name_def)

lemma new_rule_simps [simp]:
  "ir_chain (new_rule (get_chain_name c w) s w tp b tag) = get_chain_name c w"
  "ir_rule (new_rule c s w tp b tag) = s"
  "ir_top (new_rule c s w tp b tag) = tp"
  "ir_wrap (new_rule c s w tp b tag) = w"
  by (simp_all add: new_rule_def)

lemma over_add_covered:
  assumes "over base N t" "add_rule c s True False None t = Inr t'"
    and "\<And>cs. set cs \<inter> set (it_chains base) = {} \<Longrightarrow> set (it_chains t) = set (it_chains base) \<union> set cs \<Longrightarrow>
      covered (it_wrap_name base) cs (new_rule (get_chain_name c True) (wrap_targets (it_wrap_name base) s) True False (it_wrap_name base) None)"
  shows "over base N t' \<and> it_chains t' = it_chains t"
proof -
  from assms(1) obtain cs rs where t: "t = layer base cs rs" "set cs \<subseteq> N" "set cs \<inter> set (it_chains base) = {}"
    "\<forall>r \<in> set rs. covered (it_wrap_name base) cs r" by (auto simp: over_def)
  let ?r = "new_rule (get_chain_name c True) (wrap_targets (it_wrap_name base) s) True False (it_wrap_name base) None"
  from assms(2) t(1) have t': "t' = layer base cs (rs @ [?r])" by (auto simp: add_rule_Inr layer_def)
  have "covered (it_wrap_name base) cs ?r" by (rule assms(3)) (use t in auto)
  then have "\<forall>r \<in> set (rs @ [?r]). covered (it_wrap_name base) cs r" using t(4) by auto
  with t t' show ?thesis unfolding over_def by (intro conjI exI [of _ cs] exI [of _ "rs @ [?r]"]) simp_all
qed

lemma over_add_rule:
  assumes "over base N t" "add_rule n s True False None t = Inr t'" "harmless base n"
  shows "over base N t' \<and> it_chains t' = it_chains t"
proof (rule over_add_covered [OF assms(1,2)])
  fix cs :: "string list" assume cs: "set (it_chains t) = set (it_chains base) \<union> set cs"
  from assms(3) have n: "get_chain_name n True = n" "n \<notin> set (it_chains base)" by (auto simp: harmless_def)
  with assms(2) cs have "n \<in> set cs" by (auto simp: add_rule_Inr)
  with n show "covered (it_wrap_name base) cs (new_rule (get_chain_name n True)
      (wrap_targets (it_wrap_name base) s) True False (it_wrap_name base) None)"
    by (simp add: covered_def new_rule_def)
qed

lemma over_add_rules:
  assumes "add_rules n ss t = Inr t'" "over base N t" "harmless base n"
  shows "over base N t' \<and> it_chains t' = it_chains t"
  using assms
proof (induction ss arbitrary: t)
  case (Cons s ss)
  then obtain t1 where "add_rule n s True False None t = Inr t1" "add_rules n ss t1 = Inr t'" by (auto simp: op_simps)
  with over_add_rule [OF Cons.prems(2) this(1) Cons.prems(3)] Cons.IH [of t1] Cons.prems(3) show ?case by auto
qed simp

text \<open>The target of a jump is wrapped.\<close>

lemma py_split_append: "py_split c (xs @ c # ys) = py_split c xs @ py_split c ys"
proof (induction xs)
  case (Cons x xs)
  then show ?case by (cases "py_split c xs") auto
qed simp

lemma py_join_snoc: "ws \<noteq> [] \<Longrightarrow> py_join sep (ws @ [w]) = py_join sep ws @ sep @ w"
  by (induction sep ws rule: py_join.induct) auto

lemma wrap_targets_jump:
  assumes "CHR '' '' \<notin> set n"
  shows "contains (jump_to w n) (wrap_targets w (s @ '' -j $'' @ n))"
proof -
  let ?f = "wrap_target_chain w"
  have sp: "py_split CHR '' '' (s @ '' -j $'' @ n) = py_split CHR '' '' s @ [''-j'', CHR ''$'' # n]"
  proof -
    have "CHR '' '' \<notin> set (CHR ''$'' # n)" using assms by auto
    from split_word [OF this] have "py_split CHR '' '' (CHR ''$'' # n) = [CHR ''$'' # n]" .
    moreover have "py_split CHR '' '' (''-j'' @ CHR '' '' # CHR ''$'' # n) = ''-j'' # py_split CHR '' '' (CHR ''$'' # n)"
      by (rule split_word_sep) auto
    ultimately show ?thesis using py_split_append [of "CHR '' ''" s "''-j'' @ CHR '' '' # CHR ''$'' # n"] by simp
  qed
  have j: "?f ''-j'' = ''-j''" "?f (CHR ''$'' # n) = w @ ''-'' @ n"
    by (simp_all add: wrap_target_chain_def py_startswith_def)
  have ne: "map ?f (py_split CHR '' '' s) \<noteq> []" by simp
  have "py_join '' '' (map ?f (py_split CHR '' '' (s @ '' -j $'' @ n))) =
      py_join '' '' ((map ?f (py_split CHR '' '' s) @ [''-j'']) @ [w @ ''-'' @ n])"
    unfolding sp by (simp only: map_append list.map j append_assoc append.simps)
  also have "\<dots> = py_join '' '' (map ?f (py_split CHR '' '' s)) @ '' '' @ jump_to w n"
    using py_join_snoc [of "map ?f (py_split CHR '' '' s) @ [''-j'']" "'' ''" "w @ ''-'' @ n"]
      py_join_snoc [OF ne, of "'' ''" "''-j''"] by (simp add: jump_to_def)
  finally have "wrap_targets w (s @ '' -j $'' @ n) = (py_join '' '' (map ?f (py_split CHR '' '' s)) @ '' '') @ jump_to w n @ []"
    by (simp add: wrap_targets_def)
  then show ?thesis unfolding contains_iff sublist_def by blast
qed

lemma over_add_jump:
  assumes "over base N t" "add_rule c (s @ '' -j $'' @ n) True False None t = Inr t'"
    and "harmless base n" "n \<in> set (it_chains t)"
  shows "over base N t' \<and> it_chains t' = it_chains t"
proof (rule over_add_covered [OF assms(1,2)])
  fix cs :: "string list" assume "set (it_chains t) = set (it_chains base) \<union> set cs"
  with assms(3,4) have "n \<in> set cs" by (auto simp: harmless_def)
  moreover have "CHR '' '' \<notin> set n" using assms(3) by (simp add: harmless_def)
  ultimately show "covered (it_wrap_name base) cs (new_rule (get_chain_name c True)
      (wrap_targets (it_wrap_name base) (s @ '' -j $'' @ n)) True False (it_wrap_name base) None)"
    using wrap_targets_jump by (auto simp: covered_def)
qed

section \<open>Removing it\<close>

lemma over_remove_chain:
  assumes "over base N t" "harmless base n"
  shows "over base (N - {n}) (ensure_remove_chain n True t)"
proof -
  from assms obtain cs rs where t: "t = layer base cs rs" "set cs \<subseteq> N" "set cs \<inter> set (it_chains base) = {}"
    "\<forall>r \<in> set rs. covered (it_wrap_name base) cs r" by (auto simp: over_def)
  from assms(2) have n: "get_chain_name n True = n" "n \<notin> set (it_chains base)"
    and keep: "\<forall>r \<in> set (it_rules base). ir_chain r \<noteq> n \<and> \<not> contains (jump_to (it_wrap_name base) n) (ir_rule r)"
    by (auto simp: harmless_def)
  show ?thesis
  proof (cases "n \<in> set cs")
    case False
    with t n have "ensure_remove_chain n True t = t" by (simp add: ensure_remove_chain_def select_chain_set_def)
    with t False show ?thesis unfolding over_def by auto
  next
    case True
    let ?P = "\<lambda>r. ir_chain r \<noteq> n \<and> \<not> contains (jump_to (it_wrap_name base) n) (ir_rule r)"
    have b: "filter ?P (it_rules base) = it_rules base" using keep by (simp add: filter_id_conv)
    have c: "removeAll n (it_chains base) = it_chains base" using n by simp
    have "filter (\<lambda>r. \<not> contains (jump_to (it_wrap_name base) n) (ir_rule r)) (filter (\<lambda>r. ir_chain r \<noteq> n) (it_rules base @ rs))
        = it_rules base @ filter ?P rs" using b by (simp add: conj_commute)
    with True t n c have e: "ensure_remove_chain n True t = layer base (removeAll n cs) (filter ?P rs)"
      by (simp add: ensure_remove_chain_def remove_chain_def select_chain_set_def Let_def layer_def jump_to_def)
    have "\<forall>r \<in> set (filter ?P rs). covered (it_wrap_name base) (removeAll n cs) r"
      using t(4) by (auto simp: covered_def)
    with e t show ?thesis unfolding over_def
      by (intro exI [of _ "removeAll n cs"] exI [of _ "filter ?P rs"]) auto
  qed
qed


section \<open>Both tables\<close>

definition over2 :: "filters \<Rightarrow> string set \<Rightarrow> filters \<Rightarrow> bool" where
  "over2 bs N ts \<longleftrightarrow> over (fst bs) N (fst ts) \<and> over (snd bs) N (snd ts)"

definition harmless2 :: "filters \<Rightarrow> string \<Rightarrow> bool" where
  "harmless2 bs n \<longleftrightarrow> harmless (fst bs) n \<and> harmless (snd bs) n"

text \<open>A chain is in both tables, and both tables keep their chains.\<close>

definition has2 :: "string \<Rightarrow> filters \<Rightarrow> bool" where
  "has2 n ts \<longleftrightarrow> n \<in> set (it_chains (fst ts)) \<and> n \<in> set (it_chains (snd ts))"

definition grows :: "filters \<Rightarrow> filters \<Rightarrow> bool" where
  "grows ts ts' \<longleftrightarrow> set (it_chains (fst ts)) \<subseteq> set (it_chains (fst ts')) \<and> set (it_chains (snd ts)) \<subseteq> set (it_chains (snd ts'))"

lemma grows_refl [simp]: "grows ts ts"
  by (simp add: grows_def)

lemma grows_trans [trans]: "grows a b \<Longrightarrow> grows b c \<Longrightarrow> grows a c"
  by (auto simp: grows_def)

lemma has2_grows: "has2 n a \<Longrightarrow> grows a b \<Longrightarrow> has2 n b"
  by (auto simp: has2_def grows_def)

lemma over2_refl: "over2 bs N bs"
  by (simp add: over2_def over_refl)

lemma over2_add_chain:
  assumes "over2 bs N ts" "n \<in> N" "harmless2 bs n"
  shows "over2 bs N (add_chain_by_name_v4v6 n ts) \<and> has2 n (add_chain_by_name_v4v6 n ts) \<and> grows ts (add_chain_by_name_v4v6 n ts)"
  using assms over_add_chain [of _ N _ n]
  by (auto simp: over2_def harmless2_def add_chain_by_name_v4v6_def has2_def grows_def add_chain_mem set_add_def harmless_def)

lemma add_v4v6_Inr:
  "add_rule_to_chain_v4v6 c r4 r6 ts = Inr ts' \<longleftrightarrow> add_rules c r4 (fst ts) = Inr (fst ts') \<and> add_rules c r6 (snd ts) = Inr (snd ts')"
  by (cases ts') (auto simp: add_rule_to_chain_v4v6_def op_simps)

lemma over2_add_rules:
  assumes "over2 bs N ts" "add_rule_to_chain_v4v6 n r4 r6 ts = Inr ts'" "harmless2 bs n"
  shows "over2 bs N ts' \<and> grows ts ts'"
  using assms over_add_rules [of n r4 "fst ts" "fst ts'" "fst bs" N] over_add_rules [of n r6 "snd ts" "snd ts'" "snd bs" N]
  by (auto simp: over2_def harmless2_def add_v4v6_Inr grows_def)

lemma over2_add_jump:
  assumes "over2 bs N ts" "add_rule_to_chain_v4v6 c [s @ '' -j $'' @ n] [s @ '' -j $'' @ n] ts = Inr ts'"
    and "harmless2 bs n" "has2 n ts"
  shows "over2 bs N ts' \<and> grows ts ts'"
proof -
  from assms(2) have "add_rule c (s @ '' -j $'' @ n) True False None (fst ts) = Inr (fst ts')"
    "add_rule c (s @ '' -j $'' @ n) True False None (snd ts) = Inr (snd ts')"
    by (auto simp: add_v4v6_Inr bindR_Inr_iff)
  with assms(1,3,4) over_add_jump [of "fst bs" N "fst ts" c s n "fst ts'"] over_add_jump [of "snd bs" N "snd ts" c s n "snd ts'"]
  show ?thesis by (auto simp: over2_def harmless2_def has2_def grows_def)
qed

lemma over2_remove_chain:
  "over2 bs N ts \<Longrightarrow> harmless2 bs n \<Longrightarrow> over2 bs (N - {n}) (remove_chain_by_name_v4v6 n ts)"
  by (simp add: over2_def harmless2_def remove_chain_by_name_v4v6_def over_remove_chain)

section \<open>Ports\<close>

definition port_chains :: "bool \<Rightarrow> fw_port \<Rightarrow> string set" where
  "port_chains hybrid p = {port_chain_name hybrid p Ingress, port_chain_name hybrid p Egress, port_chain_name hybrid p Spoof}"

definition port_harmless :: "bool \<Rightarrow> filters \<Rightarrow> fw_port \<Rightarrow> bool" where
  "port_harmless hybrid bs p \<longleftrightarrow> (\<forall>n \<in> port_chains hybrid p. harmless2 bs n)"

lemma port_chains_mem [simp]: "port_chain_name hybrid p d \<in> port_chains hybrid p"
  by (cases d) (auto simp: port_chains_def)

lemma jump_rule_text: "jump_rule hybrid port d chain =
    (''-m physdev --'' @ IPTABLES_DIRECTION d @ '' '' @ get_device_name hybrid port @ '' --physdev-is-bridged'') @ '' -j $'' @ chain"
  by (simp add: jump_rule_def)

lemma over2_port_chain:
  assumes "over2 bs N ts" "add_port_chain hybrid p d ts = Inr ts'"
    and "port_harmless hybrid bs p" "harmless2 bs SG_CHAIN" "has2 SG_CHAIN ts" "port_chains hybrid p \<subseteq> N"
  shows "over2 bs N ts' \<and> grows ts ts'"
proof -
  let ?n = "port_chain_name hybrid p d"
  have n: "harmless2 bs ?n" "?n \<in> N" using assms(3,6) by (auto simp: port_harmless_def)
  let ?t0 = "add_chain_by_name_v4v6 ?n ts"
  note a0 = over2_add_chain [OF assms(1) n(2,1)]
  from assms(2) obtain t1 t2 where
    s1: "add_rule_to_chain_v4v6 ''FORWARD'' [jump_rule hybrid p d SG_CHAIN] [jump_rule hybrid p d SG_CHAIN] ?t0 = Inr t1" and
    s2: "add_rule_to_chain_v4v6 SG_CHAIN [jump_rule hybrid p d ?n] [jump_rule hybrid p d ?n] t1 = Inr t2" and
    s3: "(if d = Egress then add_rule_to_chain_v4v6 ''INPUT'' [jump_rule hybrid p d ?n] [jump_rule hybrid p d ?n] t2 else Inr t2) = Inr ts'"
    by (auto simp: add_port_chain_def Let_def bindR_Inr_iff)
  from a0 assms(5) have sg: "has2 SG_CHAIN ?t0" by (blast intro: has2_grows)
  from over2_add_jump [OF _ s1 [unfolded jump_rule_text] assms(4) sg] a0 have a1: "over2 bs N t1" "grows ?t0 t1" by auto
  from over2_add_rules [OF a1(1) s2 assms(4)] have a2: "over2 bs N t2" "grows t1 t2" by auto
  have h2: "has2 ?n t2" using a0 a1(2) a2(2) by (blast intro: has2_grows)
  have "over2 bs N ts' \<and> grows t2 ts'"
  proof (cases "d = Egress")
    case True
    with s3 have "add_rule_to_chain_v4v6 ''INPUT'' [jump_rule hybrid p d ?n] [jump_rule hybrid p d ?n] t2 = Inr ts'" by simp
    from over2_add_jump [OF a2(1) this [unfolded jump_rule_text] n(1) h2] show ?thesis .
  qed (use s3 a2 in simp)
  with a0 a1 a2 show ?thesis by (blast intro: grows_trans)
qed

lemma over_spoof:
  assumes "over b N t" "setup_spoof_filter_chain hybrid p pairs (t, rs) = Inr (t', rs')"
    and "harmless b (port_chain_name hybrid p Spoof)" "port_chain_name hybrid p Spoof \<in> N"
  shows "over b N t' \<and> set (it_chains t) \<subseteq> set (it_chains t')"
proof (cases "pairs = []")
  case False
  let ?n = "port_chain_name hybrid p Spoof"
  from assms(2) False have "add_rules ?n (map spoof_entry pairs @ [''-j DROP'']) (add_chain ?n True t) = Inr t'"
    by (auto simp: setup_spoof_filter_chain_def Let_def bindR_Inr_iff)
  from over_add_rules [OF this over_add_chain [OF assms(1,4,3)] assms(3)] show ?thesis
    by (auto simp: add_chain_mem set_add_def)
qed (use assms in \<open>simp add: setup_spoof_filter_chain_def\<close>)

lemma over2_spoofing_rule:
  assumes "over2 bs N ts" "spoofing_rule hybrid na p ts = Inr (rs, ts')"
    and "port_harmless hybrid bs p" "port_chains hybrid p \<subseteq> N"
  shows "over2 bs N ts' \<and> grows ts ts'"
proof -
  let ?n = "port_chain_name hybrid p Spoof"
  have n: "harmless (fst bs) ?n" "harmless (snd bs) ?n" "?n \<in> N"
    using assms(3,4) by (auto simp: port_harmless_def harmless2_def)
  from assms(2) obtain p4 p6 r4 r6 r4' r6' where
    "setup_spoof_filter_chain hybrid p p4 (fst ts, r4) = Inr (fst ts', r4')"
    "setup_spoof_filter_chain hybrid p p6 (snd ts, r6) = Inr (snd ts', r6')"
    by (auto simp: spoofing_rule_def Let_def bindR_Inr_iff)
  from over_spoof [OF _ this(1) n(1,3)] over_spoof [OF _ this(2) n(2,3)] assms(1) show ?thesis
    by (auto simp: over2_def grows_def)
qed

lemma over2_setup_chain:
  assumes "over2 bs N ts" "setup_chain hybrid na p d ts = Inr ts'"
    and "port_harmless hybrid bs p" "harmless2 bs SG_CHAIN" "has2 SG_CHAIN ts" "port_chains hybrid p \<subseteq> N"
  shows "over2 bs N ts' \<and> grows ts ts'"
proof -
  from assms(2) obtain t1 where t1: "add_port_chain hybrid p d ts = Inr t1"
    and r: "add_rule_by_security_group hybrid na p d t1 = Inr ts'" by (auto simp: setup_chain_def bindR_Inr_iff)
  from over2_port_chain [OF assms(1) t1 assms(3-6)] have a1: "over2 bs N t1" "grows ts t1" by auto
  from r obtain rs t2 r4 r6 where t2: "(if d = Egress then spoofing_rule hybrid na p t1 else Inr (([], []), t1)) = Inr (rs, t2)"
    and t3: "add_rule_to_chain_v4v6 (port_chain_name hybrid p d) r4 r6 t2 = Inr ts'"
    by (auto simp: add_rule_by_security_group_def Let_def bindR_Inr_iff split: prod.splits)
  have a2: "over2 bs N t2 \<and> grows t1 t2"
  proof (cases "d = Egress")
    case True
    with t2 have "spoofing_rule hybrid na p t1 = Inr (rs, t2)" by simp
    from over2_spoofing_rule [OF a1(1) this assms(3,6)] show ?thesis .
  qed (use t2 a1 in auto)
  have "harmless2 bs (port_chain_name hybrid p d)" using assms(3) by (auto simp: port_harmless_def)
  from over2_add_rules [OF _ t3 this] a1 a2 show ?thesis by (blast intro: grows_trans)
qed

lemma over2_setup_port:
  assumes "over2 bs N ts" "setup_port hybrid na p ts = Inr ts'"
    and "port_harmless hybrid bs p" "harmless2 bs SG_CHAIN" "has2 SG_CHAIN ts" "port_chains hybrid p \<subseteq> N"
  shows "over2 bs N ts' \<and> grows ts ts'"
proof -
  from assms(2) obtain t1 t2 where t: "setup_chain hybrid na p Ingress ts = Inr t1" "setup_chain hybrid na p Egress t1 = Inr t2"
    "add_rule_to_chain_v4v6 SG_CHAIN [''-j ACCEPT''] [''-j ACCEPT''] t2 = Inr ts'"
    by (auto simp: setup_port_def bindR_Inr_iff)
  from over2_setup_chain [OF assms(1) t(1) assms(3-6)] have a1: "over2 bs N t1" "grows ts t1" by auto
  from over2_setup_chain [OF a1(1) t(2) assms(3,4) has2_grows [OF assms(5) a1(2)] assms(6)]
  have a2: "over2 bs N t2" "grows t1 t2" by auto
  from over2_add_rules [OF a2(1) t(3) assms(4)] a1 a2 show ?thesis by (blast intro: grows_trans)
qed

lemma over2_setup_ports:
  assumes "setup_ports hybrid na ps ts = Inr ts'" "over2 bs N ts"
    and "\<forall>p \<in> set ps. port_harmless hybrid bs p \<and> port_chains hybrid p \<subseteq> N" "harmless2 bs SG_CHAIN" "has2 SG_CHAIN ts"
  shows "over2 bs N ts'"
  using assms
proof (induction ps arbitrary: ts)
  case (Cons p ps)
  from Cons.prems(1) obtain t1 where t1: "setup_port hybrid na p ts = Inr t1" "setup_ports hybrid na ps t1 = Inr ts'"
    by (auto simp: bindR_Inr_iff)
  from over2_setup_port [OF Cons.prems(2) t1(1)] Cons.prems(3-5) have "over2 bs N t1" "grows ts t1" by auto
  with Cons.IH [OF t1(2)] Cons.prems(3-5) show ?case by (auto intro: has2_grows)
qed simp

lemma over2_setup_chains_apply:
  assumes "setup_chains_apply hybrid na ps bs = Inr ts"
    and "\<forall>p \<in> set ps. port_harmless hybrid bs p" "harmless2 bs SG_CHAIN"
  shows "over2 bs (insert SG_CHAIN (\<Union>p \<in> set ps. port_chains hybrid p)) ts"
proof -
  let ?N = "insert SG_CHAIN (\<Union>p \<in> set ps. port_chains hybrid p)"
  from over2_add_chain [OF over2_refl _ assms(3), of ?N]
  have "over2 bs ?N (add_chain_by_name_v4v6 SG_CHAIN bs)" "has2 SG_CHAIN (add_chain_by_name_v4v6 SG_CHAIN bs)" by auto
  from over2_setup_ports [OF assms(1) [unfolded setup_chains_apply_def] this(1) _ assms(3) this(2)] assms(2)
  show ?thesis by blast
qed

lemma over2_remove_chains_apply:
  assumes "over2 bs N ts" and "\<forall>p \<in> set ps. port_harmless hybrid bs p" "harmless2 bs SG_CHAIN"
  shows "over2 bs (N - insert SG_CHAIN (\<Union>p \<in> set ps. port_chains hybrid p)) (remove_chains_apply hybrid ps ts)"
  using assms
proof (induction ps arbitrary: N ts)
  case Nil
  then show ?case using over2_remove_chain [of bs N ts SG_CHAIN] by simp
next
  case (Cons p ps)
  let ?rm = "remove_port_chain hybrid p Spoof (remove_port_chain hybrid p Egress (remove_port_chain hybrid p Ingress ts))"
  have h: "harmless2 bs (port_chain_name hybrid p d)" for d using Cons.prems(2) by (auto simp: port_harmless_def)
  have "over2 bs (N - {port_chain_name hybrid p Ingress} - {port_chain_name hybrid p Egress} - {port_chain_name hybrid p Spoof}) ?rm"
    unfolding remove_port_chain_def by (intro over2_remove_chain h Cons.prems(1))
  from Cons.IH [OF this] Cons.prems(2,3)
  have "over2 bs (N - {port_chain_name hybrid p Ingress} - {port_chain_name hybrid p Egress} - {port_chain_name hybrid p Spoof}
      - insert SG_CHAIN (\<Union>p \<in> set ps. port_chains hybrid p)) (remove_chains_apply hybrid ps ?rm)" by simp
  moreover have "N - {port_chain_name hybrid p Ingress} - {port_chain_name hybrid p Egress} - {port_chain_name hybrid p Spoof}
      - insert SG_CHAIN (\<Union>p \<in> set ps. port_chains hybrid p)
    = N - insert SG_CHAIN (\<Union>p \<in> set (p # ps). port_chains hybrid p)"
    unfolding port_chains_def by auto
  ultimately show ?case by (simp only: remove_chains_apply.simps)
qed

lemma over2_empty: "over2 bs {} ts \<Longrightarrow> ts = bs"
  by (cases ts; cases bs) (auto simp: over2_def dest: over_empty)

text \<open>Removing the chains of the ports undoes setting them up.\<close>

lemma setup_remove:
  assumes "setup_chains_apply hybrid na ps bs = Inr ts"
    and "\<forall>p \<in> set ps. port_harmless hybrid bs p" "harmless2 bs SG_CHAIN"
  shows "remove_chains_apply hybrid ps ts = bs"
  using over2_remove_chains_apply [OF over2_setup_chains_apply [OF assms] assms(2,3)] by (auto intro: over2_empty)

lemma remove_nothing:
  assumes "\<forall>p \<in> set ps. port_harmless hybrid bs p" "harmless2 bs SG_CHAIN"
  shows "remove_chains_apply hybrid ps bs = bs"
  using over2_remove_chains_apply [OF over2_refl [of bs "{}"] assms] by (auto intro: over2_empty)

end
