(* ===== verification/FirewallProps.thy ===== *)
theory FirewallProps
  imports FirewallInv
begin

text \<open>
  The operations of the firewall driver: the tables it keeps up to date step by step are those it would
  build from scratch for the ports it filters.
\<close>

section \<open>Applying does not change the filter tables\<close>

definition no_removals :: "ip_table \<Rightarrow> bool" where
  "no_removals t \<longleftrightarrow> it_remove_chains t = [] \<and> it_remove_rules t = []"

lemma weed_line_rm_rules: "weed_line l w = Inr (keep, w1) \<Longrightarrow> rm_rules w = [] \<Longrightarrow> rm_rules w1 = []"
  by (auto simp: weed_line_def Let_def bindR_Inr_iff split: if_splits)

lemma weed_lines_rm_rules: "weed_lines ls w = Inr (kept, w1) \<Longrightarrow> rm_rules w = [] \<Longrightarrow> rm_rules w1 = []"
proof (induction ls arbitrary: w kept)
  case (Cons l ls)
  then show ?case by (auto simp: bindR_Inr_iff dest: weed_line_rm_rules)
qed simp

lemma modify_rules_same:
  assumes "modify_rules w ls t name = Inr (out, t')" "no_removals t"
  shows "t' = t"
proof -
  from assms(1) obtain kept v lns where
    "weed_lines lns \<lparr>seen_chains = [], seen_rules = [], rm_chains = it_remove_chains t, rm_rules = it_remove_rules t\<rparr> = Inr (kept, v)"
    "t' = t\<lparr>it_remove_chains := [], it_remove_rules := flush_from 0 (rm_rules v)\<rparr>"
    unfolding modify_rules_def Let_def by (auto simp: bindR_Inr_iff split: prod.splits)
  with weed_lines_rm_rules [OF this(1)] assms(2) flush_done [of "[]" 0] show ?thesis by (simp add: no_removals_def)
qed

lemma apply_tables_same:
  assumes "apply_tables w ls ts = Inr (out, ts')" "map_of ts n = Some t" "no_removals t"
  shows "map_of ts' n = Some t"
  using assms
proof (induction ts arbitrary: ls out ts')
  case (Cons p ts)
  obtain m u where p: "p = (m, u)" by force
  from Cons.prems(1) p obtain b where b: "find_table ls m = Inr b" by (auto simp: bindR_Inr_iff)
  with Cons.prems(1) p obtain new u' ts1 ls1 where
    u: "modify_rules w (slice ls (fst b) (snd b)) u m = Inr (new, u')"
    and r: "apply_tables w (set_slice ls (fst b) (snd b) new) ts = Inr (ls1, ts1)" "ts' = (m, u') # ts1"
    by (cases b) (auto simp: bindR_Inr_iff)
  from Cons.IH [OF r(1)] Cons.prems(2,3) p modify_rules_same [OF u] r(2) show ?case by (auto split: if_splits)
qed simp

lemma apply_now_same:
  assumes "apply_now sv m = Inr (res, m')" "get_filters m = Inr ts" "no_removals (fst ts)" "no_removals (snd ts)"
  shows "get_filters m' = Inr ts \<and> im_deferred m' = im_deferred m"
proof -
  from assms(2) have t: "map_of (im_ipv4 m) ''filter'' = Some (fst ts)" "map_of (im_ipv6 m) ''filter'' = Some (snd ts)"
    by (auto simp: get_filters_def split: option.splits)
  from assms(1) have "map_of (im_ipv4 m') ''filter'' = Some (fst ts) \<and> map_of (im_ipv6 m') ''filter'' = Some (snd ts) \<and>
      im_deferred m' = im_deferred m"
    using t assms(3,4) by (auto simp: apply_now_def bindR_Inr_iff dest!: apply_tables_same split: if_splits)
  then show ?thesis by (simp add: get_filters_def)
qed

lemma get_set_filters [simp]: "get_filters (set_filters ts m) = Inr ts"
  by (simp add: get_filters_def set_filters_def update_conv)

lemma get_filters_deferred [simp]:
  "get_filters (defer_apply_on m) = get_filters m" "get_filters (m\<lparr>im_deferred := b\<rparr>) = get_filters m"
  by (simp_all add: get_filters_def defer_apply_on_def)

lemma set_filters_deferred [simp]: "im_deferred (set_filters ts m) = im_deferred m"
  by (simp add: set_filters_def)

section \<open>Reachable drivers\<close>

inductive fw_step :: "netaddr \<Rightarrow> (fw_port \<Rightarrow> bool) \<Rightarrow> fw_driver \<Rightarrow> fw_driver \<Rightarrow> bool" for na P where
  prepare: "P port \<Longrightarrow> prepare_port_filter na sv port fw = Inr (res, fw') \<Longrightarrow> fw_step na P fw fw'"
| update: "P port \<Longrightarrow> update_port_filter na sv port fw = Inr (res, fw') \<Longrightarrow> fw_step na P fw fw'"
| remove: "remove_port_filter na sv port fw = Inr (res, fw') \<Longrightarrow> fw_step na P fw fw'"
| defer_on: "fw_step na P fw (filter_defer_apply_on fw)"
| defer_off: "filter_defer_apply_off na sv fw = Inr (res, fw') \<Longrightarrow> fw_step na P fw fw'"

inductive fw_reach :: "netaddr \<Rightarrow> (fw_port \<Rightarrow> bool) \<Rightarrow> fw_driver \<Rightarrow> fw_driver \<Rightarrow> bool" for na P fw0 where
  start: "fw_reach na P fw0 fw0"
| step: "fw_reach na P fw0 fw \<Longrightarrow> fw_step na P fw fw' \<Longrightarrow> fw_reach na P fw0 fw'"

inductive_cases fw_stepE: "fw_step na P fw fw'"

text \<open>The ports the tables are built for: while deferred those of the time it began.\<close>

definition built_ports :: "fw_driver \<Rightarrow> fw_port list" where
  "built_ports fw = map snd (if fd_defer fw then (case fd_pre_defer fw of Some ps \<Rightarrow> ps | None \<Rightarrow> []) else fd_filtered fw)"

definition built :: "netaddr \<Rightarrow> bool \<Rightarrow> filters \<Rightarrow> fw_port list \<Rightarrow> filters \<Rightarrow> bool" where
  "built na hybrid bs ps ts \<longleftrightarrow> ts = bs \<and> ps = [] \<or> setup_chains_apply hybrid na ps bs = Inr ts"

definition fw_ok :: "netaddr \<Rightarrow> bool \<Rightarrow> filters \<Rightarrow> fw_driver \<Rightarrow> bool" where
  "fw_ok na hybrid bs fw \<longleftrightarrow>
     fd_hybrid fw = hybrid \<and> (fd_defer fw \<longrightarrow> fd_pre_defer fw \<noteq> None) \<and>
     (\<forall>p \<in> snd ` set (fd_filtered fw) \<union> set (built_ports fw). port_harmless hybrid bs p) \<and>
     (\<exists>ts. get_filters (fd_iptables fw) = Inr ts \<and> built na hybrid bs (built_ports fw) ts)"

lemma built_remove:
  assumes "built na hybrid bs ps ts" "\<forall>p \<in> set ps. port_harmless hybrid bs p" "harmless2 bs SG_CHAIN"
  shows "remove_chains_apply hybrid ps ts = bs"
  using assms(1) setup_remove [OF _ assms(2,3), of na ts] remove_nothing [OF assms(2,3)] unfolding built_def by blast

lemma built_no_removals:
  assumes "built na hybrid bs ps ts" "\<forall>p \<in> set ps. port_harmless hybrid bs p" "harmless2 bs SG_CHAIN"
    and "no_removals (fst bs)" "no_removals (snd bs)"
  shows "no_removals (fst ts) \<and> no_removals (snd ts)"
  using assms(1)
proof (unfold built_def, elim disjE conjE)
  assume "setup_chains_apply hybrid na ps bs = Inr ts"
  from over2_setup_chains_apply [OF this assms(2,3)] assms(4,5) show ?thesis
    by (auto simp: over2_def no_removals_def dest: over_removals)
qed (use assms in auto)

text \<open>Applying keeps the filter tables.\<close>

lemma apply_manager_ok:
  assumes "apply_manager sv m = Inr (res, m')" "get_filters m = Inr ts" "no_removals (fst ts)" "no_removals (snd ts)"
  shows "get_filters m' = Inr ts"
proof (cases "im_deferred m")
  case False
  with assms(1) obtain r where "apply_now sv m = Inr (r, m')" by (auto simp: apply_manager_def bindR_Inr_iff)
  from apply_now_same [OF this assms(2-4)] show ?thesis by simp
qed (use assms in \<open>simp add: apply_manager_def\<close>)

text \<open>The step all three operations on a port share.\<close>

lemma rebuild_ok:
  assumes "rebuild na sv ports fw = Inr (res, fw')" "fw_ok na hybrid bs fw" "harmless2 bs SG_CHAIN"
    and "no_removals (fst bs)" "no_removals (snd bs)" "\<forall>p \<in> snd ` set ports. port_harmless hybrid bs p"
  shows "fw_ok na hybrid bs fw'"
proof -
  from assms(2) obtain ts where ok: "fd_hybrid fw = hybrid" "fd_defer fw \<longrightarrow> fd_pre_defer fw \<noteq> None"
    "\<forall>p \<in> snd ` set (fd_filtered fw) \<union> set (built_ports fw). port_harmless hybrid bs p"
    "get_filters (fd_iptables fw) = Inr ts" "built na hybrid bs (built_ports fw) ts" by (auto simp: fw_ok_def)
  from assms(1) obtain fw1 fw2 where st: "remove_chains fw = Inr fw1" "setup_chains na (fw1\<lparr>fd_filtered := ports\<rparr>) = Inr fw2"
    "apply_driver sv fw2 = Inr (res, fw')" by (auto simp: rebuild_def bindR_Inr_iff)
  from st(3) obtain m where m: "apply_manager sv (fd_iptables fw2) = Inr (res, m)" "fw' = fw2\<lparr>fd_iptables := m\<rparr>"
    by (auto simp: apply_driver_def bindR_Inr_iff)
  show ?thesis
  proof (cases "fd_defer fw")
    case True
    with st have fw2: "fw2 = fw\<lparr>fd_filtered := ports\<rparr>" by (auto simp: remove_chains_def setup_chains_def)
    have bp: "built_ports fw2 = built_ports fw" using fw2 True by (simp add: built_ports_def)
    from built_no_removals [OF ok(5) _ assms(3-5)] ok(3) have "no_removals (fst ts)" "no_removals (snd ts)" by auto
    with apply_manager_ok [OF m(1)] fw2 ok(4) have "get_filters m = Inr ts" by simp
    with m(2) fw2 bp ok assms(6) True show ?thesis by (auto simp: fw_ok_def built_ports_def)
  next
    case False
    with ok(5) have b: "built na hybrid bs (map snd (fd_filtered fw)) ts" by (simp add: built_ports_def)
    from built_remove [OF b _ assms(3)] ok(3) have base: "remove_chains_apply hybrid (map snd (fd_filtered fw)) ts = bs" by simp
    from st(1) False ok(1,4) base have fw1: "fw1 = fw\<lparr>fd_iptables := set_filters bs (fd_iptables fw)\<rparr>"
      by (auto simp: remove_chains_def on_filters_def)
    from st(2) fw1 False ok(1) obtain ts2 where ts2: "setup_chains_apply hybrid na (map snd ports) bs = Inr ts2"
      and fw2: "fw2 = fw\<lparr>fd_iptables := set_filters ts2 (set_filters bs (fd_iptables fw)), fd_filtered := ports\<rparr>"
      by (auto simp: setup_chains_def on_filters_def bindR_Inr_iff)
    have b2: "built na hybrid bs (map snd ports) ts2" using ts2 by (simp add: built_def)
    from built_no_removals [OF b2 _ assms(3-5)] assms(6) have "no_removals (fst ts2)" "no_removals (snd ts2)" by auto
    with apply_manager_ok [OF m(1)] fw2 have "get_filters m = Inr ts2" by simp
    with m(2) fw2 False ok assms(6) b2 show ?thesis by (auto simp: fw_ok_def built_ports_def)
  qed
qed

lemma update_values: "snd ` set (AList.update k v d) \<subseteq> insert v (snd ` set d)"
  by (induction d) auto

lemma delete_values: "snd ` set (AList.delete k d) \<subseteq> snd ` set d"
  by (auto simp: AList.delete_eq)

lemma fw_step_ok:
  assumes "fw_step na (port_harmless hybrid bs) fw fw'" "fw_ok na hybrid bs fw" "harmless2 bs SG_CHAIN"
    and "no_removals (fst bs)" "no_removals (snd bs)"
  shows "fw_ok na hybrid bs fw'"
proof -
  have all: "\<forall>p \<in> snd ` set (fd_filtered fw). port_harmless hybrid bs p" using assms(2) unfolding fw_ok_def by blast
  from assms(1) show ?thesis
proof (cases rule: fw_step.cases)
  case (prepare port sv res)
  have "\<forall>p \<in> snd ` set (AList.update (fp_device port) port (fd_filtered fw)). port_harmless hybrid bs p"
    using update_values [of "fp_device port" port "fd_filtered fw"] prepare(1) all by blast
  with rebuild_ok [OF prepare(2) [unfolded prepare_port_filter_def] assms(2-5)] show ?thesis .
next
  case (update port sv res)
  show ?thesis
  proof (cases "fp_device port \<in> fst ` set (fd_filtered fw)")
    case True
    have "\<forall>p \<in> snd ` set (AList.update (fp_device port) port (fd_filtered fw)). port_harmless hybrid bs p"
      using update_values [of "fp_device port" port "fd_filtered fw"] update(1) all by blast
    with rebuild_ok [OF _ assms(2-5)] update(2) True show ?thesis by (auto simp: update_port_filter_def)
  qed (use update assms(2) in \<open>auto simp: update_port_filter_def\<close>)
next
  case (remove sv port res)
  show ?thesis
  proof (cases "map_of (fd_filtered fw) (fp_device port)")
    case (Some a)
    have "\<forall>p \<in> snd ` set (AList.delete (fp_device port) (fd_filtered fw)). port_harmless hybrid bs p"
      using delete_values [of "fp_device port" "fd_filtered fw"] all by blast
    with rebuild_ok [OF _ assms(2-5)] remove Some show ?thesis by (auto simp: remove_port_filter_def)
  qed (use remove assms(2) in \<open>auto simp: remove_port_filter_def\<close>)
next
  case defer_on
  with assms(2) show ?thesis
    by (cases "fd_defer fw") (auto simp: fw_ok_def filter_defer_apply_on_def built_ports_def)
next
  case (defer_off sv res)
  show ?thesis
  proof (cases "fd_defer fw")
    case True
    from assms(2) True obtain ps ts where ok: "fd_hybrid fw = hybrid" "fd_pre_defer fw = Some ps"
      "\<forall>p \<in> snd ` set (fd_filtered fw) \<union> set (built_ports fw). port_harmless hybrid bs p"
      "get_filters (fd_iptables fw) = Inr ts" "built na hybrid bs (map snd ps) ts" by (auto simp: fw_ok_def built_ports_def)
    from built_remove [OF ok(5) _ assms(3)] ok(2,3) True have base: "remove_chains_apply hybrid (map snd ps) ts = bs"
      by (simp add: built_ports_def)
    from defer_off True ok(1,2,4) base obtain ts2 m where ts2: "setup_chains_apply hybrid na (map snd (fd_filtered fw)) bs = Inr ts2"
      and m: "defer_apply_off sv (set_filters ts2 (set_filters bs (fd_iptables fw))) = Inr (the res, m)"
      and fw': "fw' = fw\<lparr>fd_defer := False, fd_pre_defer := None, fd_iptables := m\<rparr>"
      by (auto simp: filter_defer_apply_off_def on_filters_def bindR_Inr_iff)
    have b2: "built na hybrid bs (map snd (fd_filtered fw)) ts2" using ts2 by (simp add: built_def)
    from built_no_removals [OF b2 _ assms(3-5)] ok(3) have "no_removals (fst ts2)" "no_removals (snd ts2)" by auto
    then have "get_filters m = Inr ts2" using apply_now_same [OF m [unfolded defer_apply_off_def]] by simp
    with fw' ok b2 show ?thesis by (auto simp: fw_ok_def built_ports_def)
  qed (use defer_off assms(2) in \<open>auto simp: filter_defer_apply_off_def\<close>)
qed
qed


section \<open>A new driver\<close>

lemma add_chain_no_removals: "no_removals t \<Longrightarrow> no_removals (add_chain n w t)"
  by (simp add: no_removals_def add_chain_def Let_def)

lemma add_rule_no_removals: "add_rule c s w tp tag t = Inr t' \<Longrightarrow> no_removals t \<Longrightarrow> no_removals t'"
  by (auto simp: no_removals_def add_rule_def Let_def split: if_splits)

lemma add_rules_no_removals: "add_rules c ss t = Inr t' \<Longrightarrow> no_removals t \<Longrightarrow> no_removals t'"
  by (induction ss arbitrary: t) (auto simp: bindR_Inr_iff dest: add_rule_no_removals)

lemma add_unwrapped_no_removals: "no_removals t \<Longrightarrow> no_removals (add_unwrapped c s tp t)"
  unfolding add_unwrapped_def by (cases "add_rule c s False tp None t") (auto dest: add_rule_no_removals)

lemma initial_filter_no_removals: "no_removals (initial_filter w)"
  unfolding initial_filter_def foldl.simps
  by (intro add_unwrapped_no_removals add_chain_no_removals) (simp add: no_removals_def new_table_def)

lemma new_fw_driver_ok:
  assumes "new_fw_driver bin hybrid = Inr fw0" "get_filters (fd_iptables fw0) = Inr bs"
  shows "fw_ok na hybrid bs fw0 \<and> no_removals (fst bs) \<and> no_removals (snd bs)"
proof -
  let ?f = "\<lambda>m. \<lparr>fd_iptables = m, fd_filtered = [], fd_defer = False, fd_pre_defer = None, fd_hybrid = hybrid\<rparr>"
  from assms(1) obtain m where m: "new_manager bin False True = Inr m"
    and f: "on_filters add_fallback_chain_v4v6 (?f m) = Inr fw0" by (auto simp: new_fw_driver_def bindR_Inr_iff)
  from m have "get_filters m = Inr (initial_filter (take 16 bin), initial_filter (take 16 bin))"
    by (auto simp: new_manager_def Let_def bindR_Inr_iff get_filters_def)
  with f obtain ts where ts: "add_fallback_chain_v4v6 (initial_filter (take 16 bin), initial_filter (take 16 bin)) = Inr ts"
    and fw0: "fw0 = ?f (set_filters ts m)" by (auto simp: on_filters_def bindR_Inr_iff)
  from fw0 assms(2) have bs: "bs = ts" by simp
  have "no_removals (fst ts) \<and> no_removals (snd ts)"
    using ts initial_filter_no_removals [of "take 16 bin"]
    unfolding add_fallback_chain_v4v6_def add_v4v6_Inr add_chain_by_name_v4v6_def fst_conv snd_conv
    by (blast intro: add_rules_no_removals add_chain_no_removals)
  with fw0 bs show ?thesis by (auto simp: fw_ok_def built_ports_def built_def)
qed

lemma fw_reach_ok:
  assumes "new_fw_driver bin hybrid = Inr fw0" "get_filters (fd_iptables fw0) = Inr bs"
    and "harmless2 bs SG_CHAIN" "fw_reach na (port_harmless hybrid bs) fw0 fw"
  shows "fw_ok na hybrid bs fw"
proof -
  from new_fw_driver_ok [OF assms(1,2)] have new: "fw_ok na hybrid bs fw0" "no_removals (fst bs)" "no_removals (snd bs)" by auto
  from assms(4) show ?thesis
  proof induction
    case start
    show ?case by (rule new)
  next
    case (step fw fw')
    from fw_step_ok [OF step.hyps(2) step.IH assms(3) new(2,3)] show ?case .
  qed
qed

text \<open>
  C32: whatever sequence of preparing, updating and removing ports, with or without deferred
  application, the filter tables are those of a new driver on which the chains of the filtered ports (while
  the application is deferred, of those filtered when it began) are set up once.
\<close>

theorem fw_incremental:
  assumes "new_fw_driver bin hybrid = Inr fw0" "get_filters (fd_iptables fw0) = Inr bs"
    and "harmless2 bs SG_CHAIN" "fw_reach na (port_harmless hybrid bs) fw0 fw"
  shows "\<exists>ts. get_filters (fd_iptables fw) = Inr ts \<and>
    (ts = bs \<and> built_ports fw = [] \<or> setup_chains_apply hybrid na (built_ports fw) bs = Inr ts)"
  using fw_reach_ok [OF assms] by (auto simp: fw_ok_def built_def)

definition demo_fw_rule :: sg_rule where
  "demo_fw_rule =
     \<lparr>sg_direction = Ingress, sg_ethertype = Some ''IPv4'', sg_protocol = Some ''tcp'', sg_source_prefix = None,
      sg_dest_prefix = None, sg_source_min = None, sg_source_max = None, sg_port_min = Some 22, sg_port_max = Some 22\<rparr>"

definition demo_fw_port :: fw_port where
  "demo_fw_port =
     \<lparr>fp_device = ''tap1'', fp_mac = ''fa:16'', fp_fixed_ips = [], fp_allowed_pairs = [], fp_rules = [demo_fw_rule]\<rparr>"

definition demo_fw0 :: fw_driver where
  "demo_fw0 = (case new_fw_driver ''agent'' False of Inr fw \<Rightarrow> fw)"

definition demo_base :: filters where
  "demo_base = (case get_filters (fd_iptables demo_fw0) of Inr bs \<Rightarrow> bs)"

definition demo_fw1 :: fw_driver where
  "demo_fw1 = (case prepare_port_filter demo_netaddr ([], []) demo_fw_port demo_fw0 of Inr (_, fw) \<Rightarrow> fw)"

lemma demo_fw0_ok: "case new_fw_driver ''agent'' False of Inr fw \<Rightarrow> True | Inl _ \<Rightarrow> False"
  by code_simp

lemma demo_base_ok: "harmless2 demo_base SG_CHAIN \<and> port_harmless False demo_base demo_fw_port"
  by code_simp

lemma demo_fw1_ok: "case prepare_port_filter demo_netaddr ([], []) demo_fw_port demo_fw0 of Inr _ \<Rightarrow> True | Inl _ \<Rightarrow> False"
  by code_simp


lemma demo_fw0_new: "new_fw_driver ''agent'' False = Inr demo_fw0"
  using demo_fw0_ok by (auto simp: demo_fw0_def split: sum.splits)

lemma demo_base_filters: "get_filters (fd_iptables demo_fw0) = Inr demo_base"
proof -
  have "case get_filters (fd_iptables demo_fw0) of Inr _ \<Rightarrow> True | Inl _ \<Rightarrow> False" by code_simp
  then show ?thesis by (auto simp: demo_base_def split: sum.splits)
qed

lemma demo_fw1_reach: "fw_reach demo_netaddr (port_harmless False demo_base) demo_fw0 demo_fw1"
proof -
  obtain res where "prepare_port_filter demo_netaddr ([], []) demo_fw_port demo_fw0 = Inr (res, demo_fw1)"
    using demo_fw1_ok by (auto simp: demo_fw1_def split: sum.splits)
  from prepare [OF _ this, of "port_harmless False demo_base"] demo_base_ok show ?thesis by (blast intro: fw_reach.intros)
qed

lemma demo_built: "built_ports demo_fw1 = [demo_fw_port]"
  by code_simp

theorem fw_incremental_witness:
  "\<exists>ts. get_filters (fd_iptables demo_fw1) = Inr ts \<and> setup_chains_apply False demo_netaddr [demo_fw_port] demo_base = Inr ts"
  using fw_incremental [OF demo_fw0_new demo_base_filters _ demo_fw1_reach] demo_base_ok by (simp add: demo_built)

end
