(* ===== verification/FirewallRules.thy ===== *)
theory FirewallRules
  imports FirewallProps
begin

text \<open>
  What the tables of the firewall driver contain: the exact rules of the chains of a port
  in every reachable state of the driver, written down from the port's security group rules and addresses, and
  the place of the
  rule that accepts what the chains of the ports let pass.
\<close>

section \<open>Rules of a chain\<close>

definition chain_rules :: "string \<Rightarrow> ip_table \<Rightarrow> string list" where
  "chain_rules n t = map ir_rule (filter (\<lambda>r. ir_chain r = n \<and> ir_wrap r) (it_rules t))"

lemma add_chain_simps [simp]:
  "it_rules (add_chain n w t) = it_rules t" "it_wrap_name (add_chain n w t) = it_wrap_name t"
  "chain_rules m (add_chain n w t) = chain_rules m t"
  by (simp_all add: add_chain_def Let_def chain_rules_def)

lemma add_rules_effect:
  assumes "add_rules c ss t = Inr t'"
  shows "chain_rules m t' = chain_rules m t @ (if m = get_chain_name c True then map (wrap_targets (it_wrap_name t)) ss else []) \<and>
    it_wrap_name t' = it_wrap_name t"
  using assms
proof (induction ss arbitrary: t)
  case (Cons s ss)
  then obtain t1 where "add_rule c s True False None t = Inr t1" "add_rules c ss t1 = Inr t'" by (auto simp: bindR_Inr_iff)
  with Cons.IH [of t1] show ?case by (auto simp: add_rule_Inr chain_rules_def)
qed (simp add: chain_rules_def)

text \<open>The effect of an operation on the rules of a chain, the same for both tables.\<close>

definition adds :: "string \<Rightarrow> string list \<times> string list \<Rightarrow> filters \<Rightarrow> filters \<Rightarrow> bool" where
  "adds n ss ts ts' \<longleftrightarrow>
     chain_rules n (fst ts') = chain_rules n (fst ts) @ map (wrap_targets (it_wrap_name (fst ts))) (fst ss) \<and>
     chain_rules n (snd ts') = chain_rules n (snd ts) @ map (wrap_targets (it_wrap_name (snd ts))) (snd ss) \<and>
     it_wrap_name (fst ts') = it_wrap_name (fst ts) \<and> it_wrap_name (snd ts') = it_wrap_name (snd ts)"

abbreviation adds_none :: "string \<Rightarrow> filters \<Rightarrow> filters \<Rightarrow> bool" where
  "adds_none n \<equiv> adds n ([], [])"

lemma adds_trans: "adds n (a, b) ts ts' \<Longrightarrow> adds n (c, d) ts' ts'' \<Longrightarrow> adds n (a @ c, b @ d) ts ts''"
  by (auto simp: adds_def)

lemma adds_none_trans:
  "adds_none n ts ts' \<Longrightarrow> adds n ss ts' ts'' \<Longrightarrow> adds n ss ts ts''"
  "adds n ss ts ts' \<Longrightarrow> adds_none n ts' ts'' \<Longrightarrow> adds n ss ts ts''"
  by (auto simp: adds_def)

lemma adds_refl: "adds_none n ts ts"
  by (simp add: adds_def)

lemma adds_chain: "adds_none m ts (add_chain_by_name_v4v6 n ts)"
  by (simp add: adds_def add_chain_by_name_v4v6_def)

lemma adds_rules:
  assumes "add_rule_to_chain_v4v6 c r4 r6 ts = Inr ts'"
  shows "adds m (if m = get_chain_name c True then (r4, r6) else ([], [])) ts ts'"
  using assms add_rules_effect [of c r4 "fst ts" "fst ts'"] add_rules_effect [of c r6 "snd ts" "snd ts'"]
  by (auto simp: add_v4v6_Inr adds_def)

lemma adds_rules_other: "add_rule_to_chain_v4v6 c r4 r6 ts = Inr ts' \<Longrightarrow> m \<noteq> get_chain_name c True \<Longrightarrow> adds_none m ts ts'"
  using adds_rules [of c r4 r6 ts ts' m] by simp

lemma port_chain_name_short [simp]: "get_chain_name (port_chain_name hybrid p d) True = port_chain_name hybrid p d"
  by (simp add: port_chain_name_def)

lemma builtin_names [simp]:
  "get_chain_name ''FORWARD'' True = ''FORWARD''" "get_chain_name ''INPUT'' True = ''INPUT''"
  "get_chain_name SG_CHAIN True = SG_CHAIN"
  by (simp_all add: get_chain_name_def SG_CHAIN_def)

lemma adds_port_chain:
  assumes "add_port_chain hybrid p d ts = Inr ts'" "m \<notin> {''FORWARD'', ''INPUT'', SG_CHAIN}"
  shows "adds_none m ts ts'"
proof -
  let ?n = "port_chain_name hybrid p d"
  from assms(1) obtain t1 t2 where
    s: "add_rule_to_chain_v4v6 ''FORWARD'' [jump_rule hybrid p d SG_CHAIN] [jump_rule hybrid p d SG_CHAIN] (add_chain_by_name_v4v6 ?n ts) = Inr t1"
    "add_rule_to_chain_v4v6 SG_CHAIN [jump_rule hybrid p d ?n] [jump_rule hybrid p d ?n] t1 = Inr t2"
    "(if d = Egress then add_rule_to_chain_v4v6 ''INPUT'' [jump_rule hybrid p d ?n] [jump_rule hybrid p d ?n] t2 else Inr t2) = Inr ts'"
    by (auto simp: add_port_chain_def Let_def bindR_Inr_iff)
  have "adds_none m t2 ts'"
  proof (cases "d = Egress")
    case True
    with s(3) have "add_rule_to_chain_v4v6 ''INPUT'' [jump_rule hybrid p d ?n] [jump_rule hybrid p d ?n] t2 = Inr ts'" by simp
    from adds_rules_other [OF this] assms(2) show ?thesis by simp
  qed (use s(3) adds_refl in simp)
  moreover have "adds_none m (add_chain_by_name_v4v6 ?n ts) t1" "adds_none m t1 t2"
    using adds_rules_other [OF s(1)] adds_rules_other [OF s(2)] assms(2) by auto
  ultimately show ?thesis using adds_chain adds_none_trans(1) by blast
qed

section \<open>What the chains are expected to hold\<close>

text \<open>
  The rules of a port, written down without the functions that make them.  The text of one security group rule:
  its addresses, its protocol and its ports, each only when it is given.
\<close>

definition option_text :: "string \<Rightarrow> string option \<Rightarrow> string" where
  "option_text name v = (if v = None \<or> v = Some [] then [] else name @ '' '' @ the v @ '' '')"

definition protocol_text :: "string option \<Rightarrow> string" where
  "protocol_text v =
     option_text ''-p'' v @ (if v = Some ''tcp'' then ''-m tcp '' else if v = Some ''udp'' then ''-m udp '' else [])"

definition ports_text :: "string \<Rightarrow> string option \<Rightarrow> int option \<Rightarrow> int option \<Rightarrow> string" where
  "ports_text name proto lo hi =
     (if proto \<notin> {Some ''tcp'', Some ''udp''} \<or> lo = None \<or> lo = Some 0 then []
      else if lo = hi then ''--'' @ name @ '' '' @ int_text lo @ '' ''
      else ''-m multiport --'' @ name @ ''s '' @ int_text lo @ '':'' @ int_text hi @ '' '')"

definition sg_text :: "sg_rule \<Rightarrow> string" where
  "sg_text r =
     option_text ''-s'' (sg_source_prefix r) @ option_text ''-d'' (sg_dest_prefix r) @ protocol_text (sg_protocol r) @
     ports_text ''sport'' (sg_protocol r) (sg_source_min r) (sg_source_max r) @
     ports_text ''dport'' (sg_protocol r) (sg_port_min r) (sg_port_max r) @ ''-j RETURN''"

text \<open>The rules of the security groups for a direction and a version of IP.\<close>

definition group_rules :: "fw_port \<Rightarrow> direction \<Rightarrow> bool \<Rightarrow> string list" where
  "group_rules p d v4 =
     ''-m state --state INVALID -j DROP'' # ''-m state --state RELATED,ESTABLISHED -j RETURN'' #
     map (\<lambda>r. sg_text (if \<not> v4 \<and> sg_protocol r = Some ''icmp'' then r\<lparr>sg_protocol := Some ''icmpv6''\<rparr> else r))
       (filter (\<lambda>r. sg_direction r = d \<and> sg_ethertype r = Some (if v4 then ''IPv4'' else ''IPv6'')) (fp_rules p)) @
     [''-j $sg-fallback'']"

text \<open>The source addresses a port may use: the allowed pairs, then its own; without fixed addresses any.\<close>

definition source_pairs :: "netaddr \<Rightarrow> fw_port \<Rightarrow> bool \<Rightarrow> (string \<times> string option) list" where
  "source_pairs na p v4 =
     map (\<lambda>(mac, ip). (mac, Some ip))
       (filter (\<lambda>(mac, ip). \<exists>n. na_net na ip = Some n \<and> (net_ver n = 4) = v4)
          (fp_allowed_pairs p @ map (Pair (fp_mac p)) (fp_fixed_ips p))) @
     (if fp_fixed_ips p = [] then [(fp_mac p, None)] else [])"

definition source_text :: "string \<times> string option \<Rightarrow> string" where
  "source_text mi =
     ''-m mac --mac-source '' @ fst mi @ (if snd mi = None then [] else '' -s '' @ the (snd mi)) @ '' -j RETURN''"

text \<open>The chain of a port for a direction, \<open>Spoof\<close> being the chain that checks source addresses.\<close>

definition spoof_chain :: "(string \<times> string option) list \<Rightarrow> string list" where
  "spoof_chain pairs = (if pairs = [] then [] else map source_text pairs @ [''-j DROP''])"

fun expected_rules :: "bool \<Rightarrow> netaddr \<Rightarrow> fw_port \<Rightarrow> direction \<Rightarrow> bool \<Rightarrow> string list" where
  "expected_rules hybrid na p Ingress v4 =
     (if v4 then []
      else map (\<lambda>n. ''-p icmpv6 --icmpv6-type '' @ show_int n @ '' -j RETURN'') [130, 131, 132, 134, 135, 136]) @
     group_rules p Ingress v4"
| "expected_rules hybrid na p Egress v4 =
     [if v4 then ''-p udp -m udp --sport 68 --dport 67 -j RETURN'' else ''-p icmpv6 -j RETURN''] @
     (if source_pairs na p v4 = [] then [] else [''-j $'' @ port_chain_name hybrid p Spoof]) @
     (if v4 then [''-p udp -m udp --sport 67 --dport 68 -j DROP''] else []) @ group_rules p Egress v4"
| "expected_rules hybrid na p Spoof v4 = spoof_chain (source_pairs na p v4)"

definition expected_both :: "bool \<Rightarrow> netaddr \<Rightarrow> fw_port \<Rightarrow> direction \<Rightarrow> string list \<times> string list" where
  "expected_both hybrid na p d = (expected_rules hybrid na p d True, expected_rules hybrid na p d False)"

section \<open>The rules are the expected ones\<close>

lemma join_last: "py_join sep (xs @ [y]) = concat (map (\<lambda>x. x @ sep) xs) @ y"
  by (induction xs rule: induct_list012) simp_all

lemma sgr_text: "py_join '' '' (sgr_args r) = sg_text r"
proof -
  have arg: "concat (map (\<lambda>x. x @ '' '') (ip_prefix_arg c v)) = option_text (''-'' @ c) v" for c v
    by (simp add: ip_prefix_arg_def option_text_def split: option.splits)
  have proto: "concat (map (\<lambda>x. x @ '' '') (protocol_arg v)) = protocol_text v" for v
    by (auto simp: protocol_arg_def protocol_text_def option_text_def split: option.splits)
  have port: "concat (map (\<lambda>x. x @ '' '') (port_arg n v lo hi)) = ports_text n v lo hi" for n v lo hi
    by (auto simp: port_arg_def ports_text_def)
  let ?xs = "ip_prefix_arg ''s'' (sg_source_prefix r) @ ip_prefix_arg ''d'' (sg_dest_prefix r) @ protocol_arg (sg_protocol r) @
     port_arg ''sport'' (sg_protocol r) (sg_source_min r) (sg_source_max r) @
     port_arg ''dport'' (sg_protocol r) (sg_port_min r) (sg_port_max r)"
  have "sgr_args r = ?xs @ [''-j RETURN'']" by (simp add: sgr_args_def)
  then have "py_join '' '' (sgr_args r) = concat (map (\<lambda>x. x @ '' '') ?xs) @ ''-j RETURN''" by (simp only: join_last)
  then show ?thesis by (simp only: sg_text_def map_append concat_append arg proto port append_assoc append.simps)
qed

lemma group_rules_made:
  assumes "split_sgr_by_ethertype (select_sgr_by_direction p d) = (v4, v6)"
  shows "convert_sgr_to_iptables_rules v4 = group_rules p d True" "convert_sgr_to_iptables_rules v6 = group_rules p d False"
  using assms
  by (auto simp: split_sgr_by_ethertype_def select_sgr_by_direction_def convert_sgr_to_iptables_rules_def group_rules_def
      drop_invalid_packets_def allow_established_def sgr_text conj_commute)

lemma spoof_entry_text: "spoof_entry = source_text"
  by (rule ext) (auto simp: spoof_entry_def source_text_def split: option.splits)

lemma build_pairs:
  assumes "build_mac_ip_lists na ps = Inr (v4, v6)"
  shows "v4 = map (\<lambda>(mac, ip). (mac, Some ip)) (filter (\<lambda>(mac, ip). \<exists>n. na_net na ip = Some n \<and> (net_ver n = 4) = True) ps)"
    "v6 = map (\<lambda>(mac, ip). (mac, Some ip)) (filter (\<lambda>(mac, ip). \<exists>n. na_net na ip = Some n \<and> (net_ver n = 4) = False) ps)"
  using assms by (induction ps arbitrary: v4 v6) (auto simp: op_simps split: if_splits)

lemma spoof_effect:
  assumes "setup_spoof_filter_chain hybrid p pairs (t, rs) = Inr (t', rs')"
  shows "chain_rules m t' = chain_rules m t @
      (if m = port_chain_name hybrid p Spoof then map (wrap_targets (it_wrap_name t)) (spoof_chain pairs) else []) \<and>
    it_wrap_name t' = it_wrap_name t \<and>
    rs' = rs @ (if pairs = [] then [] else [''-j $'' @ port_chain_name hybrid p Spoof])"
proof (cases "pairs = []")
  case False
  let ?n = "port_chain_name hybrid p Spoof"
  from assms False have "add_rules ?n (map source_text pairs @ [''-j DROP'']) (add_chain ?n True t) = Inr t'"
    "rs' = rs @ [''-j $'' @ ?n]" by (auto simp: setup_spoof_filter_chain_def Let_def bindR_Inr_iff spoof_entry_text)
  with add_rules_effect [OF this(1), of m] False show ?thesis by (simp add: spoof_chain_def)
qed (use assms in \<open>simp add: setup_spoof_filter_chain_def spoof_chain_def\<close>)

lemma adds_spoof:
  assumes "spoofing_rule hybrid na p ts = Inr (rs, ts')"
  shows "adds m (if m = port_chain_name hybrid p Spoof then expected_both hybrid na p Spoof else ([], [])) ts ts'"
    "fst rs @ [''-p udp -m udp --sport 67 --dport 68 -j DROP''] @ group_rules p Egress True = expected_rules hybrid na p Egress True"
    "snd rs @ group_rules p Egress False = expected_rules hybrid na p Egress False"
proof -
  let ?ps = "fp_allowed_pairs p @ map (Pair (fp_mac p)) (fp_fixed_ips p)"
  from assms obtain v4 v6 r4 r6 where build: "build_mac_ip_lists na ?ps = Inr (v4, v6)" and run:
    "setup_spoof_filter_chain hybrid p (v4 @ (if fp_fixed_ips p = [] then [(fp_mac p, None)] else []))
       (fst ts, [''-p udp -m udp --sport 68 --dport 67 -j RETURN'']) = Inr (fst ts', r4)"
    "setup_spoof_filter_chain hybrid p (v6 @ (if fp_fixed_ips p = [] then [(fp_mac p, None)] else []))
       (snd ts, [''-p icmpv6 -j RETURN'']) = Inr (snd ts', r6)" and rs: "rs = (r4, r6)"
    unfolding spoofing_rule_def Let_def bindR_Inr_iff by (auto simp: bindR_Inr_iff)
  have "v4 @ (if fp_fixed_ips p = [] then [(fp_mac p, None)] else []) = source_pairs na p True"
    "v6 @ (if fp_fixed_ips p = [] then [(fp_mac p, None)] else []) = source_pairs na p False"
    using build_pairs [OF build] by (simp_all add: source_pairs_def)
  note run = run [unfolded this]
  from spoof_effect [OF run(1), of m] spoof_effect [OF run(2), of m]
  show "adds m (if m = port_chain_name hybrid p Spoof then expected_both hybrid na p Spoof else ([], [])) ts ts'"
    by (auto simp: adds_def expected_both_def)
  from spoof_effect [OF run(1)] spoof_effect [OF run(2)] rs
  show "fst rs @ [''-p udp -m udp --sport 67 --dport 68 -j DROP''] @ group_rules p Egress True = expected_rules hybrid na p Egress True"
    "snd rs @ group_rules p Egress False = expected_rules hybrid na p Egress False" by simp_all
qed

section \<open>The chains of a port\<close>

text \<open>The names of the chains of a port differ, and none is a builtin one.\<close>

definition names_apart :: "bool \<Rightarrow> fw_port \<Rightarrow> bool" where
  "names_apart hybrid p \<longleftrightarrow>
     distinct [port_chain_name hybrid p Ingress, port_chain_name hybrid p Egress, port_chain_name hybrid p Spoof] \<and>
     port_chains hybrid p \<inter> {''FORWARD'', ''INPUT'', SG_CHAIN} = {}"

lemma name_eq_iff [simp]:
  assumes "names_apart hybrid p"
  shows "port_chain_name hybrid p d = port_chain_name hybrid p d' \<longleftrightarrow> d = d'"
  using assms by (cases d; cases d') (auto simp: names_apart_def)

lemma own_not_builtin: "names_apart hybrid p \<Longrightarrow> port_chain_name hybrid p d \<notin> {''FORWARD'', ''INPUT'', SG_CHAIN}"
  using port_chains_mem [of hybrid p d] unfolding names_apart_def by blast

text \<open>What setting up the chain for a direction adds to a chain: egress brings the spoofing chain with it.\<close>

definition brought :: "bool \<Rightarrow> netaddr \<Rightarrow> fw_port \<Rightarrow> direction set \<Rightarrow> string \<Rightarrow> string list \<times> string list" where
  "brought hybrid na p D m =
     (if \<exists>d \<in> D. m = port_chain_name hybrid p d
      then expected_both hybrid na p (THE d. m = port_chain_name hybrid p d) else ([], []))"

lemma brought_own [simp]:
  assumes "names_apart hybrid p"
  shows "brought hybrid na p D (port_chain_name hybrid p d) = (if d \<in> D then expected_both hybrid na p d else ([], []))"
proof -
  have "(THE d'. port_chain_name hybrid p d = port_chain_name hybrid p d') = d" using assms by auto
  with assms show ?thesis by (auto simp: brought_def)
qed

lemma brought_other: "m \<notin> port_chains hybrid p \<Longrightarrow> brought hybrid na p D m = ([], [])"
  using port_chains_mem [of hybrid p] by (auto simp: brought_def)

lemma adds_brought:
  assumes "adds m (brought hybrid na p A m) ts ts'" "adds m (brought hybrid na p B m) ts' ts''" "A \<inter> B = {}"
    and "names_apart hybrid p"
  shows "adds m (brought hybrid na p (A \<union> B) m) ts ts''"
proof (cases "m \<in> port_chains hybrid p")
  case True
  then obtain d where m: "m = port_chain_name hybrid p d" by (auto simp: port_chains_def)
  from assms show ?thesis by (cases "d \<in> A"; cases "d \<in> B") (auto simp: m intro: adds_none_trans)
next
  case False
  with assms(1,2) show ?thesis by (auto simp: brought_other intro: adds_none_trans)
qed

lemma brought_single: "(if m = port_chain_name hybrid p d then expected_both hybrid na p d else ([], [])) = brought hybrid na p {d} m"
  if "names_apart hybrid p"
  using that by (auto simp: brought_def intro: arg_cong [where f = "expected_both hybrid na p"])

lemma adds_by_security_group:
  assumes "add_rule_by_security_group hybrid na p d ts = Inr ts'" "d \<noteq> Spoof" and apart: "names_apart hybrid p"
  shows "adds m (brought hybrid na p (if d = Egress then {Egress, Spoof} else {d}) m) ts ts'"
proof -
  let ?n = "port_chain_name hybrid p d"
  obtain v4 v6 where v: "split_sgr_by_ethertype (select_sgr_by_direction p d) = (v4, v6)" by force
  note G = group_rules_made [OF v]
  from assms(1) obtain s4 s6 t1 where
    t1: "(if d = Egress then spoofing_rule hybrid na p ts else Inr (([], []), ts)) = Inr ((s4, s6), t1)" and
    t2: "add_rule_to_chain_v4v6 ?n
       (s4 @ (if d = Egress then drop_dhcp_rule else []) @ group_rules p d True)
       (s6 @ (if d = Ingress then accept_inbound_icmpv6 else []) @ group_rules p d False) t1 = Inr ts'"
    by (auto simp: add_rule_by_security_group_def Let_def bindR_Inr_iff v G)
  show ?thesis
  proof (cases "d = Egress")
    case True
    with t1 have sp: "spoofing_rule hybrid na p ts = Inr ((s4, s6), t1)" by simp
    note S = adds_spoof(1) [OF sp, of m] adds_spoof(2,3) [OF sp, unfolded fst_conv snd_conv]
    have "(s4 @ (if d = Egress then drop_dhcp_rule else []) @ group_rules p d True,
        s6 @ (if d = Ingress then accept_inbound_icmpv6 else []) @ group_rules p d False) = expected_both hybrid na p Egress"
      using True by (simp only: expected_both_def S(2,3) [symmetric] drop_dhcp_rule_def if_True direction.distinct if_False append_Nil simp_thms)
    with adds_rules [OF t2, of m] True have e: "adds m (brought hybrid na p {Egress} m) t1 ts'"
      by (simp only: brought_single [OF apart, symmetric] port_chain_name_short)
    from S(1) have "adds m (brought hybrid na p {Spoof} m) ts t1" by (simp add: brought_single [OF apart])
    from adds_brought [OF this e _ apart] have "adds m (brought hybrid na p ({Spoof} \<union> {Egress}) m) ts ts'" by simp
    with True show ?thesis by (simp add: insert_commute)
  next
    case False
    with assms(2) have d: "d = Ingress" by (cases d) auto
    from t1 d have none: "s4 = []" "s6 = []" "t1 = ts" by simp_all
    have "expected_both hybrid na p d =
        (s4 @ (if d = Egress then drop_dhcp_rule else []) @ group_rules p d True,
         s6 @ (if d = Ingress then accept_inbound_icmpv6 else []) @ group_rules p d False)"
      by (simp add: d none expected_both_def accept_inbound_icmpv6_def)
    with adds_rules [OF t2, of m] none(3) False show ?thesis
      by (simp only: brought_single [OF apart, symmetric] port_chain_name_short if_False)
  qed
qed

lemma adds_setup_chain:
  assumes "setup_chain hybrid na p d ts = Inr ts'" "d \<noteq> Spoof" "names_apart hybrid p"
    and "m \<notin> {''FORWARD'', ''INPUT'', SG_CHAIN}"
  shows "adds m (brought hybrid na p (if d = Egress then {Egress, Spoof} else {d}) m) ts ts'"
proof -
  from assms(1) obtain t1 where t1: "add_port_chain hybrid p d ts = Inr t1"
    "add_rule_by_security_group hybrid na p d t1 = Inr ts'" by (auto simp: setup_chain_def bindR_Inr_iff)
  from adds_port_chain [OF t1(1) assms(4)] adds_by_security_group [OF t1(2) assms(2,3)] show ?thesis
    by (rule adds_none_trans(1))
qed

lemma adds_setup_port:
  assumes "setup_port hybrid na p ts = Inr ts'" "names_apart hybrid p" "m \<notin> {''FORWARD'', ''INPUT'', SG_CHAIN}"
  shows "adds m (brought hybrid na p UNIV m) ts ts'"
proof -
  from assms(1) obtain t1 t2 where t: "setup_chain hybrid na p Ingress ts = Inr t1" "setup_chain hybrid na p Egress t1 = Inr t2"
    "add_rule_to_chain_v4v6 SG_CHAIN [''-j ACCEPT''] [''-j ACCEPT''] t2 = Inr ts'"
    by (auto simp: setup_port_def bindR_Inr_iff)
  have "adds m (brought hybrid na p ({Ingress} \<union> {Egress, Spoof}) m) ts t2"
    using adds_setup_chain [OF t(1) _ assms(2,3)] adds_setup_chain [OF t(2) _ assms(2,3)]
    by (intro adds_brought [OF _ _ _ assms(2)]) simp_all
  moreover have "{Ingress} \<union> {Egress, Spoof} = UNIV" using direction.exhaust by auto
  moreover have "adds_none m t2 ts'" using adds_rules_other [OF t(3), of m] assms(3) by simp
  ultimately show ?thesis using adds_none_trans(2) by simp
qed

definition ports_apart :: "bool \<Rightarrow> fw_port list \<Rightarrow> bool" where
  "ports_apart hybrid ps \<longleftrightarrow>
     (\<forall>p \<in> set ps. names_apart hybrid p) \<and> distinct ps \<and>
     (\<forall>p \<in> set ps. \<forall>q \<in> set ps. p \<noteq> q \<longrightarrow> port_chains hybrid p \<inter> port_chains hybrid q = {})"

lemma adds_other_ports:
  assumes "setup_ports hybrid na ps ts = Inr ts'" "\<forall>p \<in> set ps. names_apart hybrid p \<and> m \<notin> port_chains hybrid p"
    and "m \<notin> {''FORWARD'', ''INPUT'', SG_CHAIN}"
  shows "adds_none m ts ts'"
  using assms
proof (induction ps arbitrary: ts)
  case (Cons p ps)
  then obtain t1 where t1: "setup_port hybrid na p ts = Inr t1" "setup_ports hybrid na ps t1 = Inr ts'"
    by (auto simp: bindR_Inr_iff)
  have "adds_none m ts t1" using adds_setup_port [OF t1(1) _ assms(3)] Cons.prems(2) by (simp add: brought_other)
  with Cons.IH [OF t1(2)] Cons.prems show ?case by (auto intro: adds_none_trans)
qed (simp add: adds_refl)

lemma adds_setup_ports:
  assumes "setup_ports hybrid na ps ts = Inr ts'" "p \<in> set ps" "ports_apart hybrid ps"
  shows "adds (port_chain_name hybrid p d) (expected_both hybrid na p d) ts ts'"
  using assms
proof (induction ps arbitrary: ts)
  case (Cons q ps)
  let ?m = "port_chain_name hybrid p d"
  from Cons.prems(1) obtain t1 where t1: "setup_port hybrid na q ts = Inr t1" "setup_ports hybrid na ps t1 = Inr ts'"
    by (auto simp: bindR_Inr_iff)
  have own: "?m \<notin> {''FORWARD'', ''INPUT'', SG_CHAIN}" "names_apart hybrid q"
    using own_not_builtin [of hybrid p d] Cons.prems(2,3) unfolding ports_apart_def by auto
  have apart: "ports_apart hybrid ps" using Cons.prems(3) by (auto simp: ports_apart_def)
  have other: "?m \<notin> port_chains hybrid q'" if "q' \<in> set (q # ps)" "q' \<noteq> p" for q'
    using Cons.prems(2,3) that port_chains_mem [of hybrid p d] unfolding ports_apart_def by blast
  note first = adds_setup_port [OF t1(1) own(2,1)]
  show ?case
  proof (cases "p = q")
    case True
    with Cons.prems(3) have "p \<notin> set ps" by (auto simp: ports_apart_def)
    then have "adds_none ?m t1 ts'" using Cons.prems(3) other
      by (intro adds_other_ports [OF t1(2) _ own(1)]) (auto simp: ports_apart_def)
    moreover from first own(2) True have "adds ?m (expected_both hybrid na p d) ts t1" by simp
    ultimately show ?thesis using adds_none_trans(2) by blast
  next
    case False
    with Cons.prems(2) have "p \<in> set ps" by simp
    from Cons.IH [OF t1(2) this apart] have "adds ?m (expected_both hybrid na p d) t1 ts'" .
    moreover from first other [of q] False have "adds_none ?m ts t1" by (simp add: brought_other)
    ultimately show ?thesis using adds_none_trans(1) by blast
  qed
qed simp

lemma harmless_no_rules: "harmless b n \<Longrightarrow> chain_rules n b = []"
  by (auto simp: harmless_def chain_rules_def filter_empty_conv)

lemma wrap_jump: "CHR '' '' \<notin> set n \<Longrightarrow> wrap_targets w (''-j $'' @ n) = ''-j '' @ w @ ''-'' @ n"
  using split_word_sep [of "CHR '' ''" "''-j''" "CHR ''$'' # n"] split_word [of "CHR '' ''" "CHR ''$'' # n"]
  by (simp add: wrap_targets_def wrap_target_chain_def py_startswith_def)

lemma last_expected:
  assumes "d \<noteq> Spoof"
  shows "\<exists>rs. expected_rules hybrid na p d v4 = rs @ [''-j $sg-fallback'']"
  using assms by (cases d) (auto simp: group_rules_def)

section \<open>The chains of a new driver\<close>

lemma chain_rules_unwrapped [simp]: "chain_rules n (add_unwrapped c s tp t) = chain_rules n t"
  by (auto simp: add_unwrapped_def add_rule_def Let_def chain_rules_def split: sum.splits)

lemma wrap_name_unwrapped [simp]: "it_wrap_name (add_unwrapped c s tp t) = it_wrap_name t"
  by (auto simp: add_unwrapped_def add_rule_def Let_def split: sum.splits)

lemma chains_unwrapped [simp]: "it_chains (add_unwrapped c s tp t) = it_chains t"
  by (auto simp: add_unwrapped_def add_rule_def Let_def split: sum.splits)

lemma initial_filter_chains: "chain_rules n (initial_filter w) = []" "it_wrap_name (initial_filter w) = take 16 w"
proof -
  have "chain_rules n (new_table w) = []" "it_wrap_name (new_table w) = take 16 w"
    by (simp_all add: chain_rules_def new_table_def)
  then show "chain_rules n (initial_filter w) = []" "it_wrap_name (initial_filter w) = take 16 w"
    by (simp_all add: initial_filter_def)
qed

lemma add_rule_has_chain: "add_rule c s True False None t = Inr t' \<Longrightarrow> get_chain_name c True \<in> set (it_chains t')"
  by (auto simp: add_rule_Inr)

text \<open>The base has one wrapped rule of its own, the \<open>DROP\<close> of the fallback chain.\<close>

lemma new_driver_fallback:
  assumes "new_fw_driver bin hybrid = Inr fw0" "get_filters (fd_iptables fw0) = Inr bs"
  shows "chain_rules ''sg-fallback'' (fst bs) = [''-j DROP'']" "chain_rules ''sg-fallback'' (snd bs) = [''-j DROP'']"
    "it_wrap_name (fst bs) = take 16 bin" "it_wrap_name (snd bs) = take 16 bin"
    "''sg-fallback'' \<in> set (it_chains (fst bs))"
proof -
  let ?f = "\<lambda>m. \<lparr>fd_iptables = m, fd_filtered = [], fd_defer = False, fd_pre_defer = None, fd_hybrid = hybrid\<rparr>"
  let ?ts = "(initial_filter (take 16 bin), initial_filter (take 16 bin))"
  from assms(1) obtain m where m: "new_manager bin False True = Inr m"
    and f: "on_filters add_fallback_chain_v4v6 (?f m) = Inr fw0" by (auto simp: new_fw_driver_def bindR_Inr_iff)
  from m have "get_filters m = Inr ?ts" by (auto simp: new_manager_def Let_def bindR_Inr_iff get_filters_def)
  with f assms(2) have bs: "add_rule_to_chain_v4v6 ''sg-fallback'' [''-j DROP''] [''-j DROP'']
      (add_chain_by_name_v4v6 ''sg-fallback'' ?ts) = Inr bs"
    by (auto simp: on_filters_def bindR_Inr_iff add_fallback_chain_v4v6_def)
  have name: "get_chain_name ''sg-fallback'' True = ''sg-fallback''" by (simp add: get_chain_name_def)
  have drop: "wrap_targets w ''-j DROP'' = ''-j DROP''" for w by (simp add: wrap_targets_def)
  from adds_rules [OF bs, of "''sg-fallback''"] adds_chain [where m = "''sg-fallback''" and n = "''sg-fallback''" and ts = ?ts]
  show "chain_rules ''sg-fallback'' (fst bs) = [''-j DROP'']" "chain_rules ''sg-fallback'' (snd bs) = [''-j DROP'']"
    "it_wrap_name (fst bs) = take 16 bin" "it_wrap_name (snd bs) = take 16 bin"
    by (simp_all add: name adds_def initial_filter_chains drop)
  from bs have "add_rule ''sg-fallback'' ''-j DROP'' True False None (fst (add_chain_by_name_v4v6 ''sg-fallback'' ?ts)) = Inr (fst bs)"
    by (auto simp: add_v4v6_Inr bindR_Inr_iff)
  from add_rule_has_chain [OF this] show "''sg-fallback'' \<in> set (it_chains (fst bs))" by (simp only: name)
qed

text \<open>
  C33: in every state a firewall driver reaches, the tables hold for each port they are built for exactly these
  rules, for either version of IP.  Its ingress chain: for IPv6 the accepted ICMPv6 types, then the rules of
  its security groups.  Its egress chain: the packets of DHCP clients (ICMPv6), then, whenever there is an
  allowed pair of addresses of this version or the port has no fixed address, the jump to its spoofing chain,
  for IPv4 the drop of DHCP server packets, then the rules of its security groups.  Its spoofing chain: the
  allowed pairs and a final \<open>DROP\<close>.  The rules of the security groups end with the jump to the fallback
  chain, whose only rule is \<open>DROP\<close>.  The names of the chains of the ports have to be different.
\<close>

theorem port_chain_rules:
  assumes "new_fw_driver bin hybrid = Inr fw0" "get_filters (fd_iptables fw0) = Inr bs"
    and "harmless2 bs SG_CHAIN" "fw_reach na (port_harmless hybrid bs) fw0 fw"
    and "ports_apart hybrid (built_ports fw)"
  shows "\<exists>t4 t6. get_filters (fd_iptables fw) = Inr (t4, t6) \<and>
    chain_rules ''sg-fallback'' t4 = [''-j DROP''] \<and> chain_rules ''sg-fallback'' t6 = [''-j DROP''] \<and>
    (\<forall>p \<in> set (built_ports fw). \<forall>(t, v4) \<in> {(t4, True), (t6, False)}.
       (\<forall>d. chain_rules (port_chain_name hybrid p d) t = map (wrap_targets (take 16 bin)) (expected_rules hybrid na p d v4)) \<and>
       (\<forall>d \<in> {Ingress, Egress}. last (chain_rules (port_chain_name hybrid p d) t) = ''-j '' @ take 16 bin @ ''-sg-fallback'') \<and>
       (source_pairs na p v4 \<noteq> [] \<longrightarrow> ''-j '' @ take 16 bin @ ''-'' @ port_chain_name hybrid p Spoof
          \<in> set (chain_rules (port_chain_name hybrid p Egress) t)))"
proof -
  note B = new_driver_fallback [OF assms(1,2)]
  from fw_reach_ok [OF assms(1-4)] obtain ts where ts: "get_filters (fd_iptables fw) = Inr ts"
    and b: "ts = bs \<and> built_ports fw = [] \<or> setup_chains_apply hybrid na (built_ports fw) bs = Inr ts"
    and harm: "\<forall>p \<in> set (built_ports fw). port_harmless hybrid bs p" by (auto simp: fw_ok_def built_def)
  have own: "harmless2 bs (port_chain_name hybrid p d)" if "p \<in> set (built_ports fw)" for p d
    using harm that port_chains_mem [of hybrid p d] by (auto simp: port_harmless_def)
  have rules: "adds (port_chain_name hybrid p d) (expected_both hybrid na p d) bs ts" if "p \<in> set (built_ports fw)" for p d
  proof -
    from b that have "setup_ports hybrid na (built_ports fw) (add_chain_by_name_v4v6 SG_CHAIN bs) = Inr ts"
      by (auto simp: setup_chains_apply_def)
    from adds_setup_ports [OF this that assms(5)] show ?thesis using adds_chain adds_none_trans(1) by blast
  qed
  have "adds_none ''sg-fallback'' bs ts"
  proof (cases "ts = bs")
    case False
    with b have run: "setup_ports hybrid na (built_ports fw) (add_chain_by_name_v4v6 SG_CHAIN bs) = Inr ts"
      by (auto simp: setup_chains_apply_def)
    have "\<forall>p \<in> set (built_ports fw). names_apart hybrid p \<and> ''sg-fallback'' \<notin> port_chains hybrid p"
      using assms(5) own B(5) by (auto simp: ports_apart_def port_chains_def harmless2_def harmless_def)
    from adds_other_ports [OF run this] have "adds_none ''sg-fallback'' (add_chain_by_name_v4v6 SG_CHAIN bs) ts"
      by (simp add: SG_CHAIN_def)
    with adds_chain show ?thesis by (rule adds_none_trans(1))
  qed (simp add: adds_refl)
  then have fallback: "chain_rules ''sg-fallback'' (fst ts) = [''-j DROP'']" "chain_rules ''sg-fallback'' (snd ts) = [''-j DROP'']"
    using B by (simp_all add: adds_def)
  have chain: "chain_rules (port_chain_name hybrid p d) t = map (wrap_targets (take 16 bin)) (expected_rules hybrid na p d v4)"
    if "p \<in> set (built_ports fw)" "(t, v4) \<in> {(fst ts, True), (snd ts, False)}" for p d t v4
    using rules [OF that(1), of d] own [OF that(1), of d] that(2) B(3,4)
    by (auto simp: adds_def expected_both_def harmless2_def harmless_no_rules)
  have jump: "wrap_targets (take 16 bin) (''-j $'' @ port_chain_name hybrid p d) = ''-j '' @ take 16 bin @ ''-'' @ port_chain_name hybrid p d"
    if "p \<in> set (built_ports fw)" for p d
    using own [OF that, of d] by (intro wrap_jump) (simp add: harmless2_def harmless_def)
  have last_rule: "last (map (wrap_targets (take 16 bin)) (expected_rules hybrid na p d v4)) = ''-j '' @ take 16 bin @ ''-sg-fallback''"
    if "d \<noteq> Spoof" for p d v4
  proof -
    from last_expected [OF that] obtain rs where "expected_rules hybrid na p d v4 = rs @ [''-j $sg-fallback'']" by blast
    then show ?thesis using wrap_jump [of "''sg-fallback''"] by simp
  qed
  have spoof: "''-j '' @ take 16 bin @ ''-'' @ port_chain_name hybrid p Spoof
      \<in> set (map (wrap_targets (take 16 bin)) (expected_rules hybrid na p Egress v4))"
    if "p \<in> set (built_ports fw)" "source_pairs na p v4 \<noteq> []" for p v4
  proof -
    have "''-j $'' @ port_chain_name hybrid p Spoof \<in> set (expected_rules hybrid na p Egress v4)" using that(2) by simp
    then show ?thesis unfolding jump [OF that(1), of Spoof, symmetric] set_map by (rule imageI)
  qed
  have "(\<forall>d. chain_rules (port_chain_name hybrid p d) t = map (wrap_targets (take 16 bin)) (expected_rules hybrid na p d v4)) \<and>
       (\<forall>d \<in> {Ingress, Egress}. last (chain_rules (port_chain_name hybrid p d) t) = ''-j '' @ take 16 bin @ ''-sg-fallback'') \<and>
       (source_pairs na p v4 \<noteq> [] \<longrightarrow> ''-j '' @ take 16 bin @ ''-'' @ port_chain_name hybrid p Spoof
          \<in> set (chain_rules (port_chain_name hybrid p Egress) t))"
    if p: "p \<in> set (built_ports fw)" "(t, v4) \<in> {(fst ts, True), (snd ts, False)}" for p t v4
    unfolding chain [OF p] using last_rule spoof [OF p(1)] by (intro conjI allI ballI impI) (rule refl, blast, blast)
  then have "\<forall>p \<in> set (built_ports fw). \<forall>(t, v4) \<in> {(fst ts, True), (snd ts, False)}.
       (\<forall>d. chain_rules (port_chain_name hybrid p d) t = map (wrap_targets (take 16 bin)) (expected_rules hybrid na p d v4)) \<and>
       (\<forall>d \<in> {Ingress, Egress}. last (chain_rules (port_chain_name hybrid p d) t) = ''-j '' @ take 16 bin @ ''-sg-fallback'') \<and>
       (source_pairs na p v4 \<noteq> [] \<longrightarrow> ''-j '' @ take 16 bin @ ''-'' @ port_chain_name hybrid p Spoof
          \<in> set (chain_rules (port_chain_name hybrid p Egress) t))" by blast
  moreover have "get_filters (fd_iptables fw) = Inr (fst ts, snd ts)" using ts by simp
  ultimately show ?thesis using fallback by blast
qed

lemma demo_setup: "setup_chains_apply False demo_netaddr [demo_fw_port] demo_base =
    Inr (case setup_chains_apply False demo_netaddr [demo_fw_port] demo_base of Inr ts \<Rightarrow> ts)"
proof -
  have "case setup_chains_apply False demo_netaddr [demo_fw_port] demo_base of Inr _ \<Rightarrow> True | Inl _ \<Rightarrow> False" by code_simp
  then show ?thesis by (auto split: sum.splits)
qed

theorem port_chain_rules_witness:
  "\<exists>t4 t6. get_filters (fd_iptables demo_fw1) = Inr (t4, t6) \<and> last (chain_rules ''i1'' t4) = ''-j agent-sg-fallback'' \<and>
    ''-j agent-s1'' \<in> set (chain_rules ''o1'' t6)"
proof -
  have apart: "ports_apart False (built_ports demo_fw1)" unfolding demo_built by code_simp
  have n: "port_chain_name False demo_fw_port Ingress = ''i1''" "port_chain_name False demo_fw_port Egress = ''o1''"
    "port_chain_name False demo_fw_port Spoof = ''s1''" by code_simp+
  have "source_pairs demo_netaddr demo_fw_port False \<noteq> []" by (simp add: source_pairs_def demo_fw_port_def)
  with port_chain_rules [OF demo_fw0_new demo_base_filters _ demo_fw1_reach apart] demo_base_ok n show ?thesis
    by (fastforce simp: demo_built)
qed

section \<open>The rule that accepts\<close>

lemma accept_appended:
  "add_rule SG_CHAIN ''-j ACCEPT'' True False None t = Inr t' \<Longrightarrow>
     \<exists>rs. it_rules t' = rs @ [new_rule SG_CHAIN ''-j ACCEPT'' True False (it_wrap_name t') None]"
  by (auto simp: add_rule_Inr wrap_targets_def)

lemma setup_ports_last:
  assumes "setup_ports hybrid na ps ts = Inr ts'" "ps \<noteq> []"
  shows "\<exists>rs4 rs6. it_rules (fst ts') = rs4 @ [new_rule SG_CHAIN ''-j ACCEPT'' True False (it_wrap_name (fst ts')) None] \<and>
    it_rules (snd ts') = rs6 @ [new_rule SG_CHAIN ''-j ACCEPT'' True False (it_wrap_name (snd ts')) None]"
  using assms
proof (induction ps arbitrary: ts)
  case (Cons p ps)
  from Cons.prems(1) obtain t1 where t1: "setup_port hybrid na p ts = Inr t1" "setup_ports hybrid na ps t1 = Inr ts'"
    by (auto simp: bindR_Inr_iff)
  show ?case
  proof (cases "ps = []")
    case True
    with t1 obtain t2 where "add_rule_to_chain_v4v6 SG_CHAIN [''-j ACCEPT''] [''-j ACCEPT''] t2 = Inr ts'"
      by (auto simp: setup_port_def bindR_Inr_iff)
    then have "add_rule SG_CHAIN ''-j ACCEPT'' True False None (fst t2) = Inr (fst ts')"
      "add_rule SG_CHAIN ''-j ACCEPT'' True False None (snd t2) = Inr (snd ts')" by (auto simp: add_v4v6_Inr bindR_Inr_iff)
    from accept_appended [OF this(1)] accept_appended [OF this(2)] show ?thesis by blast
  qed (use Cons.IH [OF t1(2)] in simp)
qed simp

definition accept_text :: "ip_table \<Rightarrow> string" where
  "accept_text t = py_strip (rule_text (new_rule SG_CHAIN ''-j ACCEPT'' True False (it_wrap_name t) None))"

text \<open>
  C34: in the restored lines the rule that accepts the packets that passed the chains of the ports comes
  after every other rule of the driver, although setting up each port appends it: the manager keeps
  the last of equal rules only.  So no port's packets are accepted before its own chains are traversed.
\<close>

theorem accept_comes_last:
  assumes "setup_chains_apply hybrid na ps bs = Inr ts" "ps \<noteq> []" "t \<in> {fst ts, snd ts}"
    and "\<forall>p \<in> set ps. port_harmless hybrid bs p" "harmless2 bs SG_CHAIN" "no_removals (fst bs)" "no_removals (snd bs)"
    and "modify_rules w ls t ''filter'' = Inr (out, t')" "ls \<noteq> []"
    and "\<forall>n \<in> set (table_chain_names w t). plain_name n \<and> exact_lines CHR '':'' ('':'' @ n) n ls"
    and "\<forall>r \<in> set (it_rules t). exact_lines CHR ''['' (py_strip (rule_text r)) (py_strip (rule_text r)) ls"
  shows "\<exists>xs l ys. out = xs @ l # ys \<and> rule_line (accept_text t) l \<and>
    (\<forall>q \<in> set (it_rules t). py_strip (rule_text q) \<noteq> accept_text t \<longrightarrow> (\<exists>k \<in> set xs. rule_line (py_strip (rule_text q)) k)) \<and>
    (\<forall>q \<in> set (it_rules t). \<forall>k \<in> set ys. \<not> rule_line (py_strip (rule_text q)) k)"
proof -
  let ?r = "new_rule SG_CHAIN ''-j ACCEPT'' True False (it_wrap_name t) None"
  from setup_ports_last [OF assms(1) [unfolded setup_chains_apply_def] assms(2)] assms(3)
  obtain rs where rs: "it_rules t = rs @ [?r]" by auto
  have "built na hybrid bs ps ts" using assms(1) by (simp add: built_def)
  from built_no_removals [OF this assms(4-7)] assms(3) have "it_remove_rules t = []" by (auto simp: no_removals_def)
  moreover have "\<not> ir_top ?r" by simp
  ultimately obtain xs l ys where
    "out = xs @ l # ys" "rule_line (py_strip (rule_text ?r)) l"
    "\<forall>q \<in> set rs. py_strip (rule_text q) \<noteq> py_strip (rule_text ?r) \<longrightarrow> (\<exists>k \<in> set xs. rule_line (py_strip (rule_text q)) k)"
    "\<forall>q \<in> set (it_rules t). \<forall>k \<in> set ys. \<not> rule_line (py_strip (rule_text q)) k"
    using merge_last [OF assms(8,9) rs _ _ assms(10,11)] by blast
  then show ?thesis using rs by (intro exI [of _ xs] exI [of _ l] exI [of _ ys]) (auto simp: accept_text_def)
qed


text \<open>Two ports: the rule that accepts is appended twice, and the first place is dropped.\<close>

definition demo_fw_port2 :: fw_port where
  "demo_fw_port2 = demo_fw_port\<lparr>fp_device := ''tap2''\<rparr>"

definition demo_filters2 :: filters where
  "demo_filters2 =
     (case setup_chains_apply False demo_netaddr [demo_fw_port, demo_fw_port2] demo_base of Inr ts \<Rightarrow> ts)"

definition demo_saved :: "string list" where
  "demo_saved = [''# Generated'', ''*filter'', '':INPUT ACCEPT [0:0]'', ''COMMIT'', ''# Completed'']"

lemma demo_setup2: "setup_chains_apply False demo_netaddr [demo_fw_port, demo_fw_port2] demo_base = Inr demo_filters2"
proof -
  have "case setup_chains_apply False demo_netaddr [demo_fw_port, demo_fw_port2] demo_base of Inr _ \<Rightarrow> True | Inl _ \<Rightarrow> False"
    by code_simp
  then show ?thesis by (auto simp: demo_filters2_def split: sum.splits)
qed

lemma demo_modified: "case modify_rules ''agent'' demo_saved (fst demo_filters2) ''filter'' of
    Inr (out, _) \<Rightarrow> length (filter (\<lambda>l. l = ''[0:0] -A agent-sg-chain -j ACCEPT'') out) = 1 | Inl _ \<Rightarrow> False"
  by code_simp


lemma demo_exact_chains: "\<forall>n \<in> set (table_chain_names ''agent'' (fst demo_filters2)).
    plain_name n \<and> exact_lines CHR '':'' ('':'' @ n) n demo_saved"
  by code_simp

lemma demo_exact_rules: "\<forall>r \<in> set (it_rules (fst demo_filters2)).
    exact_lines CHR ''['' (py_strip (rule_text r)) (py_strip (rule_text r)) demo_saved"
  by code_simp

lemma demo_ports_harmless: "\<forall>p \<in> set [demo_fw_port, demo_fw_port2]. port_harmless False demo_base p"
  by code_simp

theorem accept_comes_last_witness:
  "\<exists>out t' xs l ys. modify_rules ''agent'' demo_saved (fst demo_filters2) ''filter'' = Inr (out, t') \<and>
     out = xs @ l # ys \<and> rule_line (accept_text (fst demo_filters2)) l"
proof -
  obtain out t' where m: "modify_rules ''agent'' demo_saved (fst demo_filters2) ''filter'' = Inr (out, t')"
    using demo_modified by (auto split: sum.splits)
  have "demo_saved \<noteq> []" by code_simp
  moreover have "no_removals (fst demo_base)" "no_removals (snd demo_base)"
    using new_fw_driver_ok [OF demo_fw0_new demo_base_filters] by auto
  ultimately obtain xs l ys where "out = xs @ l # ys" "rule_line (accept_text (fst demo_filters2)) l"
    using accept_comes_last [OF demo_setup2 _ _ demo_ports_harmless conjunct1 [OF demo_base_ok] _ _ m _ demo_exact_chains demo_exact_rules]
    by blast
  with m show ?thesis by blast
qed

end
