(* ===== verification/SecurityGroups.thy ===== *)
theory SecurityGroups
  imports Models PyText
begin

text \<open>
  Security groups: the tables and operations of \<open>neutron/db/securitygroups_db.py\<close> and the exceptions and
  converters of \<open>neutron/extensions/securitygroup.py\<close>.

  The values of \<open>uuidutils.generate_uuid\<close> are a sequence \<open>uuid\<close>, an argument of the operations that create
  rows; the state counts how many of them were drawn.  A number in the text column of the protocol is
  stored and compared as its decimal digits.
\<close>

section \<open>Exceptions\<close>

datatype (plugins only: code size) sg_exc =
    SecurityGroupInvalidPortRange
  | SecurityGroupInvalidPortValue string
  | SecurityGroupInvalidIcmpValue string string int
  | SecurityGroupInUse string
  | SecurityGroupCannotRemoveDefault
  | SecurityGroupCannotUpdateDefault
  | SecurityGroupDefaultAlreadyExists
  | SecurityGroupRuleInvalidProtocol
  | SecurityGroupRulesNotSingleTenant
  | SecurityGroupRemoteGroupAndRemoteIpPrefix
  | SecurityGroupProtocolRequiredWithPorts
  | SecurityGroupNotSingleGroupRules
  | SecurityGroupNotFound string
  | SecurityGroupRuleNotFound string
  | DuplicateSecurityGroupRuleInPost
  | SecurityGroupRuleExists string
  | CoreExc exc

definition sg_exc_base :: "sg_exc \<Rightarrow> exc_class" where
  "sg_exc_base e =
     (case e of
        SecurityGroupInUse _ \<Rightarrow> InUse
      | SecurityGroupCannotRemoveDefault \<Rightarrow> InUse
      | SecurityGroupCannotUpdateDefault \<Rightarrow> InUse
      | SecurityGroupDefaultAlreadyExists \<Rightarrow> InUse
      | SecurityGroupNotFound _ \<Rightarrow> NotFound
      | SecurityGroupRuleNotFound _ \<Rightarrow> NotFound
      | DuplicateSecurityGroupRuleInPost \<Rightarrow> InUse
      | SecurityGroupRuleExists _ \<Rightarrow> InUse
      | CoreExc x \<Rightarrow> exc_base x
      | _ \<Rightarrow> BadRequest)"

section \<open>Tables\<close>

record sg_row =
  g_id :: string
  g_tenant :: string
  g_name :: string
  g_description :: string

record sg_binding_row =
  b_port :: string
  b_group :: string

record sgr_row =
  sr_id :: string
  sr_tenant :: string
  sr_group :: string
  sr_remote_group :: "string option"
  sr_direction :: string
  sr_ethertype :: string
  sr_protocol :: "string option"
  sr_port_min :: "int option"
  sr_port_max :: "int option"
  sr_prefix :: "string option"

record sg_db =
  sg_groups :: "sg_row list"
  sg_rule_rows :: "sgr_row list"
  sg_bindings :: "sg_binding_row list"
  sg_drawn :: nat

type_synonym 'a sgop = "(sg_exc, sg_db, 'a) op"

definition draw_uuid :: "(nat \<Rightarrow> string) \<Rightarrow> string sgop" where
  "draw_uuid uuid = (\<lambda>d. Inr (uuid (sg_drawn d), d\<lparr>sg_drawn := Suc (sg_drawn d)\<rparr>))"

text \<open>Insertion with the primary and the foreign keys enforced.\<close>

definition add_group :: "sg_row \<Rightarrow> unit sgop" where
  "add_group g = (\<lambda>d. if g_id g \<in> g_id ` set (sg_groups d) then Inl (CoreExc IntegrityError)
                       else Inr ((), d\<lparr>sg_groups := sg_groups d @ [g]\<rparr>))"

definition add_sgr :: "sgr_row \<Rightarrow> unit sgop" where
  "add_sgr r = (\<lambda>d. if sr_id r \<in> sr_id ` set (sg_rule_rows d) \<or> sr_group r \<notin> g_id ` set (sg_groups d) \<or>
          (case sr_remote_group r of None \<Rightarrow> False | Some i \<Rightarrow> i \<notin> g_id ` set (sg_groups d))
        then Inl (CoreExc IntegrityError)
                     else Inr ((), d\<lparr>sg_rule_rows := sg_rule_rows d @ [r]\<rparr>))"

definition query_groups :: "ctxt \<Rightarrow> sg_db \<Rightarrow> sg_row list" where
  "query_groups ctx d = model_query ctx (Some g_tenant) None [] (sg_groups d)"

definition query_sgrs :: "ctxt \<Rightarrow> sg_db \<Rightarrow> sgr_row list" where
  "query_sgrs ctx d = model_query ctx (Some sr_tenant) None [] (sg_rule_rows d)"

definition get_group_row :: "ctxt \<Rightarrow> string \<Rightarrow> sg_db \<Rightarrow> sg_exc + sg_row" where
  "get_group_row ctx i d =
     bindR (one_row (CoreExc MultipleResultsFound) (filter (\<lambda>g. g_id g = i) (query_groups ctx d))) (\<lambda>r.
       case r of None \<Rightarrow> Inl (SecurityGroupNotFound i) | Some g \<Rightarrow> Inr g)"

definition get_sgr_row :: "ctxt \<Rightarrow> string \<Rightarrow> sg_db \<Rightarrow> sg_exc + sgr_row" where
  "get_sgr_row ctx i d =
     bindR (one_row (CoreExc MultipleResultsFound) (filter (\<lambda>r. sr_id r = i) (query_sgrs ctx d))) (\<lambda>r.
       case r of None \<Rightarrow> Inl (SecurityGroupRuleNotFound i) | Some g \<Rightarrow> Inr g)"

text \<open>\<open>get_security_group\<close>: with a tenant the context acts for that tenant; the result has the visible rules.\<close>

definition act_for :: "string option \<Rightarrow> ctxt \<Rightarrow> ctxt" where
  "act_for tenant ctx = (case tenant of Some t \<Rightarrow> if t = [] then ctx else ctx\<lparr>ctx_tenant := t\<rparr> | None \<Rightarrow> ctx)"

definition get_security_group :: "ctxt \<Rightarrow> string \<Rightarrow> string option \<Rightarrow> sg_db \<Rightarrow> sg_exc + sg_row \<times> sgr_row list" where
  "get_security_group ctx i tenant d =
     (let c = act_for tenant ctx in
      bindR (get_group_row c i d) (\<lambda>g. Inr (g, filter (\<lambda>r. sr_group r = i) (query_sgrs c d))))"

section \<open>Groups\<close>

definition sg_supported_ethertypes :: "string list" where
  "sg_supported_ethertypes = [''IPv4'', ''IPv6'']"

definition group_rule :: "string \<Rightarrow> sg_row \<Rightarrow> string option \<Rightarrow> string \<Rightarrow> string \<Rightarrow> sgr_row" where
  "group_rule i g remote dir ethertype =
     \<lparr>sr_id = i, sr_tenant = g_tenant g, sr_group = g_id g, sr_remote_group = remote, sr_direction = dir,
      sr_ethertype = ethertype, sr_protocol = None, sr_port_min = None, sr_port_max = None, sr_prefix = None\<rparr>"

text \<open>The rules of a new group for one version of IP.\<close>

definition add_group_rules :: "(nat \<Rightarrow> string) \<Rightarrow> sg_row \<Rightarrow> string \<Rightarrow> unit sgop" where
  "add_group_rules uuid g ethertype =
     thenE
       (if g_name g = ''default''
        then bindE (draw_uuid uuid) (\<lambda>i. add_sgr (group_rule i g (Some (g_id g)) ''ingress'' ethertype))
        else returnE ())
       (bindE (draw_uuid uuid) (\<lambda>i. add_sgr (group_rule i g None ''egress'' ethertype)))"

text \<open>The transaction of \<open>create_security_group\<close>; \<open>i\<close> is the \<open>id\<close> of the request, if it has one.\<close>

definition store_group :: "(nat \<Rightarrow> string) \<Rightarrow> string option \<Rightarrow> string \<Rightarrow> string \<Rightarrow> string \<Rightarrow> sg_row sgop" where
  "store_group uuid i tenant_id name description =
     bindE (case i of None \<Rightarrow> draw_uuid uuid | Some x \<Rightarrow> if x = [] then draw_uuid uuid else returnE x) (\<lambda>new_id.
     (let g = \<lparr>g_id = new_id, g_tenant = tenant_id, g_name = name, g_description = description\<rparr> in
      thenE (add_group g) (thenE (forE (add_group_rules uuid g) sg_supported_ethertypes) (returnE g))))"

definition tenant_for :: "ctxt \<Rightarrow> string option \<Rightarrow> string sgop" where
  "tenant_for ctx tenant =
     liftE (case get_tenant_id_for_create ctx tenant of Inl e \<Rightarrow> Inl (CoreExc e) | Inr t \<Rightarrow> Inr t)"

text \<open>\<open>_ensure_default_security_group\<close>, with the creation of the group (\<open>default_sg\<close> is true in it).\<close>

definition ensure_default_security_group :: "(nat \<Rightarrow> string) \<Rightarrow> ctxt \<Rightarrow> string \<Rightarrow> string sgop" where
  "ensure_default_security_group uuid ctx tenant_id =
     bindE (getsE (\<lambda>d. filter (\<lambda>g. g_name g = ''default'' \<and> g_tenant g = tenant_id) (query_groups ctx d))) (\<lambda>default_group.
       case default_group of
         g # _ \<Rightarrow> returnE (g_id g)
       | [] \<Rightarrow>
           bindE (tenant_for ctx (Some tenant_id)) (\<lambda>t.
           bindE (store_group uuid None t ''default'' ''default'') (\<lambda>g. returnE (g_id g))))"

record sg_request =
  q_id :: "string option"
  q_tenant :: "string option"
  q_name :: string
  q_description :: string

definition create_security_group :: "(nat \<Rightarrow> string) \<Rightarrow> ctxt \<Rightarrow> sg_request \<Rightarrow> bool \<Rightarrow> sg_row sgop" where
  "create_security_group uuid ctx s default_sg =
     bindE (tenant_for ctx (q_tenant s)) (\<lambda>tenant_id.
     thenE (if default_sg then returnE []
            else ensure_default_security_group uuid ctx tenant_id)
       (store_group uuid (q_id s) tenant_id (q_name s) (q_description s)))"

text \<open>\<open>flt\<close>: what the filters of the request select.\<close>

definition get_security_groups :: "(nat \<Rightarrow> string) \<Rightarrow> ctxt \<Rightarrow> (sg_row \<Rightarrow> bool) \<Rightarrow> bool \<Rightarrow> sg_row list sgop" where
  "get_security_groups uuid ctx flt default_sg =
     thenE (if \<not> default_sg \<and> ctx_tenant ctx \<noteq> []
            then ensure_default_security_group uuid ctx (ctx_tenant ctx) else returnE [])
       (getsE (\<lambda>d. filter flt (query_groups ctx d)))"

text \<open>Deleting a group deletes its rules and the rules of other groups that refer to it.\<close>

definition delete_security_group :: "ctxt \<Rightarrow> string \<Rightarrow> unit sgop" where
  "delete_security_group ctx i =
     bindE (getsE (\<lambda>d. filter (\<lambda>b. b_group b = i) (sg_bindings d))) (\<lambda>ports.
     if ports \<noteq> [] then raiseE (SecurityGroupInUse i)
     else
       bindE (checkE (get_group_row ctx i)) (\<lambda>sg.
       if g_name sg = ''default'' \<and> \<not> ctx_is_admin ctx then raiseE SecurityGroupCannotRemoveDefault
       else modifyE (\<lambda>d. d\<lparr>sg_groups := filter (\<lambda>g. g_id g \<noteq> i) (sg_groups d),
              sg_rule_rows := filter (\<lambda>r. sr_group r \<noteq> i \<and> sr_remote_group r \<noteq> Some i) (sg_rule_rows d)\<rparr>)))"

definition update_security_group :: "ctxt \<Rightarrow> string \<Rightarrow> string option \<Rightarrow> string option \<Rightarrow> sg_row sgop" where
  "update_security_group ctx i name description =
     bindE (checkE (get_group_row ctx i)) (\<lambda>sg.
     if g_name sg = ''default'' \<and> name \<noteq> None then raiseE SecurityGroupCannotUpdateDefault
     else
       (let sg' = sg\<lparr>g_name := (case name of None \<Rightarrow> g_name sg | Some n \<Rightarrow> n),
            g_description := (case description of None \<Rightarrow> g_description sg | Some n \<Rightarrow> n)\<rparr> in
        thenE (modifyE (\<lambda>d. d\<lparr>sg_groups := replace_row sg sg' (sg_groups d)\<rparr>)) (returnE sg')))"

section \<open>Rules\<close>

text \<open>The protocol of a request, after its conversion: a number or a name in lower case.\<close>

datatype proto = ProtoNum int | ProtoName string

record sgr_request =
  rq_tenant :: string
  rq_group :: string
  rq_remote_group :: "string option"
  rq_direction :: string
  rq_ethertype :: string
  rq_protocol :: "proto option"
  rq_port_min :: "int option"
  rq_port_max :: "int option"
  rq_prefix :: "string option"

definition IP_PROTOCOL_MAP :: "string \<Rightarrow> int option" where
  "IP_PROTOCOL_MAP = map_of [(''tcp'', 6), (''udp'', 17), (''icmp'', 1), (''icmpv6'', 58)]"

definition get_ip_proto_number :: "proto option \<Rightarrow> proto option" where
  "get_ip_proto_number protocol =
     (case protocol of
        Some (ProtoName n) \<Rightarrow> (case IP_PROTOCOL_MAP n of Some k \<Rightarrow> Some (ProtoNum k) | None \<Rightarrow> protocol)
      | _ \<Rightarrow> protocol)"

definition no_proto :: "proto option \<Rightarrow> bool" where
  "no_proto p \<longleftrightarrow> p = None \<or> p = Some (ProtoNum 0) \<or> p = Some (ProtoName [])"

definition le_opt :: "int \<Rightarrow> int option \<Rightarrow> bool" where
  "le_opt a b = (case b of None \<Rightarrow> False | Some k \<Rightarrow> a \<le> k)"

text \<open>A number is never less than or equal to \<open>None\<close>, and \<open>None\<close> is not greater than a number.\<close>

definition validate_port_range :: "sgr_request \<Rightarrow> sg_exc + unit" where
  "validate_port_range rule =
     (if rq_port_min rule = None \<and> rq_port_max rule = None then Inr ()
      else if no_proto (rq_protocol rule) then Inl SecurityGroupProtocolRequiredWithPorts
      else
        (let ip_proto = get_ip_proto_number (rq_protocol rule) in
         if ip_proto = Some (ProtoNum 6) \<or> ip_proto = Some (ProtoNum 17) then
           (case rq_port_min rule of
              None \<Rightarrow> Inl SecurityGroupInvalidPortRange
            | Some lo \<Rightarrow> if le_opt lo (rq_port_max rule) then Inr () else Inl SecurityGroupInvalidPortRange)
         else if ip_proto = Some (ProtoNum 1) then
           (case rq_port_min rule of
              Some lo \<Rightarrow> if lo > 255 then Inl (SecurityGroupInvalidIcmpValue ''type'' ''port_range_min'' lo)
                 else (case rq_port_max rule of
                         Some hi \<Rightarrow> if hi > 255 then Inl (SecurityGroupInvalidIcmpValue ''code'' ''port_range_max'' hi) else Inr ()
                       | None \<Rightarrow> Inr ())
            | None \<Rightarrow> (case rq_port_max rule of
                         Some hi \<Rightarrow> if hi > 255 then Inl (SecurityGroupInvalidIcmpValue ''code'' ''port_range_max'' hi) else Inr ()
                       | None \<Rightarrow> Inr ()))
         else Inr ()))"

definition truthy :: "string option \<Rightarrow> bool" where
  "truthy s \<longleftrightarrow> s \<noteq> None \<and> s \<noteq> Some []"

definition validate_sg_rule :: "ctxt \<Rightarrow> sg_db \<Rightarrow> sgr_request \<Rightarrow> sg_exc + unit" where
  "validate_sg_rule ctx d rule =
     bindR (validate_port_range rule) (\<lambda>_.
     if truthy (rq_prefix rule) \<and> truthy (rq_remote_group rule) then Inl SecurityGroupRemoteGroupAndRemoteIpPrefix
     else if truthy (rq_remote_group rule)
       then bindR (get_security_group ctx (the (rq_remote_group rule)) (Some (rq_tenant rule)) d) (\<lambda>_. Inr ())
     else Inr ())"

text \<open>\<open>new_rules.pop()\<close> of an empty set is a \<open>KeyError\<close>.\<close>

definition validate_security_group_rules :: "ctxt \<Rightarrow> sgr_request list \<Rightarrow> sg_db \<Rightarrow> sg_exc + string" where
  "validate_security_group_rules ctx rules d =
     bindR (forR (validate_sg_rule ctx d) rules) (\<lambda>_.
     (let new_rules = remdups (map rq_group rules); tenant_ids = remdups (map rq_tenant rules) in
      if length new_rules > 1 then Inl SecurityGroupNotSingleGroupRules
      else (case new_rules of
              [] \<Rightarrow> Inl (CoreExc (KeyError ''pop from an empty set''))
            | security_group_id # _ \<Rightarrow>
                if length tenant_ids > 1 then Inl SecurityGroupRulesNotSingleTenant
                else bindR (forR (\<lambda>t. bindR (get_security_group ctx security_group_id (Some t) d) (\<lambda>_. Inr ())) tenant_ids) (\<lambda>_.
                       Inr security_group_id))))"

text \<open>What the text column of the protocol holds.\<close>

definition proto_text :: "proto \<Rightarrow> string" where
  "proto_text p = (case p of ProtoNum n \<Rightarrow> show_int n | ProtoName s \<Rightarrow> s)"

text \<open>\<open>_make_security_group_rule_filter_dict\<close>: what is missing or false in the request is not compared.\<close>

definition rule_filter :: "sgr_request \<Rightarrow> sgr_row \<Rightarrow> bool" where
  "rule_filter q r \<longleftrightarrow>
     sr_tenant r = rq_tenant q \<and> sr_group r = rq_group q \<and> sr_direction r = rq_direction q \<and>
     (no_proto (rq_protocol q) \<or> sr_protocol r = map_option proto_text (rq_protocol q)) \<and>
     (rq_port_max q = None \<or> rq_port_max q = Some 0 \<or> sr_port_max r = rq_port_max q) \<and>
     (rq_port_min q = None \<or> rq_port_min q = Some 0 \<or> sr_port_min r = rq_port_min q) \<and>
     (rq_ethertype q = [] \<or> sr_ethertype r = rq_ethertype q) \<and>
     (\<not> truthy (rq_prefix q) \<or> sr_prefix r = rq_prefix q) \<and>
     (\<not> truthy (rq_remote_group q) \<or> sr_remote_group r = rq_remote_group q)"

definition check_duplicate_rule :: "ctxt \<Rightarrow> sgr_request list \<Rightarrow> sg_db \<Rightarrow> sgr_request \<Rightarrow> sg_exc + unit" where
  "check_duplicate_rule ctx rules d i =
     (if length (filter ((=) i) rules) > 1 then Inl DuplicateSecurityGroupRuleInPost
      else (case filter (rule_filter i) (query_sgrs ctx d) of
              [] \<Rightarrow> Inr () | r # _ \<Rightarrow> Inl (SecurityGroupRuleExists (sr_id r))))"

definition check_for_duplicate_rules :: "ctxt \<Rightarrow> sgr_request list \<Rightarrow> sg_db \<Rightarrow> sg_exc + unit" where
  "check_for_duplicate_rules ctx rules d = forR (check_duplicate_rule ctx rules d) rules"

definition new_sgr :: "string \<Rightarrow> string \<Rightarrow> sgr_request \<Rightarrow> sgr_row" where
  "new_sgr i tenant_id q =
     \<lparr>sr_id = i, sr_tenant = tenant_id, sr_group = rq_group q, sr_remote_group = rq_remote_group q,
      sr_direction = rq_direction q, sr_ethertype = rq_ethertype q, sr_protocol = map_option proto_text (rq_protocol q),
      sr_port_min = rq_port_min q, sr_port_max = rq_port_max q, sr_prefix = rq_prefix q\<rparr>"

definition store_rule :: "(nat \<Rightarrow> string) \<Rightarrow> ctxt \<Rightarrow> sgr_request \<Rightarrow> sgr_row sgop" where
  "store_rule uuid ctx rule =
     bindE (tenant_for ctx (Some (rq_tenant rule))) (\<lambda>tenant_id.
     bindE (draw_uuid uuid) (\<lambda>i.
     (let r = new_sgr i tenant_id rule in thenE (add_sgr r) (returnE r))))"

text \<open>\<open>ret.append\<close> stands after the loop, so only the last rule is returned.\<close>

definition create_security_group_rule_bulk_native :: "(nat \<Rightarrow> string) \<Rightarrow> ctxt \<Rightarrow> sgr_request list \<Rightarrow> sgr_row list sgop" where
  "create_security_group_rule_bulk_native uuid ctx rules =
     bindE (checkE (validate_security_group_rules ctx rules)) (\<lambda>security_group_id.
     thenE (checkE (get_security_group ctx security_group_id None))
       (thenE (checkE (check_for_duplicate_rules ctx rules))
         (bindE (mapE (store_rule uuid ctx) rules) (\<lambda>dbs. returnE [last dbs]))))"

definition create_security_group_rule :: "(nat \<Rightarrow> string) \<Rightarrow> ctxt \<Rightarrow> sgr_request \<Rightarrow> sgr_row sgop" where
  "create_security_group_rule uuid ctx rule =
     bindE (create_security_group_rule_bulk_native uuid ctx [rule]) (\<lambda>ret. returnE (hd ret))"

definition delete_security_group_rule :: "ctxt \<Rightarrow> string \<Rightarrow> unit sgop" where
  "delete_security_group_rule ctx i =
     bindE (checkE (get_sgr_row ctx i)) (\<lambda>rule.
       modifyE (\<lambda>d. d\<lparr>sg_rule_rows := filter (\<lambda>r. sr_id r \<noteq> sr_id rule) (sg_rule_rows d)\<rparr>))"

section \<open>Groups of ports\<close>

definition create_port_security_group_binding :: "string \<Rightarrow> string \<Rightarrow> unit sgop" where
  "create_port_security_group_binding port_id security_group_id =
     (\<lambda>d. if \<lparr>b_port = port_id, b_group = security_group_id\<rparr> \<in> set (sg_bindings d) \<or>
            security_group_id \<notin> g_id ` set (sg_groups d)
          then Inl (CoreExc IntegrityError)
          else Inr ((), d\<lparr>sg_bindings := sg_bindings d @ [\<lparr>b_port = port_id, b_group = security_group_id\<rparr>]\<rparr>))"

definition delete_port_security_group_bindings :: "string \<Rightarrow> unit sgop" where
  "delete_port_security_group_bindings port_id =
     modifyE (\<lambda>d. d\<lparr>sg_bindings := filter (\<lambda>b. b_port b \<noteq> port_id) (sg_bindings d)\<rparr>)"

text \<open>
  The \<open>security_groups\<close> of a port in a request: absent or \<open>ATTR_NOT_SPECIFIED\<close> (\<open>Unset\<close>), \<open>None\<close>
  (\<open>NoGroups\<close>, which counts as not set either) or a list.
\<close>

datatype sg_attr = Unset | NoGroups | Groups "string list"

record sg_port =
  sp_id :: string
  sp_tenant :: "string option"
  sp_owner :: string
  sp_groups :: sg_attr

definition network_owned :: "sg_port \<Rightarrow> bool" where
  "network_owned p \<longleftrightarrow> py_startswith (sp_owner p) ''network:''"

definition get_security_groups_on_port :: "(nat \<Rightarrow> string) \<Rightarrow> ctxt \<Rightarrow> sg_port \<Rightarrow> string list option sgop" where
  "get_security_groups_on_port uuid ctx p =
     (case sp_groups p of
        Groups ids \<Rightarrow>
          (if network_owned p then returnE None
           else bindE (get_security_groups uuid ctx (\<lambda>_. True) False) (\<lambda>valid_groups.
             (case filter (\<lambda>i. i \<notin> g_id ` set valid_groups) ids of
                [] \<Rightarrow> returnE (Some (remdups ids))
              | i # _ \<Rightarrow> raiseE (SecurityGroupNotFound i))))
      | _ \<Rightarrow> returnE None)"

definition ensure_default_security_group_on_port :: "(nat \<Rightarrow> string) \<Rightarrow> ctxt \<Rightarrow> sg_port \<Rightarrow> sg_port sgop" where
  "ensure_default_security_group_on_port uuid ctx p =
     (if network_owned p then returnE p
      else bindE (tenant_for ctx (sp_tenant p)) (\<lambda>tenant_id.
        bindE (ensure_default_security_group uuid ctx tenant_id) (\<lambda>default_sg.
          (case sp_groups p of
             Groups ids \<Rightarrow> returnE p
           | _ \<Rightarrow> returnE (p\<lparr>sp_groups := Groups [default_sg]\<rparr>)))))"

definition process_port_create_security_group :: "string \<Rightarrow> string list option \<Rightarrow> string list sgop" where
  "process_port_create_security_group port_id security_group_ids =
     (case security_group_ids of
        None \<Rightarrow> returnE []
      | Some ids \<Rightarrow> thenE (forE (create_port_security_group_binding port_id) ids) (returnE ids))"

text \<open>Updates of a port: \<open>None\<close> where the request does not have the attribute.\<close>

definition check_update_deletes_security_groups :: "sg_attr option \<Rightarrow> bool" where
  "check_update_deletes_security_groups a = (case a of None \<Rightarrow> False | Some (Groups ids) \<Rightarrow> ids = [] | Some _ \<Rightarrow> True)"

definition check_update_has_security_groups :: "sg_attr option \<Rightarrow> bool" where
  "check_update_has_security_groups a = (case a of Some (Groups ids) \<Rightarrow> ids \<noteq> [] | _ \<Rightarrow> False)"

end
