(* ===== verification/SecurityProps.thy ===== *)
theory SecurityProps
  imports SecurityGroups
begin

text \<open>
  Security groups: the references of the tables stay intact, a tenant never has two default groups, and
  what an accepted bulk creation of rules has checked and stored.
\<close>

section \<open>The tables are kept\<close>

definition sg_inv :: "sg_db \<Rightarrow> bool" where
  "sg_inv d \<longleftrightarrow>
     distinct (map g_id (sg_groups d)) \<and> distinct (map sr_id (sg_rule_rows d)) \<and>
     (\<forall>r \<in> set (sg_rule_rows d). sr_group r \<in> g_id ` set (sg_groups d)) \<and>
     (\<forall>r \<in> set (sg_rule_rows d). \<forall>i. sr_remote_group r = Some i \<longrightarrow> i \<in> g_id ` set (sg_groups d)) \<and>
     (\<forall>b \<in> set (sg_bindings d). b_group b \<in> g_id ` set (sg_groups d)) \<and>
     (\<forall>g \<in> set (sg_groups d). \<forall>h \<in> set (sg_groups d).
        g_name g = ''default'' \<longrightarrow> g_name h = ''default'' \<longrightarrow> g_tenant g = g_tenant h \<longrightarrow> g = h)"

lemma keeps_draw [keeps_intro]: "keeps sg_inv (draw_uuid uuid)"
  by (auto simp: keeps_def draw_uuid_def sg_inv_def)

lemma keeps_add_sgr [keeps_intro]: "keeps sg_inv (add_sgr r)"
  by (rule keepsI) (auto simp: add_sgr_def sg_inv_def split: if_splits option.splits)

lemma keeps_tenant_for [keeps_intro]: "keeps P (tenant_for ctx t)"
  unfolding tenant_for_def by (rule keeps_lift)

lemma keeps_add_group_rules [keeps_intro]: "keeps sg_inv (add_group_rules uuid g e)"
  unfolding add_group_rules_def by (intro keeps_intro)

lemma add_group_inv:
  assumes "add_group g d = Inr (u, d')" "sg_inv d"
    and "g_name g = ''default'' \<longrightarrow> (\<forall>h \<in> set (sg_groups d). g_name h = ''default'' \<longrightarrow> g_tenant h \<noteq> g_tenant g)"
  shows "sg_inv d'"
  using assms by (auto simp: add_group_def sg_inv_def split: if_splits) metis

lemma draw_uuid_Inr: "draw_uuid uuid d = Inr (i, d') \<longleftrightarrow> i = uuid (sg_drawn d) \<and> d' = d\<lparr>sg_drawn := Suc (sg_drawn d)\<rparr>"
  by (auto simp: draw_uuid_def)

lemma store_group_inv:
  assumes "store_group uuid i t name desc d = Inr (g, d')" "sg_inv d"
    and "name = ''default'' \<longrightarrow> (\<forall>h \<in> set (sg_groups d). g_name h = ''default'' \<longrightarrow> g_tenant h \<noteq> t)"
  shows "sg_inv d' \<and> g_tenant g = t \<and> g_name g = name"
proof -
  from assms(1) obtain new_id d1 where d1: "(case i of None \<Rightarrow> draw_uuid uuid
      | Some x \<Rightarrow> if x = [] then draw_uuid uuid else returnE x) d = Inr (new_id, d1)"
    and r: "(let g = \<lparr>g_id = new_id, g_tenant = t, g_name = name, g_description = desc\<rparr> in
      thenE (add_group g) (thenE (forE (add_group_rules uuid g) sg_supported_ethertypes) (returnE g))) d1 = Inr (g, d')"
    by (auto simp: store_group_def op_simps)
  have same: "sg_groups d1 = sg_groups d" "sg_inv d1"
    using d1 assms(2) by (auto simp: draw_uuid_Inr sg_inv_def split: option.splits if_splits)
  from r obtain u d2 v d3 where s: "add_group \<lparr>g_id = new_id, g_tenant = t, g_name = name, g_description = desc\<rparr> d1 = Inr (u, d2)"
    "forE (add_group_rules uuid \<lparr>g_id = new_id, g_tenant = t, g_name = name, g_description = desc\<rparr>) sg_supported_ethertypes d2 = Inr (v, d')"
    "g = \<lparr>g_id = new_id, g_tenant = t, g_name = name, g_description = desc\<rparr>"
    by (auto simp: Let_def op_simps)
  have "sg_inv d2" by (rule add_group_inv [OF s(1) same(2)]) (use same assms(3) in auto)
  moreover have "keeps sg_inv (forE (add_group_rules uuid \<lparr>g_id = new_id, g_tenant = t, g_name = name, g_description = desc\<rparr>)
      sg_supported_ethertypes)" by (intro keeps_intro)
  ultimately show ?thesis using s(2,3) by (auto dest: keepsD)
qed

lemma tenant_for_Inr:
  "tenant_for ctx t d = Inr (u, d') \<longleftrightarrow> get_tenant_id_for_create ctx t = Inr u \<and> d' = d"
  by (cases "get_tenant_id_for_create ctx t") (auto simp: tenant_for_def)

lemma tenant_sees_own:
  "get_tenant_id_for_create ctx (Some t) = Inr u \<Longrightarrow> u = t \<and>
     (\<forall>g \<in> set (sg_groups d). g_tenant g = t \<longrightarrow> g \<in> set (query_groups ctx d))"
  by (auto simp: get_tenant_id_for_create_def query_groups_def model_query_def split: if_splits)

lemma ensure_default_inv: "keeps sg_inv (ensure_default_security_group uuid ctx t)"
proof (rule keepsI)
  fix d r d' assume inv: "sg_inv d" and run: "ensure_default_security_group uuid ctx t d = Inr (r, d')"
  show "sg_inv d'"
  proof (cases "filter (\<lambda>g. g_name g = ''default'' \<and> g_tenant g = t) (query_groups ctx d)")
    case Nil
    with run obtain u g where u: "get_tenant_id_for_create ctx (Some t) = Inr u"
      "store_group uuid None u ''default'' ''default'' d = Inr (g, d')"
      by (auto simp: ensure_default_security_group_def op_simps tenant_for_Inr)
    from tenant_sees_own [OF u(1)] Nil have "\<forall>h \<in> set (sg_groups d). g_name h = ''default'' \<longrightarrow> g_tenant h \<noteq> u"
      by (auto simp: filter_empty_conv)
    with store_group_inv [OF u(2) inv] show ?thesis by blast
  next
    case (Cons g gs)
    with run inv show ?thesis by (simp add: ensure_default_security_group_def)
  qed
qed

text \<open>Where a group is created without leave to be the default one.\<close>

lemma create_group_inv:
  assumes "q_name s \<noteq> ''default''"
  shows "keeps sg_inv (create_security_group uuid ctx s b)"
proof (rule keepsI)
  fix d r d' assume inv: "sg_inv d" and run: "create_security_group uuid ctx s b d = Inr (r, d')"
  then obtain t x d1 where t: "(if b then returnE [] else ensure_default_security_group uuid ctx t) d = Inr (x, d1)"
    "store_group uuid (q_id s) t (q_name s) (q_description s) d1 = Inr (r, d')"
    by (auto simp: create_security_group_def op_simps tenant_for_Inr)
  have "keeps sg_inv (if b then returnE [] else ensure_default_security_group uuid ctx t)"
    by (intro keeps_intro ensure_default_inv)
  with t(1) inv have "sg_inv d1" by (auto dest: keepsD)
  from store_group_inv [OF t(2) this] assms show "sg_inv d'" by blast
qed

lemma get_groups_inv: "keeps sg_inv (get_security_groups uuid ctx f b)"
  unfolding get_security_groups_def by (intro keeps_intro ensure_default_inv)

lemma get_group_row_Inr:
  "get_group_row ctx i d = Inr g \<Longrightarrow> g \<in> set (sg_groups d) \<and> g_id g = i \<and> (ctx_is_admin ctx \<or> g_tenant g = ctx_tenant ctx)"
proof -
  assume "get_group_row ctx i d = Inr g"
  then have "filter (\<lambda>g. g_id g = i) (query_groups ctx d) = [g]" by (auto simp: get_group_row_def op_simps split: option.splits)
  then have "g \<in> set (filter (\<lambda>g. g_id g = i) (query_groups ctx d))" by simp
  then show ?thesis by (auto simp: query_groups_def model_query_def split: if_splits)
qed

lemma delete_group_inv: "keeps sg_inv (delete_security_group ctx i)"
proof (rule keepsI)
  fix d u d' assume inv: "sg_inv d" and run: "delete_security_group ctx i d = Inr (u, d')"
  then have b: "\<forall>b \<in> set (sg_bindings d). b_group b \<noteq> i"
    and d': "d' = d\<lparr>sg_groups := filter (\<lambda>g. g_id g \<noteq> i) (sg_groups d),
       sg_rule_rows := filter (\<lambda>r. sr_group r \<noteq> i \<and> sr_remote_group r \<noteq> Some i) (sg_rule_rows d)\<rparr>"
    by (auto simp: delete_security_group_def op_simps filter_empty_conv split: if_splits)
  have sub: "x \<in> g_id ` set (filter (\<lambda>g. g_id g \<noteq> i) (sg_groups d))" if "x \<in> g_id ` set (sg_groups d)" "x \<noteq> i" for x
    using that by auto
  from inv have refs: "\<forall>r \<in> set (sg_rule_rows d). sr_group r \<in> g_id ` set (sg_groups d)"
    "\<forall>r \<in> set (sg_rule_rows d). \<forall>i. sr_remote_group r = Some i \<longrightarrow> i \<in> g_id ` set (sg_groups d)"
    "\<forall>b \<in> set (sg_bindings d). b_group b \<in> g_id ` set (sg_groups d)" by (simp_all add: sg_inv_def)
  have "\<forall>r \<in> set (sg_rule_rows d'). sr_group r \<in> g_id ` set (sg_groups d')"
    "\<forall>r \<in> set (sg_rule_rows d'). \<forall>k. sr_remote_group r = Some k \<longrightarrow> k \<in> g_id ` set (sg_groups d')"
    "\<forall>b \<in> set (sg_bindings d'). b_group b \<in> g_id ` set (sg_groups d')"
    using refs sub b unfolding d' by auto
  moreover have "distinct (map g_id (sg_groups d'))" "distinct (map sr_id (sg_rule_rows d'))"
    using inv unfolding d' by (simp_all add: sg_inv_def distinct_map_filter)
  moreover have "set (sg_groups d') \<subseteq> set (sg_groups d)" unfolding d' by auto
  ultimately show "sg_inv d'" using inv unfolding sg_inv_def by blast
qed

lemma replace_row_ids:
  "g_id g' = g_id g \<Longrightarrow> map g_id (replace_row g g' gs) = map g_id gs"
  by (induction gs) (auto simp: replace_row_def)

lemma update_group_inv:
  assumes "name \<noteq> Some ''default''"
  shows "keeps sg_inv (update_security_group ctx i name desc)"
proof (rule keepsI)
  fix d u d' assume inv: "sg_inv d" and run: "update_security_group ctx i name desc d = Inr (u, d')"
  then obtain g g' where g: "get_group_row ctx i d = Inr g" "\<not> (g_name g = ''default'' \<and> name \<noteq> None)"
    and g': "g' = g\<lparr>g_name := (case name of None \<Rightarrow> g_name g | Some n \<Rightarrow> n), g_description := (case desc of None \<Rightarrow> g_description g | Some n \<Rightarrow> n)\<rparr>"
    and d': "d' = d\<lparr>sg_groups := replace_row g g' (sg_groups d)\<rparr>"
    by (auto simp: update_security_group_def op_simps Let_def split: if_splits)
  have gm: "g \<in> set (sg_groups d)" using get_group_row_Inr [OF g(1)] by simp
  have same: "g_id g' = g_id g" "g_tenant g' = g_tenant g" "g_name g' = ''default'' \<Longrightarrow> g_name g = ''default''"
    using g' g(2) assms by (auto split: option.splits)
  have ids: "map g_id (replace_row g g' (sg_groups d)) = map g_id (sg_groups d)" by (rule replace_row_ids [OF same(1)])
  have idset: "g_id ` set (replace_row g g' (sg_groups d)) = g_id ` set (sg_groups d)"
    using arg_cong [OF ids, of set] by simp
  have "\<forall>a \<in> set (replace_row g g' (sg_groups d)). \<forall>b \<in> set (replace_row g g' (sg_groups d)).
      g_name a = ''default'' \<longrightarrow> g_name b = ''default'' \<longrightarrow> g_tenant a = g_tenant b \<longrightarrow> a = b"
    using inv same gm unfolding set_replace_row [OF gm] sg_inv_def by (metis Diff_iff insert_iff)
  with inv show "sg_inv d'" unfolding d' sg_inv_def by (simp add: ids idset)
qed

lemma store_rule_inv [keeps_intro]: "keeps sg_inv (store_rule uuid ctx q)"
  unfolding store_rule_def Let_def by (intro keeps_intro)

lemma create_rules_inv: "keeps sg_inv (create_security_group_rule_bulk_native uuid ctx qs)"
  unfolding create_security_group_rule_bulk_native_def by (intro keeps_intro)

lemma delete_rule_inv: "keeps sg_inv (delete_security_group_rule ctx i)"
  unfolding delete_security_group_rule_def
  by (intro keeps_intro keeps_modify) (auto simp: sg_inv_def distinct_map_filter)

lemma binding_inv [keeps_intro]: "keeps sg_inv (create_port_security_group_binding p i)"
  by (rule keepsI) (auto simp: create_port_security_group_binding_def sg_inv_def split: if_splits)

lemma process_inv: "keeps sg_inv (process_port_create_security_group p ids)"
  unfolding process_port_create_security_group_def by (cases ids) (simp_all, (intro keeps_intro)+)

lemma unbind_inv: "keeps sg_inv (delete_port_security_group_bindings p)"
  unfolding delete_port_security_group_bindings_def by (rule keeps_modify) (auto simp: sg_inv_def)


section \<open>Reachable databases\<close>

text \<open>
  The operations as the API calls them: its validator refuses the name \<open>default\<close> in requests.
\<close>

inductive sg_step :: "(nat \<Rightarrow> string) \<Rightarrow> sg_db \<Rightarrow> sg_db \<Rightarrow> bool" for uuid where
  create: "q_name s \<noteq> ''default'' \<Longrightarrow> create_security_group uuid ctx s False d = Inr (g, d') \<Longrightarrow> sg_step uuid d d'"
| list: "get_security_groups uuid ctx flt b d = Inr (gs, d') \<Longrightarrow> sg_step uuid d d'"
| update: "name \<noteq> Some ''default'' \<Longrightarrow> update_security_group ctx i name desc d = Inr (g, d') \<Longrightarrow> sg_step uuid d d'"
| delete: "delete_security_group ctx i d = Inr ((), d') \<Longrightarrow> sg_step uuid d d'"
| create_rules: "create_security_group_rule_bulk_native uuid ctx qs d = Inr (rs, d') \<Longrightarrow> sg_step uuid d d'"
| delete_rule: "delete_security_group_rule ctx i d = Inr ((), d') \<Longrightarrow> sg_step uuid d d'"
| port: "ensure_default_security_group_on_port uuid ctx p d = Inr (p', d') \<Longrightarrow> sg_step uuid d d'"
| bind: "process_port_create_security_group i ids d = Inr (gs, d') \<Longrightarrow> sg_step uuid d d'"
| unbind: "delete_port_security_group_bindings i d = Inr ((), d') \<Longrightarrow> sg_step uuid d d'"

inductive sg_reach :: "(nat \<Rightarrow> string) \<Rightarrow> sg_db \<Rightarrow> bool" for uuid where
  empty: "sg_reach uuid \<lparr>sg_groups = [], sg_rule_rows = [], sg_bindings = [], sg_drawn = 0\<rparr>"
| step: "sg_reach uuid d \<Longrightarrow> sg_step uuid d d' \<Longrightarrow> sg_reach uuid d'"

lemma port_default_inv: "keeps sg_inv (ensure_default_security_group_on_port uuid ctx p)"
proof (cases "network_owned p")
  case True
  then show ?thesis by (simp add: ensure_default_security_group_on_port_def keeps_return)
next
  case False
  have "keeps sg_inv (bindE (tenant_for ctx (sp_tenant p)) (\<lambda>tenant_id.
      bindE (ensure_default_security_group uuid ctx tenant_id) (\<lambda>default_sg.
        (case sp_groups p of Groups ids \<Rightarrow> returnE p | _ \<Rightarrow> returnE (p\<lparr>sp_groups := Groups [default_sg]\<rparr>)))))"
    by (intro keeps_intro ensure_default_inv) (cases "sp_groups p"; simp add: keeps_return)
  with False show ?thesis by (simp add: ensure_default_security_group_on_port_def)
qed

lemma sg_step_inv: "sg_step uuid d d' \<Longrightarrow> sg_inv d \<Longrightarrow> sg_inv d'"
  by (induction rule: sg_step.induct)
    (blast dest: keepsD [OF create_group_inv] keepsD [OF get_groups_inv] keepsD [OF update_group_inv] keepsD [OF delete_group_inv]
       keepsD [OF create_rules_inv] keepsD [OF delete_rule_inv] keepsD [OF port_default_inv] keepsD [OF process_inv]
       keepsD [OF unbind_inv])+

lemma sg_reach_inv: "sg_reach uuid d \<Longrightarrow> sg_inv d"
proof (induction rule: sg_reach.induct)
  case empty
  then show ?case by (simp add: sg_inv_def)
next
  case (step d d')
  from sg_step_inv [OF step.hyps(2) step.IH] show ?case .
qed

text \<open>
  C35: in every database the operations reach, the identifiers are unique, every rule belongs to a
  group and refers to existing groups only, every group of a port exists, and no tenant has two groups
  named \<open>default\<close>.
\<close>

theorem groups_consistent:
  assumes "sg_reach uuid d"
  shows "distinct (map g_id (sg_groups d)) \<and> distinct (map sr_id (sg_rule_rows d)) \<and>
    (\<forall>r \<in> set (sg_rule_rows d). sr_group r \<in> g_id ` set (sg_groups d) \<and>
       (\<forall>i. sr_remote_group r = Some i \<longrightarrow> i \<in> g_id ` set (sg_groups d))) \<and>
    (\<forall>b \<in> set (sg_bindings d). b_group b \<in> g_id ` set (sg_groups d)) \<and>
    length (filter (\<lambda>g. g_name g = ''default'' \<and> g_tenant g = t) (sg_groups d)) \<le> 1"
proof -
  have inv: "sg_inv d" by (rule sg_reach_inv [OF assms])
  let ?f = "filter (\<lambda>g. g_name g = ''default'' \<and> g_tenant g = t) (sg_groups d)"
  have "distinct ?f" using inv by (simp add: sg_inv_def distinct_map)
  then have "length ?f = card (set ?f)" by (rule distinct_card [symmetric])
  moreover have "\<forall>g \<in> set ?f. \<forall>h \<in> set ?f. g = h" using inv unfolding sg_inv_def by simp
  then have "card (set ?f) \<le> Suc 0" by (simp only: card_le_Suc0_iff_eq [OF finite_set])
  ultimately have "length ?f \<le> 1" by simp
  with inv show ?thesis unfolding sg_inv_def by blast
qed

text \<open>An administrator creates a group; its tenant gets its default group with it.\<close>

definition demo_uuid :: "nat \<Rightarrow> string" where
  "demo_uuid n = CHR ''u'' # show_nat n"

definition demo_user :: ctxt where
  "demo_user = \<lparr>ctx_is_admin = False, ctx_tenant = ''t1''\<rparr>"

definition demo_sg_request :: sg_request where
  "demo_sg_request = \<lparr>q_id = None, q_tenant = Some ''t1'', q_name = ''web'', q_description = []\<rparr>"

definition demo_sg_db :: sg_db where
  "demo_sg_db =
     (case create_security_group demo_uuid demo_user demo_sg_request False
         \<lparr>sg_groups = [], sg_rule_rows = [], sg_bindings = [], sg_drawn = 0\<rparr> of Inr (_, d) \<Rightarrow> d)"

lemma demo_sg_created: "case create_security_group demo_uuid demo_user demo_sg_request False
         \<lparr>sg_groups = [], sg_rule_rows = [], sg_bindings = [], sg_drawn = 0\<rparr> of Inr _ \<Rightarrow> True | Inl _ \<Rightarrow> False"
  by code_simp

lemma demo_sg_reach: "sg_reach demo_uuid demo_sg_db"
proof -
  obtain g where "create_security_group demo_uuid demo_user demo_sg_request False
      \<lparr>sg_groups = [], sg_rule_rows = [], sg_bindings = [], sg_drawn = 0\<rparr> = Inr (g, demo_sg_db)"
    using demo_sg_created by (auto simp: demo_sg_db_def split: sum.splits)
  moreover have "q_name demo_sg_request \<noteq> ''default''" by code_simp
  ultimately show ?thesis by (blast intro: sg_reach.intros sg_step.create)
qed

lemma demo_sg_content: "map (\<lambda>g. (g_id g, g_name g)) (sg_groups demo_sg_db) = [(''u0'', ''default''), (''u5'', ''web'')] \<and>
    map sr_id (sg_rule_rows demo_sg_db) = [''u1'', ''u2'', ''u3'', ''u4'', ''u6'', ''u7'']"
  by code_simp

theorem groups_consistent_witness:
  "length (filter (\<lambda>g. g_name g = ''default'' \<and> g_tenant g = ''t1'') (sg_groups demo_sg_db)) \<le> 1"
  using groups_consistent [OF demo_sg_reach, of "''t1''"] by simp


section \<open>Creating rules\<close>

text \<open>What the validation of one rule means, said without the order of the code.\<close>

definition good_ports :: "sgr_request \<Rightarrow> bool" where
  "good_ports q \<longleftrightarrow>
     (rq_port_min q = None \<and> rq_port_max q = None) \<or>
     (\<not> no_proto (rq_protocol q) \<and>
      (get_ip_proto_number (rq_protocol q) \<in> {Some (ProtoNum 6), Some (ProtoNum 17)} \<longrightarrow>
         (\<exists>lo hi. rq_port_min q = Some lo \<and> rq_port_max q = Some hi \<and> lo \<le> hi)) \<and>
      (get_ip_proto_number (rq_protocol q) = Some (ProtoNum 1) \<longrightarrow>
         (\<forall>n. rq_port_min q = Some n \<or> rq_port_max q = Some n \<longrightarrow> n \<le> 255)))"

lemma validate_port_range_iff: "validate_port_range q = Inr () \<longleftrightarrow> good_ports q"
  by (cases "rq_port_min q"; cases "rq_port_max q") (auto simp: validate_port_range_def good_ports_def le_opt_def Let_def)

definition sees_group :: "ctxt \<Rightarrow> string \<Rightarrow> string option \<Rightarrow> sg_db \<Rightarrow> bool" where
  "sees_group ctx i tenant d \<longleftrightarrow>
     (\<exists>g \<in> set (sg_groups d). g_id g = i \<and> (ctx_is_admin ctx \<or> g_tenant g = ctx_tenant (act_for tenant ctx)))"

lemma act_for_admin [simp]: "ctx_is_admin (act_for t ctx) = ctx_is_admin ctx"
  by (auto simp: act_for_def split: option.splits)

lemma get_security_group_sees:
  assumes "get_security_group ctx i t d = Inr x" shows "sees_group ctx i t d"
proof -
  from assms obtain g where "get_group_row (act_for t ctx) i d = Inr g"
    by (auto simp: get_security_group_def Let_def op_simps)
  from get_group_row_Inr [OF this] show ?thesis by (auto simp: sees_group_def)
qed

lemma store_rule_Inr:
  "store_rule uuid ctx q d = Inr (r, d') \<Longrightarrow>
     r = new_sgr (uuid (sg_drawn d)) (rq_tenant q) q \<and> sg_rule_rows d' = sg_rule_rows d @ [r] \<and>
     sg_groups d' = sg_groups d \<and> sg_bindings d' = sg_bindings d \<and> sg_drawn d' = Suc (sg_drawn d)"
  by (auto simp: store_rule_def Let_def op_simps tenant_for_Inr draw_uuid_Inr add_sgr_def split: if_splits
      dest: tenant_sees_own)

lemma store_rules_Inr:
  assumes "mapE (store_rule uuid ctx) qs d = Inr (rs, d')"
  shows "rs = map (\<lambda>(k, q). new_sgr (uuid k) (rq_tenant q) q) (zip [sg_drawn d..<sg_drawn d + length qs] qs) \<and>
    sg_rule_rows d' = sg_rule_rows d @ rs \<and> sg_groups d' = sg_groups d \<and> sg_bindings d' = sg_bindings d"
  using assms
proof (induction qs arbitrary: d rs)
  case (Cons q qs)
  then obtain r d1 rs1 where "store_rule uuid ctx q d = Inr (r, d1)" "mapE (store_rule uuid ctx) qs d1 = Inr (rs1, d')"
    "rs = r # rs1" by (auto simp: op_simps)
  with Cons.IH [OF this(2)] store_rule_Inr [OF this(1)] show ?case by (simp add: upt_conv_Cons del: upt_Suc)
qed simp

lemma check_duplicate_iff:
  "check_duplicate_rule ctx qs d q = Inr () \<longleftrightarrow> length (filter ((=) q) qs) \<le> 1 \<and> filter (rule_filter q) (query_sgrs ctx d) = []"
  by (cases "filter (rule_filter q) (query_sgrs ctx d)") (auto simp: check_duplicate_rule_def)

lemma single_distinct: "\<forall>q \<in> set qs. length (filter ((=) q) qs) \<le> 1 \<Longrightarrow> distinct qs"
proof (induction qs)
  case (Cons x xs)
  then have "filter ((=) x) xs = []" by simp
  then have "x \<notin> set xs" by (auto simp: filter_empty_conv)
  moreover have "\<forall>q \<in> set xs. length (filter ((=) q) xs) \<le> 1"
  proof
    fix q assume "q \<in> set xs"
    with Cons.prems have "length (filter ((=) q) (x # xs)) \<le> 1" by simp
    then show "length (filter ((=) q) xs) \<le> 1" by (simp split: if_splits)
  qed
  ultimately show ?case using Cons.IH by simp
qed simp

lemma remdups_single: "length (remdups xs) \<le> 1 \<Longrightarrow> x \<in> set xs \<Longrightarrow> y \<in> set xs \<Longrightarrow> x = y"
proof -
  assume a: "length (remdups xs) \<le> 1" "x \<in> set xs" "y \<in> set xs"
  then have "card (set xs) \<le> Suc 0" by (simp add: length_remdups_card_conv)
  with a(2,3) show ?thesis by (simp add: card_le_Suc0_iff_eq)
qed

text \<open>
  C36: a bulk creation of rules that succeeds was for one group, visible to the caller, and one tenant; the
  ports and the remote group of every rule are valid, no two rules are equal, none matched a stored one;
  it stores one row for each rule and nothing else, but returns only the last of them.
\<close>

theorem rules_created:
  assumes "create_security_group_rule_bulk_native uuid ctx qs d = Inr (ret, d')"
  shows "\<exists>i t rows. (\<forall>q \<in> set qs. rq_group q = i \<and> rq_tenant q = t) \<and>
    sees_group ctx i (Some t) d \<and> sees_group ctx i None d \<and>
    (\<forall>q \<in> set qs. good_ports q \<and> \<not> (truthy (rq_prefix q) \<and> truthy (rq_remote_group q)) \<and>
       (truthy (rq_remote_group q) \<longrightarrow> sees_group ctx (the (rq_remote_group q)) (Some t) d)) \<and>
    distinct qs \<and> (\<forall>q \<in> set qs. \<forall>r \<in> set (query_sgrs ctx d). \<not> rule_filter q r) \<and>
    rows = map (\<lambda>(k, q). new_sgr (uuid k) t q) (zip [sg_drawn d..<sg_drawn d + length qs] qs) \<and>
    sg_rule_rows d' = sg_rule_rows d @ rows \<and> sg_groups d' = sg_groups d \<and> sg_bindings d' = sg_bindings d \<and>
    ret = [last rows]"
proof -
  from assms obtain i dbs where v: "validate_security_group_rules ctx qs d = Inr i"
    and own: "\<exists>x. get_security_group ctx i None d = Inr x"
    and dup: "check_for_duplicate_rules ctx qs d = Inr ()"
    and st: "mapE (store_rule uuid ctx) qs d = Inr (dbs, d')" and ret: "ret = [last dbs]"
    by (auto simp: create_security_group_rule_bulk_native_def op_simps)
  from v have each: "\<forall>q \<in> set qs. validate_sg_rule ctx d q = Inr ()"
    and groups: "length (remdups (map rq_group qs)) \<le> 1" and hd: "\<exists>gs. remdups (map rq_group qs) = i # gs"
    and tenants: "length (remdups (map rq_tenant qs)) \<le> 1"
    and sees: "\<forall>t \<in> set (map rq_tenant qs). \<exists>x. get_security_group ctx i (Some t) d = Inr x"
    by (auto simp: validate_security_group_rules_def Let_def op_simps split: if_splits list.splits)
  from hd have "i \<in> set (map rq_group qs)" by (metis list.set_intros(1) set_remdups)
  then have ig: "\<forall>q \<in> set qs. rq_group q = i" and ne: "qs \<noteq> []" using remdups_single [OF groups] by force+
  define t where "t = rq_tenant (hd qs)"
  have tm: "t \<in> set (map rq_tenant qs)" using ne by (simp add: t_def)
  have tt: "\<forall>q \<in> set qs. rq_tenant q = t" using remdups_single [OF tenants _ tm] by auto
  from sees tm have s1: "sees_group ctx i (Some t) d" using get_security_group_sees by blast
  from own have s2: "sees_group ctx i None d" using get_security_group_sees by blast
  have ok: "good_ports q \<and> \<not> (truthy (rq_prefix q) \<and> truthy (rq_remote_group q)) \<and>
       (truthy (rq_remote_group q) \<longrightarrow> sees_group ctx (the (rq_remote_group q)) (Some t) d)" if q: "q \<in> set qs" for q
  proof -
    from each q have vr: "validate_sg_rule ctx d q = Inr ()" by blast
    then have "validate_port_range q = Inr ()" by (auto simp: validate_sg_rule_def op_simps)
    moreover from vr have "\<not> (truthy (rq_prefix q) \<and> truthy (rq_remote_group q))"
      by (auto simp: validate_sg_rule_def op_simps split: if_splits)
    moreover have "sees_group ctx (the (rq_remote_group q)) (Some t) d" if "truthy (rq_remote_group q)"
      using vr that tt q get_security_group_sees by (fastforce simp: validate_sg_rule_def op_simps split: if_splits)
    ultimately show ?thesis by (simp add: validate_port_range_iff)
  qed
  from dup have dq: "\<forall>q \<in> set qs. length (filter ((=) q) qs) \<le> 1 \<and> filter (rule_filter q) (query_sgrs ctx d) = []"
    by (simp add: check_for_duplicate_rules_def check_duplicate_iff)
  have "distinct qs" by (rule single_distinct) (use dq in blast)
  moreover have "map (\<lambda>(k, q). new_sgr (uuid k) (rq_tenant q) q) (zip ks qs) = map (\<lambda>(k, q). new_sgr (uuid k) t q) (zip ks qs)" for ks
    using tt by (auto dest: set_zip_rightD)
  ultimately show ?thesis using store_rules_Inr [OF st] ig tt s1 s2 ok dq ret
    by (intro exI [of _ i] exI [of _ t] exI [of _ dbs]) (auto simp: filter_empty_conv)
qed


definition demo_sgr :: "int option \<Rightarrow> sgr_request" where
  "demo_sgr p =
     \<lparr>rq_tenant = ''t1'', rq_group = ''u5'', rq_remote_group = None, rq_direction = ''ingress'', rq_ethertype = ''IPv4'',
      rq_protocol = map_option (\<lambda>_. ProtoName ''tcp'') p, rq_port_min = p, rq_port_max = p, rq_prefix = None\<rparr>"

definition demo_sgrs :: "sgr_request list" where
  "demo_sgrs = [demo_sgr (Some 22), demo_sgr (Some 80)]"

definition demo_sg_db2 :: sg_db where
  "demo_sg_db2 = (case create_security_group_rule_bulk_native demo_uuid demo_user demo_sgrs demo_sg_db of Inr (_, d) \<Rightarrow> d)"

lemma demo_rules_created:
  "case create_security_group_rule_bulk_native demo_uuid demo_user demo_sgrs demo_sg_db of
     Inr (ret, d) \<Rightarrow> map sr_id ret = [''u9''] \<and> drop 6 (map sr_id (sg_rule_rows d)) = [''u8'', ''u9''] | Inl _ \<Rightarrow> False"
  by code_simp

text \<open>A rule without a protocol counts as a duplicate of the rule for one port.\<close>

lemma wider_rule_refused:
  "create_security_group_rule demo_uuid demo_user (demo_sgr None) demo_sg_db2 = Inl (SecurityGroupRuleExists ''u8'')"
  by code_simp

theorem rules_created_witness:
  "\<exists>ret d'. create_security_group_rule_bulk_native demo_uuid demo_user demo_sgrs demo_sg_db = Inr (ret, d') \<and>
     length ret = 1 \<and> length (sg_rule_rows d') = length (sg_rule_rows demo_sg_db) + 2"
proof -
  obtain ret d' where run: "create_security_group_rule_bulk_native demo_uuid demo_user demo_sgrs demo_sg_db = Inr (ret, d')"
    using demo_rules_created by (auto split: sum.splits)
  from rules_created [OF run] have "length ret = 1 \<and> length (sg_rule_rows d') = length (sg_rule_rows demo_sg_db) + length demo_sgrs"
    by auto
  with run show ?thesis by (auto simp: demo_sgrs_def)
qed

end
