(* ===== verification/L3.thy ===== *)
theory L3
  imports CorePlugin
begin

text \<open>
  Routers and floating IPs (\<open>neutron/db/l3_db.py\<close>) on the core plugin, and the external networks of
  \<open>neutron/db/external_net_db.py\<close>.

  The state holds the database of the core plugin and the tables of the mixin.  What the operations take
  from outside the repository or draw at random is the record \<open>env\<close>: netaddr, whether
  \<open>netaddr.all_matching_cidrs(IPNetwork(a), [b])\<close> finds a match, the configuration, identifiers and the
  bytes of MAC addresses.  Notifications of the agents and the check of the VPN service are left out.
\<close>

section \<open>Exceptions and tables\<close>

datatype (plugins only: code size) l3_exc =
    RouterNotFound string
  | RouterInUse string
  | RouterInterfaceNotFound string string
  | RouterInterfaceNotFoundForSubnet string string
  | RouterInterfaceInUseByFloatingIP string string
  | FloatingIPNotFound string
  | ExternalGatewayForFloatingIPNotFound string string
  | FloatingIPPortAlreadyAssociated string string
  | L3PortInUse string string
  | RouterExternalGatewayInUseByFloatingIp string string
  | ExternalNetworkInUse string
  | L3BadRequest string
  | MultipleFloatingIPs string
  | UnboundLocalError
  | L3Core exc

definition l3_exc_base :: "l3_exc \<Rightarrow> exc_class" where
  "l3_exc_base e =
     (case e of
        RouterNotFound _ \<Rightarrow> NotFound
      | RouterInterfaceNotFound _ _ \<Rightarrow> NotFound
      | RouterInterfaceNotFoundForSubnet _ _ \<Rightarrow> NotFound
      | FloatingIPNotFound _ \<Rightarrow> NotFound
      | ExternalGatewayForFloatingIPNotFound _ _ \<Rightarrow> NotFound
      | L3BadRequest _ \<Rightarrow> BadRequest
      | MultipleFloatingIPs _ \<Rightarrow> PythonException
      | UnboundLocalError \<Rightarrow> PythonException
      | L3Core x \<Rightarrow> exc_base x
      | _ \<Rightarrow> InUse)"

record router_row =
  ro_id :: string
  ro_tenant :: string
  ro_name :: string
  ro_admin_state_up :: bool
  ro_status :: string
  ro_gw_port :: "string option"

record fip_row =
  fl_id :: string
  fl_tenant :: string
  fl_address :: string
  fl_network :: string
  fl_port :: string
  fl_fixed_port :: "string option"
  fl_fixed_ip :: "string option"
  fl_router :: "string option"

record l3_db =
  l3_core :: db
  l3_routers :: "router_row list"
  l3_fips :: "fip_row list"
  l3_external :: "string list"

type_synonym 'a l3op = "(l3_exc, l3_db, 'a) op"

record l3_env =
  env_na :: netaddr
  env_match :: "string \<Rightarrow> string \<Rightarrow> bool"
  env_cfg :: conf
  env_uuid :: "nat \<Rightarrow> string"
  env_rnd :: "nat \<Rightarrow> nat \<times> nat \<times> nat"

text \<open>
  The foreign keys of a floating IP: its own port, which is mandatory, the port it is associated with and
  the router.  They are enforced, so a change of the core plugin's tables that would leave a floating IP
  without one of its ports is an integrity error.
\<close>

definition fip_port_ok :: "string set \<Rightarrow> fip_row \<Rightarrow> bool" where
  "fip_port_ok ids f \<longleftrightarrow> fl_port f \<in> ids \<and> (case fl_fixed_port f of None \<Rightarrow> True | Some i \<Rightarrow> i \<in> ids)"

definition fip_ports_ok :: "fip_row list \<Rightarrow> db \<Rightarrow> bool" where
  "fip_ports_ok fs d \<longleftrightarrow> (\<forall>f \<in> set fs. fip_port_ok (pt_id ` set (ports d)) f)"

definition fip_refs_ok :: "fip_row \<Rightarrow> l3_db \<Rightarrow> bool" where
  "fip_refs_ok f s \<longleftrightarrow>
     (case fl_router f of None \<Rightarrow> True | Some i \<Rightarrow> i \<in> ro_id ` set (l3_routers s)) \<and> fip_port_ok (pt_id ` set (ports (l3_core s))) f"

definition on_core :: "'a dbop \<Rightarrow> 'a l3op" where
  "on_core m = (\<lambda>s. case m (l3_core s) of
       Inl e \<Rightarrow> Inl (L3Core e)
     | Inr (a, d) \<Rightarrow> if fip_ports_ok (l3_fips s) d then Inr (a, s\<lparr>l3_core := d\<rparr>) else Inl (L3Core IntegrityError))"

text \<open>A question to the core plugin, which changes nothing.\<close>

definition ask_core :: "(db \<Rightarrow> exc + 'a) \<Rightarrow> 'a l3op" where
  "ask_core f = checkE (\<lambda>s. map_sum L3Core id (f (l3_core s)))"

definition elevated :: "ctxt \<Rightarrow> ctxt" where
  "elevated ctx = ctx\<lparr>ctx_is_admin := True\<rparr>"

definition INTF :: string where "INTF = ''network:router_interface''"
definition GW :: string where "GW = ''network:router_gateway''"
definition FLOATINGIP :: string where "FLOATINGIP = ''network:floatingip''"

text \<open>Router and floating IP rows are written with the foreign keys enforced.\<close>

definition add_router :: "router_row \<Rightarrow> unit l3op" where
  "add_router r = (\<lambda>s. if ro_id r \<in> ro_id ` set (l3_routers s) then Inl (L3Core IntegrityError)
                        else Inr ((), s\<lparr>l3_routers := l3_routers s @ [r]\<rparr>))"

definition add_fip :: "fip_row \<Rightarrow> unit l3op" where
  "add_fip f = (\<lambda>s. if fl_id f \<in> fl_id ` set (l3_fips s) \<or> \<not> fip_refs_ok f s then Inl (L3Core IntegrityError)
                     else Inr ((), s\<lparr>l3_fips := l3_fips s @ [f]\<rparr>))"

definition set_fip :: "fip_row \<Rightarrow> fip_row \<Rightarrow> unit l3op" where
  "set_fip f f' = (\<lambda>s. if \<not> fip_refs_ok f' s then Inl (L3Core IntegrityError)
                        else Inr ((), s\<lparr>l3_fips := replace_row f f' (l3_fips s)\<rparr>))"

definition get_router_row :: "ctxt \<Rightarrow> string \<Rightarrow> l3_db \<Rightarrow> l3_exc + router_row" where
  "get_router_row ctx i s =
     bindR (one_row (L3Core MultipleResultsFound)
         (filter (\<lambda>r. ro_id r = i) (model_query ctx (Some ro_tenant) None [] (l3_routers s)))) (\<lambda>r.
       case r of None \<Rightarrow> Inl (RouterNotFound i) | Some x \<Rightarrow> Inr x)"

definition get_floatingip_row :: "ctxt \<Rightarrow> string \<Rightarrow> l3_db \<Rightarrow> l3_exc + fip_row" where
  "get_floatingip_row ctx i s =
     bindR (one_row (L3Core MultipleResultsFound)
         (filter (\<lambda>f. fl_id f = i) (model_query ctx (Some fl_tenant) None [] (l3_fips s)))) (\<lambda>r.
       case r of None \<Rightarrow> Inl (FloatingIPNotFound i) | Some x \<Rightarrow> Inr x)"

section \<open>External networks\<close>

definition network_is_external :: "string \<Rightarrow> l3_db \<Rightarrow> bool" where
  "network_is_external net_id s \<longleftrightarrow> net_id \<in> set (l3_external s)"

text \<open>The filter hook of the mixin: every tenant sees the external networks.\<close>

definition external_hook :: "string list \<Rightarrow> network_row hook" where
  "external_hook ext =
     \<lparr>query_hook = None,
      filter_hook = Some (\<lambda>ctx flt. if ctx_is_admin ctx then flt
         else (case flt of None \<Rightarrow> Some (\<lambda>n. n_id n \<in> set ext) | Some p \<Rightarrow> Some (\<lambda>n. n_id n \<in> set ext \<or> p n)))\<rparr>"

definition get_network_l3 :: "ctxt \<Rightarrow> string \<Rightarrow> l3_db \<Rightarrow> l3_exc + network_row" where
  "get_network_l3 ctx i s =
     (case get_by_id n_id i (model_query ctx (Some n_tenant) (Some n_shared) [external_hook (l3_external s)]
         (networks (l3_core s))) (NetworkNotFound i) of Inl e \<Rightarrow> Inl (L3Core e) | Inr n \<Rightarrow> Inr n)"

text \<open>The attribute \<open>router:external\<close> in the creation and the update of a network; \<open>was\<close>: its present value.\<close>

definition process_l3_create :: "string \<Rightarrow> bool option \<Rightarrow> unit l3op" where
  "process_l3_create net_id external =
     (if external = Some True then modifyE (\<lambda>s. s\<lparr>l3_external := l3_external s @ [net_id]\<rparr>) else returnE ())"

definition process_l3_update :: "string \<Rightarrow> bool option \<Rightarrow> unit l3op" where
  "process_l3_update net_id new_value =
     bindE (getsE (network_is_external net_id)) (\<lambda>was.
     (case new_value of
        None \<Rightarrow> returnE ()
      | Some v \<Rightarrow>
          (if v = was then returnE ()
           else if v then modifyE (\<lambda>s. s\<lparr>l3_external := l3_external s @ [net_id]\<rparr>)
           else bindE (getsE (\<lambda>s. filter (\<lambda>p. pt_device_owner p = GW \<and> pt_network p = net_id) (ports (l3_core s)))) (\<lambda>ps.
             if ps \<noteq> [] then raiseE (ExternalNetworkInUse net_id)
             else modifyE (\<lambda>s. s\<lparr>l3_external := filter (\<lambda>n. n \<noteq> net_id) (l3_external s)\<rparr>)))))"

section \<open>Routers\<close>

definition fixed_ips_of :: "string \<Rightarrow> l3_db \<Rightarrow> (string \<times> string) list" where
  "fixed_ips_of port_id s = map (\<lambda>a. (a_ip a, a_subnet a)) (port_allocs port_id (l3_core s))"

text \<open>Ports with given columns, whoever they belong to.\<close>

definition ports_where :: "(port_row \<Rightarrow> bool) \<Rightarrow> l3_db \<Rightarrow> port_row list" where
  "ports_where P s = filter P (ports (l3_core s))"

definition fips_where :: "(fip_row \<Rightarrow> bool) \<Rightarrow> l3_db \<Rightarrow> fip_row list" where
  "fips_where P s = filter P (l3_fips s)"

fun check_dup_ips :: "l3_env \<Rightarrow> ctxt \<Rightarrow> string \<Rightarrow> string \<Rightarrow> (string \<times> string) list \<Rightarrow> unit l3op" where
  "check_dup_ips env ctx subnet_id subnet_cidr [] = returnE ()"
| "check_dup_ips env ctx subnet_id subnet_cidr ((ip, sub_id) # ips) =
     (if sub_id = subnet_id then raiseE (L3BadRequest ''Router already has a port on subnet'')
      else
        bindE (ask_core (get_subnet_row (elevated ctx) sub_id)) (\<lambda>sub.
        thenE (ask_core (\<lambda>_. py_net (env_na env) (s_cidr sub)))
          (if env_match env subnet_cidr (s_cidr sub) \<or> env_match env (s_cidr sub) subnet_cidr
           then raiseE (L3BadRequest ''Cidr of subnet overlaps with cidr of subnet'')
           else check_dup_ips env ctx subnet_id subnet_cidr ips)))"

definition check_for_dup_router_subnet :: "l3_env \<Rightarrow> ctxt \<Rightarrow> string \<Rightarrow> string \<Rightarrow> string \<Rightarrow> unit l3op" where
  "check_for_dup_router_subnet env ctx router_id subnet_id subnet_cidr =
     thenE (ask_core (\<lambda>_. py_net (env_na env) subnet_cidr))
       (bindE (getsE (\<lambda>s. concat (map (\<lambda>p. fixed_ips_of (pt_id p) s) (ports_where (\<lambda>p. pt_device_id p = router_id) s))))
         (check_dup_ips env ctx subnet_id subnet_cidr))"

text \<open>A port the mixin creates for a router or a floating IP.\<close>

definition l3_port :: "string \<Rightarrow> string \<Rightarrow> fixed_ip list attr \<Rightarrow> string \<Rightarrow> string \<Rightarrow> port_create" where
  "l3_port tenant network_id fixed_ips device_id owner =
     \<lparr>pc_tenant = Some tenant, pc_id = None, pc_name = [], pc_network = network_id, pc_mac = NotSpecified,
      pc_fixed_ips = fixed_ips, pc_admin_state_up = True, pc_status = None, pc_device_id = device_id,
      pc_device_owner = owner\<rparr>"

definition core_create_port :: "l3_env \<Rightarrow> (nat \<Rightarrow> string) \<Rightarrow> ctxt \<Rightarrow> port_create \<Rightarrow> string l3op" where
  "core_create_port env uuid ctx p =
     thenE (on_core (create_port (env_na env) (env_cfg env) ctx uuid (env_rnd env) p)) (returnE (uuid 0))"

definition core_delete_port :: "l3_env \<Rightarrow> ctxt \<Rightarrow> string \<Rightarrow> unit l3op" where
  "core_delete_port env ctx i = on_core (delete_port (env_na env) ctx i)"

definition set_gw_port :: "string \<Rightarrow> string option \<Rightarrow> unit l3op" where
  "set_gw_port router_id gw =
     modifyE (\<lambda>s. s\<lparr>l3_routers := map (\<lambda>r. if ro_id r = router_id then r\<lparr>ro_gw_port := gw\<rparr> else r) (l3_routers s)\<rparr>)"

definition create_router_gw_port :: "l3_env \<Rightarrow> ctxt \<Rightarrow> string \<Rightarrow> string \<Rightarrow> unit l3op" where
  "create_router_gw_port env ctx router_id network_id =
     bindE (core_create_port env (env_uuid env) (elevated ctx) (l3_port [] network_id NotSpecified router_id GW)) (\<lambda>gw_port.
     bindE (getsE (fixed_ips_of gw_port)) (\<lambda>ips.
       if ips = []
       then thenE (core_delete_port env (elevated ctx) gw_port) (raiseE (L3BadRequest ''No IPs available for external network''))
       else set_gw_port router_id (Some gw_port)))"

fun check_gw_subnets :: "l3_env \<Rightarrow> ctxt \<Rightarrow> string \<Rightarrow> subnet_row list \<Rightarrow> unit l3op" where
  "check_gw_subnets env ctx router_id [] = returnE ()"
| "check_gw_subnets env ctx router_id (sn # sns) =
     thenE (check_for_dup_router_subnet env ctx router_id (s_id sn) (s_cidr sn)) (check_gw_subnets env ctx router_id sns)"

definition gw_network :: "router_row \<Rightarrow> l3_db \<Rightarrow> (string \<times> string) option" where
  "gw_network r s =
     (case ro_gw_port r of
        None \<Rightarrow> None
      | Some i \<Rightarrow> map_option (\<lambda>p. (i, pt_network p)) (find (\<lambda>p. pt_id p = i) (ports (l3_core s))))"

text \<open>\<open>info\<close>: the network of the gateway of the request, \<open>None\<close> to clear it.\<close>

definition update_router_gw_info :: "l3_env \<Rightarrow> ctxt \<Rightarrow> string \<Rightarrow> string option \<Rightarrow> unit l3op" where
  "update_router_gw_info env ctx router_id info =
     bindE (checkE (get_router_row ctx router_id)) (\<lambda>router.
     bindE (getsE (gw_network router)) (\<lambda>gw_port.
     thenE
       (case info of
          None \<Rightarrow> returnE ()
        | Some network_id \<Rightarrow>
            (if network_id = [] then returnE ()
             else bindE (checkE (get_network_l3 ctx network_id)) (\<lambda>n.
               bindE (getsE (network_is_external network_id)) (\<lambda>external.
                 if external then returnE () else raiseE (L3BadRequest ''Network is not a valid external network'')))))
     (thenE
       (case gw_port of
          None \<Rightarrow> returnE ()
        | Some (i, net) \<Rightarrow>
            (if Some net = info then returnE ()
             else bindE (getsE (fips_where (\<lambda>f. fl_router f = Some router_id))) (\<lambda>fips.
               if fips \<noteq> [] then raiseE (RouterExternalGatewayInUseByFloatingIp router_id net)
               else thenE (set_gw_port router_id None) (core_delete_port env (elevated ctx) i))))
     (case info of
        None \<Rightarrow> returnE ()
      | Some network_id \<Rightarrow>
          (if gw_port \<noteq> None \<and> snd (the gw_port) = network_id then returnE ()
           else bindE (getsE (\<lambda>s. filter (\<lambda>sn. s_network sn = network_id) (subnets (l3_core s)))) (\<lambda>sns.
             thenE (check_gw_subnets env ctx router_id sns) (create_router_gw_port env ctx router_id network_id)))))))"

text \<open>\<open>gw\<close>: \<open>None\<close> where the request does not have the attribute \<open>external_gateway_info\<close>.\<close>

definition create_router :: "l3_env \<Rightarrow> ctxt \<Rightarrow> string option \<Rightarrow> string \<Rightarrow> bool \<Rightarrow> string option option \<Rightarrow> router_row l3op" where
  "create_router env ctx tenant name admin_state_up gw =
     bindE (ask_core (\<lambda>_. get_tenant_id_for_create ctx tenant)) (\<lambda>tenant_id.
     (let router_id = env_uuid env 0;
          env' = env\<lparr>env_uuid := (\<lambda>n. env_uuid env (Suc n))\<rparr>
      in thenE (add_router \<lparr>ro_id = router_id, ro_tenant = tenant_id, ro_name = name, ro_admin_state_up = admin_state_up,
              ro_status = ''ACTIVE'', ro_gw_port = None\<rparr>)
         (thenE (case gw of None \<Rightarrow> returnE () | Some info \<Rightarrow> update_router_gw_info env' ctx router_id info)
           (checkE (get_router_row ctx router_id)))))"

definition update_router ::
    "l3_env \<Rightarrow> ctxt \<Rightarrow> string \<Rightarrow> string option \<Rightarrow> bool option \<Rightarrow> string option option \<Rightarrow> router_row l3op" where
  "update_router env ctx i name admin_state_up gw =
     thenE (case gw of None \<Rightarrow> returnE () | Some info \<Rightarrow> update_router_gw_info env ctx i info)
       (bindE (checkE (get_router_row ctx i)) (\<lambda>router.
       (let router' = router\<lparr>ro_name := (case name of None \<Rightarrow> ro_name router | Some x \<Rightarrow> x),
              ro_admin_state_up := (case admin_state_up of None \<Rightarrow> ro_admin_state_up router | Some x \<Rightarrow> x)\<rparr> in
        thenE (modifyE (\<lambda>s. s\<lparr>l3_routers := replace_row router router' (l3_routers s)\<rparr>)) (returnE router'))))"

definition delete_router :: "l3_env \<Rightarrow> ctxt \<Rightarrow> string \<Rightarrow> unit l3op" where
  "delete_router env ctx i =
     bindE (checkE (get_router_row ctx i)) (\<lambda>router.
     bindE (getsE (fips_where (\<lambda>f. fl_router f = Some i))) (\<lambda>fips.
     if fips \<noteq> [] then raiseE (RouterInUse i)
     else bindE (getsE (ports_where (\<lambda>p. pt_device_id p = i \<and> pt_device_owner p = INTF))) (\<lambda>intfs.
     if intfs \<noteq> [] then raiseE (RouterInUse i)
     else bindE (getsE (ports_where (\<lambda>p. pt_device_id p = i \<and> pt_device_owner p = GW))) (\<lambda>gws.
       thenE (case gws of [] \<Rightarrow> returnE () | p # _ \<Rightarrow> on_core (delete_port_row (env_na env) (elevated ctx) (pt_id p)))
         (modifyE (\<lambda>s. s\<lparr>l3_routers := filter (\<lambda>r. ro_id r \<noteq> i) (l3_routers s)\<rparr>))))))"

section \<open>Interfaces of routers\<close>

text \<open>The body of the request: empty, with one or both of the two keys, or with neither of them.\<close>

datatype interface_info = NoInterface | ByPort string | BySubnet string | ByBoth string string | OtherKeys

definition add_interface_by_port :: "l3_env \<Rightarrow> ctxt \<Rightarrow> string \<Rightarrow> string \<Rightarrow> string l3op" where
  "add_interface_by_port env ctx router_id port_id =
     bindE (ask_core (get_port_row ctx port_id)) (\<lambda>port.
     if pt_device_id port \<noteq> [] then raiseE (L3Core (PortInUse (pt_network port) (pt_id port) (pt_device_id port)))
     else bindE (getsE (fixed_ips_of (pt_id port))) (\<lambda>fixed_ips.
       (case fixed_ips of
          [(ip, subnet_id)] \<Rightarrow>
            bindE (ask_core (get_subnet_row ctx subnet_id)) (\<lambda>subnet.
            thenE (check_for_dup_router_subnet env ctx router_id (s_id subnet) (s_cidr subnet))
              (thenE (modifyE (\<lambda>s. s\<lparr>l3_core := (l3_core s)\<lparr>ports :=
                   replace_row port (port\<lparr>pt_device_id := router_id, pt_device_owner := INTF\<rparr>) (ports (l3_core s))\<rparr>\<rparr>))
                (returnE port_id)))
        | _ \<Rightarrow> raiseE (L3BadRequest ''Router port must have exactly one fixed IP''))))"

definition add_interface_by_subnet :: "l3_env \<Rightarrow> ctxt \<Rightarrow> string \<Rightarrow> string \<Rightarrow> string l3op" where
  "add_interface_by_subnet env ctx router_id subnet_id =
     bindE (ask_core (get_subnet_row ctx subnet_id)) (\<lambda>subnet.
     (case s_gateway subnet of
        None \<Rightarrow> raiseE (L3BadRequest ''Subnet for router interface must have a gateway IP'')
      | Some gateway_ip \<Rightarrow>
          (if gateway_ip = [] then raiseE (L3BadRequest ''Subnet for router interface must have a gateway IP'')
           else thenE (check_for_dup_router_subnet env ctx router_id subnet_id (s_cidr subnet))
             (core_create_port env (env_uuid env) ctx (l3_port (s_tenant subnet) (s_network subnet)
                (Given [\<lparr>fx_subnet = Some (s_id subnet), fx_ip = Some gateway_ip\<rparr>]) router_id INTF)))))"

definition add_router_interface :: "l3_env \<Rightarrow> ctxt \<Rightarrow> string \<Rightarrow> interface_info \<Rightarrow> string l3op" where
  "add_router_interface env ctx router_id info =
     (case info of
        NoInterface \<Rightarrow> raiseE (L3BadRequest ''Either subnet_id or port_id must be specified'')
      | ByBoth _ _ \<Rightarrow> raiseE (L3BadRequest ''Cannot specify both subnet-id and port-id'')
      | ByPort port_id \<Rightarrow> add_interface_by_port env ctx router_id port_id
      | BySubnet subnet_id \<Rightarrow> add_interface_by_subnet env ctx router_id subnet_id
      | OtherKeys \<Rightarrow> raiseE UnboundLocalError)"

definition ip_in_net :: "ipaddr \<Rightarrow> ipnet \<Rightarrow> bool" where
  "ip_in_net a n \<longleftrightarrow> ip_ver a = net_ver n \<and> net_first n \<le> ip_val a \<and> ip_val a \<le> net_last n"

text \<open>\<open>netaddr.IPAddress(None)\<close> raises; a floating IP with a router has a fixed address.\<close>

fun fip_uses_subnet :: "l3_env \<Rightarrow> string \<Rightarrow> string \<Rightarrow> ipnet \<Rightarrow> fip_row list \<Rightarrow> l3_exc + unit" where
  "fip_uses_subnet env router_id subnet_id net [] = Inr ()"
| "fip_uses_subnet env router_id subnet_id net (f # fs) =
     (case fl_fixed_ip f of
        None \<Rightarrow> Inl (L3Core (AddrFormatError ''None''))
      | Some ip \<Rightarrow>
          (case py_ip (env_na env) ip of
             Inl e \<Rightarrow> Inl (L3Core e)
           | Inr a \<Rightarrow> (if ip_in_net a net then Inl (RouterInterfaceInUseByFloatingIP router_id subnet_id)
               else fip_uses_subnet env router_id subnet_id net fs)))"

definition confirm_router_interface_not_in_use :: "l3_env \<Rightarrow> ctxt \<Rightarrow> string \<Rightarrow> string \<Rightarrow> unit l3op" where
  "confirm_router_interface_not_in_use env ctx router_id subnet_id =
     bindE (ask_core (get_subnet_row ctx subnet_id)) (\<lambda>sn.
     bindE (ask_core (\<lambda>_. py_net (env_na env) (s_cidr sn))) (\<lambda>net.
     bindE (getsE (fips_where (\<lambda>f. fl_router f = Some router_id))) (\<lambda>fips.
       liftE (fip_uses_subnet env router_id subnet_id net fips))))"

text \<open>The first fixed address of a port; a port without one raises \<open>IndexError\<close>.\<close>

definition first_fixed_ip :: "string \<Rightarrow> (string \<times> string) l3op" where
  "first_fixed_ip port_id =
     checkE (\<lambda>s. case fixed_ips_of port_id s of [] \<Rightarrow> Inl (L3Core IndexError) | x # _ \<Rightarrow> Inr x)"

definition remove_interface_by_port :: "l3_env \<Rightarrow> ctxt \<Rightarrow> string \<Rightarrow> string \<Rightarrow> string option \<Rightarrow> string l3op" where
  "remove_interface_by_port env ctx router_id port_id subnet =
     bindE (ask_core (get_port_row ctx port_id)) (\<lambda>port_db.
     if \<not> (pt_device_owner port_db = INTF \<and> pt_device_id port_db = router_id)
     then raiseE (RouterInterfaceNotFound router_id port_id)
     else bindE (first_fixed_ip port_id) (\<lambda>(ip, subnet_id).
       if subnet \<noteq> None \<and> subnet \<noteq> Some subnet_id
       then raiseE (L3Core (SubnetMismatchForPort port_id (the subnet)))
       else thenE (ask_core (get_subnet_row ctx subnet_id))
         (thenE (confirm_router_interface_not_in_use env ctx router_id subnet_id)
           (thenE (core_delete_port env ctx (pt_id port_db)) (returnE port_id)))))"

fun remove_first_interface :: "l3_env \<Rightarrow> ctxt \<Rightarrow> string \<Rightarrow> string \<Rightarrow> port_row list \<Rightarrow> string l3op" where
  "remove_first_interface env ctx router_id subnet_id [] = raiseE (RouterInterfaceNotFoundForSubnet router_id subnet_id)"
| "remove_first_interface env ctx router_id subnet_id (p # ps) =
     bindE (first_fixed_ip (pt_id p)) (\<lambda>(ip, sid).
       if sid = subnet_id then thenE (core_delete_port env ctx (pt_id p)) (returnE (pt_id p))
       else remove_first_interface env ctx router_id subnet_id ps)"

definition remove_interface_by_subnet :: "l3_env \<Rightarrow> ctxt \<Rightarrow> string \<Rightarrow> string \<Rightarrow> string l3op" where
  "remove_interface_by_subnet env ctx router_id subnet_id =
     thenE (confirm_router_interface_not_in_use env ctx router_id subnet_id)
       (bindE (ask_core (get_subnet_row ctx subnet_id)) (\<lambda>subnet.
        bindE (getsE (ports_where (\<lambda>p. pt_device_id p = router_id \<and> pt_device_owner p = INTF \<and> pt_network p = s_network subnet)))
          (remove_first_interface env ctx router_id subnet_id)))"

definition remove_router_interface :: "l3_env \<Rightarrow> ctxt \<Rightarrow> string \<Rightarrow> interface_info \<Rightarrow> string l3op" where
  "remove_router_interface env ctx router_id info =
     (case info of
        NoInterface \<Rightarrow> raiseE (L3BadRequest ''Either subnet_id or port_id must be specified'')
      | ByPort port_id \<Rightarrow> remove_interface_by_port env ctx router_id port_id None
      | ByBoth port_id subnet_id \<Rightarrow> remove_interface_by_port env ctx router_id port_id (Some subnet_id)
      | BySubnet subnet_id \<Rightarrow> remove_interface_by_subnet env ctx router_id subnet_id
      | OtherKeys \<Rightarrow> raiseE UnboundLocalError)"

end
