(* ===== verification/FloatingIp.thy ===== *)
theory FloatingIp
  imports L3
begin

text \<open>
  Floating IPs (\<open>neutron/db/l3_db.py\<close>): their association with a port of a tenant through a router, and
  the checks that protect the ports of routers and floating IPs.
\<close>

text \<open>A request; a missing or empty attribute is \<open>None\<close>.  \<open>fr_id\<close> is set in updates only.\<close>

record fip_request =
  fr_tenant :: string
  fr_id :: "string option"
  fr_port :: "string option"
  fr_fixed_ip :: "string option"

fun search_router :: "l3_db \<Rightarrow> string \<Rightarrow> string \<Rightarrow> port_row list \<Rightarrow> l3_exc + string option" where
  "search_router s subnet_id ext_net [] = Inr None"
| "search_router s subnet_id ext_net (p # ps) =
     (case fixed_ips_of (pt_id p) s of
        [] \<Rightarrow> Inl (L3Core IndexError)
      | (ip, sid) # _ \<Rightarrow>
          (if sid = subnet_id \<and>
              ports_where (\<lambda>g. pt_network g = ext_net \<and> pt_device_id g = pt_device_id p \<and> pt_device_owner g = GW) s \<noteq> []
           then Inr (Some (pt_device_id p)) else search_router s subnet_id ext_net ps))"

definition get_router_for_floatingip :: "ctxt \<Rightarrow> port_row \<Rightarrow> string \<Rightarrow> string \<Rightarrow> string l3op" where
  "get_router_for_floatingip ctx internal_port subnet_id ext_net =
     bindE (ask_core (get_subnet_row ctx subnet_id)) (\<lambda>subnet_db.
     if s_gateway subnet_db = None \<or> s_gateway subnet_db = Some []
     then raiseE (L3BadRequest ''Cannot add floating IP to port on subnet which has no gateway_ip'')
     else bindE (checkE (\<lambda>s. search_router s subnet_id ext_net
            (ports_where (\<lambda>p. pt_network p = pt_network internal_port \<and> pt_device_owner p = INTF) s))) (\<lambda>found.
       case found of
         Some router_id \<Rightarrow> returnE router_id
       | None \<Rightarrow> raiseE (ExternalGatewayForFloatingIPNotFound subnet_id (pt_id internal_port))))"

text \<open>With several entries for the address the last one counts.\<close>

definition subnet_of_ip :: "string \<Rightarrow> (string \<times> string) list \<Rightarrow> string option" where
  "subnet_of_ip ip ips = map_option snd (find (\<lambda>x. fst x = ip) (rev ips))"

definition internal_fip_assoc_data :: "ctxt \<Rightarrow> fip_request \<Rightarrow> string \<Rightarrow> (port_row \<times> string \<times> string) l3op" where
  "internal_fip_assoc_data ctx fip port_id =
     bindE (ask_core (get_port_row ctx port_id)) (\<lambda>internal_port.
     if pt_tenant internal_port \<noteq> fr_tenant fip
     then raiseE (L3BadRequest (if fr_id fip = None then ''port is owned by a different tenant''
            else ''Port is associated with a different tenant than Floating IP''))
     else bindE (getsE (fixed_ips_of (pt_id internal_port))) (\<lambda>ips.
       case fr_fixed_ip fip of
         Some ip \<Rightarrow>
           (case subnet_of_ip ip ips of
              None \<Rightarrow> raiseE (L3BadRequest ''Port does not have fixed ip'')
            | Some sid \<Rightarrow> if sid = [] then raiseE (L3BadRequest ''Port does not have fixed ip'')
                else returnE (internal_port, sid, ip))
       | None \<Rightarrow>
           (case ips of
              [] \<Rightarrow> raiseE (L3BadRequest ''Cannot add floating IP to port that has no fixed IP addresses'')
            | [(ip, sid)] \<Rightarrow> returnE (internal_port, sid, ip)
            | _ \<Rightarrow> raiseE (L3BadRequest ''Port has multiple fixed IPs''))))"

definition get_assoc_data :: "ctxt \<Rightarrow> fip_request \<Rightarrow> string \<Rightarrow> string \<Rightarrow> (string \<times> string \<times> string) l3op" where
  "get_assoc_data ctx fip port_id floating_network_id =
     bindE (internal_fip_assoc_data ctx fip port_id) (\<lambda>(internal_port, subnet_id, internal_ip).
     bindE (get_router_for_floatingip ctx internal_port subnet_id floating_network_id) (\<lambda>router_id.
     bindE (checkE (\<lambda>s. one_row (L3Core MultipleResultsFound) (ports_where (\<lambda>p. pt_network p = floating_network_id \<and>
            pt_device_id p = router_id \<and> pt_device_owner p = GW) s))) (\<lambda>gw.
       case gw of
         None \<Rightarrow> raiseE (ExternalGatewayForFloatingIPNotFound subnet_id (pt_id internal_port))
       | Some _ \<Rightarrow> returnE (port_id, internal_ip, router_id))))"

definition associated :: "fip_row \<Rightarrow> string \<Rightarrow> string \<Rightarrow> string \<Rightarrow> bool" where
  "associated f net port_id ip \<longleftrightarrow> fl_fixed_port f = Some port_id \<and> fl_network f = net \<and> fl_fixed_ip f = Some ip"

text \<open>\<open>_update_fip_assoc\<close>: the row with its new association.\<close>

definition update_fip_assoc :: "ctxt \<Rightarrow> fip_request \<Rightarrow> fip_row \<Rightarrow> fip_row l3op" where
  "update_fip_assoc ctx fip f =
     (case fr_port fip of
        None \<Rightarrow>
          (if fr_fixed_ip fip \<noteq> None then raiseE (L3BadRequest ''fixed_ip_address cannot be specified without a port_id'')
           else returnE (f\<lparr>fl_fixed_ip := None, fl_fixed_port := None, fl_router := None\<rparr>))
      | Some port_id \<Rightarrow>
          bindE (get_assoc_data ctx fip port_id (fl_network f)) (\<lambda>(pid, internal_ip, router_id).
          bindE (checkE (\<lambda>s. one_row (L3Core MultipleResultsFound) (fips_where (\<lambda>g. associated g (fl_network f) port_id internal_ip) s)))
            (\<lambda>other. case other of
               Some _ \<Rightarrow> raiseE (FloatingIPPortAlreadyAssociated port_id (fl_id f))
             | None \<Rightarrow> returnE (f\<lparr>fl_fixed_ip := Some internal_ip, fl_fixed_port := Some pid, fl_router := Some router_id\<rparr>))))"

text \<open>The part of \<open>create_floatingip\<close> that follows the creation of the external port.\<close>

definition record_floatingip ::
    "ctxt \<Rightarrow> string \<Rightarrow> string \<Rightarrow> string \<Rightarrow> string option \<Rightarrow> string option \<Rightarrow> string \<Rightarrow> fip_row l3op" where
  "record_floatingip ctx tenant_id fip_id f_net_id port_id fixed_ip external_port =
     bindE (getsE (fixed_ips_of external_port)) (\<lambda>ips.
       case ips of
         [] \<Rightarrow> raiseE (L3Core (ExternalIpAddressExhausted f_net_id))
       | (address, _) # _ \<Rightarrow>
           bindE (update_fip_assoc ctx \<lparr>fr_tenant = tenant_id, fr_id = None, fr_port = port_id, fr_fixed_ip = fixed_ip\<rparr>
               \<lparr>fl_id = fip_id, fl_tenant = tenant_id, fl_address = address, fl_network = f_net_id, fl_port = external_port,
                fl_fixed_port = None, fl_fixed_ip = None, fl_router = None\<rparr>) (\<lambda>f.
           thenE (add_fip f) (returnE f)))"

definition create_floatingip ::
    "l3_env \<Rightarrow> ctxt \<Rightarrow> string option \<Rightarrow> string \<Rightarrow> string option \<Rightarrow> string option \<Rightarrow> fip_row l3op" where
  "create_floatingip env ctx tenant f_net_id port_id fixed_ip =
     bindE (ask_core (\<lambda>_. get_tenant_id_for_create ctx tenant)) (\<lambda>tenant_id.
     bindE (getsE (network_is_external f_net_id)) (\<lambda>external.
     if \<not> external then raiseE (L3BadRequest ''Network is not a valid external network'')
     else
        bindE (core_create_port env (\<lambda>n. env_uuid env (Suc n)) (elevated ctx)
            (l3_port [] f_net_id NotSpecified (env_uuid env 0) FLOATINGIP))
          (record_floatingip ctx tenant_id (env_uuid env 0) f_net_id port_id fixed_ip)))"

definition update_floatingip :: "ctxt \<Rightarrow> string \<Rightarrow> string option \<Rightarrow> string option \<Rightarrow> fip_row l3op" where
  "update_floatingip ctx i port_id fixed_ip =
     bindE (checkE (get_floatingip_row ctx i)) (\<lambda>f.
     thenE (ask_core (get_port_row (elevated ctx) (fl_port f)))
       (bindE (update_fip_assoc ctx \<lparr>fr_tenant = fl_tenant f, fr_id = Some i, fr_port = port_id, fr_fixed_ip = fixed_ip\<rparr> f) (\<lambda>f'.
        thenE (set_fip f f') (returnE f'))))"

definition delete_floatingip :: "l3_env \<Rightarrow> ctxt \<Rightarrow> string \<Rightarrow> unit l3op" where
  "delete_floatingip env ctx i =
     bindE (checkE (get_floatingip_row ctx i)) (\<lambda>f.
     thenE (modifyE (\<lambda>s. s\<lparr>l3_fips := filter (\<lambda>g. fl_id g \<noteq> i) (l3_fips s)\<rparr>))
       (core_delete_port env (elevated ctx) (fl_port f)))"

definition disassociate_floatingips :: "string \<Rightarrow> unit l3op" where
  "disassociate_floatingips port_id =
     bindE (checkE (\<lambda>s. one_row (MultipleFloatingIPs port_id) (fips_where (\<lambda>f. fl_fixed_port f = Some port_id) s))) (\<lambda>r.
       case r of
         None \<Rightarrow> returnE ()
       | Some f \<Rightarrow> set_fip f (f\<lparr>fl_fixed_port := None, fl_fixed_ip := None, fl_router := None\<rparr>))"

definition prevent_l3_port_deletion :: "ctxt \<Rightarrow> string \<Rightarrow> unit l3op" where
  "prevent_l3_port_deletion ctx port_id =
     bindE (ask_core (get_port_row ctx port_id)) (\<lambda>port_db.
     bindE (getsE (fixed_ips_of port_id)) (\<lambda>fixed_ips.
       if pt_device_owner port_db \<in> {INTF, GW, FLOATINGIP} \<and> fixed_ips \<noteq> []
       then raiseE (L3PortInUse port_id (pt_device_owner port_db)) else returnE ()))"

end
