(* ===== verification/L3Props.thy ===== *)
theory L3Props
  imports FloatingIp CoreDemo
begin

text \<open>
  Routers and floating IPs: the references of floating IPs to routers and ports and the uniqueness of
  associations are kept by every operation, whatever happens to the database of the core plugin in between
  as far as the foreign keys of the floating IPs admit it.
\<close>

section \<open>The tables of the mixin\<close>

text \<open>A floating IP is associated with a port, an address and a router, or with none of them.\<close>

definition fip_whole :: "fip_row \<Rightarrow> bool" where
  "fip_whole f \<longleftrightarrow> (fl_fixed_port f = None \<and> fl_fixed_ip f = None \<and> fl_router f = None) \<or>
     (fl_fixed_port f \<noteq> None \<and> fl_fixed_ip f \<noteq> None \<and> fl_router f \<noteq> None)"

definition apart :: "fip_row \<Rightarrow> fip_row \<Rightarrow> bool" where
  "apart f g \<longleftrightarrow> fl_fixed_port f = None \<or> \<not> (fl_network f = fl_network g \<and> fl_fixed_port f = fl_fixed_port g \<and> fl_fixed_ip f = fl_fixed_ip g)"

definition l3_inv :: "l3_db \<Rightarrow> bool" where
  "l3_inv s \<longleftrightarrow>
     distinct (map ro_id (l3_routers s)) \<and> distinct (map fl_id (l3_fips s)) \<and>
     (\<forall>f \<in> set (l3_fips s). fip_whole f \<and> fip_refs_ok f s) \<and>
     (\<forall>f \<in> set (l3_fips s). \<forall>g \<in> set (l3_fips s). fl_id f \<noteq> fl_id g \<longrightarrow> apart f g)"

lemma l3_inv_ports: "l3_inv s \<Longrightarrow> fip_ports_ok (l3_fips s) (l3_core s)"
  by (simp add: l3_inv_def fip_refs_ok_def fip_ports_ok_def)

text \<open>The invariant depends on the core plugin's database through the ports of the floating IPs only.\<close>

lemma l3_inv_cong:
  "map ro_id (l3_routers t) = map ro_id (l3_routers s) \<Longrightarrow> l3_fips t = l3_fips s \<Longrightarrow>
    fip_ports_ok (l3_fips s) (l3_core t) \<Longrightarrow> l3_inv s \<Longrightarrow> l3_inv t"
proof -
  assume r: "map ro_id (l3_routers t) = map ro_id (l3_routers s)" and f: "l3_fips t = l3_fips s"
    and p: "fip_ports_ok (l3_fips s) (l3_core t)" and i: "l3_inv s"
  from arg_cong [OF r, of set] have "ro_id ` set (l3_routers t) = ro_id ` set (l3_routers s)" by simp
  with p have "g \<in> set (l3_fips s) \<Longrightarrow> fip_refs_ok g s \<Longrightarrow> fip_refs_ok g t" for g
    by (simp add: fip_refs_ok_def fip_ports_ok_def split: option.splits)
  with r f i show ?thesis by (simp add: l3_inv_def)
qed

lemma on_core_Inr:
  "on_core m s = Inr (a, t) \<longleftrightarrow> (\<exists>d. m (l3_core s) = Inr (a, d) \<and> fip_ports_ok (l3_fips s) d \<and> t = s\<lparr>l3_core := d\<rparr>)"
  by (auto simp: on_core_def split: sum.splits)

lemma keeps_on_core [keeps_intro]: "keeps l3_inv (on_core m)"
  by (rule keepsI) (auto simp: on_core_Inr intro: l3_inv_cong [rotated 3])

lemma keeps_ask_core [keeps_intro]: "keeps l3_inv (ask_core f)"
  unfolding ask_core_def by (rule keeps_check)

lemma fip_ports_ok_cong: "map pt_id (ports d) = map pt_id (ports e) \<Longrightarrow> fip_ports_ok fs d = fip_ports_ok fs e"
proof -
  assume "map pt_id (ports d) = map pt_id (ports e)"
  from arg_cong [OF this, of set] have "pt_id ` set (ports d) = pt_id ` set (ports e)" by simp
  then show ?thesis by (simp add: fip_ports_ok_def)
qed

lemma keeps_same_rows:
  "(\<And>s. map ro_id (l3_routers (f s)) = map ro_id (l3_routers s) \<and> l3_fips (f s) = l3_fips s \<and>
      map pt_id (ports (l3_core (f s))) = map pt_id (ports (l3_core s))) \<Longrightarrow> keeps l3_inv (modifyE f)"
  by (rule keeps_modify) (blast intro: l3_inv_cong fip_ports_ok_cong [THEN iffD2] l3_inv_ports)

lemma ask_core_Inr: "ask_core f s = Inr (a, t) \<longleftrightarrow> f (l3_core s) = Inr a \<and> t = s"
  by (cases "f (l3_core s)") (auto simp: ask_core_def checkE_def)

section \<open>Routers and interfaces\<close>

lemma keeps_set_gw_port [keeps_intro]: "keeps l3_inv (set_gw_port i gw)"
  unfolding set_gw_port_def by (rule keeps_same_rows) (auto simp: comp_def intro!: map_cong)

lemma keeps_core_ports [keeps_intro]:
  "keeps l3_inv (core_create_port env uuid ctx p)" "keeps l3_inv (core_delete_port env ctx i)"
  unfolding core_create_port_def core_delete_port_def by (intro keeps_intro)+

lemma keeps_gw_port [keeps_intro]: "keeps l3_inv (create_router_gw_port env ctx i n)"
  unfolding create_router_gw_port_def by (intro keeps_intro)

lemma keeps_dup_ips [keeps_intro]: "keeps l3_inv (check_dup_ips env ctx i c ips)"
proof (induction ips)
  case (Cons x xs)
  obtain ip sid where "x = (ip, sid)" by force
  with Cons show ?case by (auto intro!: keeps_intro)
next
  case Nil
  show ?case unfolding check_dup_ips.simps by (rule keeps_return)
qed

lemma keeps_dup_subnet [keeps_intro]: "keeps l3_inv (check_for_dup_router_subnet env ctx r i c)"
  unfolding check_for_dup_router_subnet_def by (intro keeps_intro)

lemma keeps_gw_subnets [keeps_intro]: "keeps l3_inv (check_gw_subnets env ctx i sns)"
proof (induction sns)
  case Nil
  show ?case unfolding check_gw_subnets.simps by (rule keeps_return)
qed (auto intro!: keeps_intro)

lemma keeps_gw_info [keeps_intro]: "keeps l3_inv (update_router_gw_info env ctx i info)"
  unfolding update_router_gw_info_def
  by (intro keeps_intro) (auto split: option.splits intro!: keeps_intro)

lemma keeps_add_router [keeps_intro]: "keeps l3_inv (add_router r)"
proof (rule keepsI)
  fix s u t assume i: "l3_inv s" and run: "add_router r s = Inr (u, t)"
  from run have r: "ro_id r \<notin> ro_id ` set (l3_routers s)" and t: "t = s\<lparr>l3_routers := l3_routers s @ [r]\<rparr>"
    by (auto simp: add_router_def split: if_splits)
  have "fip_refs_ok f s \<Longrightarrow> fip_refs_ok f t" for f by (auto simp: fip_refs_ok_def t split: option.splits)
  with i r show "l3_inv t" by (auto simp: l3_inv_def t)
qed

lemma keeps_create_router: "keeps l3_inv (create_router env ctx tn n a gw)"
  unfolding create_router_def Let_def
  by (intro keeps_intro) (auto split: option.splits intro!: keeps_intro)

lemma replace_port_ids: "pt_id p' = pt_id p \<Longrightarrow> map pt_id (replace_row p p' ps) = map pt_id ps"
  by (induction ps) (auto simp: replace_row_def)

lemma replace_router_ids: "ro_id r' = ro_id r \<Longrightarrow> map ro_id (replace_row r r' rs) = map ro_id rs"
  by (induction rs) (auto simp: replace_row_def)

lemma keeps_update_router: "keeps l3_inv (update_router env ctx i n a gw)"
  unfolding update_router_def Let_def
  by (intro keeps_intro keeps_same_rows) (auto split: option.splits intro!: keeps_intro simp: replace_router_ids)

text \<open>The router that is deleted has no floating IP.\<close>

lemma keeps_delete_router: "keeps l3_inv (delete_router env ctx i)"
proof (rule keepsI)
  fix s u t assume inv: "l3_inv s" and run: "delete_router env ctx i s = Inr (u, t)"
  then have none: "\<forall>f \<in> set (l3_fips s). fl_router f \<noteq> Some i"
    by (auto simp: delete_router_def op_simps fips_where_def filter_empty_conv split: if_splits)
  from run obtain s1 x where s1: "(case ports_where (\<lambda>p. pt_device_id p = i \<and> pt_device_owner p = GW) s of
      [] \<Rightarrow> returnE () | p # _ \<Rightarrow> on_core (delete_port_row (env_na env) (elevated ctx) (pt_id p))) s = Inr (x, s1)"
    and t: "t = s1\<lparr>l3_routers := filter (\<lambda>r. ro_id r \<noteq> i) (l3_routers s1)\<rparr>"
    by (auto simp: delete_router_def op_simps split: if_splits)
  from s1 have same: "l3_routers s1 = l3_routers s" "l3_fips s1 = l3_fips s"
    by (auto simp: on_core_Inr split: list.splits)
  from s1 inv have "l3_inv s1" by (auto split: list.splits dest: keepsD [OF keeps_on_core])
  then have ports: "fip_ports_ok (l3_fips s) (l3_core t)" by (simp add: l3_inv_ports t flip: same)
  have "fip_refs_ok f t" if "f \<in> set (l3_fips s)" for f
  proof (cases "fl_router f")
    case (Some k)
    with inv that none have "k \<in> ro_id ` set (l3_routers s)" "k \<noteq> i"
      by (auto simp: l3_inv_def fip_refs_ok_def split: option.splits)
    then have "k \<in> ro_id ` set (filter (\<lambda>r. ro_id r \<noteq> i) (l3_routers s))" by auto
    with Some ports that show ?thesis by (simp add: fip_refs_ok_def fip_ports_ok_def t same)
  next
    case None
    with ports that show ?thesis by (simp add: fip_refs_ok_def fip_ports_ok_def)
  qed
  with inv same show "l3_inv t" by (auto simp: l3_inv_def t distinct_map_filter)
qed

lemma keeps_add_interface: "keeps l3_inv (add_router_interface env ctx r info)"
proof -
  have "keeps l3_inv (add_interface_by_port env ctx r p)" for p
    unfolding add_interface_by_port_def
    by (intro keeps_intro) (auto split: list.splits intro!: keeps_intro keeps_same_rows simp: replace_port_ids)
  moreover have "keeps l3_inv (add_interface_by_subnet env ctx r sn)" for sn
    unfolding add_interface_by_subnet_def
    by (intro keeps_intro) (auto split: option.splits intro!: keeps_intro)
  ultimately show ?thesis unfolding add_router_interface_def
    by (auto split: interface_info.splits intro: keeps_raise)
qed

lemma keeps_confirm [keeps_intro]: "keeps l3_inv (confirm_router_interface_not_in_use env ctx r sn)"
  unfolding confirm_router_interface_not_in_use_def by (intro keeps_intro)

lemma keeps_first_ip [keeps_intro]: "keeps l3_inv (first_fixed_ip i)"
  unfolding first_fixed_ip_def by (rule keeps_check)

lemma keeps_remove_interface: "keeps l3_inv (remove_router_interface env ctx r info)"
proof -
  have "keeps l3_inv (remove_first_interface env ctx r sn ps)" for sn ps
  proof (induction ps)
    case Nil
    show ?case unfolding remove_first_interface.simps by (rule keeps_raise)
  qed (auto intro!: keeps_intro)
  then have "keeps l3_inv (remove_interface_by_subnet env ctx r sn)" for sn
    unfolding remove_interface_by_subnet_def by (intro keeps_intro)
  moreover have "keeps l3_inv (remove_interface_by_port env ctx r p sn)" for p sn
    unfolding remove_interface_by_port_def by (auto intro!: keeps_intro)
  ultimately show ?thesis unfolding remove_router_interface_def
    by (auto split: interface_info.splits intro: keeps_raise)
qed

lemma keeps_new_external: "keeps l3_inv (process_l3_create n v)"
  unfolding process_l3_create_def by (intro keeps_intro keeps_same_rows) simp

lemma keeps_external: "keeps l3_inv (process_l3_update n v)"
  unfolding process_l3_update_def
  by (intro keeps_intro) (auto split: option.splits intro!: keeps_intro keeps_same_rows)

section \<open>Floating IPs\<close>

lemma get_router_for_fip_Inr: "get_router_for_floatingip ctx p sn net s = Inr (r, t) \<Longrightarrow> t = s"
  by (auto simp: get_router_for_floatingip_def op_simps ask_core_Inr split: if_splits option.splits)

lemma internal_fip_Inr: "internal_fip_assoc_data ctx fip i s = Inr (r, t) \<Longrightarrow> t = s"
  by (auto simp: internal_fip_assoc_data_def op_simps ask_core_Inr split: if_splits option.splits list.splits)

lemma get_assoc_data_Inr: "get_assoc_data ctx fip i net s = Inr (r, t) \<Longrightarrow> t = s"
  unfolding get_assoc_data_def
  by (auto simp: op_simps split: prod.splits option.splits dest!: internal_fip_Inr get_router_for_fip_Inr)

lemma get_assoc_data_port: "get_assoc_data ctx fip i net s = Inr ((pid, ip, r), t) \<Longrightarrow> pid = i"
  unfolding get_assoc_data_def by (auto simp: op_simps split: prod.splits option.splits)

lemma update_fip_assoc_Inr:
  assumes "update_fip_assoc ctx fip f s = Inr (f', t)"
  shows "t = s \<and> fl_id f' = fl_id f \<and> fip_whole f' \<and> (\<forall>g \<in> set (l3_fips s). apart f' g)"
proof (cases "fr_port fip")
  case None
  with assms show ?thesis by (auto simp: update_fip_assoc_def fip_whole_def apart_def split: if_splits)
next
  case (Some i)
  from assms have "bindE (get_assoc_data ctx fip i (fl_network f)) (\<lambda>(pid, internal_ip, router_id).
          bindE (checkE (\<lambda>s. one_row (L3Core MultipleResultsFound) (fips_where (\<lambda>g. associated g (fl_network f) i internal_ip) s)))
            (\<lambda>other. case other of
               Some _ \<Rightarrow> raiseE (FloatingIPPortAlreadyAssociated i (fl_id f))
             | None \<Rightarrow> returnE (f\<lparr>fl_fixed_ip := Some internal_ip, fl_fixed_port := Some pid, fl_router := Some router_id\<rparr>))) s = Inr (f', t)"
    by (simp add: update_fip_assoc_def Some)
  then obtain pid ip r s1 other where d: "get_assoc_data ctx fip i (fl_network f) s = Inr ((pid, ip, r), s1)"
    and o: "one_row (L3Core MultipleResultsFound) (fips_where (\<lambda>g. associated g (fl_network f) i ip) s1) = Inr other"
    and f': "(case other of Some _ \<Rightarrow> raiseE (FloatingIPPortAlreadyAssociated i (fl_id f))
             | None \<Rightarrow> returnE (f\<lparr>fl_fixed_ip := Some ip, fl_fixed_port := Some pid, fl_router := Some r\<rparr>)) s1 = Inr (f', t)"
    by (fastforce simp: bindE_Inr checkE_Inr)
  have same: "s1 = s" "pid = i" using get_assoc_data_Inr [OF d] get_assoc_data_port [OF d] by simp_all
  from f' have "other = None" by (cases other) simp_all
  with o have "fips_where (\<lambda>g. associated g (fl_network f) i ip) s = []" by (simp add: same one_row_None)
  then have "\<forall>g \<in> set (l3_fips s). \<not> associated g (fl_network f) i ip" by (simp add: fips_where_def filter_empty_conv)
  with f' \<open>other = None\<close> show ?thesis by (auto simp: fip_whole_def apart_def associated_def same)
qed

lemma apart_sym: "apart f g \<longleftrightarrow> apart g f"
  by (auto simp: apart_def)

lemma record_floatingip_inv:
  assumes inv: "l3_inv s" and run: "record_floatingip ctx tn i net p ip x s = Inr (r, t)"
  shows "l3_inv t"
proof -
  from run obtain fip f f' s2 where u: "update_fip_assoc ctx fip f s = Inr (f', s2)" and a: "add_fip f' s2 = Inr ((), t)"
  proof (cases "fixed_ips_of x s")
    case (Cons y ys)
    obtain b c where "y = (b, c)" by force
    with Cons run that show ?thesis by (auto simp: record_floatingip_def op_simps)
  qed (simp add: record_floatingip_def op_simps)
  from update_fip_assoc_Inr [OF u] have f': "s2 = s" "fip_whole f'" "\<forall>g \<in> set (l3_fips s). apart f' g" by auto
  from a f'(1) have n: "fl_id f' \<notin> fl_id ` set (l3_fips s)" "fip_refs_ok f' s" "t = s\<lparr>l3_fips := l3_fips s @ [f']\<rparr>"
    by (auto simp: add_fip_def split: if_splits)
  have "fip_refs_ok g t = fip_refs_ok g s" for g by (simp add: fip_refs_ok_def n(3) split: option.splits)
  with inv f' n show ?thesis by (auto simp: l3_inv_def apart_sym)
qed

lemma keeps_record_floatingip [keeps_intro]: "keeps l3_inv (record_floatingip ctx tn i net p ip x)"
  by (rule keepsI) (rule record_floatingip_inv)

lemma keeps_create_floatingip: "keeps l3_inv (create_floatingip env ctx tn net p ip)"
  unfolding create_floatingip_def by (intro keeps_intro)

text \<open>Replacing the row of a floating IP by one that is apart from the others.\<close>

lemma set_fip_inv:
  assumes "l3_inv s" "f \<in> set (l3_fips s)" "set_fip f f' s = Inr (u, t)" "fl_id f' = fl_id f" "fip_whole f'"
    "\<forall>g \<in> set (l3_fips s). apart f' g"
  shows "l3_inv t"
proof -
  from assms(3) have t: "t = s\<lparr>l3_fips := replace_row f f' (l3_fips s)\<rparr>" "fip_refs_ok f' s"
    by (auto simp: set_fip_def split: if_splits)
  have ids: "map fl_id (replace_row f f' (l3_fips s)) = map fl_id (l3_fips s)"
    using assms(4) by (auto simp: replace_row_def)
  have mem: "set (l3_fips t) \<subseteq> insert f' (set (l3_fips s))" using assms(2) by (auto simp: t set_replace_row)
  have refs: "fip_refs_ok g t = fip_refs_ok g s" for g by (simp add: fip_refs_ok_def t(1) split: option.splits)
  have "apart g h" if "g \<in> set (l3_fips t)" "h \<in> set (l3_fips t)" "fl_id g \<noteq> fl_id h" for g h
  proof -
    from that(1,2) mem have "g = f' \<or> g \<in> set (l3_fips s)" "h = f' \<or> h \<in> set (l3_fips s)" by auto
    with that(3) assms(1,6) show ?thesis unfolding l3_inv_def using apart_sym by metis
  qed
  moreover have "fip_whole g \<and> fip_refs_ok g t" if "g \<in> set (l3_fips t)" for g
    using that mem assms(1,5) t(2) unfolding refs l3_inv_def by blast
  moreover have "distinct (map ro_id (l3_routers t))" "distinct (map fl_id (l3_fips t))"
    using assms(1) ids by (simp_all add: l3_inv_def t(1))
  ultimately show ?thesis by (simp add: l3_inv_def)
qed

lemma get_floatingip_row_Inr: "get_floatingip_row ctx i s = Inr f \<Longrightarrow> f \<in> set (l3_fips s) \<and> fl_id f = i"
proof -
  assume "get_floatingip_row ctx i s = Inr f"
  then have "filter (\<lambda>f. fl_id f = i) (model_query ctx (Some fl_tenant) None [] (l3_fips s)) = [f]"
    by (auto simp: get_floatingip_row_def op_simps split: option.splits)
  then have "f \<in> set (filter (\<lambda>f. fl_id f = i) (model_query ctx (Some fl_tenant) None [] (l3_fips s)))" by simp
  then show ?thesis using model_query_subset by fastforce
qed

lemma keeps_update_floatingip: "keeps l3_inv (update_floatingip ctx i p ip)"
proof (rule keepsI)
  fix s r t assume inv: "l3_inv s" and run: "update_floatingip ctx i p ip s = Inr (r, t)"
  then obtain f fip f' s1 where f: "get_floatingip_row ctx i s = Inr f"
    and u: "update_fip_assoc ctx fip f s = Inr (f', s1)" and a: "set_fip f f' s1 = Inr ((), t)"
    by (auto simp: update_floatingip_def op_simps ask_core_Inr)
  from update_fip_assoc_Inr [OF u] a have "set_fip f f' s = Inr ((), t)" "fl_id f' = fl_id f" "fip_whole f'"
    "\<forall>g \<in> set (l3_fips s). apart f' g" by auto
  with set_fip_inv [OF inv] get_floatingip_row_Inr [OF f] show "l3_inv t" by blast
qed

lemma keeps_delete_floatingip: "keeps l3_inv (delete_floatingip env ctx i)"
proof -
  have "keeps l3_inv (modifyE (\<lambda>s. s\<lparr>l3_fips := filter (\<lambda>g. fl_id g \<noteq> i) (l3_fips s)\<rparr>))"
    by (rule keeps_modify) (auto simp: l3_inv_def distinct_map_filter fip_refs_ok_def split: option.splits)
  then show ?thesis unfolding delete_floatingip_def by (intro keeps_intro)
qed

lemma keeps_disassociate: "keeps l3_inv (disassociate_floatingips p)"
proof (rule keepsI)
  fix s u t assume inv: "l3_inv s" and run: "disassociate_floatingips p s = Inr (u, t)"
  show "l3_inv t"
  proof (cases "fips_where (\<lambda>f. fl_fixed_port f = Some p) s")
    case Nil
    with run inv show ?thesis by (auto simp: disassociate_floatingips_def op_simps)
  next
    case (Cons f fs)
    with run obtain r where r: "one_row (MultipleFloatingIPs p) (f # fs) = Inr r"
      "(case r of None \<Rightarrow> returnE () | Some f \<Rightarrow> set_fip f (f\<lparr>fl_fixed_port := None, fl_fixed_ip := None, fl_router := None\<rparr>)) s = Inr (u, t)"
      by (auto simp: disassociate_floatingips_def op_simps)
    then have st: "set_fip f (f\<lparr>fl_fixed_port := None, fl_fixed_ip := None, fl_router := None\<rparr>) s = Inr (u, t)"
      by (cases fs) auto
    from Cons have "f \<in> set (fips_where (\<lambda>f. fl_fixed_port f = Some p) s)" by simp
    then have "f \<in> set (l3_fips s)" by (simp add: fips_where_def)
    from set_fip_inv [OF inv this st] show ?thesis by (auto simp: fip_whole_def apart_def)
  qed
qed

section \<open>Reachable states\<close>

text \<open>The operations of the mixin, with any change of the core plugin's database between them that
  the foreign keys of the floating IPs admit.\<close>

inductive l3_step :: "l3_db \<Rightarrow> l3_db \<Rightarrow> bool" where
  core: "fip_ports_ok (l3_fips s) d \<Longrightarrow> l3_step s (s\<lparr>l3_core := d\<rparr>)"
| network_created: "process_l3_create n v s = Inr (u, t) \<Longrightarrow> l3_step s t"
| network_updated: "process_l3_update n v s = Inr (u, t) \<Longrightarrow> l3_step s t"
| router_created: "create_router env ctx tn n a gw s = Inr (r, t) \<Longrightarrow> l3_step s t"
| router_updated: "update_router env ctx i nn aa gw s = Inr (r, t) \<Longrightarrow> l3_step s t"
| router_deleted: "delete_router env ctx i s = Inr (u, t) \<Longrightarrow> l3_step s t"
| interface_added: "add_router_interface env ctx i info s = Inr (p, t) \<Longrightarrow> l3_step s t"
| interface_removed: "remove_router_interface env ctx i info s = Inr (p, t) \<Longrightarrow> l3_step s t"
| floatingip_created: "create_floatingip env ctx tn n pid ip s = Inr (f, t) \<Longrightarrow> l3_step s t"
| floatingip_updated: "update_floatingip ctx i pid ip s = Inr (f, t) \<Longrightarrow> l3_step s t"
| floatingip_deleted: "delete_floatingip env ctx i s = Inr (u, t) \<Longrightarrow> l3_step s t"
| disassociated: "disassociate_floatingips i s = Inr (u, t) \<Longrightarrow> l3_step s t"

inductive l3_reach :: "l3_db \<Rightarrow> bool" where
  empty: "l3_reach \<lparr>l3_core = d, l3_routers = [], l3_fips = [], l3_external = []\<rparr>"
| step: "l3_reach s \<Longrightarrow> l3_step s t \<Longrightarrow> l3_reach t"

lemma l3_step_inv: "l3_step s t \<Longrightarrow> l3_inv s \<Longrightarrow> l3_inv t"
proof (induction rule: l3_step.induct)
  case (core s d)
  then show ?case by (auto intro: l3_inv_cong [of "s\<lparr>l3_core := d\<rparr>" s])
qed (blast dest: keepsD [OF keeps_new_external] keepsD [OF keeps_external] keepsD [OF keeps_create_router]
       keepsD [OF keeps_update_router] keepsD [OF keeps_delete_router] keepsD [OF keeps_add_interface]
       keepsD [OF keeps_remove_interface] keepsD [OF keeps_create_floatingip] keepsD [OF keeps_update_floatingip]
       keepsD [OF keeps_delete_floatingip] keepsD [OF keeps_disassociate])+

lemma l3_reach_inv: "l3_reach s \<Longrightarrow> l3_inv s"
proof (induction rule: l3_reach.induct)
  case (empty d)
  show ?case by (simp add: l3_inv_def)
next
  case (step s t)
  from l3_step_inv [OF step.hyps(2) step.IH] show ?case .
qed

text \<open>
  C37: in every reachable state, whatever the core plugin did to its own tables in between as far as the
  foreign keys of the floating IPs admit it, routers and floating IPs have unique identifiers, the own port
  of a floating IP exists, a floating IP has an existing port, a fixed address and an existing router or
  none of the three, and no two floating IPs of an external network are associated with the same address
  of the same port.
\<close>

theorem floating_ips_consistent:
  assumes "l3_reach s" "f \<in> set (l3_fips s)"
  shows "distinct (map ro_id (l3_routers s)) \<and> distinct (map fl_id (l3_fips s)) \<and>
    (fl_fixed_port f = None \<longleftrightarrow> fl_router f = None) \<and> (fl_fixed_ip f = None \<longleftrightarrow> fl_router f = None) \<and>
    (\<forall>i. fl_router f = Some i \<longrightarrow> (\<exists>r \<in> set (l3_routers s). ro_id r = i)) \<and>
    (\<exists>p \<in> set (ports (l3_core s)). pt_id p = fl_port f) \<and>
    (\<forall>i. fl_fixed_port f = Some i \<longrightarrow> (\<exists>p \<in> set (ports (l3_core s)). pt_id p = i)) \<and>
    (\<forall>g \<in> set (l3_fips s). fl_fixed_port f \<noteq> None \<and> fl_fixed_port g = fl_fixed_port f \<and> fl_network g = fl_network f \<and>
       fl_fixed_ip g = fl_fixed_ip f \<longrightarrow> g = f)"
proof -
  have inv: "l3_inv s" by (rule l3_reach_inv [OF assms(1)])
  then have "fip_whole f" "fip_refs_ok f s" "distinct (map ro_id (l3_routers s))" and d: "distinct (map fl_id (l3_fips s))"
    using assms(2) by (auto simp: l3_inv_def)
  moreover have "g = f" if "g \<in> set (l3_fips s)" "fl_fixed_port f \<noteq> None" "fl_fixed_port g = fl_fixed_port f"
    "fl_network g = fl_network f" "fl_fixed_ip g = fl_fixed_ip f" for g
  proof -
    have "fl_id f = fl_id g"
    proof (rule ccontr)
      assume "fl_id f \<noteq> fl_id g"
      with inv assms(2) that(1) have "apart f g" unfolding l3_inv_def by blast
      with that show False by (simp add: apart_def)
    qed
    with d assms(2) that(1) show ?thesis by (simp add: distinct_map inj_on_def)
  qed
  moreover have "fip_port_ok (pt_id ` set (ports (l3_core s))) f" using \<open>fip_refs_ok f s\<close> by (simp add: fip_refs_ok_def)
  ultimately show ?thesis by (auto simp: fip_whole_def fip_refs_ok_def fip_port_ok_def)
qed

text \<open>
  A router with an interface and a gateway on the network of the example, and a floating IP for the
  address of its port.
\<close>

definition demo_l3_env :: l3_env where
  "demo_l3_env = \<lparr>env_na = demo_netaddr, env_match = (\<lambda>_ _. False), env_cfg = demo_conf, env_uuid = demo_uuid, env_rnd = demo_rnd\<rparr>"

definition demo_router_port :: "string \<Rightarrow> string \<Rightarrow> string \<Rightarrow> port_row" where
  "demo_router_port i mac owner = demo_port_row\<lparr>pt_id := i, pt_mac := mac, pt_device_id := ''u'', pt_device_owner := owner\<rparr>"

definition demo_l3_core :: db where
  "demo_l3_core = demo_db3\<lparr>ports := [demo_port_row, demo_router_port ''intf'' ''m1'' INTF, demo_router_port ''gw'' ''m2'' GW],
     ip_ranges := [\<lparr>r_pool = ''uu'', r_first = demo_adr 12, r_last = demo_adr 14\<rparr>],
     ip_allocs := ip_allocs demo_db3 @
       [\<lparr>a_port = Some ''intf'', a_ip = demo_adr 9, a_subnet = ''s'', a_network = ''n''\<rparr>,
        \<lparr>a_port = Some ''gw'', a_ip = demo_adr 11, a_subnet = ''s'', a_network = ''n''\<rparr>]\<rparr>"

definition demo_l3_db :: l3_db where
  "demo_l3_db = \<lparr>l3_core = demo_l3_core, l3_routers = [], l3_fips = [], l3_external = []\<rparr>"

definition demo_l3_run :: "fip_row l3op" where
  "demo_l3_run =
     thenE (process_l3_create ''n'' (Some True))
       (thenE (create_router demo_l3_env demo_admin None ''router'' True None)
         (create_floatingip demo_l3_env demo_admin None ''n'' (Some ''p'') None))"

definition demo_fip :: fip_row where
  "demo_fip = \<lparr>fl_id = ''u'', fl_tenant = ''t'', fl_address = demo_adr 12, fl_network = ''n'', fl_port = ''uu'',
     fl_fixed_port = Some ''p'', fl_fixed_ip = Some (demo_adr 10), fl_router = Some ''u''\<rparr>"

lemma demo_l3_runs: "map_sum id (l3_fips \<circ> snd) (demo_l3_run demo_l3_db) = Inr [demo_fip]"
  by code_simp

lemma demo_l3_reached: "\<exists>s. l3_reach s \<and> l3_fips s = [demo_fip]"
proof -
  obtain f s where run: "demo_l3_run demo_l3_db = Inr (f, s)" and fips: "l3_fips s = [demo_fip]"
    using demo_l3_runs by (cases "demo_l3_run demo_l3_db") auto
  from run obtain u s1 r s2 where runs: "process_l3_create ''n'' (Some True) demo_l3_db = Inr (u, s1)"
    "create_router demo_l3_env demo_admin None ''router'' True None s1 = Inr (r, s2)"
    "create_floatingip demo_l3_env demo_admin None ''n'' (Some ''p'') None s2 = Inr (f, s)"
    by (auto simp: demo_l3_run_def thenE_Inr)
  have "l3_reach demo_l3_db" unfolding demo_l3_db_def by (rule l3_reach.empty)
  from l3_reach.step [OF this l3_step.network_created [OF runs(1)]]
  have "l3_reach s1" .
  from l3_reach.step [OF this l3_step.router_created [OF runs(2)]]
  have "l3_reach s2" .
  from l3_reach.step [OF this l3_step.floatingip_created [OF runs(3)]]
  have "l3_reach s" .
  with fips show ?thesis by blast
qed

theorem floating_ips_consistent_witness:
  "\<exists>s::l3_db. l3_fips s = [demo_fip] \<and> (\<exists>r \<in> set (l3_routers s). ro_id r = ''u'') \<and>
     (\<exists>p \<in> set (ports (l3_core s)). pt_id p = ''uu'') \<and> (\<exists>p \<in> set (ports (l3_core s)). pt_id p = ''p'')"
proof -
  obtain s where s: "l3_reach s" "l3_fips s = [demo_fip]" using demo_l3_reached by blast
  have "fl_router demo_fip = Some ''u''" "fl_port demo_fip = ''uu''" "fl_fixed_port demo_fip = Some ''p''"
    by (simp_all add: demo_fip_def)
  with floating_ips_consistent [OF s(1), of demo_fip] s(2) show ?thesis by auto
qed

text \<open>The port of an association can be deleted after the floating IP has been disassociated, and not before.\<close>

lemma associated_port_stays:
  "bindE demo_l3_run (\<lambda>_. core_delete_port demo_l3_env demo_admin ''p'') demo_l3_db = Inl (L3Core IntegrityError)"
  by code_simp

lemma disassociated_port_goes:
  "map_sum id (\<lambda>(_, s). (map pt_id (ports (l3_core s)), map fl_fixed_port (l3_fips s)))
     (bindE demo_l3_run (\<lambda>_. thenE (disassociate_floatingips ''p'') (core_delete_port demo_l3_env demo_admin ''p'')) demo_l3_db) =
     Inr ([''intf'', ''gw'', ''uu''], [None])"
  by code_simp

text \<open>An update that repeats the association of a floating IP is refused: the check finds the row itself.\<close>

lemma repeated_association_refused:
  "bindE demo_l3_run (\<lambda>f. update_floatingip demo_admin (fl_id f) (fl_fixed_port f) None) demo_l3_db =
     Inl (FloatingIPPortAlreadyAssociated ''p'' ''u'')"
  by code_simp

end
