(* ===== verification/Effects.thy ===== *)
theory Effects
  imports Prelude
begin

text \<open>
  Code of the agents: it changes objects in memory and runs commands of the host, and what it has done when
  an exception is raised stays done.  A value of type \<open>('e, 's, 'a) act\<close> returns the state in both cases.
\<close>

named_theorems safe_intro "compositional rules for predicates that hold after every outcome"

type_synonym ('e, 's, 'a) act = "'s \<Rightarrow> ('e + 'a) \<times> 's"

definition returnA :: "'a \<Rightarrow> ('e, 's, 'a) act" where
  "returnA a = (\<lambda>s. (Inr a, s))"

definition raiseA :: "'e \<Rightarrow> ('e, 's, 'a) act" where
  "raiseA e = (\<lambda>s. (Inl e, s))"

definition bindA :: "('e, 's, 'a) act \<Rightarrow> ('a \<Rightarrow> ('e, 's, 'b) act) \<Rightarrow> ('e, 's, 'b) act" where
  "bindA m f = (\<lambda>s. case m s of (Inl e, t) \<Rightarrow> (Inl e, t) | (Inr a, t) \<Rightarrow> f a t)"

definition thenA :: "('e, 's, 'a) act \<Rightarrow> ('e, 's, 'b) act \<Rightarrow> ('e, 's, 'b) act" where
  "thenA m k = bindA m (\<lambda>_. k)"

definition getsA :: "('s \<Rightarrow> 'a) \<Rightarrow> ('e, 's, 'a) act" where
  "getsA f = (\<lambda>s. (Inr (f s), s))"

definition modifyA :: "('s \<Rightarrow> 's) \<Rightarrow> ('e, 's, unit) act" where
  "modifyA f = (\<lambda>s. (Inr (), f s))"

text \<open>A result that does not depend on the state, such as the answer of a remote call.\<close>

definition liftA :: "'e + 'a \<Rightarrow> ('e, 's, 'a) act" where
  "liftA r = (\<lambda>s. (r, s))"

text \<open>\<open>try: m except Exception as e: h e\<close>.\<close>

definition catchA :: "('e, 's, 'a) act \<Rightarrow> ('e \<Rightarrow> ('e, 's, 'a) act) \<Rightarrow> ('e, 's, 'a) act" where
  "catchA m h = (\<lambda>s. case m s of (Inl e, t) \<Rightarrow> h e t | (Inr a, t) \<Rightarrow> (Inr a, t))"

fun forA :: "('a \<Rightarrow> ('e, 's, unit) act) \<Rightarrow> 'a list \<Rightarrow> ('e, 's, unit) act" where
  "forA f [] = returnA ()"
| "forA f (x # xs) = thenA (f x) (forA f xs)"

text \<open>A loop that accumulates a flag: \<open>flag = False; for x in xs: flag = flag | f(x)\<close>.\<close>

fun anyA :: "('a \<Rightarrow> ('e, 's, bool) act) \<Rightarrow> 'a list \<Rightarrow> ('e, 's, bool) act" where
  "anyA f [] = returnA False"
| "anyA f (x # xs) = bindA (f x) (\<lambda>b. bindA (anyA f xs) (\<lambda>c. returnA (b \<or> c)))"

lemma act_apply [simp]:
  "returnA a s = (Inr a, s)" "raiseA e s = (Inl e, s)" "getsA g s = (Inr (g s), s)" "modifyA h s = (Inr (), h s)"
  "liftA r s = (r, s)"
  by (simp_all add: returnA_def raiseA_def getsA_def modifyA_def liftA_def)

lemma bindA_apply [simp]:
  "m s = (Inl e, t) \<Longrightarrow> bindA m f s = (Inl e, t)"
  "m s = (Inr a, t) \<Longrightarrow> bindA m f s = f a t"
  by (simp_all add: bindA_def)

lemma thenA_apply [simp]:
  "m s = (Inl e, t) \<Longrightarrow> thenA m k s = (Inl e, t)"
  "m s = (Inr a, t) \<Longrightarrow> thenA m k s = k t"
  by (simp_all add: thenA_def)

lemma bindA_lift [simp]: "bindA (liftA (Inr x)) f = f x" "bindA (liftA (Inl e)) f = raiseA e"
  by (auto simp: bindA_def liftA_def raiseA_def)

lemma bindA_return [simp]: "bindA (returnA x) f = f x" "thenA (returnA u) k = k"
  by (auto simp: bindA_def thenA_def returnA_def)

lemma bindA_Inr: "bindA m f s = (Inr b, u) \<longleftrightarrow> (\<exists>a t. m s = (Inr a, t) \<and> f a t = (Inr b, u))"
  by (auto simp: bindA_def split: prod.splits sum.splits)

lemma thenA_Inr: "thenA m k s = (Inr b, u) \<longleftrightarrow> (\<exists>a t. m s = (Inr a, t) \<and> k t = (Inr b, u))"
  by (simp add: thenA_def bindA_Inr)

lemma liftA_Inr: "liftA r s = (Inr a, t) \<longleftrightarrow> r = Inr a \<and> t = s"
  by auto

section \<open>Predicates that hold whatever happens\<close>

definition safe :: "('s \<Rightarrow> bool) \<Rightarrow> ('e, 's, 'a) act \<Rightarrow> bool" where
  "safe P m \<longleftrightarrow> (\<forall>s. P s \<longrightarrow> P (snd (m s)))"

lemma safeI: "(\<And>s r t. P s \<Longrightarrow> m s = (r, t) \<Longrightarrow> P t) \<Longrightarrow> safe P m"
  by (simp add: safe_def split_pairs2)

lemma safeD: "safe P m \<Longrightarrow> m s = (r, t) \<Longrightarrow> P s \<Longrightarrow> P t"
  unfolding safe_def by (metis snd_conv)

lemma safe_basic [safe_intro]:
  "safe P (returnA a)" "safe P (raiseA e)" "safe P (getsA f)" "safe P (liftA r)"
  by (simp_all add: safe_def)

lemma safe_modify: "(\<And>s. P s \<Longrightarrow> P (f s)) \<Longrightarrow> safe P (modifyA f)"
  by (simp add: safe_def)

lemma safe_bind [safe_intro]:
  assumes "safe P m" "\<And>a. safe P (f a)"
  shows "safe P (bindA m f)"
proof (rule safeI)
  fix s r t assume p: "P s" and run: "bindA m f s = (r, t)"
  obtain x u where m: "m s = (x, u)" by force
  from safeD [OF assms(1) m p] have "P u" .
  with run m safeD [OF assms(2)] show "P t" by (cases x) auto
qed

lemma safe_then [safe_intro]: "safe P m \<Longrightarrow> safe P k \<Longrightarrow> safe P (thenA m k)"
  unfolding thenA_def by (rule safe_bind)

lemma safe_catch [safe_intro]:
  assumes "safe P m" "\<And>e. safe P (h e)"
  shows "safe P (catchA m h)"
proof (rule safeI)
  fix s r t assume p: "P s" and run: "catchA m h s = (r, t)"
  obtain x u where m: "m s = (x, u)" by force
  from safeD [OF assms(1) m p] have "P u" .
  with run m safeD [OF assms(2)] show "P t" by (cases x) (auto simp: catchA_def)
qed

lemma safe_if [safe_intro]: "safe P m \<Longrightarrow> safe P k \<Longrightarrow> safe P (if b then m else k)"
  by simp

lemma safe_option [safe_intro]: "safe P m \<Longrightarrow> (\<And>x. safe P (k x)) \<Longrightarrow> safe P (case v of None \<Rightarrow> m | Some x \<Rightarrow> k x)"
  by (cases v) simp_all

lemma safe_for [safe_intro]: "(\<And>x. safe P (f x)) \<Longrightarrow> safe P (forA f xs)"
  by (induction xs) (auto intro!: safe_intro)

lemma safe_any [safe_intro]: "(\<And>x. x \<in> set xs \<Longrightarrow> safe P (f x)) \<Longrightarrow> safe P (anyA f xs)"
  by (induction xs) (auto intro!: safe_intro)

text \<open>A flag that a loop returns is set when one of its steps set it.\<close>

lemma anyA_Cons_Inr:
  "anyA f (x # xs) s = (Inr b, u) \<longleftrightarrow>
     (\<exists>c d t. f x s = (Inr c, t) \<and> anyA f xs t = (Inr d, u) \<and> b = (c \<or> d))"
  by (auto simp: bindA_Inr)

end
