(* ===== verification/OvsLib.thy ===== *)
theory OvsLib
  imports Effects PyText
begin

text \<open>
  Bridges of Open vSwitch as the agents drive them (\<open>neutron/agent/linux/ovs_lib.py\<close>): flow expressions,
  the commands that are run and their deferral.

  The commands \<open>ovs-vsctl\<close> and \<open>ovs-ofctl\<close> are not in the repository: a bridge records what was passed to
  them, and what they print is an argument of the operations that read it.  A command that fails is only
  logged.  Numbers that are printed into a flow expression are texts.
\<close>

text \<open>Exceptions of the agents.\<close>

datatype (plugins only: code size) agent_exc =
    KeyError string
  | AgentIndexError
  | RpcTimeout
  | RpcError string
  | AgentException string
  | NotImplementedError
  | SystemExit

datatype br_cmd = Ofctl string "string list" string | Vsctl "string list"

record ovs_bridge =
  br_name :: string
  br_defer :: bool
  br_add :: string
  br_mod :: string
  br_del :: string
  br_cmds :: "br_cmd list"

type_synonym 'a bridge_act = "(agent_exc, ovs_bridge, 'a) act"

definition new_bridge :: "string \<Rightarrow> ovs_bridge" where
  "new_bridge name = \<lparr>br_name = name, br_defer = False, br_add = [], br_mod = [], br_del = [], br_cmds = []\<rparr>"

definition run_vsctl :: "string list \<Rightarrow> ovs_bridge \<Rightarrow> ovs_bridge" where
  "run_vsctl args b = b\<lparr>br_cmds := br_cmds b @ [Vsctl ([''ovs-vsctl'', ''--timeout=2''] @ args)]\<rparr>"

definition run_ofctl :: "string \<Rightarrow> string list \<Rightarrow> string \<Rightarrow> ovs_bridge \<Rightarrow> ovs_bridge" where
  "run_ofctl cmd args input b = b\<lparr>br_cmds := br_cmds b @ [Ofctl cmd ([br_name b] @ args) input]\<rparr>"

definition set_db_attribute :: "string \<Rightarrow> string \<Rightarrow> string \<Rightarrow> string \<Rightarrow> ovs_bridge \<Rightarrow> ovs_bridge" where
  "set_db_attribute table_name rec column val = run_vsctl [''set'', table_name, rec, column @ ''='' @ val]"

definition delete_port_cmd :: "string \<Rightarrow> ovs_bridge \<Rightarrow> ovs_bridge" where
  "delete_port_cmd port_name b = run_vsctl [''--'', ''--if-exists'', ''del-port'', br_name b, port_name] b"

definition add_port_cmd :: "string \<Rightarrow> ovs_bridge \<Rightarrow> ovs_bridge" where
  "add_port_cmd port_name b = run_vsctl [''--'', ''--may-exist'', ''add-port'', br_name b, port_name] b"

definition remove_all_flows :: "ovs_bridge \<Rightarrow> ovs_bridge" where
  "remove_all_flows = run_ofctl ''del-flows'' [] []"

definition reset_bridge :: "ovs_bridge \<Rightarrow> ovs_bridge" where
  "reset_bridge b =
     run_vsctl [''--'', ''--may-exist'', ''add-br'', br_name b]
       (run_vsctl [''--'', ''--if-exists'', ''del-br'', br_name b] b)"

section \<open>Flow expressions\<close>

text \<open>The keyword arguments; \<open>None\<close>: not passed.\<close>

record flow_args =
  kw_hard_timeout :: "string option"
  kw_idle_timeout :: "string option"
  kw_priority :: "string option"
  kw_table :: "string option"
  kw_in_port :: "string option"
  kw_dl_type :: "string option"
  kw_dl_vlan :: "string option"
  kw_dl_src :: "string option"
  kw_dl_dst :: "string option"
  kw_nw_src :: "string option"
  kw_nw_dst :: "string option"
  kw_tun_id :: "string option"
  kw_proto :: "string option"
  kw_actions :: "string option"

definition no_args :: flow_args where
  "no_args = \<lparr>kw_hard_timeout = None, kw_idle_timeout = None, kw_priority = None, kw_table = None, kw_in_port = None,
     kw_dl_type = None, kw_dl_vlan = None, kw_dl_src = None, kw_dl_dst = None, kw_nw_src = None, kw_nw_dst = None,
     kw_tun_id = None, kw_proto = None, kw_actions = None\<rparr>"

text \<open>\<open>'k' in kwargs and ",k=%s" % kwargs['k'] or ''\<close>.\<close>

definition kw_part :: "string \<Rightarrow> string option \<Rightarrow> string" where
  "kw_part key v = (case v of None \<Rightarrow> [] | Some x \<Rightarrow> '','' @ key @ ''='' @ x)"

definition kw_get :: "string option \<Rightarrow> string \<Rightarrow> string" where
  "kw_get v dflt = (case v of None \<Rightarrow> dflt | Some x \<Rightarrow> x)"

definition build_flow_expr_arr :: "bool \<Rightarrow> flow_args \<Rightarrow> agent_exc + string list" where
  "build_flow_expr_arr is_delete_expr k =
     (if is_delete_expr \<and> kw_priority k \<noteq> None then Inl (AgentException ''Cannot match priority on flow deletion'')
      else
        (let first = (if is_delete_expr then []
               else [''hard_timeout='' @ kw_get (kw_hard_timeout k) ''0'' @ '',idle_timeout='' @ kw_get (kw_idle_timeout k) ''0'' @
                     '',priority='' @ kw_get (kw_priority k) ''1'']);
             proto = (case kw_proto k of None \<Rightarrow> [] | Some p \<Rightarrow> '','' @ p);
             ip = (if kw_nw_src k \<noteq> None \<or> kw_nw_dst k \<noteq> None then '',ip'' else []);
             match = kw_part ''table'' (kw_table k) @ kw_part ''in_port'' (kw_in_port k) @ kw_part ''dl_type'' (kw_dl_type k) @
               kw_part ''dl_vlan'' (kw_dl_vlan k) @ kw_part ''dl_src'' (kw_dl_src k) @ kw_part ''dl_dst'' (kw_dl_dst k) @
               (if proto \<noteq> [] then proto else ip) @
               kw_part ''nw_src'' (kw_nw_src k) @ kw_part ''nw_dst'' (kw_nw_dst k) @ kw_part ''tun_id'' (kw_tun_id k)
         in Inr (first @ (if match = [] then [] else [tl match]))))"

definition add_or_mod_flow_str :: "flow_args \<Rightarrow> agent_exc + string" where
  "add_or_mod_flow_str k =
     (case kw_actions k of
        None \<Rightarrow> Inl (AgentException ''Must specify one or more actions'')
      | Some actions \<Rightarrow>
          bindR (build_flow_expr_arr False (if kw_priority k = None then k\<lparr>kw_priority := Some ''0''\<rparr> else k)) (\<lambda>arr.
            Inr (py_join '','' (arr @ [''actions='' @ actions]))))"

definition del_flow_str :: "flow_args \<Rightarrow> agent_exc + string" where
  "del_flow_str k =
     bindR (build_flow_expr_arr True k) (\<lambda>arr.
       Inr (py_join '','' (arr @ (case kw_actions k of None \<Rightarrow> [] | Some actions \<Rightarrow> [''actions='' @ actions]))))"

definition newline :: string where
  "newline = [CHR 0x0A]"

definition add_flow :: "flow_args \<Rightarrow> unit bridge_act" where
  "add_flow k =
     bindA (liftA (add_or_mod_flow_str k)) (\<lambda>flow.
       modifyA (\<lambda>b. if br_defer b then b\<lparr>br_add := br_add b @ flow @ newline\<rparr> else run_ofctl ''add-flow'' [flow] [] b))"

definition mod_flow :: "flow_args \<Rightarrow> unit bridge_act" where
  "mod_flow k =
     bindA (liftA (add_or_mod_flow_str k)) (\<lambda>flow.
       modifyA (\<lambda>b. if br_defer b then b\<lparr>br_mod := br_mod b @ flow @ newline\<rparr> else run_ofctl ''mod-flows'' [flow] [] b))"

definition delete_flows :: "flow_args \<Rightarrow> unit bridge_act" where
  "delete_flows k =
     bindA (liftA (del_flow_str k)) (\<lambda>flow.
       modifyA (\<lambda>b. if br_defer b then b\<lparr>br_del := br_del b @ flow @ newline\<rparr> else run_ofctl ''del-flows'' [flow] [] b))"

text \<open>The order in which Python iterates over the dict of deferred flows is that of its literal.\<close>

definition bridge_defer_on :: "ovs_bridge \<Rightarrow> ovs_bridge" where
  "bridge_defer_on b = b\<lparr>br_defer := True\<rparr>"

definition run_deferred :: "string \<Rightarrow> string \<Rightarrow> ovs_bridge \<Rightarrow> ovs_bridge" where
  "run_deferred action flows b = (if flows = [] then b else run_ofctl (action @ ''-flows'') [''-''] flows b)"

definition bridge_defer_off :: "ovs_bridge \<Rightarrow> ovs_bridge" where
  "bridge_defer_off b =
     (run_deferred ''del'' (br_del b) (run_deferred ''mod'' (br_mod b) (run_deferred ''add'' (br_add b) b)))
       \<lparr>br_defer := False, br_add := [], br_mod := [], br_del := []\<rparr>"

section \<open>Ports\<close>

record vif_port =
  vif_id :: string
  vif_name :: string
  vif_ofport :: int

definition VXLAN_UDP_PORT :: nat where
  "VXLAN_UDP_PORT = 4789"

text \<open>What is set up for a tunnel port; the number of the port is read back from the switch.\<close>

definition add_tunnel_port :: "string \<Rightarrow> string \<Rightarrow> string \<Rightarrow> string \<Rightarrow> nat \<Rightarrow> ovs_bridge \<Rightarrow> ovs_bridge" where
  "add_tunnel_port port_name remote_ip local_ip tunnel_type vxlan_udp_port b =
     (let attr = set_db_attribute ''Interface'' port_name in
      attr ''options:out_key'' ''flow'' (attr ''options:in_key'' ''flow'' (attr ''options:local_ip'' local_ip (attr ''options:remote_ip'' remote_ip
        ((if tunnel_type = ''vxlan'' \<and> vxlan_udp_port \<noteq> VXLAN_UDP_PORT then attr ''options:dst_port'' (show_nat vxlan_udp_port) else id)
          (attr ''type'' tunnel_type (add_port_cmd port_name b)))))))"

definition add_patch_port :: "string \<Rightarrow> string \<Rightarrow> ovs_bridge \<Rightarrow> ovs_bridge" where
  "add_patch_port local_name remote_name b =
     set_db_attribute ''Interface'' local_name ''options:peer'' remote_name
       (set_db_attribute ''Interface'' local_name ''type'' ''patch'' (run_vsctl [''add-port'', br_name b, local_name] b))"

lemma flow_str_example:
  "add_or_mod_flow_str (no_args\<lparr>kw_priority := Some ''4'', kw_in_port := Some ''7'', kw_dl_vlan := Some ''1'', kw_actions := Some ''strip_vlan,normal''\<rparr>) =
     Inr ''hard_timeout=0,idle_timeout=0,priority=4,in_port=7,dl_vlan=1,actions=strip_vlan,normal''"
  by code_simp

end
