(* ===== verification/OvsAgent.thy ===== *)
theory OvsAgent
  imports OvsLib "HOL-Library.AList"
begin

text \<open>
  The Open vSwitch agent (\<open>neutron/plugins/openvswitch/agent/ovs_neutron_agent.py\<close>): the local VLANs of
  networks, the ports bound to them and the tunnel ports.

  The answers of the plugin, of the switch and of the security group agent are the record \<open>world\<close>, an
  argument of the operations.  Dicts are lists of pairs in the order of insertion and sets lists without
  duplicates: Python does not define the order in which it iterates over them or which element
  \<open>set.pop\<close> takes.  A segmentation id is only printed, so it is a text.
\<close>

section \<open>State\<close>

definition MIN_VLAN_TAG :: nat where "MIN_VLAN_TAG = 1"
definition MAX_VLAN_TAG :: nat where "MAX_VLAN_TAG = 4094"

definition DEAD_VLAN_TAG :: string where
  "DEAD_VLAN_TAG = show_nat (MAX_VLAN_TAG + 1)"

definition TUNNEL_NETWORK_TYPES :: "string list" where
  "TUNNEL_NETWORK_TYPES = [''gre'', ''vxlan'']"

definition FLOODING_ENTRY :: "string \<times> string" where
  "FLOODING_ENTRY = (''00:00:00:00:00:00'', ''0.0.0.0'')"

definition PATCH_LV_TO_TUN :: string where "PATCH_LV_TO_TUN = ''1''"
definition LEARN_FROM_TUN :: string where "LEARN_FROM_TUN = ''10''"
definition UCAST_TO_TUN :: string where "UCAST_TO_TUN = ''20''"
definition FLOOD_TO_TUN :: string where "FLOOD_TO_TUN = ''21''"

definition TUN_TABLE :: "string \<Rightarrow> agent_exc + string" where
  "TUN_TABLE t = (if t = ''gre'' then Inr ''2'' else if t = ''vxlan'' then Inr ''3'' else Inl (KeyError t))"

record lvm =
  lv_vlan :: nat
  lv_type :: string
  lv_physical :: "string option"
  lv_segmentation :: string
  lv_vifs :: "(string \<times> vif_port) list"
  lv_tun_ofports :: "string list"

record ovs_agent =
  oa_int :: ovs_bridge
  oa_tun :: ovs_bridge
  oa_phys :: "(string \<times> ovs_bridge) list"
  oa_available :: "nat list"
  oa_map :: "(string \<times> lvm) list"
  oa_tun_ofports :: "(string \<times> (string \<times> string) list) list"
  oa_devices :: nat

record ovs_conf =
  oc_tunneling :: bool
  oc_tunnel_types :: "string list"
  oc_local_ip :: string
  oc_l2_pop :: bool
  oc_udp_port :: nat
  oc_int_ofports :: "(string \<times> string) list"
  oc_phys_ofports :: "(string \<times> string) list"

type_synonym 'a ovs_act = "(agent_exc, ovs_agent, 'a) act"

text \<open>A lookup in a dict.\<close>

definition item :: "(string \<times> 'a) list \<Rightarrow> string \<Rightarrow> agent_exc + 'a" where
  "item d k = (case map_of d k of None \<Rightarrow> Inl (KeyError k) | Some x \<Rightarrow> Inr x)"

definition on_int :: "'a bridge_act \<Rightarrow> 'a ovs_act" where
  "on_int m = (\<lambda>a. let (r, b) = m (oa_int a) in (r, a\<lparr>oa_int := b\<rparr>))"

definition on_tun :: "'a bridge_act \<Rightarrow> 'a ovs_act" where
  "on_tun m = (\<lambda>a. let (r, b) = m (oa_tun a) in (r, a\<lparr>oa_tun := b\<rparr>))"

definition on_phys :: "string \<Rightarrow> 'a bridge_act \<Rightarrow> 'a ovs_act" where
  "on_phys p m = (\<lambda>a. case map_of (oa_phys a) p of
       None \<Rightarrow> (Inl (KeyError p), a)
     | Some br \<Rightarrow> let (r, b) = m br in (r, a\<lparr>oa_phys := AList.update p b (oa_phys a)\<rparr>))"

text \<open>The bridge of a physical network, when there is one.\<close>

definition known_physical :: "string option \<Rightarrow> ovs_agent \<Rightarrow> string option" where
  "known_physical physical a =
     (case physical of None \<Rightarrow> None | Some p \<Rightarrow> if p \<in> fst ` set (oa_phys a) then Some p else None)"

definition get_net_uuid :: "string \<Rightarrow> ovs_agent \<Rightarrow> string option" where
  "get_net_uuid vif a = map_option fst (find (\<lambda>(net, l). vif \<in> fst ` set (lv_vifs l)) (oa_map a))"

section \<open>Tunnel ports\<close>

definition set_tun_ofports :: "string \<Rightarrow> (string \<times> string) list \<Rightarrow> ovs_agent \<Rightarrow> ovs_agent" where
  "set_tun_ofports t ips a = a\<lparr>oa_tun_ofports := AList.update t ips (oa_tun_ofports a)\<rparr>"

definition flood_flow :: "nat \<Rightarrow> string \<Rightarrow> string list \<Rightarrow> flow_args" where
  "flood_flow vlan segmentation_id ofports =
     no_args\<lparr>kw_table := Some FLOOD_TO_TUN, kw_priority := Some ''1'', kw_dl_vlan := Some (show_nat vlan),
       kw_actions := Some (''strip_vlan,set_tunnel:'' @ segmentation_id @ '',output:'' @ py_join '','' ofports)\<rparr>"

text \<open>\<open>ofport\<close>: what the switch says about the new port; the result is \<open>None\<close> for 0.\<close>

definition setup_tunnel_port :: "ovs_conf \<Rightarrow> (string \<Rightarrow> string option) \<Rightarrow> string \<Rightarrow> string \<Rightarrow> string \<Rightarrow> string option ovs_act" where
  "setup_tunnel_port c ofport_of port_name remote_ip tunnel_type =
     thenA (on_tun (modifyA (add_tunnel_port port_name remote_ip (oc_local_ip c) tunnel_type (oc_udp_port c))))
       (case ofport_of port_name of
          None \<Rightarrow> returnA None
        | Some ofport \<Rightarrow>
            (case py_int ofport of
               Inl _ \<Rightarrow> returnA None
             | Inr n \<Rightarrow>
                 (if n < 0 then returnA None
                  else bindA (getsA oa_tun_ofports) (\<lambda>tun_ofports.
                    bindA (liftA (item tun_ofports tunnel_type)) (\<lambda>ips.
                    (let ips' = AList.update remote_ip ofport ips in
                     thenA (modifyA (set_tun_ofports tunnel_type ips'))
                     (bindA (liftA (TUN_TABLE tunnel_type)) (\<lambda>table.
                      thenA (on_tun (add_flow (no_args\<lparr>kw_priority := Some ''1'', kw_in_port := Some ofport,
                          kw_actions := Some (''resubmit(,'' @ table @ '')'')\<rparr>)))
                      (thenA
                        (if py_join '','' (map snd ips') \<noteq> [] \<and> \<not> oc_l2_pop c
                         then bindA (getsA oa_map) (\<lambda>m. forA (\<lambda>(net, l).
                                if lv_type l = tunnel_type then on_tun (mod_flow (flood_flow (lv_vlan l) (lv_segmentation l) (map snd ips')))
                                else returnA ()) m)
                         else returnA ())
                        (returnA (Some ofport)))))))))))"

definition tunnel_name :: "string \<Rightarrow> string \<Rightarrow> string" where
  "tunnel_name tunnel_type tunnel_id = tunnel_type @ ''-'' @ tunnel_id"

definition cleanup_tunnel_port :: "string \<Rightarrow> string \<Rightarrow> unit ovs_act" where
  "cleanup_tunnel_port tun_ofport tunnel_type =
     bindA (getsA oa_map) (\<lambda>m.
     if \<exists>l \<in> snd ` set m. tun_ofport \<in> set (lv_tun_ofports l) then returnA ()
     else bindA (getsA oa_tun_ofports) (\<lambda>tun_ofports.
       bindA (liftA (item tun_ofports tunnel_type)) (\<lambda>ips.
         forA (\<lambda>(remote_ip, ofport).
             if ofport = tun_ofport
             then thenA (on_tun (modifyA (delete_port_cmd (tunnel_name tunnel_type remote_ip))))
               (modifyA (\<lambda>a. set_tun_ofports tunnel_type
                   (AList.delete remote_ip (the (map_of (oa_tun_ofports a) tunnel_type))) a))
             else returnA ()) ips)))"

section \<open>Local VLANs\<close>

text \<open>The flows that translate between a local VLAN and the physical network.\<close>

definition provision_tunnel :: "ovs_conf \<Rightarrow> nat \<Rightarrow> string \<Rightarrow> string \<Rightarrow> unit ovs_act" where
  "provision_tunnel c lvid network_type segmentation_id =
     bindA (getsA oa_tun_ofports) (\<lambda>tun_ofports.
     bindA (liftA (item tun_ofports network_type)) (\<lambda>ips.
     thenA (if py_join '','' (map snd ips) \<noteq> []
            then on_tun (mod_flow (flood_flow lvid segmentation_id (map snd ips))) else returnA ())
       (bindA (liftA (TUN_TABLE network_type)) (\<lambda>table.
          on_tun (add_flow (no_args\<lparr>kw_table := Some table, kw_priority := Some ''1'', kw_tun_id := Some segmentation_id,
            kw_actions := Some (''mod_vlan_vid:'' @ show_nat lvid @ '',resubmit(,'' @ LEARN_FROM_TUN @ '')'')\<rparr>))))))"

text \<open>\<open>inbound\<close>: the VLAN of incoming packets; \<open>outbound\<close>: the action on outgoing ones.\<close>

definition provision_physical :: "ovs_conf \<Rightarrow> nat \<Rightarrow> string \<Rightarrow> string \<Rightarrow> string \<Rightarrow> unit ovs_act" where
  "provision_physical c lvid p inbound outbound =
     bindA (liftA (item (oc_phys_ofports c) p)) (\<lambda>phys_ofport.
     thenA (on_phys p (add_flow (no_args\<lparr>kw_priority := Some ''4'', kw_in_port := Some phys_ofport,
         kw_dl_vlan := Some (show_nat lvid), kw_actions := Some (outbound @ '',normal'')\<rparr>)))
       (bindA (liftA (item (oc_int_ofports c) p)) (\<lambda>int_ofport.
          on_int (add_flow (no_args\<lparr>kw_priority := Some ''3'', kw_in_port := Some int_ofport,
            kw_dl_vlan := Some inbound, kw_actions := Some (''mod_vlan_vid:'' @ show_nat lvid @ '',normal'')\<rparr>)))))"

definition provision_local_vlan :: "ovs_conf \<Rightarrow> string \<Rightarrow> string \<Rightarrow> string option \<Rightarrow> string \<Rightarrow> unit ovs_act" where
  "provision_local_vlan c net_uuid network_type physical_network segmentation_id =
     bindA (getsA oa_available) (\<lambda>available.
     case available of
       [] \<Rightarrow> returnA ()
     | lvid # rest \<Rightarrow>
         thenA (modifyA (\<lambda>a. a\<lparr>oa_available := rest,
             oa_map := AList.update net_uuid \<lparr>lv_vlan = lvid, lv_type = network_type, lv_physical = physical_network,
               lv_segmentation = segmentation_id, lv_vifs = [], lv_tun_ofports = []\<rparr> (oa_map a)\<rparr>))
           (if network_type \<in> set TUNNEL_NETWORK_TYPES
            then if oc_tunneling c then provision_tunnel c lvid network_type segmentation_id else returnA ()
            else bindA (getsA (known_physical physical_network)) (\<lambda>phys.
              case phys of
                None \<Rightarrow> returnA ()
              | Some p \<Rightarrow>
                  (if network_type = ''flat'' then provision_physical c lvid p ''65535'' ''strip_vlan''
                   else if network_type = ''vlan'' then provision_physical c lvid p segmentation_id (''mod_vlan_vid:'' @ segmentation_id)
                   else returnA ()))))"

definition unprovision_physical :: "ovs_conf \<Rightarrow> nat \<Rightarrow> string \<Rightarrow> string \<Rightarrow> unit ovs_act" where
  "unprovision_physical c lvid p inbound =
     bindA (liftA (item (oc_phys_ofports c) p)) (\<lambda>phys_ofport.
     thenA (on_phys p (delete_flows (no_args\<lparr>kw_in_port := Some phys_ofport, kw_dl_vlan := Some (show_nat lvid)\<rparr>)))
       (bindA (liftA (item (oc_int_ofports c) p)) (\<lambda>int_ofport.
          on_int (delete_flows (no_args\<lparr>kw_in_port := Some int_ofport, kw_dl_vlan := Some inbound\<rparr>)))))"

definition reclaim_local_vlan :: "ovs_conf \<Rightarrow> string \<Rightarrow> unit ovs_act" where
  "reclaim_local_vlan c net_uuid =
     bindA (getsA (\<lambda>a. map_of (oa_map a) net_uuid)) (\<lambda>found.
     case found of
       None \<Rightarrow> returnA ()
     | Some l \<Rightarrow>
         thenA (modifyA (\<lambda>a. a\<lparr>oa_map := AList.delete net_uuid (oa_map a)\<rparr>))
         (thenA
           (if lv_type l \<in> set TUNNEL_NETWORK_TYPES
            then if oc_tunneling c
              then bindA (liftA (TUN_TABLE (lv_type l))) (\<lambda>table.
                thenA (on_tun (delete_flows (no_args\<lparr>kw_table := Some table, kw_tun_id := Some (lv_segmentation l)\<rparr>)))
                (thenA (on_tun (delete_flows (no_args\<lparr>kw_dl_vlan := Some (show_nat (lv_vlan l))\<rparr>)))
                  (if oc_l2_pop c then forA (\<lambda>ofport. cleanup_tunnel_port ofport (lv_type l)) (lv_tun_ofports l) else returnA ())))
              else returnA ()
            else bindA (getsA (known_physical (lv_physical l))) (\<lambda>phys.
              case phys of
                None \<Rightarrow> returnA ()
              | Some p \<Rightarrow>
                  (if lv_type l = ''flat'' then unprovision_physical c (lv_vlan l) p ''65535''
                   else if lv_type l = ''vlan'' then unprovision_physical c (lv_vlan l) p (lv_segmentation l)
                   else returnA ())))
           (modifyA (\<lambda>a. a\<lparr>oa_available := oa_available a @ [lv_vlan l]\<rparr>))))"

section \<open>Ports\<close>

definition port_bound :: "ovs_conf \<Rightarrow> vif_port \<Rightarrow> string \<Rightarrow> string \<Rightarrow> string option \<Rightarrow> string \<Rightarrow> unit ovs_act" where
  "port_bound c port net_uuid network_type physical_network segmentation_id =
     bindA (getsA (\<lambda>a. map_of (oa_map a) net_uuid)) (\<lambda>found.
     thenA (if found = None then provision_local_vlan c net_uuid network_type physical_network segmentation_id else returnA ())
       (bindA (getsA oa_map) (\<lambda>m.
        bindA (liftA (item m net_uuid)) (\<lambda>l.
        thenA (modifyA (\<lambda>a. a\<lparr>oa_map :=
              AList.update net_uuid (l\<lparr>lv_vifs := AList.update (vif_id port) port (lv_vifs l)\<rparr>) (oa_map a)\<rparr>))
        (thenA (on_int (modifyA (set_db_attribute ''Port'' (vif_name port) ''tag'' (show_nat (lv_vlan l)))))
          (if vif_ofport port \<noteq> -1
           then on_int (delete_flows (no_args\<lparr>kw_in_port := Some (show_int (vif_ofport port))\<rparr>)) else returnA ()))))))"

definition port_unbound :: "ovs_conf \<Rightarrow> string \<Rightarrow> string option \<Rightarrow> unit ovs_act" where
  "port_unbound c vif net =
     bindA (getsA (\<lambda>a. case net of None \<Rightarrow> get_net_uuid vif a | Some n \<Rightarrow> Some n)) (\<lambda>net_uuid.
     case net_uuid of
       None \<Rightarrow> returnA ()
     | Some n \<Rightarrow>
         bindA (getsA (\<lambda>a. map_of (oa_map a) n)) (\<lambda>found.
         case found of
           None \<Rightarrow> returnA ()
         | Some l \<Rightarrow>
             (let l' = l\<lparr>lv_vifs := AList.delete vif (lv_vifs l)\<rparr> in
              thenA (modifyA (\<lambda>a. a\<lparr>oa_map := AList.update n l' (oa_map a)\<rparr>))
                (if lv_vifs l' = [] then reclaim_local_vlan c n else returnA ()))))"

definition port_dead :: "vif_port \<Rightarrow> unit ovs_act" where
  "port_dead port =
     thenA (on_int (modifyA (set_db_attribute ''Port'' (vif_name port) ''tag'' DEAD_VLAN_TAG)))
       (on_int (add_flow (no_args\<lparr>kw_priority := Some ''2'', kw_in_port := Some (show_int (vif_ofport port)), kw_actions := Some ''drop''\<rparr>)))"

definition treat_vif_port ::
    "ovs_conf \<Rightarrow> vif_port option \<Rightarrow> string \<Rightarrow> string \<Rightarrow> string option \<Rightarrow> string \<Rightarrow> bool \<Rightarrow> unit ovs_act" where
  "treat_vif_port c vif_port network_id network_type physical_network segmentation_id admin_state_up =
     (case vif_port of
        None \<Rightarrow> returnA ()
      | Some p \<Rightarrow>
          (if admin_state_up then port_bound c p network_id network_type physical_network segmentation_id else port_dead p))"

definition network_delete :: "ovs_conf \<Rightarrow> string \<Rightarrow> unit ovs_act" where
  "network_delete c network_id =
     bindA (getsA (\<lambda>a. map_of (oa_map a) network_id)) (\<lambda>found.
       if found = None then returnA () else reclaim_local_vlan c network_id)"

end
