(* ===== verification/OvsLoop.thy ===== *)
theory OvsLoop
  imports OvsAgent
begin

text \<open>
  The messages and the main loop of the Open vSwitch agent (\<open>ovs_neutron_agent.py\<close>), and the polling of
  the bridge (\<open>agent/linux/ovs_lib.py\<close>, \<open>agent/linux/polling.py\<close>).
\<close>

section \<open>What the agent is told\<close>

record device_port =
  dp_port :: string
  dp_network :: string
  dp_type :: string
  dp_physical :: "string option"
  dp_segmentation :: string
  dp_admin_state_up :: bool

text \<open>Details of a device; no port: the plugin does not know the device.\<close>

record device_details =
  dd_device :: string
  dd_port :: "device_port option"

text \<open>
  One round of the outside world: the rows of the switch, its ports by identifier, the calls of the plugin
  and of the security group agent (which may raise), and whether the monitor of the switch has seen changes.
  \<open>None\<close> for \<open>w_interfaces\<close>: the command failed or printed nothing.
\<close>

record world =
  w_port_names :: "string list"
  w_interfaces :: "(string \<times> (string \<times> string) list) list option"
  w_xapi :: "string \<Rightarrow> string"
  w_ancillary :: "string list"
  w_port_by_id :: "string \<Rightarrow> vif_port option"
  w_ofport :: "string \<Rightarrow> string option"
  w_details :: "string \<Rightarrow> agent_exc + device_details"
  w_device_up :: "string \<Rightarrow> agent_exc + unit"
  w_device_down :: "string \<Rightarrow> agent_exc + unit"
  w_prepare_filter :: "string list \<Rightarrow> agent_exc + unit"
  w_remove_filter :: "string list \<Rightarrow> agent_exc + unit"
  w_refresh_firewall :: "agent_exc + unit"
  w_tunnels :: "string \<Rightarrow> agent_exc + (string \<times> string option) list"
  w_updates :: bool

section \<open>Ports of the switch\<close>

definition vif_of_row :: "(string \<Rightarrow> string) \<Rightarrow> string list \<Rightarrow> string \<times> (string \<times> string) list \<Rightarrow> string list" where
  "vif_of_row xapi port_names row =
     (let ids = map_of (snd row) in
      if fst row \<notin> set port_names then []
      else if ids ''iface-id'' \<noteq> None \<and> ids ''attached-mac'' \<noteq> None then [the (ids ''iface-id'')]
      else if ids ''xs-vif-uuid'' \<noteq> None \<and> ids ''attached-mac'' \<noteq> None then [xapi (the (ids ''xs-vif-uuid''))]
      else [])"

definition get_vif_port_set :: "world \<Rightarrow> string list" where
  "get_vif_port_set w =
     (case w_interfaces w of
        None \<Rightarrow> []
      | Some rows \<Rightarrow> remdups (concat (map (vif_of_row (w_xapi w) (w_port_names w)) rows)))"

record port_info =
  pi_current :: "string list"
  pi_added :: "string list"
  pi_removed :: "string list"

definition port_changes :: "string list \<Rightarrow> string list \<Rightarrow> port_info option" where
  "port_changes registered now =
     (if set now = set registered then None
      else Some \<lparr>pi_current = now, pi_added = filter (\<lambda>p. p \<notin> set registered) now,
                 pi_removed = filter (\<lambda>p. p \<notin> set now) registered\<rparr>)"

definition update_ports :: "world \<Rightarrow> string list \<Rightarrow> port_info option ovs_act" where
  "update_ports w registered_ports =
     (let found = port_changes registered_ports (get_vif_port_set w) in
      thenA (if found = None then returnA () else modifyA (\<lambda>a. a\<lparr>oa_devices := length (get_vif_port_set w)\<rparr>))
        (returnA found))"

definition update_ancillary_ports :: "world \<Rightarrow> string list \<Rightarrow> port_info option" where
  "update_ancillary_ports w registered_ports = port_changes registered_ports (w_ancillary w)"

section \<open>Devices\<close>

text \<open>The results say whether the agent has to synchronise again.\<close>

definition treat_device_added :: "ovs_conf \<Rightarrow> world \<Rightarrow> string \<Rightarrow> bool ovs_act" where
  "treat_device_added c w device =
     (case w_details w device of
        Inl e \<Rightarrow> returnA True
      | Inr details \<Rightarrow>
          (case dd_port details of
             Some p \<Rightarrow>
               thenA (treat_vif_port c (w_port_by_id w (dd_device details)) (dp_network p) (dp_type p) (dp_physical p)
                   (dp_segmentation p) (dp_admin_state_up p))
                 (thenA (liftA (w_device_up w device)) (returnA False))
           | None \<Rightarrow>
               thenA (case w_port_by_id w (dd_device details) of
                        None \<Rightarrow> returnA ()
                      | Some port \<Rightarrow> if vif_ofport port \<noteq> -1 then port_dead port else returnA ())
                 (returnA False)))"

definition treat_devices_added :: "ovs_conf \<Rightarrow> world \<Rightarrow> string list \<Rightarrow> bool ovs_act" where
  "treat_devices_added c w devices =
     thenA (liftA (w_prepare_filter w devices)) (anyA (treat_device_added c w) devices)"

definition treat_device_removed :: "ovs_conf \<Rightarrow> world \<Rightarrow> string \<Rightarrow> bool ovs_act" where
  "treat_device_removed c w device =
     (case w_device_down w device of
        Inl e \<Rightarrow> returnA True
      | Inr _ \<Rightarrow> thenA (port_unbound c device None) (returnA False))"

definition treat_devices_removed :: "ovs_conf \<Rightarrow> world \<Rightarrow> string list \<Rightarrow> bool ovs_act" where
  "treat_devices_removed c w devices =
     thenA (liftA (w_remove_filter w devices)) (anyA (treat_device_removed c w) devices)"

definition treat_ancillary_device_added :: "world \<Rightarrow> string \<Rightarrow> bool ovs_act" where
  "treat_ancillary_device_added w device =
     (case w_details w device of
        Inl e \<Rightarrow> returnA True
      | Inr _ \<Rightarrow> thenA (liftA (w_device_up w device)) (returnA False))"

definition treat_ancillary_device_removed :: "world \<Rightarrow> string \<Rightarrow> bool ovs_act" where
  "treat_ancillary_device_removed w device = returnA (case w_device_down w device of Inl e \<Rightarrow> True | Inr _ \<Rightarrow> False)"

definition process_network_ports :: "ovs_conf \<Rightarrow> world \<Rightarrow> port_info \<Rightarrow> bool ovs_act" where
  "process_network_ports c w info =
     bindA (treat_devices_added c w (pi_added info)) (\<lambda>resync_a.
     bindA (treat_devices_removed c w (pi_removed info)) (\<lambda>resync_b.
       returnA (resync_a \<or> resync_b)))"

definition process_ancillary_network_ports :: "world \<Rightarrow> port_info \<Rightarrow> bool ovs_act" where
  "process_ancillary_network_ports w info =
     bindA (anyA (treat_ancillary_device_added w) (pi_added info)) (\<lambda>resync_a.
     bindA (anyA (treat_ancillary_device_removed w) (pi_removed info)) (\<lambda>resync_b.
       returnA (resync_a \<or> resync_b)))"

section \<open>Messages\<close>

text \<open>\<open>agent_port_update\<close>; \<open>groups\<close>: the message has the attribute \<open>security_groups\<close>.\<close>

definition agent_port_update :: "ovs_conf \<Rightarrow> world \<Rightarrow> device_port \<Rightarrow> bool \<Rightarrow> unit ovs_act" where
  "agent_port_update c w p groups =
     (case w_port_by_id w (dp_port p) of
        None \<Rightarrow> returnA ()
      | Some vif \<Rightarrow>
          thenA (if groups then liftA (w_refresh_firewall w) else returnA ())
          (thenA (treat_vif_port c (Some vif) (dp_network p) (dp_type p) (dp_physical p) (dp_segmentation p) (dp_admin_state_up p))
            (catchA (liftA (if dp_admin_state_up p then w_device_up w (dp_port p) else w_device_down w (dp_port p)))
              (\<lambda>e. if e = RpcTimeout then returnA () else raiseA e))))"

text \<open>A missing or empty value is \<open>None\<close>.\<close>

definition tunnel_update :: "ovs_conf \<Rightarrow> world \<Rightarrow> string \<Rightarrow> string option \<Rightarrow> string option \<Rightarrow> unit ovs_act" where
  "tunnel_update c w tunnel_ip tunnel_id tunnel_type =
     (if \<not> oc_tunneling c then returnA ()
      else case tunnel_type of
        None \<Rightarrow> returnA ()
      | Some t \<Rightarrow>
          (if t \<notin> set (oc_tunnel_types c) \<or> tunnel_ip = oc_local_ip c \<or> oc_l2_pop c then returnA ()
           else thenA (setup_tunnel_port c (w_ofport w) (tunnel_name t (case tunnel_id of None \<Rightarrow> tunnel_ip | Some i \<Rightarrow> i)) tunnel_ip t)
             (returnA ())))"

text \<open>The tunnels the plugin knows of; their identifier, when they have one, names the port.\<close>

definition agent_tunnel_sync :: "ovs_conf \<Rightarrow> world \<Rightarrow> bool ovs_act" where
  "agent_tunnel_sync c w =
     catchA
       (thenA (forA (\<lambda>t. bindA (liftA (w_tunnels w t)) (\<lambda>tunnels.
           if oc_l2_pop c then returnA ()
           else forA (\<lambda>(ip, tunnel_id).
               if oc_local_ip c \<noteq> ip
               then thenA (setup_tunnel_port c (w_ofport w) (tunnel_name t (case tunnel_id of None \<Rightarrow> ip | Some i \<Rightarrow> i)) ip t) (returnA ())
               else returnA ()) tunnels)) (oc_tunnel_types c)) (returnA False))
       (\<lambda>e. returnA True)"

section \<open>Forwarding entries\<close>

text \<open>Forwarding entries of networks: for each agent its ports, a MAC address and an IP address each.\<close>

type_synonym fdb_entries = "(string \<times> (string \<times> (string \<times> string) list) list) list"

definition set_network_ofports :: "string \<Rightarrow> string list \<Rightarrow> ovs_agent \<Rightarrow> ovs_agent" where
  "set_network_ofports net ofports a =
     a\<lparr>oa_map := map (\<lambda>(n, l). (n, if n = net then l\<lparr>lv_tun_ofports := ofports\<rparr> else l)) (oa_map a)\<rparr>"

definition add_fdb_flow :: "string \<Rightarrow> string \<times> string \<Rightarrow> string \<Rightarrow> unit ovs_act" where
  "add_fdb_flow net port_info ofport =
     bindA (getsA oa_map) (\<lambda>m. bindA (liftA (item m net)) (\<lambda>l.
     if port_info = FLOODING_ENTRY
     then (let ofports = List.insert ofport (lv_tun_ofports l) in
           thenA (modifyA (set_network_ofports net ofports))
             (on_tun (mod_flow (flood_flow (lv_vlan l) (lv_segmentation l) ofports))))
     else on_tun (add_flow (no_args\<lparr>kw_table := Some UCAST_TO_TUN, kw_priority := Some ''2'', kw_dl_vlan := Some (show_nat (lv_vlan l)),
            kw_dl_dst := Some (fst port_info),
            kw_actions := Some (''strip_vlan,set_tunnel:'' @ lv_segmentation l @ '',output:'' @ ofport)\<rparr>))))"

definition del_fdb_flow :: "string \<Rightarrow> string \<times> string \<Rightarrow> string \<Rightarrow> unit ovs_act" where
  "del_fdb_flow net port_info ofport =
     bindA (getsA oa_map) (\<lambda>m. bindA (liftA (item m net)) (\<lambda>l.
     if port_info = FLOODING_ENTRY
     then if ofport \<notin> set (lv_tun_ofports l) then raiseA (KeyError ofport)
       else (let ofports = remove1 ofport (lv_tun_ofports l) in
             thenA (modifyA (set_network_ofports net ofports))
             (thenA (if ofports \<noteq> [] then on_tun (mod_flow (flood_flow (lv_vlan l) (lv_segmentation l) ofports))
                     else on_tun (delete_flows (no_args\<lparr>kw_table := Some FLOOD_TO_TUN, kw_dl_vlan := Some (show_nat (lv_vlan l))\<rparr>)))
               (cleanup_tunnel_port ofport (lv_type l))))
     else on_tun (delete_flows (no_args\<lparr>kw_table := Some UCAST_TO_TUN, kw_dl_vlan := Some (show_nat (lv_vlan l)), kw_dl_dst := Some (fst port_info)\<rparr>))))"

definition fdb_add_agent :: "ovs_conf \<Rightarrow> world \<Rightarrow> string \<Rightarrow> string \<Rightarrow> string \<times> (string \<times> string) list \<Rightarrow> unit ovs_act" where
  "fdb_add_agent c w net network_type agent =
     bindA (getsA oa_tun_ofports) (\<lambda>tun_ofports. bindA (liftA (item tun_ofports network_type)) (\<lambda>ips.
     bindA (case map_of ips (fst agent) of
              Some ofport \<Rightarrow> returnA (Some ofport)
            | None \<Rightarrow> setup_tunnel_port c (w_ofport w) (tunnel_name network_type (fst agent)) (fst agent) network_type) (\<lambda>ofport.
     case ofport of
       None \<Rightarrow> returnA ()
     | Some o1 \<Rightarrow> forA (\<lambda>p. add_fdb_flow net p o1) (snd agent))))"

definition fdb_del_agent :: "string \<Rightarrow> string \<Rightarrow> string \<times> (string \<times> string) list \<Rightarrow> unit ovs_act" where
  "fdb_del_agent net network_type agent =
     bindA (getsA oa_tun_ofports) (\<lambda>tun_ofports. bindA (liftA (item tun_ofports network_type)) (\<lambda>ips.
     case map_of ips (fst agent) of
       None \<Rightarrow> returnA ()
     | Some ofport \<Rightarrow> forA (\<lambda>p. del_fdb_flow net p ofport) (snd agent)))"

text \<open>The flows of a network are deferred; an exception leaves the tunnel bridge in the deferred mode.\<close>

definition fdb_network :: "ovs_conf \<Rightarrow> (string \<Rightarrow> string \<times> (string \<times> string) list \<Rightarrow> unit ovs_act) \<Rightarrow>
    string \<times> (string \<times> (string \<times> string) list) list \<Rightarrow> unit ovs_act" where
  "fdb_network c agent_act entry =
     bindA (getsA (\<lambda>a. map_of (oa_map a) (fst entry))) (\<lambda>found.
     case found of
       None \<Rightarrow> returnA ()
     | Some l \<Rightarrow>
         (let agents = filter (\<lambda>x. fst x \<noteq> oc_local_ip c) (snd entry) in
          if agents = [] then returnA ()
          else thenA (on_tun (modifyA bridge_defer_on))
            (thenA (forA (agent_act (lv_type l)) agents) (on_tun (modifyA bridge_defer_off)))))"

definition fdb_add :: "ovs_conf \<Rightarrow> world \<Rightarrow> fdb_entries \<Rightarrow> unit ovs_act" where
  "fdb_add c w entries = forA (\<lambda>e. fdb_network c (fdb_add_agent c w (fst e)) e) entries"

definition fdb_remove :: "ovs_conf \<Rightarrow> fdb_entries \<Rightarrow> unit ovs_act" where
  "fdb_remove c entries = forA (\<lambda>e. fdb_network c (fdb_del_agent (fst e)) e) entries"

text \<open>The agent has no method for any action of \<open>fdb_update\<close>.\<close>

definition fdb_update :: "string list \<Rightarrow> unit ovs_act" where
  "fdb_update actions = (if actions = [] then returnA () else raiseA NotImplementedError)"

section \<open>The main loop\<close>

record ovs_loop =
  lo_agent :: ovs_agent
  lo_sync :: bool
  lo_ports :: "string list"
  lo_ancillary :: "string list"
  lo_tunnel_sync :: bool
  lo_force :: bool
  lo_completed :: bool
  lo_iter :: nat

type_synonym 'a loop_act = "(agent_exc, ovs_loop, 'a) act"

definition on_agent :: "'a ovs_act \<Rightarrow> 'a loop_act" where
  "on_agent m = (\<lambda>s. let (r, a) = m (lo_agent s) in (r, s\<lparr>lo_agent := a\<rparr>))"

text \<open>\<open>minimize\<close>: the polling manager watches the switch instead of polling always.\<close>

definition is_polling_required :: "bool \<Rightarrow> world \<Rightarrow> bool loop_act" where
  "is_polling_required minimize w =
     (if \<not> minimize then returnA True
      else bindA (getsA (\<lambda>s. w_updates w \<or> lo_force s \<or> \<not> lo_completed s)) (\<lambda>required.
        thenA (modifyA (\<lambda>s. s\<lparr>lo_force := False, lo_completed := (if required then False else lo_completed s)\<rparr>))
          (returnA required)))"

definition poll_regular :: "ovs_conf \<Rightarrow> world \<Rightarrow> unit loop_act" where
  "poll_regular c w =
     bindA (getsA lo_ports) (\<lambda>ports.
     bindA (on_agent (update_ports w ports)) (\<lambda>found.
     case found of
       None \<Rightarrow> returnA ()
     | Some info \<Rightarrow>
         bindA (on_agent (process_network_ports c w info)) (\<lambda>resync.
           modifyA (\<lambda>s. s\<lparr>lo_sync := resync, lo_ports := pi_current info\<rparr>))))"

definition poll_ancillary :: "bool \<Rightarrow> world \<Rightarrow> unit loop_act" where
  "poll_ancillary has_ancillary w =
     (if \<not> has_ancillary then returnA ()
      else bindA (getsA (\<lambda>s. update_ancillary_ports w (lo_ancillary s))) (\<lambda>found.
        case found of
          None \<Rightarrow> returnA ()
        | Some info \<Rightarrow>
            bindA (on_agent (process_ancillary_network_ports w info)) (\<lambda>rc.
              modifyA (\<lambda>s. s\<lparr>lo_ancillary := pi_current info, lo_sync := (lo_sync s \<or> rc)\<rparr>))))"

definition loop_body :: "ovs_conf \<Rightarrow> bool \<Rightarrow> bool \<Rightarrow> world \<Rightarrow> unit loop_act" where
  "loop_body c minimize has_ancillary w =
     thenA (modifyA (\<lambda>s. if lo_sync s then s\<lparr>lo_ports := [], lo_ancillary := [], lo_sync := False, lo_force := True\<rparr> else s))
     (thenA (bindA (getsA lo_tunnel_sync) (\<lambda>ts.
         if oc_tunneling c \<and> ts then bindA (on_agent (agent_tunnel_sync c w)) (\<lambda>b. modifyA (\<lambda>s. s\<lparr>lo_tunnel_sync := b\<rparr>)) else returnA ()))
     (bindA (is_polling_required minimize w) (\<lambda>required.
       if required
       then thenA (poll_regular c w) (thenA (poll_ancillary has_ancillary w) (modifyA (\<lambda>s. s\<lparr>lo_completed := True\<rparr>)))
       else returnA ())))"

text \<open>One iteration of \<open>rpc_loop\<close>; no exception leaves it.\<close>

definition rpc_iteration :: "ovs_conf \<Rightarrow> bool \<Rightarrow> bool \<Rightarrow> world \<Rightarrow> ovs_loop \<Rightarrow> ovs_loop" where
  "rpc_iteration c minimize has_ancillary w s =
     (let t = snd (catchA (loop_body c minimize has_ancillary w) (\<lambda>e. modifyA (\<lambda>s. s\<lparr>lo_sync := True, lo_tunnel_sync := True\<rparr>)) s)
      in t\<lparr>lo_iter := Suc (lo_iter t)\<rparr>)"

end
