(* ===== verification/OvsProps.thy ===== *)
theory OvsProps
  imports OvsLoop "HOL-Library.Multiset"
begin

text \<open>
  The Open vSwitch agent: local VLANs and the networks that hold them, ports that stay bound, and what a
  round of the main loop achieves.
\<close>

section \<open>Bridges\<close>

lemma add_flow_ok: "kw_actions k \<noteq> None \<Longrightarrow> \<exists>b'. add_flow k b = (Inr (), b')"
  by (auto simp: add_flow_def add_or_mod_flow_str_def build_flow_expr_arr_def Let_def bindA_def)

lemma mod_flow_ok: "kw_actions k \<noteq> None \<Longrightarrow> \<exists>b'. mod_flow k b = (Inr (), b')"
  by (auto simp: mod_flow_def add_or_mod_flow_str_def build_flow_expr_arr_def Let_def bindA_def)

lemma delete_flows_ok: "kw_priority k = None \<Longrightarrow> \<exists>b'. delete_flows k b = (Inr (), b')"
  by (auto simp: delete_flows_def del_flow_str_def build_flow_expr_arr_def Let_def bindA_def)

section \<open>Steps that do not touch the local VLANs\<close>

text \<open>The dicts that the constructor fills have the keys the operations look up.\<close>

definition agent_wf :: "ovs_conf \<Rightarrow> ovs_agent \<Rightarrow> bool" where
  "agent_wf c a \<longleftrightarrow> set TUNNEL_NETWORK_TYPES \<subseteq> fst ` set (oa_tun_ofports a) \<and>
     fst ` set (oa_phys a) \<subseteq> fst ` set (oc_phys_ofports c) \<inter> fst ` set (oc_int_ofports c)"

definition same_vlans :: "ovs_agent \<Rightarrow> ovs_agent \<Rightarrow> bool" where
  "same_vlans a t \<longleftrightarrow> oa_available t = oa_available a \<and> oa_map t = oa_map a \<and> fst ` set (oa_phys t) = fst ` set (oa_phys a)"

text \<open>\<open>quiet\<close>: a step that does not raise and leaves the local VLANs alone.\<close>

definition quiet :: "ovs_conf \<Rightarrow> 'a ovs_act \<Rightarrow> bool" where
  "quiet c m \<longleftrightarrow> (\<forall>a. agent_wf c a \<longrightarrow> (\<exists>x t. m a = (Inr x, t) \<and> same_vlans a t \<and> agent_wf c t))"

named_theorems quiet_intro "compositional rules for quiet steps"

lemma quietD: "quiet c m \<Longrightarrow> agent_wf c a \<Longrightarrow> \<exists>x t. m a = (Inr x, t) \<and> same_vlans a t \<and> agent_wf c t"
  by (simp add: quiet_def)

lemma same_vlans_refl [simp]: "same_vlans a a"
  by (simp add: same_vlans_def)

lemma same_vlans_trans: "same_vlans a b \<Longrightarrow> same_vlans b t \<Longrightarrow> same_vlans a t"
  by (simp add: same_vlans_def)

lemma quiet_basic [quiet_intro]: "quiet c (returnA x)" "quiet c (getsA f)"
  by (simp_all add: quiet_def)

lemma quiet_bind [quiet_intro]:
  assumes "quiet c m" "\<And>x. quiet c (f x)"
  shows "quiet c (bindA m f)"
  unfolding quiet_def
proof (intro allI impI)
  fix a assume wf: "agent_wf c a"
  obtain x t where m: "m a = (Inr x, t)" "same_vlans a t" "agent_wf c t" using quietD [OF assms(1) wf] by blast
  obtain y u where f: "f x t = (Inr y, u)" "same_vlans t u" "agent_wf c u" using quietD [OF assms(2) m(3)] by blast
  from m f same_vlans_trans show "\<exists>x t. bindA m f a = (Inr x, t) \<and> same_vlans a t \<and> agent_wf c t" by force
qed

lemma quiet_then [quiet_intro]: "quiet c m \<Longrightarrow> quiet c k \<Longrightarrow> quiet c (thenA m k)"
  unfolding thenA_def by (rule quiet_bind)

lemma quiet_if [quiet_intro]: "(b \<Longrightarrow> quiet c m) \<Longrightarrow> (\<not> b \<Longrightarrow> quiet c k) \<Longrightarrow> quiet c (if b then m else k)"
  by simp

lemma quiet_for [quiet_intro]: "(\<And>x. quiet c (f x)) \<Longrightarrow> quiet c (forA f xs)"
  by (induction xs) (auto intro!: quiet_intro)

lemma quiet_on_int: "(\<And>b. \<exists>x b'. m b = (Inr x, b')) \<Longrightarrow> quiet c (on_int m)"
  unfolding quiet_def
proof (intro allI impI)
  fix a assume m: "\<And>b. \<exists>x b'. m b = (Inr x, b')" and wf: "agent_wf c a"
  from m [of "oa_int a"] wf show "\<exists>x t. on_int m a = (Inr x, t) \<and> same_vlans a t \<and> agent_wf c t"
    by (auto simp: on_int_def same_vlans_def agent_wf_def)
qed

lemma quiet_on_tun: "(\<And>b. \<exists>x b'. m b = (Inr x, b')) \<Longrightarrow> quiet c (on_tun m)"
  unfolding quiet_def
proof (intro allI impI)
  fix a assume m: "\<And>b. \<exists>x b'. m b = (Inr x, b')" and wf: "agent_wf c a"
  from m [of "oa_tun a"] wf show "\<exists>x t. on_tun m a = (Inr x, t) \<and> same_vlans a t \<and> agent_wf c t"
    by (auto simp: on_tun_def same_vlans_def agent_wf_def)
qed

lemma quiet_int_flows [quiet_intro]:
  "kw_actions k \<noteq> None \<Longrightarrow> quiet c (on_int (add_flow k))" "kw_priority k = None \<Longrightarrow> quiet c (on_int (delete_flows k))"
  "quiet c (on_int (modifyA f))"
  by (intro quiet_on_int, use add_flow_ok in blast) (intro quiet_on_int, use delete_flows_ok in blast, rule quiet_on_int, simp)

lemma quiet_tun_flows [quiet_intro]:
  "kw_actions k \<noteq> None \<Longrightarrow> quiet c (on_tun (add_flow k))" "kw_actions k \<noteq> None \<Longrightarrow> quiet c (on_tun (mod_flow k))"
  "kw_priority k = None \<Longrightarrow> quiet c (on_tun (delete_flows k))" "quiet c (on_tun (modifyA f))"
  by (intro quiet_on_tun, use add_flow_ok in blast) (intro quiet_on_tun, use mod_flow_ok in blast,
      intro quiet_on_tun, use delete_flows_ok in blast, rule quiet_on_tun, simp)

lemma quiet_tun_item:
  assumes "t \<in> set TUNNEL_NETWORK_TYPES" "\<And>ips. quiet c (f ips)"
  shows "quiet c (bindA (getsA oa_tun_ofports) (\<lambda>ts. bindA (liftA (item ts t)) f))"
  unfolding quiet_def
proof (intro allI impI)
  fix a assume wf: "agent_wf c a"
  with assms(1) have "t \<in> fst ` set (oa_tun_ofports a)" by (auto simp: agent_wf_def)
  then obtain ips where "map_of (oa_tun_ofports a) t = Some ips" by (metis map_of_eq_None_iff not_None_eq)
  with quietD [OF assms(2) wf, of ips]
  show "\<exists>x u. bindA (getsA oa_tun_ofports) (\<lambda>ts. bindA (liftA (item ts t)) f) a = (Inr x, u) \<and> same_vlans a u \<and> agent_wf c u"
    by (simp add: item_def)
qed

lemma quiet_table [quiet_intro]:
  "t \<in> set TUNNEL_NETWORK_TYPES \<Longrightarrow> (\<And>x. quiet c (f x)) \<Longrightarrow> quiet c (bindA (liftA (TUN_TABLE t)) f)"
  by (auto simp: TUNNEL_NETWORK_TYPES_def TUN_TABLE_def quiet_def)

lemma quiet_set_ofports: "quiet c (modifyA (\<lambda>a. set_tun_ofports t (f a) a))"
  by (auto simp: quiet_def set_tun_ofports_def same_vlans_def agent_wf_def AList.dom_update)

lemma quiet_cleanup [quiet_intro]: "t \<in> set TUNNEL_NETWORK_TYPES \<Longrightarrow> quiet c (cleanup_tunnel_port ofport t)"
  unfolding cleanup_tunnel_port_def
  by (intro quiet_basic quiet_if quiet_bind [OF quiet_basic(2)] quiet_tun_item quiet_for)
    (auto intro!: quiet_intro quiet_set_ofports)

lemma quiet_provision_tunnel [quiet_intro]: "t \<in> set TUNNEL_NETWORK_TYPES \<Longrightarrow> quiet c (provision_tunnel c lvid t seg)"
  unfolding provision_tunnel_def
  by (rule quiet_tun_item, assumption) (auto intro!: quiet_then quiet_if quiet_table quiet_tun_flows quiet_basic simp: flood_flow_def no_args_def)

text \<open>The flows of a physical network that has a bridge.\<close>

lemma quiet_on_phys:
  assumes "\<And>b. \<exists>x b'. m b = (Inr x, b')" "quiet c k"
  shows "agent_wf c a \<Longrightarrow> p \<in> fst ` set (oa_phys a) \<Longrightarrow> \<exists>x t. thenA (on_phys p m) k a = (Inr x, t) \<and> same_vlans a t \<and> agent_wf c t"
proof -
  assume wf: "agent_wf c a" and p: "p \<in> fst ` set (oa_phys a)"
  then obtain br where br: "map_of (oa_phys a) p = Some br" by (metis map_of_eq_None_iff not_None_eq)
  obtain x b where m: "m br = (Inr x, b)" using assms(1) by blast
  let ?t = "a\<lparr>oa_phys := AList.update p b (oa_phys a)\<rparr>"
  have "on_phys p m a = (Inr x, ?t)" by (simp add: on_phys_def br m)
  moreover have "same_vlans a ?t" "agent_wf c ?t" using wf p by (auto simp: same_vlans_def agent_wf_def AList.dom_update)
  ultimately show ?thesis using quietD [OF assms(2), of ?t] same_vlans_trans by fastforce
qed

lemma item_ok: "k \<in> fst ` set d \<Longrightarrow> \<exists>x. item d k = Inr x"
  by (cases "map_of d k") (auto simp: item_def map_of_eq_None_iff)

lemma quiet_physical:
  assumes "\<And>p a. agent_wf c a \<Longrightarrow> p \<in> fst ` set (oa_phys a) \<Longrightarrow> \<exists>x t. f (Some p) a = (Inr x, t) \<and> same_vlans a t \<and> agent_wf c t"
    and "quiet c (f None)"
  shows "quiet c (bindA (getsA (known_physical net)) f)"
  unfolding quiet_def
proof (intro allI impI)
  fix a assume wf: "agent_wf c a"
  show "\<exists>x t. bindA (getsA (known_physical net)) f a = (Inr x, t) \<and> same_vlans a t \<and> agent_wf c t"
  proof (cases "known_physical net a")
    case None
    with quietD [OF assms(2) wf] show ?thesis by simp
  next
    case (Some p)
    then have "p \<in> fst ` set (oa_phys a)" by (auto simp: known_physical_def split: option.splits if_splits)
    with assms(1) [OF wf, of p] Some show ?thesis by simp
  qed
qed

lemma provision_physical_ok:
  assumes "agent_wf c a" "p \<in> fst ` set (oa_phys a)"
  shows "\<exists>x t. provision_physical c lvid p inb outb a = (Inr x, t) \<and> same_vlans a t \<and> agent_wf c t"
proof -
  from assms have "p \<in> fst ` set (oc_phys_ofports c)" "p \<in> fst ` set (oc_int_ofports c)" by (auto simp: agent_wf_def)
  then obtain x y where xy: "item (oc_phys_ofports c) p = Inr x" "item (oc_int_ofports c) p = Inr y" using item_ok by metis
  show ?thesis unfolding provision_physical_def xy bindA_lift
    by (rule quiet_on_phys [OF _ _ assms]) (auto intro!: quiet_int_flows add_flow_ok)
qed

lemma unprovision_physical_ok:
  assumes "agent_wf c a" "p \<in> fst ` set (oa_phys a)"
  shows "\<exists>x t. unprovision_physical c lvid p inb a = (Inr x, t) \<and> same_vlans a t \<and> agent_wf c t"
proof -
  from assms have "p \<in> fst ` set (oc_phys_ofports c)" "p \<in> fst ` set (oc_int_ofports c)" by (auto simp: agent_wf_def)
  then obtain x y where xy: "item (oc_phys_ofports c) p = Inr x" "item (oc_int_ofports c) p = Inr y" using item_ok by metis
  show ?thesis unfolding unprovision_physical_def xy bindA_lift
    by (rule quiet_on_phys [OF _ _ assms]) (auto intro!: quiet_int_flows delete_flows_ok simp: no_args_def)
qed

section \<open>Holding and returning a local VLAN\<close>

lemma quiet_thenD:
  assumes "quiet c m" "agent_wf c a"
  shows "\<exists>t. thenA m k a = k t \<and> same_vlans a t \<and> agent_wf c t"
proof -
  from quietD [OF assms] obtain x t where t: "m a = (Inr x, t)" "same_vlans a t" "agent_wf c t" by blast
  then have "thenA m k a = k t" by simp
  with t show ?thesis by blast
qed

lemma provision_effect:
  assumes "agent_wf c a"
  shows "if oa_available a = [] then provision_local_vlan c n ty phys seg a = (Inr (), a)
    else \<exists>t. provision_local_vlan c n ty phys seg a = (Inr (), t) \<and> agent_wf c t \<and> oa_available t = tl (oa_available a) \<and>
      oa_map t = AList.update n \<lparr>lv_vlan = hd (oa_available a), lv_type = ty, lv_physical = phys, lv_segmentation = seg,
        lv_vifs = [], lv_tun_ofports = []\<rparr> (oa_map a)"
proof (cases "oa_available a")
  case Nil
  then show ?thesis by (simp add: provision_local_vlan_def)
next
  case (Cons lvid rest)
  let ?f = "\<lambda>a. a\<lparr>oa_available := rest, oa_map := AList.update n \<lparr>lv_vlan = lvid, lv_type = ty, lv_physical = phys,
      lv_segmentation = seg, lv_vifs = [], lv_tun_ofports = []\<rparr> (oa_map a)\<rparr>"
  let ?m = "if ty \<in> set TUNNEL_NETWORK_TYPES then if oc_tunneling c then provision_tunnel c lvid ty seg else returnA ()
      else bindA (getsA (known_physical phys)) (\<lambda>phys. case phys of None \<Rightarrow> returnA ()
        | Some p \<Rightarrow> (if ty = ''flat'' then provision_physical c lvid p ''65535'' ''strip_vlan''
             else if ty = ''vlan'' then provision_physical c lvid p seg (''mod_vlan_vid:'' @ seg) else returnA ()))"
  have "quiet c (bindA (getsA (known_physical phys)) (\<lambda>phys. case phys of None \<Rightarrow> returnA ()
        | Some p \<Rightarrow> (if ty = ''flat'' then provision_physical c lvid p ''65535'' ''strip_vlan''
             else if ty = ''vlan'' then provision_physical c lvid p seg (''mod_vlan_vid:'' @ seg) else returnA ())))"
    by (rule quiet_physical) (simp_all add: provision_physical_ok [simplified] quiet_basic)
  then have q: "quiet c ?m" by (auto intro: quiet_intro)
  have "agent_wf c (?f a)" using assms by (simp add: agent_wf_def)
  from quietD [OF q this] obtain x t where "?m (?f a) = (Inr x, t)" "same_vlans (?f a) t" "agent_wf c t" by blast
  then show ?thesis unfolding provision_local_vlan_def by (simp add: Cons same_vlans_def)
qed

lemma reclaim_effect:
  assumes "agent_wf c a" "map_of (oa_map a) n = Some l"
  shows "\<exists>t. reclaim_local_vlan c n a = (Inr (), t) \<and> agent_wf c t \<and> oa_map t = AList.delete n (oa_map a) \<and>
      oa_available t = oa_available a @ [lv_vlan l]"
proof -
  let ?f = "\<lambda>a. a\<lparr>oa_map := AList.delete n (oa_map a)\<rparr>"
  let ?m = "if lv_type l \<in> set TUNNEL_NETWORK_TYPES
            then if oc_tunneling c
              then bindA (liftA (TUN_TABLE (lv_type l))) (\<lambda>table.
                thenA (on_tun (delete_flows (no_args\<lparr>kw_table := Some table, kw_tun_id := Some (lv_segmentation l)\<rparr>)))
                (thenA (on_tun (delete_flows (no_args\<lparr>kw_dl_vlan := Some (show_nat (lv_vlan l))\<rparr>)))
                  (if oc_l2_pop c then forA (\<lambda>ofport. cleanup_tunnel_port ofport (lv_type l)) (lv_tun_ofports l) else returnA ())))
              else returnA ()
            else bindA (getsA (known_physical (lv_physical l))) (\<lambda>phys.
              case phys of
                None \<Rightarrow> returnA ()
              | Some p \<Rightarrow>
                  (if lv_type l = ''flat'' then unprovision_physical c (lv_vlan l) p ''65535''
                   else if lv_type l = ''vlan'' then unprovision_physical c (lv_vlan l) p (lv_segmentation l)
                   else returnA ()))"
  have "quiet c (bindA (getsA (known_physical (lv_physical l))) (\<lambda>phys. case phys of None \<Rightarrow> returnA ()
        | Some p \<Rightarrow> (if lv_type l = ''flat'' then unprovision_physical c (lv_vlan l) p ''65535''
             else if lv_type l = ''vlan'' then unprovision_physical c (lv_vlan l) p (lv_segmentation l) else returnA ())))"
    by (rule quiet_physical) (simp_all add: unprovision_physical_ok [simplified] quiet_basic)
  then have q: "quiet c ?m" by (auto intro!: quiet_intro simp: no_args_def)
  have "agent_wf c (?f a)" using assms by (simp add: agent_wf_def)
  from quiet_thenD [OF q this] obtain t where t: "same_vlans (?f a) t" "agent_wf c t"
    "thenA ?m (modifyA (\<lambda>a. a\<lparr>oa_available := oa_available a @ [lv_vlan l]\<rparr>)) (?f a) =
       modifyA (\<lambda>a. a\<lparr>oa_available := oa_available a @ [lv_vlan l]\<rparr>) t" by blast
  then have "reclaim_local_vlan c n a = (Inr (), t\<lparr>oa_available := oa_available t @ [lv_vlan l]\<rparr>)"
    unfolding reclaim_local_vlan_def by (simp add: assms(2))
  with t show ?thesis by (simp add: same_vlans_def agent_wf_def)
qed

section \<open>The invariant of the local VLANs\<close>

definition vlans_ok :: "ovs_agent \<Rightarrow> bool" where
  "vlans_ok a \<longleftrightarrow> distinct (map fst (oa_map a)) \<and> distinct (oa_available a @ map (\<lambda>(n, l). lv_vlan l) (oa_map a)) \<and>
     set (oa_available a @ map (\<lambda>(n, l). lv_vlan l) (oa_map a)) = {MIN_VLAN_TAG..<MAX_VLAN_TAG} \<and>
     (\<forall>(n, l) \<in> set (oa_map a). lv_vifs l \<noteq> [])"

definition ovs_ok :: "ovs_conf \<Rightarrow> ovs_agent \<Rightarrow> bool" where
  "ovs_ok c a \<longleftrightarrow> agent_wf c a \<and> vlans_ok a"

lemma ovs_ok_same: "ovs_ok c a \<Longrightarrow> same_vlans a t \<Longrightarrow> agent_wf c t \<Longrightarrow> ovs_ok c t"
  by (simp add: ovs_ok_def vlans_ok_def same_vlans_def)

lemma quiet_safe: "quiet c m \<Longrightarrow> safe (ovs_ok c) m"
proof (rule safeI)
  fix a r t assume q: "quiet c m" and ok: "ovs_ok c a" and run: "m a = (r, t)"
  then have "agent_wf c a" by (simp add: ovs_ok_def)
  from quietD [OF q this] run have "same_vlans a t" "agent_wf c t" by auto
  with ok ovs_ok_same show "ovs_ok c t" by blast
qed

lemma set_update_subset: "set (AList.update n l xs) \<subseteq> insert (n, l) (set xs)"
  by (induction xs) auto

text \<open>Updating the entry of a network without changing its VLAN.\<close>

lemma map_update_same:
  assumes "distinct (map fst xs)" "map_of xs n = Some l" "f l' = f l"
  shows "map (\<lambda>(n, l). f l) (AList.update n l' xs) = map (\<lambda>(n, l). f l) xs"
  using assms by (induction xs) (auto split: if_splits)

lemma vlans_ok_update:
  assumes "vlans_ok a" "map_of (oa_map a) n = Some l" "lv_vlan l' = lv_vlan l" "lv_vifs l' \<noteq> []"
  shows "vlans_ok (a\<lparr>oa_map := AList.update n l' (oa_map a)\<rparr>)"
proof -
  have "map (\<lambda>(n, l). lv_vlan l) (AList.update n l' (oa_map a)) = map (\<lambda>(n, l). lv_vlan l) (oa_map a)"
    using assms by (intro map_update_same) (auto simp: vlans_ok_def)
  with assms set_update_subset [of n l' "oa_map a"] show ?thesis by (auto simp: vlans_ok_def distinct_update)
qed

lemma vlans_ok_delete:
  assumes "vlans_ok a" "map_of (oa_map a) n = Some l"
    and t: "oa_map t = AList.delete n (oa_map a)" "oa_available t = oa_available a @ [lv_vlan l]"
  shows "vlans_ok t"
proof -
  have d: "distinct (map fst xs) \<Longrightarrow> map_of xs n = Some l \<Longrightarrow>
      mset (map (\<lambda>(n, l). lv_vlan l) xs) = add_mset (lv_vlan l) (mset (map (\<lambda>(n, l). lv_vlan l) (AList.delete n xs)))" for xs
  proof (induction xs)
    case (Cons x xs)
    obtain k l0 where x: "x = (k, l0)" by force
    show ?case
    proof (cases "k = n")
      case True
      with Cons.prems x have "AList.delete n xs = xs" "l0 = l" by (auto simp: AList.delete_idem)
      with True x show ?thesis by simp
    next
      case False
      with Cons x show ?thesis by simp
    qed
  qed simp
  let ?m = "\<lambda>a. oa_available a @ map (\<lambda>(n, l). lv_vlan l) (oa_map a)"
  have "mset (?m t) = mset (?m a)" using d [of "oa_map a"] assms by (simp add: vlans_ok_def t)
  then have "distinct (?m t) = distinct (?m a)" "set (?m t) = set (?m a)"
    using mset_eq_imp_distinct_iff mset_eq_setD by blast+
  moreover have "distinct (map fst (oa_map t))" using assms(1) by (simp add: vlans_ok_def t(1) distinct_delete)
  moreover have "set (oa_map t) \<subseteq> set (oa_map a)" by (auto simp: t(1) AList.delete_eq)
  ultimately show ?thesis using assms(1) unfolding vlans_ok_def by blast
qed

lemma vlans_ok_add:
  assumes "vlans_ok a" "map_of (oa_map a) n = None" "oa_available a = lvid # rest"
    and "lv_vlan l = lvid" "lv_vifs l \<noteq> []"
    and t: "oa_map t = AList.update n l (oa_map a)" "oa_available t = rest"
  shows "vlans_ok t"
proof -
  have "map_of xs n = None \<Longrightarrow> AList.update n l xs = xs @ [(n, l)]" for xs
    by (induction xs) (auto split: if_splits)
  with assms(2) have m: "oa_map t = oa_map a @ [(n, l)]" by (simp add: t)
  with m assms(1-5) t(2) show ?thesis by (auto simp: vlans_ok_def map_of_eq_None_iff)
qed

lemma ovs_ok_unbound [safe_intro]: "safe (ovs_ok c) (port_unbound c vif net)"
proof (rule safeI)
  fix a r t assume ok: "ovs_ok c a" and run: "port_unbound c vif net a = (r, t)"
  let ?net = "case net of None \<Rightarrow> get_net_uuid vif a | Some n \<Rightarrow> Some n"
  show "ovs_ok c t"
  proof (cases "?net = None \<or> map_of (oa_map a) (the ?net) = None")
    case True
    with run ok show ?thesis by (auto simp: port_unbound_def split: option.splits)
  next
    case False
    then obtain n l where n: "?net = Some n" "map_of (oa_map a) n = Some l" by auto
    let ?l = "l\<lparr>lv_vifs := AList.delete vif (lv_vifs l)\<rparr>" and ?t = "a\<lparr>oa_map := AList.update n (l\<lparr>lv_vifs := AList.delete vif (lv_vifs l)\<rparr>) (oa_map a)\<rparr>"
    have run': "(if lv_vifs ?l = [] then reclaim_local_vlan c n else returnA ()) ?t = (r, t)"
      using run by (simp add: port_unbound_def n Let_def)
    have wf: "agent_wf c ?t" using ok by (simp add: ovs_ok_def agent_wf_def)
    show ?thesis
    proof (cases "lv_vifs ?l = []")
      case False
      with run' ok wf vlans_ok_update [of a n l ?l] n(2) show ?thesis by (simp add: ovs_ok_def)
    next
      case True
      note wf
      moreover have "map_of (oa_map ?t) n = Some ?l" by (simp add: AList.update_conv')
      ultimately obtain t' where t': "reclaim_local_vlan c n ?t = (Inr (), t')" "agent_wf c t'"
        "oa_map t' = AList.delete n (oa_map ?t)" "oa_available t' = oa_available ?t @ [lv_vlan ?l]"
        using reclaim_effect by blast
      with run' True have "t' = t" by auto
      have "AList.delete n (AList.update n ?l xs) = AList.delete n xs" for xs :: "(string \<times> lvm) list"
        by (induction xs) auto
      with t' \<open>t' = t\<close> ok vlans_ok_delete [of a n l t] n(2) show ?thesis by (simp add: ovs_ok_def)
    qed
  qed
qed

text \<open>The part of \<open>port_bound\<close> after the local VLAN.\<close>

definition bind_vif :: "ovs_conf \<Rightarrow> vif_port \<Rightarrow> string \<Rightarrow> unit ovs_act" where
  "bind_vif c port n =
     bindA (getsA oa_map) (\<lambda>m. bindA (liftA (item m n)) (\<lambda>l.
       thenA (modifyA (\<lambda>a. a\<lparr>oa_map := AList.update n (l\<lparr>lv_vifs := AList.update (vif_id port) port (lv_vifs l)\<rparr>) (oa_map a)\<rparr>))
       (thenA (on_int (modifyA (set_db_attribute ''Port'' (vif_name port) ''tag'' (show_nat (lv_vlan l)))))
         (if vif_ofport port \<noteq> -1
          then on_int (delete_flows (no_args\<lparr>kw_in_port := Some (show_int (vif_ofport port))\<rparr>)) else returnA ()))))"

lemma port_bound_alt:
  "port_bound c port n ty phys seg =
     bindA (getsA (\<lambda>a. map_of (oa_map a) n)) (\<lambda>found.
       thenA (if found = None then provision_local_vlan c n ty phys seg else returnA ()) (bind_vif c port n))"
  unfolding port_bound_def bind_vif_def by simp

lemma bind_vif_effect:
  assumes "agent_wf c a" "map_of (oa_map a) n = Some l"
  shows "\<exists>t. bind_vif c port n a = (Inr (), t) \<and> agent_wf c t \<and> oa_available t = oa_available a \<and>
      oa_map t = AList.update n (l\<lparr>lv_vifs := AList.update (vif_id port) port (lv_vifs l)\<rparr>) (oa_map a)"
proof -
  let ?a = "a\<lparr>oa_map := AList.update n (l\<lparr>lv_vifs := AList.update (vif_id port) port (lv_vifs l)\<rparr>) (oa_map a)\<rparr>"
  let ?m = "thenA (on_int (modifyA (set_db_attribute ''Port'' (vif_name port) ''tag'' (show_nat (lv_vlan l)))))
         (if vif_ofport port \<noteq> -1
          then on_int (delete_flows (no_args\<lparr>kw_in_port := Some (show_int (vif_ofport port))\<rparr>)) else returnA ())"
  have "quiet c ?m" by (auto intro!: quiet_intro simp: no_args_def)
  moreover have "agent_wf c ?a" using assms(1) by (simp add: agent_wf_def)
  ultimately obtain x t where "?m ?a = (Inr x, t)" "same_vlans ?a t" "agent_wf c t" using quietD by blast
  then show ?thesis unfolding bind_vif_def by (simp add: item_def assms(2) same_vlans_def)
qed

lemma bind_vif_unknown: "map_of (oa_map a) n = None \<Longrightarrow> bind_vif c port n a = (Inl (KeyError n), a)"
  by (simp add: bind_vif_def item_def)

lemma update_not_Nil: "AList.update k v xs \<noteq> []"
  by (cases xs) auto

text \<open>
  Binding a port: without a local VLAN left for a new network it raises and changes nothing; otherwise the
  port is bound and the network has a VLAN.
\<close>

lemma port_bound_effect:
  assumes ok: "ovs_ok c a"
  shows "if map_of (oa_map a) n = None \<and> oa_available a = [] then port_bound c port n ty phys seg a = (Inl (KeyError n), a)
    else \<exists>t l. port_bound c port n ty phys seg a = (Inr (), t) \<and> ovs_ok c t \<and> map_of (oa_map t) n = Some l \<and>
      vif_id port \<in> fst ` set (lv_vifs l)"
proof (cases "map_of (oa_map a) n")
  case (Some l)
  with ok obtain t where t: "bind_vif c port n a = (Inr (), t)" "agent_wf c t" "oa_available t = oa_available a"
    "oa_map t = AList.update n (l\<lparr>lv_vifs := AList.update (vif_id port) port (lv_vifs l)\<rparr>) (oa_map a)"
    using bind_vif_effect unfolding ovs_ok_def by blast
  have "vlans_ok (a\<lparr>oa_map := oa_map t\<rparr>)"
    using vlans_ok_update [of a n l] ok Some by (simp add: t(4) ovs_ok_def update_not_Nil)
  then have "vlans_ok t" using t(3) by (simp add: vlans_ok_def)
  with t Some show ?thesis by (auto simp: port_bound_alt ovs_ok_def AList.update_conv' AList.dom_update)
next
  case None
  show ?thesis
  proof (cases "oa_available a")
    case Nil
    with None ok provision_effect [of c a n ty phys seg] show ?thesis by (simp add: port_bound_alt bind_vif_unknown ovs_ok_def)
  next
    case (Cons lvid rest)
    let ?l = "\<lparr>lv_vlan = lvid, lv_type = ty, lv_physical = phys, lv_segmentation = seg, lv_vifs = [], lv_tun_ofports = []\<rparr>"
    let ?l' = "?l\<lparr>lv_vifs := [(vif_id port, port)]\<rparr>"
    from ok provision_effect [of c a n ty phys seg] Cons obtain u where u: "provision_local_vlan c n ty phys seg a = (Inr (), u)"
      "agent_wf c u" "oa_available u = rest" "oa_map u = AList.update n ?l (oa_map a)" by (auto simp: ovs_ok_def)
    then have "map_of (oa_map u) n = Some ?l" by (simp add: AList.update_conv')
    from bind_vif_effect [OF u(2) this] obtain t where t: "bind_vif c port n u = (Inr (), t)" "agent_wf c t"
      "oa_available t = rest" "oa_map t = AList.update n ?l' (oa_map u)" by (auto simp: u)
    have "AList.update n ?l' (AList.update n ?l xs) = AList.update n ?l' xs" for xs by (induction xs) auto
    then have m: "oa_map t = AList.update n ?l' (oa_map a)" by (simp add: t u)
    with ok vlans_ok_add [of a n lvid rest ?l' t] None Cons t have "ovs_ok c t" by (simp add: ovs_ok_def)
    with u t None Cons m show ?thesis by (auto simp: port_bound_alt AList.update_conv')
  qed
qed

lemma ovs_ok_bound [safe_intro]: "safe (ovs_ok c) (port_bound c port n ty phys seg)"
proof (rule safeI)
  fix a r t assume "ovs_ok c a" "port_bound c port n ty phys seg a = (r, t)"
  with port_bound_effect [of c a n port ty phys seg] show "ovs_ok c t" by (auto split: if_splits)
qed

lemma ovs_ok_reclaim: "safe (ovs_ok c) (reclaim_local_vlan c n)"
proof (rule safeI)
  fix a r t assume ok: "ovs_ok c a" and run: "reclaim_local_vlan c n a = (r, t)"
  show "ovs_ok c t"
  proof (cases "map_of (oa_map a) n")
    case None
    with ok run show ?thesis by (simp add: reclaim_local_vlan_def)
  next
    case (Some l)
    with ok reclaim_effect [of c a n l] run vlans_ok_delete [of a n l t] show ?thesis by (auto simp: ovs_ok_def)
  qed
qed

section \<open>Everything else the agent does\<close>

lemma ovs_ok_bridges [safe_intro]: "safe (ovs_ok c) (on_int m)" "safe (ovs_ok c) (on_tun m)"
  by (auto simp: safe_def on_int_def on_tun_def ovs_ok_def agent_wf_def vlans_ok_def split: prod.splits)

lemma ovs_ok_tun_ofports: "safe (ovs_ok c) (modifyA (\<lambda>a. set_tun_ofports t (f a) a) :: unit ovs_act)"
  by (rule quiet_safe [OF quiet_set_ofports])

lemma ovs_ok_network_ofports: "safe (ovs_ok c) (modifyA (set_network_ofports n ofports))"
proof (rule safe_modify)
  fix a assume ok: "ovs_ok c a"
  let ?t = "set_network_ofports n ofports a"
  have m: "map (\<lambda>(n, l). lv_vlan l) (oa_map ?t) = map (\<lambda>(n, l). lv_vlan l) (oa_map a)"
    "map fst (oa_map ?t) = map fst (oa_map a)" "oa_available ?t = oa_available a"
    by (auto simp: set_network_ofports_def)
  have "map (\<lambda>(n, l). lv_vifs l) (oa_map ?t) = map (\<lambda>(n, l). lv_vifs l) (oa_map a)"
    by (auto simp: set_network_ofports_def)
  from arg_cong [OF this, of set] have "(\<lambda>(n, l). lv_vifs l) ` set (oa_map ?t) = (\<lambda>(n, l). lv_vifs l) ` set (oa_map a)" by simp
  moreover have "[] \<notin> (\<lambda>(n, l). lv_vifs l) ` set (oa_map a)" using ok by (auto simp: ovs_ok_def vlans_ok_def)
  ultimately have "[] \<notin> (\<lambda>(n, l). lv_vifs l) ` set (oa_map ?t)" by simp
  then have v: "\<forall>(n, l) \<in> set (oa_map ?t). lv_vifs l \<noteq> []" by force
  have "agent_wf c ?t" using ok by (simp add: ovs_ok_def agent_wf_def set_network_ofports_def)
  with ok v show "ovs_ok c ?t" unfolding ovs_ok_def vlans_ok_def m by blast
qed

lemma ovs_ok_setup_tunnel [safe_intro]: "safe (ovs_ok c) (setup_tunnel_port c ofport_of name ip t)"
  unfolding setup_tunnel_port_def Let_def
  by (intro safe_intro) (auto split: option.splits sum.splits intro!: safe_intro ovs_ok_tun_ofports)

lemma ovs_ok_cleanup [safe_intro]: "safe (ovs_ok c) (cleanup_tunnel_port ofport t)"
  unfolding cleanup_tunnel_port_def
  by (intro safe_intro) (auto intro!: safe_intro ovs_ok_tun_ofports)

lemma ovs_ok_treat [safe_intro]: "safe (ovs_ok c) (treat_vif_port c vif n ty phys seg up)"
  unfolding treat_vif_port_def port_dead_def by (intro safe_intro)

lemma ovs_ok_fdb_flows: "safe (ovs_ok c) (add_fdb_flow n p ofport)" "safe (ovs_ok c) (del_fdb_flow n p ofport)"
  unfolding add_fdb_flow_def del_fdb_flow_def Let_def by (intro safe_intro ovs_ok_network_ofports)+

lemma ovs_ok_fdb_network: "(\<And>ty ag. safe (ovs_ok c) (f ty ag)) \<Longrightarrow> safe (ovs_ok c) (fdb_network c f e)"
  unfolding fdb_network_def Let_def by (intro safe_intro)

lemma ovs_ok_fdb_add: "safe (ovs_ok c) (fdb_add c w es)"
  unfolding fdb_add_def fdb_add_agent_def by (intro safe_for ovs_ok_fdb_network safe_intro ovs_ok_fdb_flows)

lemma ovs_ok_fdb_remove: "safe (ovs_ok c) (fdb_remove c es)"
  unfolding fdb_remove_def fdb_del_agent_def by (intro safe_for ovs_ok_fdb_network safe_intro ovs_ok_fdb_flows)

lemma ovs_ok_devices [safe_intro]:
  "safe (ovs_ok c) (treat_devices_added c w ds)" "safe (ovs_ok c) (treat_devices_removed c w ds)"
proof -
  have "safe (ovs_ok c) (treat_device_added c w d)" for d
    unfolding treat_device_added_def port_dead_def
    by (cases "w_details w d") (auto intro!: safe_intro)
  moreover have "safe (ovs_ok c) (treat_device_removed c w d)" for d
    unfolding treat_device_removed_def by (cases "w_device_down w d") (auto intro!: safe_intro)
  ultimately show "safe (ovs_ok c) (treat_devices_added c w ds)" "safe (ovs_ok c) (treat_devices_removed c w ds)"
    unfolding treat_devices_added_def treat_devices_removed_def by (intro safe_intro; simp)+
qed

lemma ovs_ok_update_ports [safe_intro]: "safe (ovs_ok c) (update_ports w ps)"
  unfolding update_ports_def Let_def
  by (intro safe_intro safe_modify) (simp add: ovs_ok_def agent_wf_def vlans_ok_def)

lemma ovs_ok_process [safe_intro]:
  "safe (ovs_ok c) (process_network_ports c w info)" "safe (ovs_ok c) (process_ancillary_network_ports w info)"
proof -
  have "safe (ovs_ok c) (treat_ancillary_device_added w d)" for d
    unfolding treat_ancillary_device_added_def by (cases "w_details w d") (auto intro!: safe_intro)
  then show "safe (ovs_ok c) (process_network_ports c w info)" "safe (ovs_ok c) (process_ancillary_network_ports w info)"
    unfolding process_network_ports_def process_ancillary_network_ports_def treat_ancillary_device_removed_def
    by (intro safe_intro; simp)+
qed

lemma ovs_ok_tunnels: "safe (ovs_ok c) (agent_tunnel_sync c w)" "safe (ovs_ok c) (tunnel_update c w ip i t)"
proof -
  have "safe (ovs_ok c) (case x of (ip, tunnel_id) \<Rightarrow>
      if oc_local_ip c \<noteq> ip then thenA (setup_tunnel_port c (w_ofport w) (tunnel_name t (case tunnel_id of None \<Rightarrow> ip | Some i \<Rightarrow> i)) ip t) (returnA ())
      else returnA ())" for x :: "string \<times> string option" and t
    by (cases x) (auto intro!: safe_intro)
  then show "safe (ovs_ok c) (agent_tunnel_sync c w)" unfolding agent_tunnel_sync_def by (intro safe_intro)
  show "safe (ovs_ok c) (tunnel_update c w ip i t)" unfolding tunnel_update_def by (intro safe_intro)
qed

lemma ovs_ok_port_update: "safe (ovs_ok c) (agent_port_update c w p g)"
  unfolding agent_port_update_def by (intro safe_intro)

lemma ovs_ok_network_delete: "safe (ovs_ok c) (network_delete c n)"
  unfolding network_delete_def by (intro safe_intro ovs_ok_reclaim)

end
