(* ===== verification/OvsSetup.thy ===== *)
theory OvsSetup
  imports OvsLoop
begin

text \<open>
  The start of the Open vSwitch agent: the flows of the integration bridge, of the bridges of physical
  networks and of the tunnel bridge (\<open>ovs_neutron_agent.py\<close>, the constructor and the methods \<open>setup_*\<close>).

  The pairs of virtual devices between bridges are made by commands of the host: what is known of them is
  the port number the switch gives each end, an argument.
\<close>

text \<open>A port number as it is printed; \<open>None\<close>: the switch gave none.\<close>

definition ofport_text :: "string option \<Rightarrow> string" where
  "ofport_text v = (case v of None \<Rightarrow> ''None'' | Some x \<Rightarrow> x)"

definition setup_integration_br :: "string \<Rightarrow> unit ovs_act" where
  "setup_integration_br int_peer_patch_port =
     thenA (on_int (modifyA (delete_port_cmd int_peer_patch_port)))
     (thenA (on_int (modifyA remove_all_flows))
       (on_int (add_flow (no_args\<lparr>kw_priority := Some ''1'', kw_actions := Some ''normal''\<rparr>))))"

definition VETH_INTEGRATION_PREFIX :: string where "VETH_INTEGRATION_PREFIX = ''int-''"
definition VETH_PHYSICAL_PREFIX :: string where "VETH_PHYSICAL_PREFIX = ''phy-''"

text \<open>
  \<open>device_exists\<close>: a bridge of this name exists.  The result are the numbers of the two ports, at the
  integration bridge and at the bridge of the physical network.
\<close>

definition setup_physical_bridge ::
    "(string \<Rightarrow> bool) \<Rightarrow> (string \<Rightarrow> string option) \<Rightarrow> string \<times> string \<Rightarrow> (string \<times> string \<times> string) ovs_act" where
  "setup_physical_bridge device_exists ofport_of m =
     (let (physical_network, bridge) = m;
          int_veth = VETH_INTEGRATION_PREFIX @ bridge;
          phys_veth = VETH_PHYSICAL_PREFIX @ bridge;
          int_ofport = ofport_text (ofport_of int_veth);
          phys_ofport = ofport_text (ofport_of phys_veth)
      in if \<not> device_exists bridge then raiseA SystemExit
         else thenA (modifyA (\<lambda>a. a\<lparr>oa_phys := AList.update physical_network (new_bridge bridge) (oa_phys a)\<rparr>))
           (thenA (on_phys physical_network (modifyA remove_all_flows))
           (thenA (on_phys physical_network (add_flow (no_args\<lparr>kw_priority := Some ''1'', kw_actions := Some ''normal''\<rparr>)))
           (thenA (on_int (modifyA (delete_port_cmd int_veth)))
           (thenA (on_phys physical_network (modifyA (delete_port_cmd phys_veth)))
           (thenA (on_int (modifyA (add_port_cmd int_veth)))
           (thenA (on_phys physical_network (modifyA (add_port_cmd phys_veth)))
           (thenA (on_int (add_flow (no_args\<lparr>kw_priority := Some ''2'', kw_in_port := Some int_ofport, kw_actions := Some ''drop''\<rparr>)))
           (thenA (on_phys physical_network (add_flow (no_args\<lparr>kw_priority := Some ''2'', kw_in_port := Some phys_ofport, kw_actions := Some ''drop''\<rparr>)))
             (returnA (physical_network, int_ofport, phys_ofport)))))))))))"

fun setup_physical_bridges ::
    "(string \<Rightarrow> bool) \<Rightarrow> (string \<Rightarrow> string option) \<Rightarrow> (string \<times> string) list \<Rightarrow> (string \<times> string \<times> string) list ovs_act" where
  "setup_physical_bridges device_exists ofport_of [] = returnA []"
| "setup_physical_bridges device_exists ofport_of (m # ms) =
     bindA (setup_physical_bridge device_exists ofport_of m) (\<lambda>x.
     bindA (setup_physical_bridges device_exists ofport_of ms) (\<lambda>xs. returnA (x # xs)))"

text \<open>\<open>patch_tun\<close>, \<open>patch_int\<close>: the numbers of the patch ports.\<close>

definition setup_tunnel_br :: "string \<Rightarrow> string \<Rightarrow> string \<Rightarrow> int \<Rightarrow> int \<Rightarrow> unit ovs_act" where
  "setup_tunnel_br tun_br int_peer tun_peer patch_tun patch_int =
     thenA (modifyA (\<lambda>a. a\<lparr>oa_tun := reset_bridge (new_bridge tun_br)\<rparr>))
     (thenA (on_int (modifyA (add_patch_port int_peer tun_peer)))
     (thenA (on_tun (modifyA (add_patch_port tun_peer int_peer)))
       (if patch_tun < 0 \<or> patch_int < 0 then raiseA SystemExit
        else thenA (on_tun (modifyA remove_all_flows))
          (forA (\<lambda>k. on_tun (add_flow k))
            ([no_args\<lparr>kw_priority := Some ''1'', kw_in_port := Some (show_int patch_int),
                kw_actions := Some (''resubmit(,'' @ PATCH_LV_TO_TUN @ '')'')\<rparr>,
              no_args\<lparr>kw_priority := Some ''0'', kw_actions := Some ''drop''\<rparr>,
              no_args\<lparr>kw_table := Some PATCH_LV_TO_TUN, kw_dl_dst := Some ''00:00:00:00:00:00/01:00:00:00:00:00'',
                kw_actions := Some (''resubmit(,'' @ UCAST_TO_TUN @ '')'')\<rparr>,
              no_args\<lparr>kw_table := Some PATCH_LV_TO_TUN, kw_dl_dst := Some ''01:00:00:00:00:00/01:00:00:00:00:00'',
                kw_actions := Some (''resubmit(,'' @ FLOOD_TO_TUN @ '')'')\<rparr>] @
             map (\<lambda>table. no_args\<lparr>kw_table := Some table, kw_priority := Some ''0'', kw_actions := Some ''drop''\<rparr>) [''2'', ''3''] @
             [no_args\<lparr>kw_table := Some LEARN_FROM_TUN, kw_priority := Some ''1'',
                kw_actions := Some (''learn(table='' @ UCAST_TO_TUN @ '',priority=1,hard_timeout=300,NXM_OF_VLAN_TCI[0..11],'' @
                  ''NXM_OF_ETH_DST[]=NXM_OF_ETH_SRC[],load:0->NXM_OF_VLAN_TCI[],'' @
                  ''load:NXM_NX_TUN_ID[]->NXM_NX_TUN_ID[],output:NXM_OF_IN_PORT[]),output:'' @ show_int patch_int)\<rparr>,
              no_args\<lparr>kw_table := Some UCAST_TO_TUN, kw_priority := Some ''0'', kw_actions := Some (''resubmit(,'' @ FLOOD_TO_TUN @ '')'')\<rparr>,
              no_args\<lparr>kw_table := Some FLOOD_TO_TUN, kw_priority := Some ''0'', kw_actions := Some ''drop''\<rparr>])))))"

text \<open>The fields the constructor fills before it sets up the bridges.\<close>

definition blank_agent :: "string \<Rightarrow> string \<Rightarrow> ovs_agent" where
  "blank_agent integ_br tun_br =
     \<lparr>oa_int = new_bridge integ_br, oa_tun = new_bridge tun_br, oa_phys = [],
      oa_available = [MIN_VLAN_TAG..<MAX_VLAN_TAG], oa_map = [],
      oa_tun_ofports = [(''gre'', []), (''vxlan'', [])], oa_devices = 0\<rparr>"

record ovs_start =
  os_integ_br :: string
  os_tun_br :: string
  os_mappings :: "(string \<times> string) list"
  os_int_peer :: string
  os_tun_peer :: string
  os_exists :: "string \<Rightarrow> bool"
  os_ofport :: "string \<Rightarrow> string option"
  os_patch_tun :: int
  os_patch_int :: int

definition start_agent :: "ovs_start \<Rightarrow> ovs_conf \<Rightarrow> ovs_conf ovs_act" where
  "start_agent s c =
     thenA (setup_integration_br (os_int_peer s))
     (bindA (setup_physical_bridges (os_exists s) (os_ofport s) (os_mappings s)) (\<lambda>ofports.
      thenA (if oc_tunneling c then setup_tunnel_br (os_tun_br s) (os_int_peer s) (os_tun_peer s) (os_patch_tun s) (os_patch_int s)
             else returnA ())
        (returnA (c\<lparr>oc_int_ofports := map (\<lambda>(p, i, o2). (p, i)) ofports, oc_phys_ofports := map (\<lambda>(p, i, o2). (p, o2)) ofports\<rparr>))))"

definition new_agent :: "ovs_start \<Rightarrow> ovs_conf \<Rightarrow> (agent_exc + ovs_conf) \<times> ovs_agent" where
  "new_agent s c = start_agent s c (blank_agent (os_integ_br s) (os_tun_br s))"

definition new_loop :: "ovs_agent \<Rightarrow> ovs_loop" where
  "new_loop a = \<lparr>lo_agent = a, lo_sync = True, lo_ports = [], lo_ancillary = [], lo_tunnel_sync = True,
     lo_force = False, lo_completed = True, lo_iter = 0\<rparr>"

end
