(* ===== verification/OvsReach.thy ===== *)
theory OvsReach
  imports OvsProps OvsSetup
begin

text \<open>
  The states the Open vSwitch agent reaches from its start, by rounds of its main loop and messages between
  them, whatever raises on the way.
\<close>

section \<open>The start\<close>

definition same_tables :: "ovs_agent \<Rightarrow> ovs_agent \<Rightarrow> bool" where
  "same_tables a t \<longleftrightarrow> oa_available t = oa_available a \<and> oa_map t = oa_map a \<and> oa_tun_ofports t = oa_tun_ofports a"

definition phys_within :: "string set \<Rightarrow> ovs_agent \<Rightarrow> ovs_agent \<Rightarrow> bool" where
  "phys_within K a t \<longleftrightarrow> same_tables a t \<and> fst ` set (oa_phys t) \<subseteq> K"

lemma within_bridges [safe_intro]: "safe (phys_within K a) (on_int m)" "safe (phys_within K a) (on_tun m)"
  by (auto simp: safe_def on_int_def on_tun_def phys_within_def same_tables_def split: prod.splits)

lemma within_phys: "p \<in> K \<Longrightarrow> safe (phys_within K a) (on_phys p m)"
  by (auto simp: safe_def on_phys_def phys_within_def same_tables_def AList.dom_update split: prod.splits option.splits)

lemma within_new_bridge: "p \<in> K \<Longrightarrow> safe (phys_within K a) (modifyA (\<lambda>a. a\<lparr>oa_phys := AList.update p b (oa_phys a)\<rparr>))"
  by (auto simp: safe_def phys_within_def same_tables_def AList.dom_update)

lemma within_tunnel_bridge: "safe (phys_within K a) (modifyA (\<lambda>a. a\<lparr>oa_tun := b\<rparr>))"
  by (auto simp: safe_def phys_within_def same_tables_def)

lemma within_setup_bridge: "fst m \<in> K \<Longrightarrow> safe (phys_within K a) (setup_physical_bridge ex ofp m)"
proof -
  assume k: "fst m \<in> K"
  obtain p b where m: "m = (p, b)" by force
  with k have "p \<in> K" by simp
  then show ?thesis unfolding setup_physical_bridge_def Let_def m prod.case
    by (intro safe_intro within_phys within_new_bridge)
qed

lemma within_setup_bridges: "fst ` set ms \<subseteq> K \<Longrightarrow> safe (phys_within K a) (setup_physical_bridges ex ofp ms)"
proof (induction ms)
  case (Cons m ms)
  then show ?case unfolding setup_physical_bridges.simps by (intro safe_intro within_setup_bridge) simp_all
qed (simp add: safe_intro)

lemma setup_bridge_key: "setup_physical_bridge ex ofp m a = (Inr x, t) \<Longrightarrow> fst x = fst m"
  by (auto simp: setup_physical_bridge_def Let_def thenA_Inr split: prod.splits if_splits)

lemma setup_bridges_keys: "setup_physical_bridges ex ofp ms a = (Inr xs, t) \<Longrightarrow> map fst xs = map fst ms"
  by (induction ms arbitrary: a xs) (auto simp: bindA_Inr dest: setup_bridge_key)

lemma within_setup_tunnel: "safe (phys_within K a) (setup_tunnel_br br i p pt pi)"
  unfolding setup_tunnel_br_def by (intro safe_intro within_tunnel_bridge)

lemma new_agent_ok:
  assumes "new_agent st c0 = (Inr c, a)"
  shows "ovs_ok c a"
proof -
  let ?b = "blank_agent (os_integ_br st) (os_tun_br st)"
  let ?K = "fst ` set (os_mappings st)"
  have "safe (phys_within ?K ?b) (start_agent st c0)"
    unfolding start_agent_def setup_integration_br_def
    by (intro safe_intro within_setup_bridges within_setup_tunnel) simp_all
  moreover have "phys_within ?K ?b ?b" by (simp add: phys_within_def same_tables_def blank_agent_def)
  ultimately have a: "phys_within ?K ?b a" using assms safeD unfolding new_agent_def by metis
  from assms obtain xs t u where xs: "setup_physical_bridges (os_exists st) (os_ofport st) (os_mappings st) t = (Inr xs, u)"
    and c: "c = c0\<lparr>oc_int_ofports := map (\<lambda>(p, i, o2). (p, i)) xs, oc_phys_ofports := map (\<lambda>(p, i, o2). (p, o2)) xs\<rparr>"
    by (auto simp: new_agent_def start_agent_def thenA_Inr bindA_Inr)
  from arg_cong [OF setup_bridges_keys [OF xs], of set] have "fst ` set xs = ?K" by simp
  moreover have "fst ` set (oc_int_ofports c) = fst ` set xs" "fst ` set (oc_phys_ofports c) = fst ` set xs"
    by (force simp: c)+
  ultimately have "agent_wf c a"
    using a by (auto simp: agent_wf_def phys_within_def same_tables_def blank_agent_def TUNNEL_NETWORK_TYPES_def)
  moreover have "vlans_ok a" using a by (simp add: vlans_ok_def phys_within_def same_tables_def blank_agent_def)
  ultimately show ?thesis by (simp add: ovs_ok_def)
qed

section \<open>Steps\<close>

inductive ovs_step :: "ovs_conf \<Rightarrow> bool \<Rightarrow> bool \<Rightarrow> ovs_loop \<Rightarrow> ovs_loop \<Rightarrow> bool" for c mini anc where
  iteration: "ovs_step c mini anc s (rpc_iteration c mini anc w s)"
| port_updated: "ovs_step c mini anc s (snd (on_agent (agent_port_update c w p g) s))"
| network_deleted: "ovs_step c mini anc s (snd (on_agent (network_delete c n) s))"
| tunnel_updated: "ovs_step c mini anc s (snd (on_agent (tunnel_update c w ip i t) s))"
| fdb_added: "ovs_step c mini anc s (snd (on_agent (fdb_add c w es) s))"
| fdb_removed: "ovs_step c mini anc s (snd (on_agent (fdb_remove c es) s))"

inductive ovs_reach :: "ovs_conf \<Rightarrow> bool \<Rightarrow> bool \<Rightarrow> ovs_loop \<Rightarrow> bool" for c mini anc where
  start: "new_agent st c0 = (Inr c, a) \<Longrightarrow> ovs_reach c mini anc (new_loop a)"
| step: "ovs_reach c mini anc s \<Longrightarrow> ovs_step c mini anc s t \<Longrightarrow> ovs_reach c mini anc t"

text \<open>A predicate of the agent that every step of it keeps is kept by the round that makes the steps.\<close>

lemma safe_on_agent [safe_intro]: "safe P m \<Longrightarrow> safe (\<lambda>s. P (lo_agent s)) (on_agent m)"
  by (auto simp: safe_def on_agent_def split: prod.splits)

lemma safe_loop_var: "(\<And>s. lo_agent (f s) = lo_agent s) \<Longrightarrow> safe (\<lambda>s. P (lo_agent s)) (modifyA f)"
  by (rule safe_modify) simp

lemma safe_polling [safe_intro]: "safe (\<lambda>s. P (lo_agent s)) (is_polling_required mini w)"
  unfolding is_polling_required_def by (intro safe_intro safe_loop_var) simp

lemma safe_iteration:
  assumes "safe P (agent_tunnel_sync c w)" "\<And>ps. safe P (update_ports w ps)"
    and "\<And>info. safe P (process_network_ports c w info)" "\<And>info. safe P (process_ancillary_network_ports w info)"
  shows "P (lo_agent s) \<Longrightarrow> P (lo_agent (rpc_iteration c mini anc w s))"
proof -
  assume p: "P (lo_agent s)"
  have "safe (\<lambda>s. P (lo_agent s)) (loop_body c mini anc w)"
    unfolding loop_body_def poll_regular_def poll_ancillary_def
    by (intro safe_intro safe_loop_var assms) simp_all
  then have "safe (\<lambda>s. P (lo_agent s)) (catchA (loop_body c mini anc w) (\<lambda>e. modifyA (\<lambda>s. s\<lparr>lo_sync := True, lo_tunnel_sync := True\<rparr>)))"
    by (intro safe_catch safe_loop_var) simp_all
  with p show ?thesis unfolding rpc_iteration_def Let_def safe_def by simp
qed

lemma ovs_step_ok: "ovs_step c mini anc s t \<Longrightarrow> ovs_ok c (lo_agent s) \<Longrightarrow> ovs_ok c (lo_agent t)"
proof (induction rule: ovs_step.induct)
  case (iteration s w)
  from iteration show ?case by (rule safe_iteration [rotated 4]) (intro safe_intro ovs_ok_tunnels)+
next
  case (port_updated s w p g)
  then show ?case using safe_on_agent [OF ovs_ok_port_update] unfolding safe_def by blast
next
  case (network_deleted s n)
  then show ?case using safe_on_agent [OF ovs_ok_network_delete] unfolding safe_def by blast
next
  case (tunnel_updated s w ip i t)
  then show ?case using safe_on_agent [OF ovs_ok_tunnels(2)] unfolding safe_def by blast
next
  case (fdb_added s w es)
  then show ?case using safe_on_agent [OF ovs_ok_fdb_add] unfolding safe_def by blast
next
  case (fdb_removed s es)
  then show ?case using safe_on_agent [OF ovs_ok_fdb_remove] unfolding safe_def by blast
qed

lemma ovs_reach_ok: "ovs_reach c mini anc s \<Longrightarrow> ovs_ok c (lo_agent s)"
proof (induction rule: ovs_reach.induct)
  case (start st c0 a)
  then show ?case by (simp add: new_loop_def new_agent_ok)
next
  case (step s t)
  from ovs_step_ok [OF step.hyps(2) step.IH] show ?case .
qed

end
