(* ===== verification/OvsRounds.thy ===== *)
theory OvsRounds
  imports OvsReach
begin

text \<open>
  What rounds of the main loop do to the ports of a host: every port the agent could look up is bound, and
  a removal that the plugin did not hear of is never made up for.
\<close>

section \<open>A port that stays bound\<close>

text \<open>The device is bound to the network, which holds the VLAN.\<close>

definition bound_to :: "string \<Rightarrow> string \<Rightarrow> nat \<Rightarrow> ovs_agent \<Rightarrow> bool" where
  "bound_to d n v a \<longleftrightarrow> (\<exists>l. map_of (oa_map a) n = Some l \<and> lv_vlan l = v \<and> d \<in> fst ` set (lv_vifs l))"

lemma bound_same_map: "(\<And>a. oa_map (f a) = oa_map a) \<Longrightarrow> safe (bound_to d n v) (modifyA f)"
  by (rule safe_modify) (simp add: bound_to_def)

lemma bound_bridges [safe_intro]:
  "safe (bound_to d n v) (on_int m)" "safe (bound_to d n v) (on_tun m)" "safe (bound_to d n v) (on_phys p m)"
  by (auto simp: safe_def on_int_def on_tun_def on_phys_def bound_to_def split: prod.splits option.splits)

lemma bound_tun_ofports: "safe (bound_to d n v) (modifyA (\<lambda>a. set_tun_ofports t (f a) a))"
  by (rule bound_same_map) (simp add: set_tun_ofports_def)

lemma bound_setup_tunnel [safe_intro]: "safe (bound_to d n v) (setup_tunnel_port c ofp name ip t)"
  unfolding setup_tunnel_port_def Let_def
  by (intro safe_intro) (auto split: option.splits sum.splits intro!: safe_intro bound_tun_ofports)

lemma bound_cleanup [safe_intro]: "safe (bound_to d n v) (cleanup_tunnel_port ofport t)"
  unfolding cleanup_tunnel_port_def by (intro safe_intro) (auto intro!: safe_intro bound_tun_ofports)

lemma bound_tunnel_sync: "safe (bound_to d n v) (agent_tunnel_sync c w)"
proof -
  have "safe (bound_to d n v) (case x of (ip, tunnel_id) \<Rightarrow>
      if oc_local_ip c \<noteq> ip then thenA (setup_tunnel_port c (w_ofport w) (tunnel_name t (case tunnel_id of None \<Rightarrow> ip | Some i \<Rightarrow> i)) ip t) (returnA ())
      else returnA ())" for x :: "string \<times> string option" and t
    by (cases x) (auto intro!: safe_intro)
  then show ?thesis unfolding agent_tunnel_sync_def by (intro safe_intro)
qed

text \<open>Operations on another network.\<close>

lemma bound_other_map: "k \<noteq> n \<Longrightarrow> safe (bound_to d n v) (modifyA (\<lambda>a. a\<lparr>oa_available := f a, oa_map := AList.update k (g a) (oa_map a)\<rparr>))"
  by (rule safe_modify) (simp add: bound_to_def AList.update_conv')

lemma bound_provision: "k \<noteq> n \<Longrightarrow> safe (bound_to d n v) (provision_local_vlan c k ty phys seg)"
proof -
  assume k: "k \<noteq> n"
  have "safe (bound_to d n v) (case av of [] \<Rightarrow> returnA () | lvid # rest \<Rightarrow>
      thenA (modifyA (\<lambda>a. a\<lparr>oa_available := rest, oa_map := AList.update k \<lparr>lv_vlan = lvid, lv_type = ty, lv_physical = phys,
          lv_segmentation = seg, lv_vifs = [], lv_tun_ofports = []\<rparr> (oa_map a)\<rparr>))
        (if ty \<in> set TUNNEL_NETWORK_TYPES then if oc_tunneling c then provision_tunnel c lvid ty seg else returnA ()
         else bindA (getsA (known_physical phys)) (\<lambda>phys. case phys of None \<Rightarrow> returnA () | Some p \<Rightarrow>
           (if ty = ''flat'' then provision_physical c lvid p ''65535'' ''strip_vlan''
            else if ty = ''vlan'' then provision_physical c lvid p seg (''mod_vlan_vid:'' @ seg) else returnA ()))))" for av
    unfolding provision_tunnel_def provision_physical_def
    by (cases av) (simp_all only: list.case, intro safe_intro, intro safe_intro bound_other_map k)
  then show ?thesis unfolding provision_local_vlan_def by (intro safe_intro)
qed

lemma bound_reclaim: "k \<noteq> n \<Longrightarrow> safe (bound_to d n v) (reclaim_local_vlan c k)"
proof -
  assume "k \<noteq> n"
  then have del: "safe (bound_to d n v) (modifyA (\<lambda>a. a\<lparr>oa_map := AList.delete k (oa_map a)\<rparr>) :: unit ovs_act)"
    by (intro safe_modify) (simp add: bound_to_def delete_conv')
  then show ?thesis unfolding reclaim_local_vlan_def unprovision_physical_def
    by (intro safe_intro del) (rule bound_same_map, simp)
qed

lemma bound_bind_vif: "safe (bound_to d n v) (bind_vif c port k)"
proof (rule safeI)
  fix a r t assume b: "bound_to d n v a" and run: "bind_vif c port k a = (r, t)"
  show "bound_to d n v t"
  proof (cases "map_of (oa_map a) k")
    case None
    with run b show ?thesis by (simp add: bind_vif_unknown)
  next
    case (Some l)
    let ?t = "a\<lparr>oa_map := AList.update k (l\<lparr>lv_vifs := AList.update (vif_id port) port (lv_vifs l)\<rparr>) (oa_map a)\<rparr>"
    let ?m = "thenA (on_int (modifyA (set_db_attribute ''Port'' (vif_name port) ''tag'' (show_nat (lv_vlan l)))))
         (if vif_ofport port \<noteq> -1
          then on_int (delete_flows (no_args\<lparr>kw_in_port := Some (show_int (vif_ofport port))\<rparr>)) else returnA ())"
    have s: "safe (bound_to d n v) ?m" by (intro safe_intro)
    have "bound_to d n v ?t"
    proof (cases "k = n")
      case True
      with b Some show ?thesis by (auto simp: bound_to_def AList.update_conv' AList.dom_update)
    qed (use b in \<open>simp add: bound_to_def AList.update_conv'\<close>)
    moreover have "?m ?t = (r, t)" using run unfolding bind_vif_def by (simp add: item_def Some)
    ultimately show ?thesis by (rule safeD [OF s, rotated])
  qed
qed

lemma bound_port_bound [safe_intro]: "safe (bound_to d n v) (port_bound c port k ty phys seg)"
proof (rule safeI)
  fix a r t assume b: "bound_to d n v a" and run: "port_bound c port k ty phys seg a = (r, t)"
  show "bound_to d n v t"
  proof (cases "map_of (oa_map a) k")
    case None
    with b have "k \<noteq> n" by (auto simp: bound_to_def)
    then have "safe (bound_to d n v) (thenA (provision_local_vlan c k ty phys seg) (bind_vif c port k))"
      by (intro safe_intro bound_provision bound_bind_vif)
    with b run None show ?thesis by (auto simp: port_bound_alt dest: safeD)
  next
    case (Some l)
    with b run safeD [OF bound_bind_vif] show ?thesis by (auto simp: port_bound_alt)
  qed
qed

lemma bound_unbound: "k \<noteq> d \<Longrightarrow> safe (bound_to d n v) (port_unbound c k net)"
proof (rule safeI)
  fix a r t assume kd: "k \<noteq> d" and b: "bound_to d n v a" and run: "port_unbound c k net a = (r, t)"
  let ?net = "case net of None \<Rightarrow> get_net_uuid k a | Some n \<Rightarrow> Some n"
  show "bound_to d n v t"
  proof (cases "?net = None \<or> map_of (oa_map a) (the ?net) = None")
    case True
    with run b show ?thesis by (auto simp: port_unbound_def split: option.splits)
  next
    case False
    then obtain m l where m: "?net = Some m" "map_of (oa_map a) m = Some l" by auto
    let ?l = "l\<lparr>lv_vifs := AList.delete k (lv_vifs l)\<rparr>"
    let ?t = "a\<lparr>oa_map := AList.update m ?l (oa_map a)\<rparr>"
    have run': "(if lv_vifs ?l = [] then reclaim_local_vlan c m else returnA ()) ?t = (r, t)"
      using run by (simp add: port_unbound_def m Let_def)
    have bt: "bound_to d n v ?t" using b m(2) kd by (auto simp: bound_to_def AList.update_conv' AList.delete_eq)
    show ?thesis
    proof (cases "lv_vifs ?l = []")
      case True
      with bt have "m \<noteq> n" by (auto simp: bound_to_def AList.update_conv')
      with True run' bt safeD [OF bound_reclaim] show ?thesis by auto
    qed (use run' bt in simp)
  qed
qed

lemma bound_treat [safe_intro]: "safe (bound_to d n v) (treat_vif_port c vif k ty phys seg up)"
  unfolding treat_vif_port_def port_dead_def by (intro safe_intro)

lemma bound_added_device [safe_intro]: "safe (bound_to d n v) (treat_device_added c w e)"
  unfolding treat_device_added_def port_dead_def by (cases "w_details w e") (auto intro!: safe_intro)

lemma bound_added [safe_intro]: "safe (bound_to d n v) (treat_devices_added c w ds)"
  unfolding treat_devices_added_def by (intro safe_intro)

lemma bound_removed: "d \<notin> set ds \<Longrightarrow> safe (bound_to d n v) (treat_devices_removed c w ds)"
proof -
  have "safe (bound_to d n v) (treat_device_removed c w e)" if "e \<noteq> d" for e
    unfolding treat_device_removed_def using that by (cases "w_device_down w e") (auto intro!: safe_intro bound_unbound)
  then have "d \<notin> set ds \<Longrightarrow> safe (bound_to d n v) (anyA (treat_device_removed c w) ds)"
    by (intro safe_any) metis
  then show "d \<notin> set ds \<Longrightarrow> safe (bound_to d n v) (treat_devices_removed c w ds)"
    unfolding treat_devices_removed_def by (intro safe_then safe_basic) simp
qed

section \<open>Rounds without the device\<close>

text \<open>A round that sees neither the device as registered nor as present does not unbind it.\<close>

lemma port_changes_removed: "port_changes registered now = Some info \<Longrightarrow> d \<notin> set registered \<Longrightarrow> d \<notin> set (pi_removed info)"
  by (auto simp: port_changes_def split: if_splits)

lemma port_changes_current: "port_changes registered now = Some info \<Longrightarrow> pi_current info = now"
  by (auto simp: port_changes_def split: if_splits)

definition left_behind :: "string \<Rightarrow> string \<Rightarrow> nat \<Rightarrow> ovs_loop \<Rightarrow> bool" where
  "left_behind d n v s \<longleftrightarrow> bound_to d n v (lo_agent s) \<and> (lo_sync s \<or> d \<notin> set (lo_ports s))"

definition gone :: "string \<Rightarrow> string \<Rightarrow> nat \<Rightarrow> ovs_loop \<Rightarrow> bool" where
  "gone d n v s \<longleftrightarrow> bound_to d n v (lo_agent s) \<and> d \<notin> set (lo_ports s)"

lemma gone_on_agent: "safe (bound_to d n v) m \<Longrightarrow> safe (gone d n v) (on_agent m)"
  by (auto simp: safe_def on_agent_def gone_def split: prod.splits)

lemma gone_var: "(\<And>s. lo_agent (f s) = lo_agent s \<and> lo_ports (f s) = lo_ports s) \<Longrightarrow> safe (gone d n v) (modifyA f)"
  by (rule safe_modify) (simp add: gone_def)

lemma gone_poll:
  assumes "d \<notin> set (get_vif_port_set w)"
  shows "safe (gone d n v) (poll_regular c w)"
proof (rule safeI)
  fix s r t assume g: "gone d n v s" and run: "poll_regular c w s = (r, t)"
  let ?found = "port_changes (lo_ports s) (get_vif_port_set w)"
  show "gone d n v t"
  proof (cases ?found)
    case None
    with run g show ?thesis by (simp add: poll_regular_def update_ports_def on_agent_def Let_def)
  next
    case (Some info)
    let ?s = "s\<lparr>lo_agent := (lo_agent s)\<lparr>oa_devices := length (get_vif_port_set w)\<rparr>\<rparr>"
    let ?m = "bindA (on_agent (process_network_ports c w info)) (\<lambda>resync. modifyA (\<lambda>s. s\<lparr>lo_sync := resync, lo_ports := pi_current info\<rparr>))"
    have "d \<notin> set (pi_removed info)" using port_changes_removed [OF Some] g by (simp add: gone_def)
    then have "safe (bound_to d n v) (process_network_ports c w info)"
      unfolding process_network_ports_def by (intro safe_intro bound_removed)
    moreover have "d \<notin> set (pi_current info)" using assms port_changes_current [OF Some] by simp
    ultimately have m: "safe (gone d n v) ?m"
      by (intro safe_bind gone_on_agent safe_modify) (simp_all add: gone_def)
    have "gone d n v ?s" using g by (simp add: gone_def bound_to_def)
    moreover have "?m ?s = (r, t)" using run unfolding poll_regular_def
      by (simp add: update_ports_def on_agent_def Let_def Some)
    ultimately show ?thesis by (rule safeD [OF m, rotated])
  qed
qed

lemma gone_rest: "safe (gone d n v) (poll_ancillary anc w)" "safe (gone d n v) (is_polling_required mini w)"
proof -
  have "safe (bound_to d n v) (treat_ancillary_device_added w e)" for e
    unfolding treat_ancillary_device_added_def by (cases "w_details w e") (auto intro!: safe_intro)
  then have "safe (bound_to d n v) (process_ancillary_network_ports w info)" for info
    unfolding process_ancillary_network_ports_def treat_ancillary_device_removed_def by (intro safe_intro)
  then show "safe (gone d n v) (poll_ancillary anc w)" "safe (gone d n v) (is_polling_required mini w)"
    unfolding poll_ancillary_def is_polling_required_def by (intro safe_intro gone_on_agent gone_var; simp)+
qed

lemma left_behind_round:
  assumes "left_behind d n v s" "d \<notin> set (get_vif_port_set w)"
  shows "left_behind d n v (rpc_iteration c mini anc w s)"
proof -
  let ?first = "\<lambda>s. if lo_sync s then s\<lparr>lo_ports := [], lo_ancillary := [], lo_sync := False, lo_force := True\<rparr> else s"
  let ?rest = "thenA (bindA (getsA lo_tunnel_sync) (\<lambda>ts.
         if oc_tunneling c \<and> ts then bindA (on_agent (agent_tunnel_sync c w)) (\<lambda>b. modifyA (\<lambda>s. s\<lparr>lo_tunnel_sync := b\<rparr>)) else returnA ()))
     (bindA (is_polling_required mini w) (\<lambda>required.
       if required
       then thenA (poll_regular c w) (thenA (poll_ancillary anc w) (modifyA (\<lambda>s. s\<lparr>lo_completed := True\<rparr>)))
       else returnA ()))"
  let ?handler = "\<lambda>e::agent_exc. modifyA (\<lambda>s. s\<lparr>lo_sync := True, lo_tunnel_sync := True\<rparr>)"
  have "gone d n v (?first s)" using assms(1) by (auto simp: left_behind_def gone_def)
  moreover have rest: "safe (gone d n v) ?rest"
    using gone_poll [OF assms(2)] by (intro safe_intro gone_on_agent gone_var bound_tunnel_sync gone_rest) simp_all
  have "safe (gone d n v) (catchA ?rest ?handler)" by (intro safe_catch rest gone_var) simp
  ultimately have "gone d n v (snd (catchA ?rest ?handler (?first s)))" unfolding safe_def by blast
  moreover have "catchA (loop_body c mini anc w) ?handler s = catchA ?rest ?handler (?first s)"
    by (simp add: loop_body_def catchA_def)
  ultimately show ?thesis by (simp add: rpc_iteration_def Let_def left_behind_def gone_def)
qed

section \<open>The round in which a removal fails\<close>

lemma any_removed_True:
  "anyA (treat_device_removed c w) ds a = (Inr b, t) \<Longrightarrow> d \<in> set ds \<Longrightarrow> w_device_down w d = Inl e \<Longrightarrow> b"
proof (induction ds arbitrary: a b)
  case (Cons x ds)
  then show ?case by (auto simp: bindA_Inr treat_device_removed_def)
qed simp

lemma bound_failed_removal:
  assumes "w_device_down w d = Inl e"
  shows "safe (bound_to d n v) (treat_devices_removed c w ds)"
proof -
  have "safe (bound_to d n v) (treat_device_removed c w x)" for x
  proof (cases "x = d")
    case True
    then show ?thesis using assms by (simp add: treat_device_removed_def safe_basic)
  next
    case False
    then show ?thesis unfolding treat_device_removed_def
      by (cases "w_device_down w x") (auto intro!: safe_intro bound_unbound)
  qed
  then show ?thesis unfolding treat_devices_removed_def by (intro safe_then safe_basic safe_any)
qed

lemma failed_removal_syncs:
  assumes d: "d \<in> set (lo_ports s)" "d \<notin> set (get_vif_port_set w)" and f: "w_device_down w d = Inl e"
    and run: "poll_regular c w s = (Inr x, t)"
  shows "lo_sync t"
proof -
  from d have "\<exists>info. port_changes (lo_ports s) (get_vif_port_set w) = Some info" by (auto simp: port_changes_def)
  then obtain info where info: "port_changes (lo_ports s) (get_vif_port_set w) = Some info" ..
  then have "d \<in> set (pi_removed info)" using d by (auto simp: port_changes_def split: if_splits)
  with run show ?thesis
    by (auto simp: poll_regular_def bindA_Inr thenA_Inr update_ports_def on_agent_def Let_def info process_network_ports_def
        treat_devices_removed_def split: prod.splits dest!: any_removed_True [OF _ _ f])
qed

lemma sync_ancillary: "safe lo_sync (poll_ancillary anc w)"
proof -
  have "safe lo_sync (on_agent m)" for m :: "'a ovs_act"
    by (auto simp: safe_def on_agent_def split: prod.splits)
  then show ?thesis unfolding poll_ancillary_def by (intro safe_intro safe_modify) simp_all
qed

lemma failed_removal_round:
  assumes b: "bound_to d n v (lo_agent s)" and d: "d \<notin> set (get_vif_port_set w)" and f: "w_device_down w d = Inl e"
  shows "left_behind d n v (rpc_iteration c False anc w s)"
proof (cases "lo_sync s \<or> d \<notin> set (lo_ports s)")
  case True
  with b d left_behind_round show ?thesis by (simp add: left_behind_def)
next
  case False
  let ?handler = "\<lambda>e::agent_exc. modifyA (\<lambda>s. s\<lparr>lo_sync := True, lo_tunnel_sync := True\<rparr>)"
  have sync: "lo_sync t" if "loop_body c False anc w s = (Inr x, t)" for x t
  proof -
    from that False obtain y s1 s2 s3 where t1: "bindA (getsA lo_tunnel_sync) (\<lambda>ts.
         if oc_tunneling c \<and> ts then bindA (on_agent (agent_tunnel_sync c w)) (\<lambda>b. modifyA (\<lambda>s. s\<lparr>lo_tunnel_sync := b\<rparr>)) else returnA ()) s = (Inr y, s1)"
      and s2: "poll_regular c w s1 = (Inr (), s2)" and s3: "poll_ancillary anc w s2 = (Inr (), s3)" and t: "lo_sync t = lo_sync s3"
      by (auto simp: loop_body_def is_polling_required_def thenA_Inr bindA_Inr)
    from t1 have "lo_ports s1 = lo_ports s"
      by (auto simp: bindA_Inr on_agent_def split: if_splits prod.splits)
    with False failed_removal_syncs [OF _ d f s2] have "lo_sync s2" by simp
    with sync_ancillary s3 t show ?thesis by (auto dest: safeD)
  qed
  obtain r t where body: "loop_body c False anc w s = (r, t)" by force
  have "lo_sync (snd (catchA (loop_body c False anc w) ?handler s))"
    using sync body by (cases r) (auto simp: catchA_def)
  then have "lo_sync (rpc_iteration c False anc w s)" by (simp add: rpc_iteration_def Let_def)
  moreover have "safe (bound_to d n v) (treat_ancillary_device_added w x)" for x
    unfolding treat_ancillary_device_added_def by (cases "w_details w x") (auto intro!: safe_intro)
  then have anc: "safe (bound_to d n v) (process_ancillary_network_ports w info)" for info
    unfolding process_ancillary_network_ports_def treat_ancillary_device_removed_def by (intro safe_intro)
  have upd: "safe (bound_to d n v) (update_ports w ps)" for ps
    unfolding update_ports_def Let_def by (intro safe_intro bound_same_map) simp
  have proc: "safe (bound_to d n v) (process_network_ports c w info)" for info
    unfolding process_network_ports_def using bound_failed_removal [OF f] by (intro safe_intro)
  from safe_iteration [OF bound_tunnel_sync upd proc anc b] have "bound_to d n v (lo_agent (rpc_iteration c False anc w s))" .
  ultimately show ?thesis by (simp add: left_behind_def)
qed

section \<open>The properties\<close>

text \<open>
  C38: in every state the agent reaches, whatever the plugin, the switch or the security group agent
  raised, each of the local VLANs 1 to 4093 is either available or held by exactly one network, and a
  network that holds one has a port.
\<close>

theorem local_vlans_exact:
  assumes "ovs_reach c mini anc s"
  shows "mset (oa_available (lo_agent s) @ map (\<lambda>(n, l). lv_vlan l) (oa_map (lo_agent s))) = mset [MIN_VLAN_TAG..<MAX_VLAN_TAG] \<and>
    distinct (map fst (oa_map (lo_agent s))) \<and> (\<forall>(n, l) \<in> set (oa_map (lo_agent s)). lv_vifs l \<noteq> [])"
proof -
  have ok: "vlans_ok (lo_agent s)" using ovs_reach_ok [OF assms] by (simp add: ovs_ok_def)
  let ?xs = "oa_available (lo_agent s) @ map (\<lambda>(n, l). lv_vlan l) (oa_map (lo_agent s))"
  from ok have "distinct ?xs" "set ?xs = set [MIN_VLAN_TAG..<MAX_VLAN_TAG]" by (simp_all add: vlans_ok_def)
  then have "mset ?xs = mset [MIN_VLAN_TAG..<MAX_VLAN_TAG]"
    using set_eq_iff_mset_eq_distinct [of ?xs "[MIN_VLAN_TAG..<MAX_VLAN_TAG]"] by simp
  with ok show ?thesis unfolding vlans_ok_def by blast
qed

text \<open>
  C39: when the devices that were added needed no new synchronisation, the agent had the details of every
  one of them, and each that is present and administratively up is bound to its network, which holds a
  local VLAN.
\<close>

theorem devices_bound:
  assumes "ovs_reach c mini anc s" "treat_devices_added c w ds (lo_agent s) = (Inr False, t)" "d \<in> set ds"
  shows "\<exists>details. w_details w d = Inr details \<and>
    (\<forall>p vif. dd_port details = Some p \<and> w_port_by_id w (dd_device details) = Some vif \<and> dp_admin_state_up p \<longrightarrow>
       (\<exists>l. map_of (oa_map t) (dp_network p) = Some l \<and> vif_id vif \<in> fst ` set (lv_vifs l)))"
proof -
  have "\<exists>details. w_details w d = Inr details \<and>
    (\<forall>p vif. dd_port details = Some p \<and> w_port_by_id w (dd_device details) = Some vif \<and> dp_admin_state_up p \<longrightarrow>
       (\<exists>l. map_of (oa_map t) (dp_network p) = Some l \<and> vif_id vif \<in> fst ` set (lv_vifs l)))"
    if "ovs_ok c a" "anyA (treat_device_added c w) ds a = (Inr False, t)" "d \<in> set ds" for a
    using that
  proof (induction ds arbitrary: a)
    case (Cons x ds)
    from Cons.prems(2) obtain u where u: "treat_device_added c w x a = (Inr False, u)"
      and rest: "anyA (treat_device_added c w) ds u = (Inr False, t)" by (auto simp: bindA_Inr)
    have "safe (ovs_ok c) (treat_device_added c w x)"
      unfolding treat_device_added_def port_dead_def by (cases "w_details w x") (auto intro!: safe_intro)
    with u Cons.prems(1) have ok: "ovs_ok c u" by (rule safeD [rotated])
    show ?case
    proof (cases "d = x")
      case False
      with Cons.IH [OF ok rest] Cons.prems(3) show ?thesis by simp
    next
      case True
      from u obtain details where det: "w_details w x = Inr details"
        by (cases "w_details w x") (auto simp: treat_device_added_def)
      have "\<exists>l. map_of (oa_map t) (dp_network p) = Some l \<and> vif_id vif \<in> fst ` set (lv_vifs l)"
        if p: "dd_port details = Some p" "w_port_by_id w (dd_device details) = Some vif" "dp_admin_state_up p" for p vif
      proof -
        from u p det obtain u1 where "port_bound c vif (dp_network p) (dp_type p) (dp_physical p) (dp_segmentation p) a = (Inr (), u1)"
          "u = u1" by (auto simp: treat_device_added_def treat_vif_port_def thenA_Inr)
        with port_bound_effect [OF Cons.prems(1), of "dp_network p" vif "dp_type p" "dp_physical p" "dp_segmentation p"]
        have "\<exists>l. map_of (oa_map u) (dp_network p) = Some l \<and> vif_id vif \<in> fst ` set (lv_vifs l)" by (auto split: if_splits)
        then obtain v where "bound_to (vif_id vif) (dp_network p) v u" unfolding bound_to_def by blast
        from safeD [OF safe_any [OF bound_added_device] rest this] show ?thesis by (auto simp: bound_to_def)
      qed
      with det True show ?thesis by blast
    qed
  qed simp
  moreover have "anyA (treat_device_added c w) ds (lo_agent s) = (Inr False, t)"
    using assms(2) by (auto simp: treat_devices_added_def thenA_Inr)
  ultimately show ?thesis using ovs_reach_ok [OF assms(1)] assms(3) by blast
qed

text \<open>
  C40: a device that disappears while the call that reports it fails stays bound to its network for good,
  and its network keeps the local VLAN, whatever happens in the later rounds: the new synchronisation
  forgets the registered devices, so the device is never found to be removed again.
\<close>

theorem lost_removal:
  assumes "bound_to d n v (lo_agent s)" "d \<notin> set (get_vif_port_set w)" "w_device_down w d = Inl e"
    and "\<forall>u \<in> set ws. d \<notin> set (get_vif_port_set u)"
  shows "bound_to d n v (lo_agent (fold (rpc_iteration c False anc) ws (rpc_iteration c False anc w s)))"
proof -
  have "left_behind d n v (fold (rpc_iteration c False anc) ws s')" if "left_behind d n v s'" "\<forall>u \<in> set ws. d \<notin> set (get_vif_port_set u)" for s'
    using that by (induction ws arbitrary: s') (simp_all add: left_behind_round)
  with failed_removal_round [OF assms(1-3)] assms(4) show ?thesis by (simp add: left_behind_def)
qed

section \<open>An example\<close>

text \<open>A host without tunnels and physical networks, and a round in which one device of a network appears.\<close>

definition demo_start :: ovs_start where
  "demo_start = \<lparr>os_integ_br = ''br-int'', os_tun_br = ''br-tun'', os_mappings = [], os_int_peer = ''patch-tun'',
     os_tun_peer = ''patch-int'', os_exists = (\<lambda>_. True), os_ofport = (\<lambda>_. None), os_patch_tun = 1, os_patch_int = 1\<rparr>"

definition demo_ovs_conf :: ovs_conf where
  "demo_ovs_conf = \<lparr>oc_tunneling = False, oc_tunnel_types = [], oc_local_ip = [], oc_l2_pop = False, oc_udp_port = 4789,
     oc_int_ofports = [], oc_phys_ofports = []\<rparr>"

definition demo_vif :: vif_port where
  "demo_vif = \<lparr>vif_id = ''d1'', vif_name = ''tapd1'', vif_ofport = 3\<rparr>"

definition demo_device :: device_details where
  "demo_device = \<lparr>dd_device = ''d1'', dd_port = Some \<lparr>dp_port = ''d1'', dp_network = ''net1'', dp_type = ''local'', dp_physical = None,
     dp_segmentation = ''None'', dp_admin_state_up = True\<rparr>\<rparr>"

definition demo_world :: world where
  "demo_world = \<lparr>w_port_names = [''tapd1''], w_interfaces = Some [(''tapd1'', [(''iface-id'', ''d1''), (''attached-mac'', ''m'')])],
     w_xapi = (\<lambda>x. x), w_ancillary = [], w_port_by_id = (\<lambda>i. if i = ''d1'' then Some demo_vif else None), w_ofport = (\<lambda>_. None),
     w_details = (\<lambda>_. Inr demo_device), w_device_up = (\<lambda>_. Inr ()), w_device_down = (\<lambda>_. Inr ()),
     w_prepare_filter = (\<lambda>_. Inr ()), w_remove_filter = (\<lambda>_. Inr ()), w_refresh_firewall = Inr (), w_tunnels = (\<lambda>_. Inr []),
     w_updates = True\<rparr>"

text \<open>The device is gone, and the plugin cannot be reached.\<close>

definition demo_outage :: world where
  "demo_outage = demo_world\<lparr>w_port_names := [], w_interfaces := Some [], w_device_down := (\<lambda>_. Inl RpcTimeout)\<rparr>"

definition demo_agent :: ovs_agent where
  "demo_agent = snd (new_agent demo_start demo_ovs_conf)"

lemma demo_started_as: "\<exists>b. new_agent demo_start demo_ovs_conf = (Inr demo_ovs_conf, (blank_agent ''br-int'' ''br-tun'')\<lparr>oa_int := b\<rparr>)"
proof -
  let ?a = "blank_agent ''br-int'' ''br-tun''"
  have c: "demo_ovs_conf\<lparr>oc_int_ofports := [], oc_phys_ofports := []\<rparr> = demo_ovs_conf" by (simp add: demo_ovs_conf_def)
  have off: "oc_tunneling demo_ovs_conf = False" by (simp add: demo_ovs_conf_def)
  have s: "start_agent demo_start demo_ovs_conf = thenA (setup_integration_br ''patch-tun'') (returnA demo_ovs_conf)"
    by (simp add: start_agent_def demo_start_def off c) (simp add: returnA_def)
  let ?k = "no_args\<lparr>kw_priority := Some ''1'', kw_actions := Some ''normal''\<rparr>"
  obtain b where "add_flow ?k (remove_all_flows (delete_port_cmd ''patch-tun'' (oa_int ?a))) = (Inr (), b)"
    using add_flow_ok [of ?k] by auto
  then have "setup_integration_br ''patch-tun'' ?a = (Inr (), ?a\<lparr>oa_int := b\<rparr>)"
    by (simp add: setup_integration_br_def on_int_def thenA_def bindA_def)
  then have "new_agent demo_start demo_ovs_conf = (Inr demo_ovs_conf, ?a\<lparr>oa_int := b\<rparr>)"
    by (simp add: new_agent_def s demo_start_def [THEN arg_cong, of os_integ_br] demo_start_def [THEN arg_cong, of os_tun_br])
  then show ?thesis by blast
qed

lemma demo_started: "new_agent demo_start demo_ovs_conf = (Inr demo_ovs_conf, demo_agent)"
  using demo_started_as by (auto simp: demo_agent_def)

lemma demo_agent_tables: "oa_map demo_agent = []" "oa_available demo_agent = [MIN_VLAN_TAG..<MAX_VLAN_TAG]"
  using demo_started_as by (auto simp: demo_agent_def blank_agent_def)

definition demo_loop :: ovs_loop where
  "demo_loop = rpc_iteration demo_ovs_conf False False demo_world (new_loop demo_agent)"

lemma demo_loop_reached: "ovs_reach demo_ovs_conf False False demo_loop"
  unfolding demo_loop_def by (rule ovs_reach.step [OF ovs_reach.start [OF demo_started] ovs_step.iteration])

theorem local_vlans_exact_witness:
  "mset (oa_available (lo_agent demo_loop) @ map (\<lambda>(n, l). lv_vlan l) (oa_map (lo_agent demo_loop))) = mset [MIN_VLAN_TAG..<MAX_VLAN_TAG]"
  by (rule conjunct1 [OF local_vlans_exact [OF demo_loop_reached]])

lemma demo_treated: "\<exists>t. treat_devices_added demo_ovs_conf demo_world [''d1''] demo_agent = (Inr False, t)"
proof -
  have "ovs_ok demo_ovs_conf demo_agent" by (rule new_agent_ok [OF demo_started])
  moreover have "oa_available demo_agent \<noteq> []" by (simp add: demo_agent_tables MIN_VLAN_TAG_def MAX_VLAN_TAG_def)
  ultimately obtain t where "port_bound demo_ovs_conf demo_vif ''net1'' ''local'' None ''None'' demo_agent = (Inr (), t)"
    using port_bound_effect [of demo_ovs_conf demo_agent "''net1''" demo_vif "''local''" None "''None''"] by auto
  then have "treat_devices_added demo_ovs_conf demo_world [''d1''] demo_agent = (Inr False, t)"
    by (simp add: treat_devices_added_def treat_device_added_def treat_vif_port_def demo_world_def demo_device_def
        bindA_def thenA_def returnA_def)
  then show ?thesis by blast
qed

theorem devices_bound_witness:
  "\<exists>t l. treat_devices_added demo_ovs_conf demo_world [''d1''] demo_agent = (Inr False, t) \<and>
     map_of (oa_map t) ''net1'' = Some l \<and> ''d1'' \<in> fst ` set (lv_vifs l)"
proof -
  obtain t where t: "treat_devices_added demo_ovs_conf demo_world [''d1''] demo_agent = (Inr False, t)"
    using demo_treated by blast
  have start: "ovs_reach demo_ovs_conf False False (new_loop demo_agent)" by (rule ovs_reach.start [OF demo_started])
  have "treat_devices_added demo_ovs_conf demo_world [''d1''] (lo_agent (new_loop demo_agent)) = (Inr False, t)"
    by (simp add: new_loop_def t)
  from devices_bound [OF start this, of "''d1''"] obtain details where d: "w_details demo_world ''d1'' = Inr details"
    "\<forall>p vif. dd_port details = Some p \<and> w_port_by_id demo_world (dd_device details) = Some vif \<and> dp_admin_state_up p \<longrightarrow>
       (\<exists>l. map_of (oa_map t) (dp_network p) = Some l \<and> vif_id vif \<in> fst ` set (lv_vifs l))" by auto
  from d(1) have "details = demo_device" by (simp add: demo_world_def)
  with d(2) [rule_format, of _ demo_vif] have "\<exists>l. map_of (oa_map t) ''net1'' = Some l \<and> vif_id demo_vif \<in> fst ` set (lv_vifs l)"
    by (simp add: demo_world_def demo_device_def)
  then have "\<exists>l. map_of (oa_map t) ''net1'' = Some l \<and> ''d1'' \<in> fst ` set (lv_vifs l)" by (simp add: demo_vif_def)
  with t show ?thesis by blast
qed

text \<open>The device is bound, disappears during an outage of the plugin, and is still bound three rounds later.\<close>

theorem lost_removal_witness:
  "\<exists>a v. bound_to ''d1'' ''net1'' v a \<and>
     bound_to ''d1'' ''net1'' v (lo_agent (fold (rpc_iteration demo_ovs_conf False False)
       (replicate 3 (demo_outage\<lparr>w_device_down := (\<lambda>_. Inr ())\<rparr>)) (rpc_iteration demo_ovs_conf False False demo_outage ((new_loop a)\<lparr>lo_sync := False, lo_ports := [''d1'']\<rparr>))))"
proof -
  obtain t where t: "treat_devices_added demo_ovs_conf demo_world [''d1''] demo_agent = (Inr False, t)"
    using demo_treated by blast
  have none: "get_vif_port_set demo_outage = []" "get_vif_port_set (demo_outage\<lparr>w_device_down := (\<lambda>_. Inr ())\<rparr>) = []"
    by (simp_all add: get_vif_port_set_def demo_outage_def)
  let ?l = "\<lparr>lv_vlan = 1, lv_type = ''local'', lv_physical = None, lv_segmentation = ''None'', lv_vifs = [(''d1'', demo_vif)], lv_tun_ofports = []\<rparr>"
  let ?a = "demo_agent\<lparr>oa_map := [(''net1'', ?l)]\<rparr>"
  have b: "bound_to ''d1'' ''net1'' 1 ?a" by (simp add: bound_to_def)
  then have "bound_to ''d1'' ''net1'' 1 (lo_agent ((new_loop ?a)\<lparr>lo_sync := False, lo_ports := [''d1'']\<rparr>))" by (simp add: new_loop_def)
  from lost_removal [OF this, of demo_outage RpcTimeout "replicate 3 (demo_outage\<lparr>w_device_down := (\<lambda>_. Inr ())\<rparr>)"] none b
  show ?thesis by (intro exI [of _ ?a] exI [of _ 1]) (simp add: demo_outage_def)
qed

end
