(* ===== verification/Spec2Isabelle.thy ===== *)
theory Spec2Isabelle
  imports SubnetProps Ml2Props PluginDbProps QuotaProps ApiProps ApiBulk FirewallRules SecurityProps L3Props OvsRounds
begin

text \<open>
  A verification development for Neutron, the networking service of this repository (\<open>src/neutron\<close>).

  \<^bold>\<open>The program.\<close>  The API layer (\<open>api/v2\<close>) decodes a request, checks and converts its attributes, checks
  quotas, and calls the plugin.  The core plugin (\<open>db/db_base_plugin_v2.py\<close>) keeps networks, subnets, ports and
  the IP addresses of subnets in a database.  The ML2 plugin (\<open>plugins/ml2\<close>) assigns each network a segment (a
  VLAN, a GRE or VXLAN tunnel id, a flat or a local network) through type drivers, and notifies mechanism drivers,
  one of which binds each port.  The older Open vSwitch, Linux bridge and Hyper-V plugins keep their own allocation
  tables.  The mixins of \<open>db\<close> add routers, floating IPs and security groups to a plugin; on the hosts, the
  firewall driver turns security group rules into rules of iptables, and the Open vSwitch agent connects the ports
  of virtual machines to their networks.

  \<^bold>\<open>Conventions.\<close>  Prelude: code that reads and writes the database and may raise is a function
  from the state to a raised exception (\<open>Inl\<close>) or a result with the new state (\<open>Inr\<close>), because the transaction is
  rolled back when an exception leaves it; where the code goes on after an exception (mechanism drivers, emulated
  bulk creation, tunnel endpoints) the state is returned in both cases.  NeutronExc: the exceptions of
  \<open>common/exceptions.py\<close>, their base classes and the status of the response.  Netaddr: the netaddr package is a
  record of functions, an argument of every definition that uses it; theorems that depend on it assume
  \<open>netaddr_ok\<close> (an address that is printed is read back, the mask test selects the addresses of the network) and,
  where stated, \<open>net_wide\<close>.  PyVal, PyText: Python values and texts.

  \<^bold>\<open>Core plugin.\<close>  Models: the tables of \<open>db/models_v2.py\<close> as lists of rows, tenant scoping (\<open>_model_query\<close>).
  Ipam: \<open>_generate_ip\<close>, \<open>_allocate_specific_ip\<close>, \<open>_recycle_ip\<close>, \<open>_test_fixed_ips_for_port\<close>, \<open>_allocate_fixed_ips\<close>,
  \<open>_update_ips_for_port\<close> and their helpers.  CorePlugin: networks, ports, MAC addresses.  SubnetOps: validation of
  CIDRs, pools, gateways and routes, \<open>create_subnet\<close>, \<open>update_subnet\<close>, \<open>delete_subnet\<close>, \<open>delete_network\<close>.
  CoreReach has the step relation of the plugin: \<open>db_reach\<close> are the databases that any requests reach from the
  empty one.  CoreLinks proves what holds of all of them: no text is allocated twice in a subnet, and allocations
  belong to existing subnets and ports.  The program compares addresses as texts and accepts every text that netaddr
  parses, so more holds only when the requests write addresses in the canonical way, which the program does not
  check: \<open>canonical_reach\<close> are the databases reached by such requests (\<open>canonical_request\<close>).  IpamInv, CoreInv,
  SubnetInv, PoolValid, CreateSubnet and CoreReach prove the invariant of those: the available ranges of a subnet
  hold exactly the addresses of its pools that are not allocated, and no address is allocated twice.  CoreProps and
  SubnetProps state the properties C1 to C12, each with the condition it needs; lemma \<open>alias_text_allocated_twice\<close>
  shows what happens without it.  CoreDemo holds a run of the program they are instantiated with.  Allocator is the interface of an allocator and of a store (two locales);
  IpamAlloc interprets them on address generation and recycling.

  \<^bold>\<open>ML2.\<close>  SegTable: tables with one row per VLAN or tunnel id, their reservation, release and synchronisation
  with the configured ranges, abstracted to the sets of used and free identifiers.  TypeDrivers: the type drivers
  and the type manager (\<open>plugins/ml2/drivers\<close>, \<open>managers.py\<close>) and the parsing of ranges.  MechManager: notification
  of mechanism drivers, port binding, provider segments.  TypeDriverProps interprets the store locale on VLANs and,
  with Ml2Props, holds C13 to C19.  PluginDb and PluginDbProps: the tables of the other plugins, C20 to C22.

  \<^bold>\<open>API.\<close>  Quota and QuotaProps: \<open>quota.py\<close>, \<open>db/quota_db.py\<close> and the check of a create request, C23 and C24.
  Attributes: the validators and converters of \<open>api/v2/attributes.py\<close>.  ApiBody: the attribute tables and
  \<open>prepare_request_body\<close> of \<open>api/v2/base.py\<close>; ApiProps: C25, C26.  ApiBulk: the locale of undoable operations,
  interpreted on the networks of the core plugin, and C27.

  \<^bold>\<open>Routers and floating IPs.\<close>  L3: \<open>db/l3_db.py\<close> over the core plugin, routers with their gateways and
  interfaces, and the external networks of \<open>db/external_net_db.py\<close>.  FloatingIp: the association of floating IPs
  with ports.  The foreign keys from a floating IP to its router, its own port and
  the port it is associated with are enforced, so an operation of the core plugin that would break one raises.
  L3Props: every operation keeps these references and the uniqueness of associations, whatever else changes the core
  plugin's database in between, C37, with a run that creates a router and a floating IP.

  \<^bold>\<open>Security groups.\<close>  SecurityGroups: \<open>db/securitygroups_db.py\<close>, groups, rules, bindings of ports, default
  groups, validation of rules.  SecurityProps: the references stay intact (C35); what an accepted bulk creation of
  rules has checked and stored (C36).

  \<^bold>\<open>Packet filters of the hosts.\<close>  Iptables: the tables of \<open>agent/linux/iptables_manager.py\<close> and their merging
  (\<open>_modify_rules\<close>) into the lines \<open>iptables-save\<close> printed, which are an argument; the lines for \<open>iptables-restore\<close>
  are a result.  IptablesProps: C28 to C31, a line is lost only for the reasons C28 lists and never doubled,
  other tables are left alone, and what a removal leaves behind.  Firewall: \<open>agent/linux/iptables_firewall.py\<close>.  FirewallInv describes the tables as a base
  with a layer of the ports' chains on top; FirewallProps: the tables kept up to date step by step are those built
  from scratch (C32); FirewallRules: the exact rules of the chains of the ports in every
  reachable state of the driver (C33), and the place of the accepting rule (C34).

  \<^bold>\<open>Open vSwitch agent.\<close>  Effects: code whose effects stay when it raises; \<open>safe\<close> are the predicates that hold after
  every outcome.  OvsLib: flow expressions and commands of \<open>agent/linux/ovs_lib.py\<close>, recorded per bridge.  OvsAgent,
  OvsLoop, OvsSetup: \<open>plugins/openvswitch/agent/ovs_neutron_agent.py\<close>, local VLANs and tunnel ports, devices,
  messages and rounds of \<open>rpc_loop\<close>, and the start; the record \<open>world\<close> holds what the plugin, the switch and the
  security group agent answer or raise.  OvsProps: the effect of binding, unbinding and reclaiming; OvsReach: the
  states reached by rounds and messages; OvsRounds: the local VLANs are never lost or shared (C38), treated devices
  are bound (C39), a removal whose report fails is never made up for (C40).

  \<^bold>\<open>Bounds.\<close>  No definition runs on fuel.  The retries of the program are kept as they are: MAC addresses are tried
  \<open>mac_generation_retries\<close> times with the random bytes as an argument, tunnel endpoints \<open>max_retries\<close> times with the
  rows of concurrent transactions as an argument.  Integers are unbounded, as in Python.

  Identifiers from \<open>uuidutils\<close> are a sequence, an argument of the operations.  Sets whose order of iteration
  Python leaves open are lists in the order of insertion.

  \<^bold>\<open>Not modelled.\<close>  The other agents (they act on the host through commands), RPC and notifications, the
  schedulers and the tables of agents, the small extensions of the database plugin (extra routes, address pairs,
  port security, DHCP options, port bindings), WSGI and serialization, pagination and sorting, the policy engine,
  migrations, the vendored \<open>openstack/common\<close>, the load balancer, VPN, firewall and metering services, and the
  vendor plugins, which talk to external controllers.  Messages of exceptions are kept as untranslated templates
  at most.
\<close>

end
